(* ===== verification/Prelude.thy ===== *)
theory Prelude
  imports Main "HOL-Library.Word"
begin

text \<open>
  Shared vocabulary of the development: the faults C leaves undefined, results that may be
  such a fault, the status codes of \<^verbatim>\<open>iw_common.h\<close>, the character classes, decimal
  printing and reading of the C library in the "C" locale, and the lemmas on them.

  A C string is a list of characters without the terminator: the end of the list stands for
  the NUL byte. A pointer that may be NULL is an \<open>option\<close>.
\<close>

named_theorems iw_simps \<open>unfolding rules of the small helper definitions\<close>
named_theorems lwm_simps \<open>facts about light weight message objects\<close>
named_theorems cm_simps \<open>facts about collaboration messages on the wire\<close>
named_theorems ms_simps \<open>facts about micro services and their tasks\<close>

type_synonym byte = "8 word"
type_synonym cstring = string
type_synonym cstring_ptr = "string option"

section \<open>Faults and results\<close>

text \<open>What C leaves undefined is a value of its own; so is running out of the fuel of a model.\<close>

datatype fault = Null_deref | Out_of_bounds | Uninitialised | Div_by_zero | Overflow | Out_of_fuel

type_synonym 'a res = "fault + 'a"

definition rbind :: "'e + 'a \<Rightarrow> ('a \<Rightarrow> 'e + 'b) \<Rightarrow> 'e + 'b" where
  "rbind m f = (case m of Inl e \<Rightarrow> Inl e | Inr a \<Rightarrow> f a)"

lemma rbind_Inl [simp]: "rbind (Inl e) f = Inl e"
  by (simp add: rbind_def)

lemma rbind_Inr [simp]: "rbind (Inr a) f = f a"
  by (simp add: rbind_def)

lemma rbind_eq_Inr [simp]: "rbind m f = Inr b \<longleftrightarrow> (\<exists>a. m = Inr a \<and> f a = Inr b)"
  by (cases m) auto

lemma rbind_assoc: "rbind (rbind m f) g = rbind m (\<lambda>a. rbind (f a) g)"
  by (cases m) auto

lemma rbind_cong [fundef_cong]:
  "m = m' \<Longrightarrow> (\<And>a. m' = Inr a \<Longrightarrow> f a = f' a) \<Longrightarrow> rbind m f = rbind m' f'"
  by (cases m') auto

definition deref :: "'a option \<Rightarrow> 'a res" where
  "deref p = (case p of None \<Rightarrow> Inl Null_deref | Some a \<Rightarrow> Inr a)"

lemma deref_simps [simp]: "deref None = Inl Null_deref" "deref (Some a) = Inr a"
  by (simp_all add: deref_def)

text \<open>A store through NULL that is made when \<open>c\<close> holds, on a board where such a store faults or passes.\<close>

definition null_store :: "bool \<Rightarrow> bool \<Rightarrow> unit res" where
  "null_store trap c = (if trap \<and> c then Inl Null_deref else Inr ())"

lemma null_store_simps [simp]: "null_store False c = Inr ()" "null_store trap False = Inr ()" "null_store True True = Inl Null_deref"
  by (simp_all add: null_store_def)

lemma deref_eq_Inr [simp]: "deref p = Inr a \<longleftrightarrow> p = Some a"
  by (cases p) auto

text \<open>The status code every operation of the abstraction layer returns.\<close>

datatype iw_error_t = IW_FAIL | IW_SUCCESS

section \<open>Character classes of the C locale\<close>

abbreviation code :: "char \<Rightarrow> nat" where
  "code c \<equiv> of_char c"

definition isspace :: "char \<Rightarrow> bool" where
  "isspace c \<longleftrightarrow> code c = 32 \<or> (9 \<le> code c \<and> code c \<le> 13)"

definition isdigit :: "char \<Rightarrow> bool" where
  "isdigit c \<longleftrightarrow> 48 \<le> code c \<and> code c \<le> 57"

definition isalnum :: "char \<Rightarrow> bool" where
  "isalnum c \<longleftrightarrow> isdigit c \<or> (65 \<le> code c \<and> code c \<le> 90) \<or> (97 \<le> code c \<and> code c \<le> 122)"

definition ispunct :: "char \<Rightarrow> bool" where
  "ispunct c \<longleftrightarrow> 33 \<le> code c \<and> code c \<le> 126 \<and> \<not> isalnum c"

lemmas ctype_defs = isspace_def isdigit_def isalnum_def ispunct_def

lemma isalnum_not_isspace: "isalnum c \<Longrightarrow> \<not> isspace c"
  by (auto simp: ctype_defs)

lemma isdigit_isalnum [simp]: "isdigit c \<Longrightarrow> isalnum c"
  by (simp add: isalnum_def)

section \<open>Decimal numbers\<close>

text \<open>What \<^verbatim>\<open>printf\<close> writes for \<^verbatim>\<open>%d\<close>, and how \<^verbatim>\<open>snprintf\<close> cuts it off.\<close>

definition digit_char :: "nat \<Rightarrow> char" where
  "digit_char d = char_of (48 + d)"

fun dec_digits :: "nat \<Rightarrow> string" where
  "dec_digits n = (if n < 10 then [digit_char n] else dec_digits (n div 10) @ [digit_char (n mod 10)])"

declare dec_digits.simps [simp del]

definition show_int :: "int \<Rightarrow> string" where
  "show_int i = (if i < 0 then CHR ''-'' # dec_digits (nat (- i)) else dec_digits (nat i))"

definition snprintf_str :: "nat \<Rightarrow> string \<Rightarrow> string" where
  "snprintf_str n s = take (n - 1) s"

text \<open>
  \<^verbatim>\<open>atoi\<close> and \<^verbatim>\<open>atol\<close> on a 32-bit \<^verbatim>\<open>long\<close>: leading white space, a sign, digits up to
  the first other character; out of range the value of \<^verbatim>\<open>strtol\<close>, which saturates.
\<close>

fun dec_value :: "nat \<Rightarrow> string \<Rightarrow> nat" where
  "dec_value acc [] = acc"
| "dec_value acc (c # cs) = (if isdigit c then dec_value (10 * acc + (code c - 48)) cs else acc)"

definition strtol10 :: "string \<Rightarrow> int" where
  "strtol10 s = (case dropWhile isspace s of
      [] \<Rightarrow> 0
    | c # cs \<Rightarrow> (if c = CHR ''-'' then - int (dec_value 0 cs)
                else if c = CHR ''+'' then int (dec_value 0 cs)
                else int (dec_value 0 (c # cs))))"

definition atoi :: "string \<Rightarrow> int" where
  "atoi s = max (- (2 ^ 31)) (min (2 ^ 31 - 1) (strtol10 s))"

lemma digit_char_simps [simp]:
  "digit_char 0 = CHR ''0''" "digit_char (Suc 0) = CHR ''1''"
  "digit_char 2 = CHR ''2''" "digit_char 3 = CHR ''3''"
  "digit_char 4 = CHR ''4''" "digit_char 5 = CHR ''5''" "digit_char 6 = CHR ''6''"
  "digit_char 7 = CHR ''7''" "digit_char 8 = CHR ''8''" "digit_char 9 = CHR ''9''"
  by code_simp+

lemma code_digit_char [simp]: "d < 10 \<Longrightarrow> code (digit_char d) = 48 + d"
  by (simp add: digit_char_def)

lemma isdigit_digit_char [simp]: "d < 10 \<Longrightarrow> isdigit (digit_char d)"
  by (simp add: isdigit_def)

lemma dec_digits_isdigit: "c \<in> set (dec_digits n) \<Longrightarrow> isdigit c"
proof (induction n rule: dec_digits.induct)
  case (1 n)
  then show ?case
    by (subst (asm) dec_digits.simps) (auto split: if_splits)
qed

lemma dec_digits_nonempty [simp]: "dec_digits n \<noteq> []"
  by (subst dec_digits.simps) simp

lemma dec_value_append:
  "(\<And>c. c \<in> set xs \<Longrightarrow> isdigit c) \<Longrightarrow> dec_value acc (xs @ ys) = dec_value (dec_value acc xs) ys"
  by (induction xs arbitrary: acc) auto

lemma dec_value_dec_digits: "dec_value 0 (dec_digits n) = n"
proof (induction n rule: dec_digits.induct)
  case (1 n)
  show ?case
  proof (cases "n < 10")
    case True
    then show ?thesis by (simp add: dec_digits.simps)
  next
    case False
    then have "dec_value 0 (dec_digits n)
        = dec_value (dec_value 0 (dec_digits (n div 10))) [digit_char (n mod 10)]"
      by (subst dec_digits.simps) (simp add: dec_value_append [OF dec_digits_isdigit])
    also have "\<dots> = n"
      using "1.IH" [OF False] by simp
    finally show ?thesis .
  qed
qed

lemma length_dec_digits: "0 < k \<Longrightarrow> length (dec_digits n) \<le> k \<longleftrightarrow> n < 10 ^ k"
proof (induction n arbitrary: k rule: dec_digits.induct)
  case (1 n k)
  obtain j where k: "k = Suc j" using "1.prems" by (cases k) auto
  show ?case
  proof (cases "n < 10")
    case True
    then have len: "length (dec_digits n) = 1" by (subst dec_digits.simps) simp
    have "(10::nat) ^ 1 \<le> 10 ^ k" using k by (intro power_increasing) auto
    with True have "n < 10 ^ k" by simp
    with len k show ?thesis by simp
  next
    case False
    then have len: "length (dec_digits n) = Suc (length (dec_digits (n div 10)))"
      by (subst dec_digits.simps) simp
    show ?thesis
    proof (cases j)
      case 0
      with False k len show ?thesis
        by (cases "dec_digits (n div 10)") auto
    next
      case (Suc i)
      then have "length (dec_digits (n div 10)) \<le> j \<longleftrightarrow> n div 10 < 10 ^ j"
        using "1.IH" [OF False] by simp
      also have "\<dots> \<longleftrightarrow> n < 10 ^ k"
        using k by (simp add: less_mult_imp_div_less div_less_iff_less_mult mult.commute)
      finally show ?thesis using len k by simp
    qed
  qed
qed

lemma strtol10_dec_digits [simp]: "strtol10 (dec_digits n) = int n"
proof -
  obtain c cs where d: "dec_digits n = c # cs"
    by (cases "dec_digits n") auto
  have c: "isdigit c" using dec_digits_isdigit [of c n] d by simp
  have s: "\<not> isspace c" and "c \<noteq> CHR ''-''" and "c \<noteq> CHR ''+''"
    using c by (auto simp: ctype_defs)
  then have "strtol10 (dec_digits n) = int (dec_value 0 (dec_digits n))"
    by (simp add: strtol10_def d)
  then show ?thesis by (simp add: dec_value_dec_digits)
qed

lemma strtol10_show_int [simp]: "strtol10 (show_int i) = i"
proof (cases "i < 0")
  case True
  then have "strtol10 (show_int i) = - int (dec_value 0 (dec_digits (nat (- i))))"
    by (simp add: strtol10_def show_int_def isspace_def)
  with True show ?thesis by (simp add: dec_value_dec_digits)
next
  case False
  then show ?thesis by (simp add: show_int_def)
qed

lemma atoi_show_int: "- (2 ^ 31) \<le> i \<Longrightarrow> i < 2 ^ 31 \<Longrightarrow> atoi (show_int i) = i"
  by (simp add: atoi_def)

section \<open>Loops over a list with a fault\<close>

text \<open>A loop whose body may fault: it stops at the first fault.\<close>

fun rfold :: "('s \<Rightarrow> 'a \<Rightarrow> 's res) \<Rightarrow> 'a list \<Rightarrow> 's \<Rightarrow> 's res" where
  "rfold f [] s = Inr s"
| "rfold f (x # xs) s = rbind (f s x) (rfold f xs)"

lemma rfold_append: "rfold f (xs @ ys) s = rbind (rfold f xs s) (rfold f ys)"
proof (induction xs arbitrary: s)
  case (Cons x xs)
  then show ?case by (cases "f s x") simp_all
qed simp

text \<open>A loop that another loop follows step by step, on the view \<open>a\<close> of the state.\<close>

lemma rfold_follows:
  assumes "rfold f xs s = Inr s'" "\<And>s x s'. f s x = Inr s' \<Longrightarrow> g (a s) (h x) = Inr (a s')"
  shows "rfold g (map h xs) (a s) = Inr (a s')"
  using assms(1)
proof (induction xs arbitrary: s)
  case (Cons x xs)
  then obtain s1 where "f s x = Inr s1" "rfold f xs s1 = Inr s'" by auto
  then show ?case using assms(2) Cons.IH by simp
qed simp

lemma rfold_same_or_fault:
  assumes "\<And>s x. f s x = g s x \<or> f s x = Inl e"
  shows "rfold f xs s = rfold g xs s \<or> rfold f xs s = Inl e"
proof (induction xs arbitrary: s)
  case (Cons x xs)
  from assms [of s x] show ?case
  proof
    assume "f s x = g s x"
    with Cons show ?thesis by (cases "g s x") auto
  qed simp
qed simp

lemma rfold_invariant:
  assumes "rfold f xs s = Inr s'" "P s" "\<And>s x s'. P s \<Longrightarrow> f s x = Inr s' \<Longrightarrow> P s'"
  shows "P s'"
  using assms(1,2)
proof (induction xs arbitrary: s)
  case (Cons x xs)
  then obtain t where "f s x = Inr t" "rfold f xs t = Inr s'" by auto
  then show ?case using Cons.IH Cons.prems(2) assms(3) by blast
qed simp

end
