(* ===== verification/OalList.thy ===== *)
theory OalList
  imports Prelude
begin

text \<open>
  The doubly linked list of the abstraction layer (\<^verbatim>\<open>oal/iw/iw_oal_list.c\<close>) and the two
  loops over it (\<^verbatim>\<open>LIST_FOREACH\<close>, \<^verbatim>\<open>LIST_FOREACH_TO_DEL\<close> of
  \<^verbatim>\<open>iw_fw_types_internal.h\<close>), on an explicit heap of nodes. A store through NULL is
  undefined in C; the heap counts these stores in \<open>stray\<close> and they change no node, so
  the lemmas say both what the list becomes and exactly when such a store happens. The
  refinement to a HOL list is stated as the contract \<open>node_list\<close>, whose clients
  need no heap.
\<close>

type_synonym addr = nat

record 'a iw_list_node =
  nxt :: "addr option"
  previous :: "addr option"
  pData :: 'a

record iw_list =
  head :: "addr option"
  nodeNum :: "8 word"

record 'a heap =
  mem :: "addr \<Rightarrow> 'a iw_list_node"
  stray :: nat

section \<open>The operations\<close>

definition store_node ::
  "addr option \<Rightarrow> ('a iw_list_node \<Rightarrow> 'a iw_list_node) \<Rightarrow> 'a heap \<Rightarrow> 'a heap" where
  "store_node p f h = (case p of
      None \<Rightarrow> h\<lparr>stray := Suc (stray h)\<rparr>
    | Some a \<Rightarrow> h\<lparr>mem := (mem h)(a := f (mem h a))\<rparr>)"

definition iw_init_list :: "iw_list option \<Rightarrow> iw_error_t \<times> iw_list option" where
  "iw_init_list l = (case l of
      None \<Rightarrow> (IW_FAIL, None)
    | Some l \<Rightarrow> (IW_SUCCESS, Some (l\<lparr>head := None, nodeNum := 0\<rparr>)))"

definition iw_add_list_node ::
  "'a heap \<Rightarrow> iw_list option \<Rightarrow> addr option \<Rightarrow> iw_error_t \<times> 'a heap \<times> iw_list option" where
  "iw_add_list_node h l node = (case l of
      None \<Rightarrow> (IW_FAIL, h, l)
    | Some ls \<Rightarrow> (case node of
        None \<Rightarrow> (IW_FAIL, h, l)
      | Some n \<Rightarrow>
          (let h1 = store_node (Some n) (nxt_update (\<lambda>_. head ls)) h;
               h2 = store_node (Some n) (previous_update (\<lambda>_. None)) h1;
               h3 = store_node (nxt (mem h2 n)) (previous_update (\<lambda>_. Some n)) h2
           in (IW_SUCCESS, h3, Some (ls\<lparr>head := Some n, nodeNum := nodeNum ls + 1\<rparr>)))))"

definition iw_remove_list_node ::
  "'a heap \<Rightarrow> iw_list option \<Rightarrow> addr option \<Rightarrow> iw_error_t \<times> 'a heap \<times> iw_list option" where
  "iw_remove_list_node h l node = (case l of
      None \<Rightarrow> (IW_FAIL, h, l)
    | Some ls \<Rightarrow> (case node of
        None \<Rightarrow> (IW_FAIL, h, l)
      | Some n \<Rightarrow>
          (if head ls = Some n
           then (let ls1 = ls\<lparr>head := nxt (mem h n)\<rparr>;
                     h1 = store_node (nxt (mem h n)) (previous_update (\<lambda>_. None)) h
                 in (IW_SUCCESS, h1, Some (ls1\<lparr>nodeNum := nodeNum ls1 - 1\<rparr>)))
           else (let h1 = store_node (nxt (mem h n)) (previous_update (\<lambda>_. previous (mem h n))) h;
                     h2 = store_node (previous (mem h1 n)) (nxt_update (\<lambda>_. nxt (mem h1 n))) h1
                 in (IW_SUCCESS, h2, Some (ls\<lparr>nodeNum := nodeNum ls - 1\<rparr>))))))"

text \<open>
  \<^verbatim>\<open>LIST_FOREACH\<close>: the nodes the loop visits; \<open>None\<close> is a loop that does not end.
\<close>

partial_function (option) list_foreach :: "'a heap \<Rightarrow> addr option \<Rightarrow> addr list option" where
  "list_foreach h p = (case p of
      None \<Rightarrow> Some []
    | Some a \<Rightarrow> Option.bind (list_foreach h (nxt (mem h a))) (\<lambda>as. Some (a # as)))"

text \<open>
  \<^verbatim>\<open>LIST_FOREACH_TO_DEL\<close> with the body every caller gives it, the removal of the item:
  the nodes removed, in order. The loop runs while \<^verbatim>\<open>nodeNum\<close> differs from 0.
\<close>

partial_function (option) list_foreach_to_del ::
  "'a heap \<Rightarrow> iw_list \<Rightarrow> (addr list \<times> 'a heap \<times> iw_list) option" where
  "list_foreach_to_del h l =
     (if nodeNum l = 0 then Some ([], h, l)
      else (case head l of
          None \<Rightarrow> None
        | Some a \<Rightarrow> (case iw_remove_list_node h (Some l) (Some a) of (e, h', q) \<Rightarrow>
            (case q of
              None \<Rightarrow> None
            | Some l' \<Rightarrow> Option.bind (list_foreach_to_del h' l') (\<lambda>(as, r). Some (a # as, r))))))"

declare list_foreach.simps [code] list_foreach_to_del.simps [code]

section \<open>The list a heap represents\<close>

text \<open>A segment of nodes: back pointers start at \<open>prev\<close>, the last node points to \<open>q\<close>.\<close>

fun lseg :: "'a heap \<Rightarrow> addr option \<Rightarrow> addr option \<Rightarrow> addr list \<Rightarrow> addr option \<Rightarrow> bool" where
  "lseg h prev p [] q \<longleftrightarrow> p = q"
| "lseg h prev p (a # as) q \<longleftrightarrow>
     p = Some a \<and> previous (mem h a) = prev \<and> lseg h (Some a) (nxt (mem h a)) as q"

definition repr :: "'a heap \<Rightarrow> iw_list \<Rightarrow> addr list \<Rightarrow> bool" where
  "repr h l as \<longleftrightarrow> lseg h None (head l) as None \<and> distinct as \<and> nodeNum l = of_nat (length as)"

definition end_of :: "addr option \<Rightarrow> addr list \<Rightarrow> addr option" where
  "end_of prev as = (if as = [] then prev else Some (last as))"

lemma end_of_simps [simp]:
  "end_of prev [] = prev" "end_of prev (a # as) = end_of (Some a) as" "end_of prev (as @ [b]) = Some b"
  by (simp_all add: end_of_def)

lemma lseg_frame:
  "(\<And>a. a \<in> set as \<Longrightarrow> mem h' a = mem h a) \<Longrightarrow> lseg h' prev p as q = lseg h prev p as q"
  by (induction as arbitrary: prev p) auto

lemma lseg_append:
  "lseg h prev p (as @ bs) q \<longleftrightarrow> (\<exists>r. lseg h prev p as r \<and> lseg h (end_of prev as) r bs q)"
  by (induction as arbitrary: prev p) auto

lemma mem_store_node [simp]:
  "mem (store_node p f h) a = (if p = Some a then f (mem h a) else mem h a)"
  by (simp add: store_node_def split: option.splits)

lemma stray_store_node [simp]:
  "stray (store_node p f h) = (if p = None then Suc (stray h) else stray h)"
  by (simp add: store_node_def split: option.splits)

lemma lseg_store_other [simp]:
  "a \<notin> set as \<Longrightarrow> lseg (store_node (Some a) f h) prev p as q = lseg h prev p as q"
  by (rule lseg_frame) auto

lemma lseg_store_NULL [simp]: "lseg (store_node None f h) prev p as q = lseg h prev p as q"
  by (rule lseg_frame) auto

lemma lseg_set_previous:
  "lseg h prev p as None \<Longrightarrow> distinct as \<Longrightarrow>
    lseg (store_node p (previous_update (\<lambda>_. prev')) h) prev' p as None"
  by (cases as) auto

lemma lseg_set_next:
  "lseg h prev p (as @ [b]) q \<Longrightarrow> b \<notin> set as \<Longrightarrow>
    lseg (store_node (Some b) (nxt_update (\<lambda>_. q')) h) prev p (as @ [b]) q'"
  by (auto simp: lseg_append)

lemma lseg_hd: "lseg h prev p as None \<Longrightarrow> p = (case as of [] \<Rightarrow> None | a # _ \<Rightarrow> Some a)"
  by (cases as) auto

lemma lseg_start: "lseg h prev p as q \<Longrightarrow> as \<noteq> [] \<Longrightarrow> p = Some (hd as)"
  by (cases as) auto

lemma repr_functional:
  assumes "repr h l as" "repr h l bs"
  shows "as = bs"
proof -
  have "lseg h prev p as None \<Longrightarrow> lseg h prev p bs None \<Longrightarrow> as = bs" for prev p
    by (induction as arbitrary: prev p bs) (case_tac bs; auto)+
  then show ?thesis using assms by (auto simp: repr_def)
qed

section \<open>What the operations do to the represented list\<close>

lemma add_list_node_repr:
  assumes "repr h l as" "n \<notin> set as" "iw_add_list_node h (Some l) (Some n) = (e, h', l')"
  shows "\<exists>l''. l' = Some l'' \<and> e = IW_SUCCESS \<and> repr h' l'' (n # as) \<and>
    stray h' = stray h + (if as = [] then 1 else 0)"
proof -
  have seg: "lseg h None (head l) as None" "distinct as" using assms(1) by (auto simp: repr_def)
  define h2 where "h2 = store_node (Some n) (previous_update (\<lambda>_. None))
      (store_node (Some n) (nxt_update (\<lambda>_. head l)) h)"
  have n2: "nxt (mem h2 n) = head l" "previous (mem h2 n) = None" by (simp_all add: h2_def)
  have h': "h' = store_node (head l) (previous_update (\<lambda>_. Some n)) h2"
    and l': "l' = Some (l\<lparr>head := Some n, nodeNum := nodeNum l + 1\<rparr>)" and e: "e = IW_SUCCESS"
    using assms(3) n2 by (auto simp: iw_add_list_node_def Let_def h2_def)
  have ne: "head l \<noteq> Some n" using seg assms(2) lseg_hd [OF seg(1)] by (auto split: list.splits)
  have "lseg h2 None (head l) as None"
    using seg assms(2) by (simp add: h2_def)
  then have "lseg h' (Some n) (head l) as None"
    unfolding h' by (rule lseg_set_previous) (use seg in simp)
  moreover have "nxt (mem h' n) = head l" "previous (mem h' n) = None"
    using n2 ne by (simp_all add: h')
  ultimately have "repr h' (l\<lparr>head := Some n, nodeNum := nodeNum l + 1\<rparr>) (n # as)"
    using assms(1,2) by (simp add: repr_def)
  moreover have "head l = None \<longleftrightarrow> as = []" using lseg_hd [OF seg(1)] by (auto split: list.splits)
  ultimately show ?thesis using l' e by (auto simp: h' h2_def)
qed

lemma remove_list_node_repr:
  assumes "repr h l (us @ n # vs)" "iw_remove_list_node h (Some l) (Some n) = (e, h', l')"
  shows "\<exists>l''. l' = Some l'' \<and> e = IW_SUCCESS \<and> repr h' l'' (us @ vs) \<and>
    stray h' = stray h + (if vs = [] then 1 else 0)"
proof -
  have seg: "lseg h None (head l) us (Some n)" "previous (mem h n) = end_of None us"
      "lseg h (Some n) (nxt (mem h n)) vs None"
    and dist: "distinct us" "distinct vs" "n \<notin> set us" "n \<notin> set vs" "set us \<inter> set vs = {}"
    and num: "nodeNum l - 1 = of_nat (length us + length vs)"
    using assms(1) by (auto simp: repr_def lseg_append)
  have nx: "nxt (mem h n) = None \<longleftrightarrow> vs = []" "nxt (mem h n) \<noteq> Some n"
    using lseg_hd [OF seg(3)] dist by (auto split: list.splits)
  show ?thesis
  proof (cases us rule: rev_cases)
    case Nil
    then have "head l = Some n" using seg by simp
    then have "e = IW_SUCCESS" "l' = Some (l\<lparr>head := nxt (mem h n), nodeNum := nodeNum l - 1\<rparr>)"
      "h' = store_node (nxt (mem h n)) (previous_update (\<lambda>_. None)) h"
      using assms(2) by (auto simp: iw_remove_list_node_def Let_def)
    then show ?thesis
      using Nil nx num dist lseg_set_previous [OF seg(3) dist(2)] by (simp add: repr_def)
  next
    case (snoc ws u)
    define h1 where "h1 = store_node (nxt (mem h n)) (previous_update (\<lambda>_. Some u)) h"
    have "head l \<noteq> Some n"
      using lseg_start [OF seg(1)] hd_in_set [of us] dist(3) snoc by auto
    then have r: "e = IW_SUCCESS" "l' = Some (l\<lparr>nodeNum := nodeNum l - 1\<rparr>)"
      "h' = store_node (Some u) (nxt_update (\<lambda>_. nxt (mem h n))) h1"
      using assms(2) seg(2) snoc nx by (auto simp: iw_remove_list_node_def Let_def h1_def)
    have "lseg h1 None (head l) us (Some n)"
      using seg(1,3) dist(5) lseg_hd [OF seg(3)] by (cases vs) (auto simp: h1_def)
    then have "lseg h' None (head l) us (nxt (mem h n))"
      unfolding r snoc using dist(1) snoc by (intro lseg_set_next) auto
    moreover have "lseg h' (Some u) (nxt (mem h n)) vs None"
      using lseg_set_previous [OF seg(3) dist(2), of "Some u"] dist(5) snoc by (simp add: r h1_def)
    ultimately have "lseg h' None (head l) (us @ vs) None"
      using snoc by (auto simp: lseg_append)
    then show ?thesis using r nx dist num by (simp add: repr_def h1_def)
  qed
qed

lemma list_foreach_lseg: "lseg h prev p as None \<Longrightarrow> list_foreach h p = Some as"
  by (induction as arbitrary: prev p) (auto simp: list_foreach.simps)

lemma list_foreach_to_del_repr:
  "repr h l as \<Longrightarrow> \<exists>h' l'. repr h' l' (drop (length as mod 256) as) \<and> nodeNum l' = 0 \<and>
    list_foreach_to_del h l = Some (take (length as mod 256) as, h', l')"
proof (induction "length as mod 256" arbitrary: h l as)
  case 0
  then have "nodeNum l = 0" by (simp add: repr_def word_of_nat_eq_0_iff mod_eq_0_iff_dvd)
  then show ?case using 0 by (auto simp: list_foreach_to_del.simps)
next
  case (Suc k)
  then obtain a bs where as: "as = a # bs" by (cases as) auto
  have k: "k = length bs mod 256" using Suc(2) as by (simp add: mod_Suc split: if_splits)
  have "nodeNum l \<noteq> 0"
    using Suc(2,3) by (auto simp: repr_def word_of_nat_eq_0_iff mod_eq_0_iff_dvd)
  moreover have hd: "head l = Some a" using Suc(3) as by (simp add: repr_def)
  moreover obtain e h' q where rem: "iw_remove_list_node h (Some l) (Some a) = (e, h', q)"
    by (metis prod_cases3)
  moreover obtain l' where "q = Some l'" "repr h' l' bs"
    using remove_list_node_repr [of h l "[]" a bs, OF _ rem] Suc(3) as by auto
  moreover obtain h'' l'' where "repr h'' l'' (drop k bs)" "nodeNum l'' = 0"
    "list_foreach_to_del h' l' = Some (take k bs, h'', l'')"
    using Suc(1) [OF k \<open>repr h' l' bs\<close>] k by auto
  ultimately show ?case
    using Suc(2) [symmetric] as by (subst list_foreach_to_del.simps) simp
qed

section \<open>The contract of a list of nodes\<close>

text \<open>
  What the callers rely on: an inserted node comes first, a removed node is gone, and the loop
  visits the nodes in this order. The lemmas of the clients are proved here once.
\<close>

locale node_list =
  fixes represents :: "'s \<Rightarrow> 'k list \<Rightarrow> bool"
    and ins :: "'k \<Rightarrow> 's \<Rightarrow> 's"
    and del :: "'k \<Rightarrow> 's \<Rightarrow> 's"
    and items :: "'s \<Rightarrow> 'k list option"
  assumes ins: "represents s ks \<Longrightarrow> k \<notin> set ks \<Longrightarrow> represents (ins k s) (k # ks)"
    and del: "represents s ks \<Longrightarrow> k \<in> set ks \<Longrightarrow> represents (del k s) (remove1 k ks)"
    and items: "represents s ks \<Longrightarrow> items s = Some ks"
begin

lemma ins_many:
  "represents s ks \<Longrightarrow> distinct js \<Longrightarrow> set js \<inter> set ks = {} \<Longrightarrow>
    represents (fold ins js s) (rev js @ ks)"
proof (induction js arbitrary: s ks)
  case (Cons j js)
  then show ?case using Cons.IH [of "ins j s" "j # ks"] ins by auto
qed simp

lemma items_ins_many:
  "represents s [] \<Longrightarrow> distinct js \<Longrightarrow> items (fold ins js s) = Some (rev js)"
  using ins_many [of s "[]" js] items by simp

lemma items_del_ins: "represents s ks \<Longrightarrow> k \<notin> set ks \<Longrightarrow> items (del k (ins k s)) = items s"
  using ins [of s ks k] del [of "ins k s" "k # ks" k] items by simp

lemma del_all: "represents s ks \<Longrightarrow> distinct ks \<Longrightarrow> items (fold del ks s) = Some []"
proof (induction ks arbitrary: s)
  case Nil
  then show ?case by (simp add: items)
next
  case (Cons k ks)
  then show ?case using del [of s "k # ks" k] by simp
qed

end

definition list_of :: "'a heap \<times> iw_list \<Rightarrow> addr list \<Rightarrow> bool" where
  "list_of s as \<longleftrightarrow> repr (fst s) (snd s) as"

definition list_ins :: "addr \<Rightarrow> 'a heap \<times> iw_list \<Rightarrow> 'a heap \<times> iw_list" where
  "list_ins n s = (case iw_add_list_node (fst s) (Some (snd s)) (Some n) of
      (e, h', l') \<Rightarrow> (h', case l' of None \<Rightarrow> snd s | Some l'' \<Rightarrow> l''))"

definition list_del :: "addr \<Rightarrow> 'a heap \<times> iw_list \<Rightarrow> 'a heap \<times> iw_list" where
  "list_del n s = (case iw_remove_list_node (fst s) (Some (snd s)) (Some n) of
      (e, h', l') \<Rightarrow> (h', case l' of None \<Rightarrow> snd s | Some l'' \<Rightarrow> l''))"

lemma list_ins_of:
  assumes "list_of s as" "n \<notin> set as"
  shows "list_of (list_ins n s) (n # as)"
proof -
  obtain e h' q where r: "iw_add_list_node (fst s) (Some (snd s)) (Some n) = (e, h', q)"
    by (metis prod_cases3)
  with add_list_node_repr [of "fst s" "snd s" as n e h' q] assms
  show ?thesis by (auto simp: list_of_def list_ins_def)
qed

lemma list_del_of:
  assumes "list_of s as" "n \<in> set as"
  shows "list_of (list_del n s) (remove1 n as)"
proof -
  obtain us vs where as: "as = us @ n # vs" "n \<notin> set us"
    using split_list_first [OF assms(2)] by blast
  obtain e h' q where r: "iw_remove_list_node (fst s) (Some (snd s)) (Some n) = (e, h', q)"
    by (metis prod_cases3)
  with remove_list_node_repr [of "fst s" "snd s" us n vs e h' q] assms as
  show ?thesis by (auto simp: list_of_def list_del_def remove1_append)
qed

lemma list_of_foreach: "list_of s as \<Longrightarrow> list_foreach (fst s) (head (snd s)) = Some as"
  by (auto simp: list_of_def repr_def intro: list_foreach_lseg)

interpretation oal: node_list list_of list_ins list_del "\<lambda>s. list_foreach (fst s) (head (snd s))"
  by unfold_locales (fact list_ins_of list_del_of list_of_foreach)+

section \<open>Properties\<close>

lemma list_of_init:
  "iw_init_list (Some l) = (IW_SUCCESS, Some l') \<Longrightarrow> list_of (h, l') []"
  by (auto simp: iw_init_list_def list_of_def repr_def)

text \<open>
  C19. After \<^verbatim>\<open>iw_init_list\<close>, inserting nodes one after the other with
  \<^verbatim>\<open>iw_add_list_node\<close> and iterating with \<^verbatim>\<open>LIST_FOREACH\<close> visits exactly these nodes,
  the newest first.
\<close>

theorem list_iterates_newest_first:
  assumes "iw_init_list (Some l) = (IW_SUCCESS, Some l')" "distinct js"
    and "fold list_ins js (h, l') = (h'', l'')"
  shows "list_foreach h'' (head l'') = Some (rev js)"
  using oal.items_ins_many [OF list_of_init [OF assms(1), of h] assms(2)] assms(3) by simp

definition heap0 :: "unit heap" where
  "heap0 = \<lparr>mem = (\<lambda>_. \<lparr>nxt = None, previous = None, pData = ()\<rparr>), stray = 0\<rparr>"

definition list0 :: iw_list where
  "list0 = \<lparr>head = None, nodeNum = 0\<rparr>"

lemma list_iterates_newest_first_witness:
  "\<exists>h l. fold list_ins [3, 5, 4] (heap0, list0) = (h, l) \<and> list_foreach h (head l) = Some [4, 5, 3]"
proof -
  obtain h l where f: "fold list_ins [3, 5, 4] (heap0, list0) = (h, l)" by fastforce
  have i: "iw_init_list (Some list0) = (IW_SUCCESS, Some list0)"
    by (simp add: iw_init_list_def list0_def)
  show ?thesis using list_iterates_newest_first [OF i _ f] f by simp
qed

text \<open>
  C16. \<^verbatim>\<open>iw_remove_list_node\<close> of a node of the list succeeds, removes that node, keeps
  the order of the others, their links and the counter, and stores through NULL exactly when
  the node is the last one of the list.
\<close>

theorem list_remove_refines:
  assumes "repr h l (us @ n # vs)"
  shows "\<exists>h' l'. iw_remove_list_node h (Some l) (Some n) = (IW_SUCCESS, h', Some l') \<and>
    repr h' l' (us @ vs) \<and> stray h' = stray h + (if vs = [] then 1 else 0)"
  using remove_list_node_repr [OF assms]
  by (cases "iw_remove_list_node h (Some l) (Some n)") fastforce

lemma repr_singleton: "repr heap0 \<lparr>head = Some 7, nodeNum = 1\<rparr> ([] @ 7 # [])"
  by (simp add: repr_def heap0_def)

lemma list_remove_refines_witness:
  "\<exists>h l. iw_remove_list_node heap0 (Some \<lparr>head = Some 7, nodeNum = 1\<rparr>) (Some 7) =
     (IW_SUCCESS, h, Some l) \<and> repr h l [] \<and> stray h = 1"
  using list_remove_refines [OF repr_singleton] by (simp add: heap0_def)

text \<open>
  The deletion loop \<^verbatim>\<open>LIST_FOREACH_TO_DEL\<close> always ends, but it removes only the first
  \<open>n mod 256\<close> of \<open>n\<close> nodes, because \<^verbatim>\<open>nodeNum\<close> is an \<^verbatim>\<open>unsigned char\<close>: all
  of them below 256 nodes, none of them at 256.
\<close>

theorem list_drain_modulo_256:
  assumes "repr h l as"
  shows "\<exists>h' l'. list_foreach_to_del h l = Some (take (length as mod 256) as, h', l') \<and>
    repr h' l' (drop (length as mod 256) as) \<and> nodeNum l' = 0"
  using list_foreach_to_del_repr [OF assms] by blast

lemma list_drain_modulo_256_witness:
  "\<exists>h l. list_foreach_to_del heap0 \<lparr>head = Some 7, nodeNum = 1\<rparr> = Some ([7], h, l) \<and> repr h l []"
  using list_drain_modulo_256 [OF repr_singleton] by auto

end
