(* ===== verification/OalFifo.thy ===== *)
theory OalFifo
  imports Prelude
begin

text \<open>
  The ring buffer of the abstraction layer (\<^verbatim>\<open>oal/iw/iw_oal_fifo.c\<close>): positions and sizes
  are 32-bit, the storage is a list of bytes, the copy loop is the one of the source. The
  operations refine a queue of at most \<open>block_count - 1\<close> blocks (the contract
  \<open>bounded_queue\<close>).
\<close>

record iw_fifo =
  put_pos :: "32 word"
  get_pos :: "32 word"
  block_size :: "32 word"
  block_count :: "32 word"
  block_pdata :: "byte list"

section \<open>The operations\<close>

definition iw_init_fifo :: "byte list \<Rightarrow> 32 word \<Rightarrow> 32 word \<Rightarrow> iw_fifo" where
  "iw_init_fifo pdata sz cnt =
     \<lparr>put_pos = 0, get_pos = 0, block_size = sz, block_count = cnt, block_pdata = pdata\<rparr>"

text \<open>
  The copy: four bytes at a time, then one at a time. \<open>d\<close> and \<open>s\<close> are the two
  memory regions, \<open>i\<close> and \<open>j\<close> the places the pointers stand at.
\<close>

fun inline_memcpy :: "byte list \<Rightarrow> nat \<Rightarrow> byte list \<Rightarrow> nat \<Rightarrow> nat \<Rightarrow> byte list res" where
  "inline_memcpy d i s j len =
     (if 4 \<le> len then
        (if i + 4 \<le> length d \<and> j + 4 \<le> length s
         then inline_memcpy (d[i := s ! j, i + 1 := s ! (j + 1), i + 2 := s ! (j + 2), i + 3 := s ! (j + 3)])
                (i + 4) s (j + 4) (len - 4)
         else Inl Out_of_bounds)
      else if 0 < len then
        (if i < length d \<and> j < length s
         then inline_memcpy (d[i := s ! j]) (i + 1) s (j + 1) (len - 1)
         else Inl Out_of_bounds)
      else Inr d)"

declare inline_memcpy.simps [simp del]

definition IW_PUT_FIFO_NEXT :: "iw_fifo \<Rightarrow> 32 word res" where
  "IW_PUT_FIFO_NEXT f =
     (if block_count f = 0 then Inl Div_by_zero else Inr ((put_pos f + 1) mod block_count f))"

definition IW_GET_FIFO_NEXT :: "iw_fifo \<Rightarrow> 32 word res" where
  "IW_GET_FIFO_NEXT f =
     (if block_count f = 0 then Inl Div_by_zero else Inr ((get_pos f + 1) mod block_count f))"

definition IW_PUT_FIFO_PTR :: "iw_fifo \<Rightarrow> nat" where
  "IW_PUT_FIFO_PTR f = unat (put_pos f * block_size f)"

definition IW_GET_FIFO_PTR :: "iw_fifo \<Rightarrow> nat" where
  "IW_GET_FIFO_PTR f = unat (get_pos f * block_size f)"

definition iw_put_fifo :: "iw_fifo \<Rightarrow> byte list \<Rightarrow> (iw_error_t \<times> iw_fifo) res" where
  "iw_put_fifo f pdata =
     rbind (IW_PUT_FIFO_NEXT f) (\<lambda>put_next_pos.
       if get_pos f \<noteq> put_next_pos
       then rbind (inline_memcpy (block_pdata f) (IW_PUT_FIFO_PTR f) pdata 0 (unat (block_size f)))
              (\<lambda>d. Inr (IW_SUCCESS, f\<lparr>block_pdata := d, put_pos := put_next_pos\<rparr>))
       else Inr (IW_FAIL, f))"

text \<open>The second component is the caller's buffer afterwards.\<close>

definition iw_get_fifo :: "iw_fifo \<Rightarrow> byte list \<Rightarrow> (iw_error_t \<times> byte list \<times> iw_fifo) res" where
  "iw_get_fifo f pdata =
     (if put_pos f \<noteq> get_pos f
      then rbind (inline_memcpy pdata 0 (block_pdata f) (IW_GET_FIFO_PTR f) (unat (block_size f)))
             (\<lambda>d. rbind (IW_GET_FIFO_NEXT f) (\<lambda>nxt. Inr (IW_SUCCESS, d, f\<lparr>get_pos := nxt\<rparr>)))
      else Inr (IW_FAIL, pdata, f))"

definition iw_count_fifo :: "iw_fifo \<Rightarrow> 32 word" where
  "iw_count_fifo f =
     (if get_pos f < put_pos f then put_pos f - get_pos f
      else if get_pos f \<noteq> put_pos f then (put_pos f + block_count f) - get_pos f
      else 0)"

definition iw_flush_fifo :: "iw_fifo \<Rightarrow> iw_error_t \<times> iw_fifo" where
  "iw_flush_fifo f = (IW_SUCCESS, f\<lparr>get_pos := put_pos f\<rparr>)"

section \<open>The copy loop\<close>

lemma drop4:
  "j + 4 \<le> length s \<Longrightarrow> drop j s = [s ! j, s ! (j + 1), s ! (j + 2), s ! (j + 3)] @ drop (j + 4) s"
  by (simp add: Cons_nth_drop_Suc [symmetric] numeral_eq_Suc)

lemma list_update4:
  assumes "i + 4 \<le> length d"
  shows "d[i := a, i + 1 := b, i + 2 := c, i + 3 := e] = take i d @ [a, b, c, e] @ drop (i + 4) d"
proof -
  obtain us vs w x y z where d: "d = us @ [w, x, y, z] @ vs" "length us = i"
    using drop4 [OF assms] assms
    by (metis append_take_drop_id length_take add_leD1 min.absorb2)
  show ?thesis unfolding d(1) using d(2) by (simp add: list_update_append)
qed

lemma inline_memcpy_ok:
  "i + len \<le> length d \<Longrightarrow> j + len \<le> length s \<Longrightarrow>
    inline_memcpy d i s j len = Inr (take i d @ take len (drop j s) @ drop (i + len) d)"
proof (induction d i s j len rule: inline_memcpy.induct)
  case (1 d i s j len)
  consider "4 \<le> len" | "0 < len" "len < 4" | "len = 0" by linarith
  then show ?case
  proof cases
    case a: 1
    let ?d = "d[i := s ! j, i + 1 := s ! (j + 1), i + 2 := s ! (j + 2), i + 3 := s ! (j + 3)]"
    have d: "?d = take i d @ [s ! j, s ! (j + 1), s ! (j + 2), s ! (j + 3)] @ drop (i + 4) d"
      using "1.prems" a by (intro list_update4) simp
    obtain m where m: "len = m + 4" using a by (metis le_add_diff_inverse2)
    have s: "take len (drop j s)
        = [s ! j, s ! (j + 1), s ! (j + 2), s ! (j + 3)] @ take m (drop (j + 4) s)"
      using "1.prems" m by (subst drop4) (simp_all add: eval_nat_numeral)
    have "inline_memcpy d i s j len = inline_memcpy ?d (i + 4) s (j + 4) m"
      using "1.prems" a m by (subst inline_memcpy.simps) simp
    also have "\<dots> = Inr (take (i + 4) ?d @ take m (drop (j + 4) s) @ drop (i + 4 + m) ?d)"
      using "1.IH"(1) [OF a] "1.prems" m by simp
    also have "drop (i + 4 + m) ?d = drop (i + len) d"
      using m by (simp add: ac_simps)
    also have "take (i + 4) ?d = take i d @ [s ! j, s ! (j + 1), s ! (j + 2), s ! (j + 3)]"
      unfolding d using "1.prems" m by simp
    finally show ?thesis unfolding s by simp
  next
    case 2
    then obtain m where m: "len = Suc m" by (cases len) auto
    have "inline_memcpy d i s j len = inline_memcpy (d[i := s ! j]) (i + 1) s (j + 1) m"
      using "1.prems" 2 m by (subst inline_memcpy.simps) simp
    also have "\<dots> = Inr (take (i + 1) (d[i := s ! j]) @ take m (drop (j + 1) s) @ drop (i + 1 + m) (d[i := s ! j]))"
      using "1.IH"(2) 2 "1.prems" m by simp
    also have "take (i + 1) (d[i := s ! j]) = take i d @ [s ! j]"
      using "1.prems" m by (simp add: take_Suc_conv_app_nth)
    finally have "inline_memcpy d i s j len
        = Inr (take i d @ (s ! j # take m (drop (j + 1) s)) @ drop (i + 1 + m) (d[i := s ! j]))"
      by simp
    moreover have "take len (drop j s) = s ! j # take m (drop (j + 1) s)"
      using "1.prems" m by (simp add: Cons_nth_drop_Suc [symmetric])
    ultimately show ?thesis using m by simp
  next
    case 3
    then show ?thesis by (subst inline_memcpy.simps) simp
  qed
qed

section \<open>The contract of a bounded queue\<close>

text \<open>
  What a client may rely on: below the capacity an element goes in at the back, at the capacity
  it is refused, and the elements come out at the front.
\<close>

fun enq_all :: "('q \<Rightarrow> 'x \<Rightarrow> 'q option) \<Rightarrow> 'q \<Rightarrow> 'x list \<Rightarrow> 'q option" where
  "enq_all enq q [] = Some q"
| "enq_all enq q (x # xs) = Option.bind (enq q x) (\<lambda>q'. enq_all enq q' xs)"

fun deq_n :: "('q \<Rightarrow> ('x \<times> 'q) option) \<Rightarrow> nat \<Rightarrow> 'q \<Rightarrow> ('x list \<times> 'q) option" where
  "deq_n deq 0 q = Some ([], q)"
| "deq_n deq (Suc n) q =
     Option.bind (deq q) (\<lambda>(x, q'). map_option (\<lambda>(xs, r). (x # xs, r)) (deq_n deq n q'))"

lemma enq_all_append:
  "enq_all enq q (xs @ ys) = Option.bind (enq_all enq q xs) (\<lambda>r. enq_all enq r ys)"
  by (induction xs arbitrary: q) (auto split: Option.bind_splits)

locale bounded_queue =
  fixes inv :: "'q \<Rightarrow> bool"
    and ok :: "'q \<Rightarrow> 'x \<Rightarrow> bool"
    and elems :: "'q \<Rightarrow> 'x list"
    and cap :: "'q \<Rightarrow> nat"
    and enq :: "'q \<Rightarrow> 'x \<Rightarrow> 'q option"
    and deq :: "'q \<Rightarrow> ('x \<times> 'q) option"
  assumes bound: "inv q \<Longrightarrow> length (elems q) \<le> cap q"
    and enq_room: "inv q \<Longrightarrow> ok q x \<Longrightarrow> length (elems q) < cap q \<Longrightarrow>
      \<exists>q'. enq q x = Some q' \<and> inv q' \<and> cap q' = cap q \<and> ok q' = ok q \<and> elems q' = elems q @ [x]"
    and enq_full: "inv q \<Longrightarrow> length (elems q) = cap q \<Longrightarrow> enq q x = None"
    and deq_some: "inv q \<Longrightarrow> elems q = x # xs \<Longrightarrow>
      \<exists>q'. deq q = Some (x, q') \<and> inv q' \<and> cap q' = cap q \<and> ok q' = ok q \<and> elems q' = xs"
    and deq_empty: "inv q \<Longrightarrow> elems q = [] \<Longrightarrow> deq q = None"
begin

lemma enq_all_room:
  "inv q \<Longrightarrow> (\<And>x. x \<in> set xs \<Longrightarrow> ok q x) \<Longrightarrow> length (elems q) + length xs \<le> cap q \<Longrightarrow>
    \<exists>q'. enq_all enq q xs = Some q' \<and> inv q' \<and> cap q' = cap q \<and> elems q' = elems q @ xs"
proof (induction xs arbitrary: q)
  case (Cons x xs)
  then obtain q' where q': "enq q x = Some q'" "inv q'" "cap q' = cap q" "ok q' = ok q"
      "elems q' = elems q @ [x]"
    using enq_room [of q x] by auto
  then obtain q'' where "enq_all enq q' xs = Some q''" "inv q''" "cap q'' = cap q'"
      "elems q'' = elems q' @ xs"
    using Cons.IH [of q'] Cons.prems by auto
  with q' show ?case by simp
qed simp

lemma enq_all_full:
  assumes "inv q" "elems q = []" "\<And>x. x \<in> set xs \<Longrightarrow> ok q x" "cap q < length xs"
  shows "enq_all enq q xs = None"
proof -
  let ?us = "take (cap q) xs"
  obtain y ys where split: "xs = ?us @ y # ys"
    using assms(4) by (metis id_take_nth_drop)
  have len: "length ?us = cap q" using assms(4) by simp
  obtain r where r: "enq_all enq q ?us = Some r" "inv r" "cap r = cap q" "elems r = ?us"
    using enq_all_room [of q ?us] assms len by (auto dest: in_set_takeD)
  show ?thesis using enq_full [OF r(2)] r len by (subst split) (simp add: enq_all_append)
qed

lemma deq_elems:
  "inv q \<Longrightarrow> elems q = xs @ ys \<Longrightarrow>
    \<exists>q'. deq_n deq (length xs) q = Some (xs, q') \<and> inv q' \<and> cap q' = cap q \<and> elems q' = ys"
proof (induction xs arbitrary: q)
  case (Cons x xs)
  then obtain q' where q': "deq q = Some (x, q')" "inv q'" "cap q' = cap q" "elems q' = xs @ ys"
    using deq_some [of q x "xs @ ys"] by auto
  with Cons.IH [of q'] show ?case by auto
qed simp

lemma first_in_first_out:
  assumes "inv q" "elems q = []" "\<And>x. x \<in> set xs \<Longrightarrow> ok q x" "length xs \<le> cap q"
  shows "\<exists>q' q''. enq_all enq q xs = Some q' \<and> deq_n deq (length xs) q' = Some (xs, q'') \<and> deq q'' = None"
proof -
  obtain q' where q': "enq_all enq q xs = Some q'" "inv q'" "elems q' = xs"
    using enq_all_room [of q xs] assms by auto
  then obtain q'' where "deq_n deq (length xs) q' = Some (xs, q'')" "inv q''" "elems q'' = []"
    using deq_elems [of q' xs "[]"] by auto
  with q' deq_empty [of q''] show ?thesis by auto
qed

end

section \<open>The ring buffer meets the contract\<close>

definition ring_used :: "nat \<Rightarrow> nat \<Rightarrow> nat \<Rightarrow> nat" where
  "ring_used n p g = (if g \<le> p then p - g else p + n - g)"

definition ring_add :: "nat \<Rightarrow> nat \<Rightarrow> nat \<Rightarrow> nat" where
  "ring_add n g k = (if g + k < n then g + k else g + k - n)"

lemma ring_add_mod: "g < n \<Longrightarrow> k \<le> n \<Longrightarrow> (g + k) mod n = ring_add n g k"
  by (auto simp: ring_add_def mod_if)

definition fifo_wf :: "iw_fifo \<Rightarrow> bool" where
  "fifo_wf f \<longleftrightarrow> put_pos f < block_count f \<and> get_pos f < block_count f \<and>
     unat (block_count f) * unat (block_size f) \<le> length (block_pdata f) \<and>
     unat (block_count f) * unat (block_size f) < 2 ^ 32"

definition fifo_block :: "iw_fifo \<Rightarrow> nat \<Rightarrow> byte list" where
  "fifo_block f i = take (unat (block_size f)) (drop (i * unat (block_size f)) (block_pdata f))"

definition fifo_used :: "iw_fifo \<Rightarrow> nat" where
  "fifo_used f = ring_used (unat (block_count f)) (unat (put_pos f)) (unat (get_pos f))"

definition fifo_elems :: "iw_fifo \<Rightarrow> byte list list" where
  "fifo_elems f = map (\<lambda>k. fifo_block f (ring_add (unat (block_count f)) (unat (get_pos f)) k))
     [0..<fifo_used f]"

lemma fifo_wfD:
  assumes "fifo_wf f"
  shows "unat (put_pos f) < unat (block_count f)" "unat (get_pos f) < unat (block_count f)"
    "block_count f \<noteq> 0"
  using assms by (auto simp: fifo_wf_def word_less_nat_alt)

lemma next_pos:
  assumes "p < c"
  shows "unat ((p + 1) mod c :: 32 word) = ring_add (unat c) (unat p) 1"
proof -
  have "unat p < unat c" using assms by (simp add: word_less_nat_alt)
  moreover have "unat c < 2 ^ 32" using unsigned_less [of c, where ?'a = nat] by simp
  ultimately have "unat (p + 1) = unat p + 1"
    by (subst unat_add_lem [THEN iffD1]) auto
  then show ?thesis
    using \<open>unat p < unat c\<close> by (simp add: unat_mod_distrib ring_add_mod [symmetric])
qed

lemma block_offset:
  assumes "fifo_wf f" "p < block_count f"
  shows "unat (p * block_size f) = unat p * unat (block_size f)"
    "unat p * unat (block_size f) + unat (block_size f) \<le> length (block_pdata f)"
proof -
  have "Suc (unat p) * unat (block_size f) \<le> unat (block_count f) * unat (block_size f)"
    using assms(2) by (intro mult_right_mono) (auto simp: word_less_nat_alt)
  moreover have "unat (block_count f) * unat (block_size f) < 2 ^ 32"
    "unat (block_count f) * unat (block_size f) \<le> length (block_pdata f)"
    using assms(1) by (auto simp: fifo_wf_def)
  ultimately show "unat p * unat (block_size f) + unat (block_size f) \<le> length (block_pdata f)"
    and "unat (p * block_size f) = unat p * unat (block_size f)"
    by (auto simp: unat_mult_lem [THEN iffD1])
qed

definition fifo_enq :: "iw_fifo \<Rightarrow> byte list \<Rightarrow> iw_fifo option" where
  "fifo_enq f x = (case iw_put_fifo f x of Inr (IW_SUCCESS, f') \<Rightarrow> Some f' | _ \<Rightarrow> None)"

definition fifo_deq :: "iw_fifo \<Rightarrow> (byte list \<times> iw_fifo) option" where
  "fifo_deq f = (case iw_get_fifo f (replicate (unat (block_size f)) 0) of
      Inr (IW_SUCCESS, x, f') \<Rightarrow> Some (x, f') | _ \<Rightarrow> None)"

lemma take_drop_splice:
  assumes "length x = s" "a + s \<le> length d" "j + s \<le> a \<or> a + s \<le> j"
  shows "take s (drop j (take a d @ x @ drop (a + s) d)) = take s (drop j d)"
  using assms(3)
proof
  assume "j + s \<le> a"
  then show ?thesis using assms(1,2) by (auto simp: drop_take min_def)
next
  assume j: "a + s \<le> j"
  then have "drop j (take a d @ x @ drop (a + s) d) = drop j d"
    using assms(1,2) by simp
  then show ?thesis by simp
qed

lemma blocks_apart:
  fixes i p s :: nat
  assumes "i \<noteq> p"
  shows "i * s + s \<le> p * s \<or> p * s + s \<le> i * s"
  using assms mult_le_mono1 [of "Suc i" p s] mult_le_mono1 [of "Suc p" i s]
  by (cases "i < p") auto

lemma put_elems:
  assumes wf: "fifo_wf f" and len: "length x = unat (block_size f)"
    and room: "Suc (fifo_used f) < unat (block_count f)"
  shows "\<exists>f'. iw_put_fifo f x = Inr (IW_SUCCESS, f') \<and> fifo_wf f' \<and>
    block_count f' = block_count f \<and> block_size f' = block_size f \<and>
    fifo_elems f' = fifo_elems f @ [x]"
proof -
  let ?n = "unat (block_count f)" and ?p = "unat (put_pos f)" and ?g = "unat (get_pos f)"
    and ?s = "unat (block_size f)" and ?d = "block_pdata f"
  have lt: "?p < ?n" "?g < ?n" and nz: "block_count f \<noteq> 0" using fifo_wfD [OF wf] by auto
  define q where "q = (put_pos f + 1) mod block_count f"
  have p: "put_pos f < block_count f" using lt by (simp add: word_less_nat_alt)
  have q: "unat q = ring_add ?n ?p 1" using next_pos [OF p] by (simp add: q_def)
  define d where "d = take (?p * ?s) ?d @ x @ drop (?p * ?s + ?s) ?d"
  define f' where "f' = f\<lparr>block_pdata := d, put_pos := q\<rparr>"
  have "unat q \<noteq> ?g"
    using room lt by (auto simp: q fifo_used_def ring_used_def ring_add_def split: if_splits)
  then have ne: "get_pos f \<noteq> q" by auto
  have "inline_memcpy ?d (?p * ?s) x 0 ?s = Inr d"
    using block_offset [OF wf p] len by (subst inline_memcpy_ok) (auto simp: d_def)
  then have run: "iw_put_fifo f x = Inr (IW_SUCCESS, f')"
    using ne nz block_offset [OF wf p]
    by (simp add: iw_put_fifo_def IW_PUT_FIFO_NEXT_def IW_PUT_FIFO_PTR_def q_def f'_def)
  have ld: "length d = length ?d" using block_offset [OF wf p] len by (simp add: d_def)
  have wf': "fifo_wf f'"
    using wf ld nz by (simp add: fifo_wf_def f'_def q_def word_mod_less_divisor word_neq_0_conv)
  have used: "fifo_used f' = Suc (fifo_used f)"
    using room lt by (auto simp: fifo_used_def f'_def q ring_used_def ring_add_def)
  have new: "fifo_block f' (ring_add ?n ?g (fifo_used f)) = x"
  proof -
    have "ring_add ?n ?g (fifo_used f) = ?p" using lt by (auto simp: fifo_used_def ring_used_def ring_add_def)
    then show ?thesis using len block_offset [OF wf p] by (simp add: fifo_block_def f'_def d_def)
  qed
  have old: "fifo_block f' i = fifo_block f i" if "i \<noteq> ?p" for i
    using take_drop_splice [OF len block_offset(2) [OF wf p] blocks_apart [OF that(1)]]
    by (simp add: fifo_block_def f'_def d_def)
  have "ring_add ?n ?g k \<noteq> ?p" if "k < fifo_used f" for k
    using that lt by (auto simp: fifo_used_def ring_used_def ring_add_def split: if_splits)
  then have "fifo_elems f' = fifo_elems f @ [x]"
    using used new old by (simp add: fifo_elems_def f'_def)
  with run wf' show ?thesis by (auto simp: f'_def)
qed

lemma put_full:
  assumes wf: "fifo_wf f" and full: "Suc (fifo_used f) = unat (block_count f)"
  shows "iw_put_fifo f x = Inr (IW_FAIL, f)"
proof -
  note lt = fifo_wfD [OF wf]
  have "unat ((put_pos f + 1) mod block_count f) = unat (get_pos f)"
    using full lt next_pos [of "put_pos f" "block_count f"]
    by (auto simp: fifo_used_def ring_used_def ring_add_def word_less_nat_alt split: if_splits)
  then have "(put_pos f + 1) mod block_count f = get_pos f" by (simp add: word_unat_eq_iff)
  with lt show ?thesis by (simp add: iw_put_fifo_def IW_PUT_FIFO_NEXT_def)
qed

lemma get_elems:
  assumes wf: "fifo_wf f" and els: "fifo_elems f = x # xs" and buf: "length b = unat (block_size f)"
  shows "\<exists>f'. iw_get_fifo f b = Inr (IW_SUCCESS, x, f') \<and> fifo_wf f' \<and>
    block_count f' = block_count f \<and> block_size f' = block_size f \<and> fifo_elems f' = xs"
proof -
  let ?n = "unat (block_count f)" and ?p = "unat (put_pos f)" and ?g = "unat (get_pos f)"
  have lt: "?p < ?n" "?g < ?n" and nz: "block_count f \<noteq> 0" using fifo_wfD [OF wf] by auto
  define q where "q = (get_pos f + 1) mod block_count f"
  have g: "get_pos f < block_count f" using lt by (simp add: word_less_nat_alt)
  have q: "unat q = ring_add ?n ?g 1" using next_pos [OF g] by (simp add: q_def)
  define f' where "f' = f\<lparr>get_pos := q\<rparr>"
  obtain u where u: "fifo_used f = Suc u" using els by (cases "fifo_used f") (auto simp: fifo_elems_def)
  have x: "x = fifo_block f ?g"
    and xs: "xs = map (\<lambda>k. fifo_block f (ring_add ?n ?g (Suc k))) [0..<u]"
    using els lt unfolding fifo_elems_def u
    by (auto simp: ring_add_def upt_conv_Cons map_Suc_upt [symmetric] simp del: upt_Suc)
  have ne: "put_pos f \<noteq> get_pos f" using u by (auto simp: fifo_used_def ring_used_def)
  have "inline_memcpy b 0 (block_pdata f) (?g * unat (block_size f)) (unat (block_size f)) = Inr x"
    using block_offset [OF wf g] buf by (subst inline_memcpy_ok) (auto simp: x fifo_block_def)
  then have run: "iw_get_fifo f b = Inr (IW_SUCCESS, x, f')"
    using ne nz block_offset [OF wf g]
    by (simp add: iw_get_fifo_def IW_GET_FIFO_NEXT_def IW_GET_FIFO_PTR_def q_def f'_def)
  have "fifo_wf f'"
    using wf nz by (simp add: fifo_wf_def f'_def q_def word_mod_less_divisor word_neq_0_conv)
  moreover have "fifo_used f' = u"
    using u lt by (auto simp: fifo_used_def f'_def q ring_used_def ring_add_def split: if_splits)
  moreover have "ring_add ?n (unat q) k = ring_add ?n ?g (Suc k)" if "k < u" for k
    using that u lt by (auto simp: q ring_add_def fifo_used_def ring_used_def split: if_splits)
  ultimately have "fifo_wf f'" "fifo_elems f' = xs"
    by (auto simp: fifo_elems_def xs f'_def fifo_block_def)
  with run show ?thesis by (auto simp: f'_def)
qed

lemma get_empty: "fifo_elems f = [] \<Longrightarrow> fifo_wf f \<Longrightarrow> iw_get_fifo f b = Inr (IW_FAIL, b, f)"
  using fifo_wfD [of f]
  by (auto simp: fifo_elems_def fifo_used_def ring_used_def iw_get_fifo_def word_unat_eq_iff
      split: if_splits)

lemma length_fifo_elems [simp]: "length (fifo_elems f) = fifo_used f"
  by (simp add: fifo_elems_def)

lemma fifo_used_less: "fifo_wf f \<Longrightarrow> fifo_used f < unat (block_count f)"
  using fifo_wfD [of f] by (auto simp: fifo_used_def ring_used_def)

interpretation fifo: bounded_queue fifo_wf "\<lambda>f x. length x = unat (block_size f)" fifo_elems
  "\<lambda>f. unat (block_count f) - 1" fifo_enq fifo_deq
proof (unfold_locales, goal_cases)
  case (1 q)
  then show ?case using fifo_used_less [of q] by simp
next
  case (2 q x)
  then have "Suc (fifo_used q) < unat (block_count q)" by simp
  from put_elems [OF 2(1,2) this] show ?case by (auto simp: fifo_enq_def)
next
  case (3 q x)
  then show ?case using put_full [of q x] fifo_used_less [of q] by (auto simp: fifo_enq_def)
next
  case (4 q x xs)
  then show ?case
    using get_elems [of q x xs "replicate (unat (block_size q)) 0"] by (auto simp: fifo_deq_def)
next
  case (5 q)
  then show ?case by (simp add: fifo_deq_def get_empty)
qed

section \<open>Properties\<close>

lemma fifo_init:
  assumes "0 < cnt" "unat cnt * unat sz \<le> length d" "unat cnt * unat sz < 2 ^ 32"
  shows "fifo_wf (iw_init_fifo d sz cnt)" "fifo_elems (iw_init_fifo d sz cnt) = []"
  using assms
  by (auto simp: fifo_wf_def iw_init_fifo_def fifo_elems_def fifo_used_def ring_used_def)

text \<open>
  C15. A ring buffer initialised with \<open>cnt\<close> blocks takes any \<open>cnt - 1\<close> blocks or
  fewer, gives them back in the order they came, and is then empty; it refuses a sequence of
  \<open>cnt\<close> blocks or more.
\<close>

theorem fifo_first_in_first_out:
  assumes "0 < cnt" "unat cnt * unat sz \<le> length d" "unat cnt * unat sz < 2 ^ 32"
    and "\<forall>x\<in>set xs. length x = unat sz"
  shows "if length xs < unat cnt
    then \<exists>f f'. enq_all fifo_enq (iw_init_fifo d sz cnt) xs = Some f \<and>
      deq_n fifo_deq (length xs) f = Some (xs, f') \<and> fifo_deq f' = None
    else enq_all fifo_enq (iw_init_fifo d sz cnt) xs = None"
proof -
  let ?f = "iw_init_fifo d sz cnt"
  have sz: "length x = unat (block_size ?f)" if "x \<in> set xs" for x
    using assms(4) that by (simp add: iw_init_fifo_def)
  have cap: "unat (block_count ?f) - 1 < length xs \<longleftrightarrow> \<not> length xs < unat cnt"
    using assms(1) by (auto simp: iw_init_fifo_def word_less_nat_alt)
  show ?thesis
    using fifo.first_in_first_out [OF fifo_init [OF assms(1-3)] sz]
      fifo.enq_all_full [OF fifo_init [OF assms(1-3)] sz] cap by auto
qed

lemma fifo_first_in_first_out_witness:
  "enq_all fifo_enq (iw_init_fifo (replicate 15 0) 5 3) [[1, 2, 3, 4, 5], [6, 7, 8, 9, 10], [0, 0, 0, 0, 0]]
     = None \<and>
   (\<exists>f f'. enq_all fifo_enq (iw_init_fifo (replicate 15 0) 5 3) [[1, 2, 3, 4, 5], [6, 7, 8, 9, 10]] = Some f
     \<and> deq_n fifo_deq (length [[1::byte, 2, 3, 4, 5], [6, 7, 8, 9, 10]]) f = Some ([[1, 2, 3, 4, 5], [6, 7, 8, 9, 10]], f') \<and> fifo_deq f' = None)"
  using fifo_first_in_first_out
      [of 3 5 "replicate 15 0" "[[1, 2, 3, 4, 5], [6, 7, 8, 9, 10], [0, 0, 0, 0, 0]]"]
    fifo_first_in_first_out [of 3 5 "replicate 15 0" "[[1, 2, 3, 4, 5], [6, 7, 8, 9, 10]]"]
  by (simp del: enq_all.simps deq_n.simps)

text \<open>
  On a well-formed ring buffer \<^verbatim>\<open>iw_count_fifo\<close> is the number of blocks stored, also
  when the put position has wrapped behind the get position, and \<^verbatim>\<open>iw_flush_fifo\<close> leaves a
  well-formed empty buffer.
\<close>

theorem fifo_count_and_flush:
  assumes "fifo_wf f"
  shows "unat (iw_count_fifo f) = length (fifo_elems f) \<and>
    (\<exists>f'. iw_flush_fifo f = (IW_SUCCESS, f') \<and> fifo_wf f' \<and> fifo_elems f' = [])"
proof -
  note lt = fifo_wfD [OF assms]
  have "unat (iw_count_fifo f) = fifo_used f"
  proof (cases "get_pos f \<le> put_pos f")
    case True
    then show ?thesis
      by (auto simp: iw_count_fifo_def fifo_used_def ring_used_def word_le_nat_alt word_less_nat_alt
          unat_sub word_unat_eq_iff)
  next
    case False
    have e: "put_pos f + block_count f - get_pos f = put_pos f + (block_count f - get_pos f)" by simp
    have d: "unat (block_count f - get_pos f) = unat (block_count f) - unat (get_pos f)"
      using lt by (intro unat_sub) (simp add: word_le_nat_alt)
    have b: "unat (put_pos f) + (unat (block_count f) - unat (get_pos f)) < 2 ^ 32"
      using lt False unsigned_less [of "block_count f", where ?'a = nat]
      by (simp add: word_le_nat_alt)
    have "unat (put_pos f + block_count f - get_pos f)
        = unat (put_pos f) + (unat (block_count f) - unat (get_pos f))"
      unfolding e using b d by (subst unat_add_lem [THEN iffD1]) simp_all
    then show ?thesis
      using False lt by (auto simp: iw_count_fifo_def fifo_used_def ring_used_def word_le_nat_alt
          word_less_nat_alt)
  qed
  then show ?thesis
    using assms by (auto simp: iw_flush_fifo_def fifo_wf_def fifo_elems_def fifo_used_def ring_used_def)
qed

lemma fifo_count_and_flush_witness:
  "unat (iw_count_fifo \<lparr>put_pos = 1, get_pos = 3, block_size = 1, block_count = 4,
      block_pdata = [0, 0, 0, 0]\<rparr>) = 2"
  using fifo_count_and_flush [of "\<lparr>put_pos = 1, get_pos = 3, block_size = 1, block_count = 4,
      block_pdata = [0, 0, 0, 0]\<rparr>"]
  by (simp add: fifo_wf_def fifo_used_def ring_used_def)

end
