(* ===== verification/LwmTypes.thy ===== *)
theory LwmTypes
  imports Prelude
begin

text \<open>
  The light weight message of \<^verbatim>\<open>SIFW/iw_fw_lwMsgUtils.[ch]\<close>: objects, dictionaries and
  messages, how they are built, read and deleted, and the counters and names of the sending side.

  Arrays and dictionaries are linked lists that grow at the head (theory \<open>OalList\<close>); here
  they are HOL lists in the order \<^verbatim>\<open>LIST_FOREACH\<close> visits, so an insertion is a cons. Their
  8-bit node counter is \<open>node_num\<close>. Allocation is taken to succeed. The stores through NULL that
  \<^verbatim>\<open>iw_add_list_node\<close> makes for the first node of a list and \<^verbatim>\<open>iw_remove_list_node\<close> for the last one
  are taken to pass without effect: the theorem on \<open>dict_put\<close> is about what the dictionary holds. \<open>OalList\<close> says exactly when such a store is
  made, and \<open>LwmParse\<close> and \<open>ServiceMacros\<close> what becomes of the parser and of the creation of a service where it faults.
\<close>

section \<open>Data\<close>

type_synonym param_type = "32 word"

abbreviation "eP_INT8 \<equiv> (1 :: param_type)"
abbreviation "eP_UINT8 \<equiv> (2 :: param_type)"
abbreviation "eP_INT16 \<equiv> (4 :: param_type)"
abbreviation "eP_UINT16 \<equiv> (8 :: param_type)"
abbreviation "eP_INT32 \<equiv> (16 :: param_type)"
abbreviation "eP_UINT32 \<equiv> (32 :: param_type)"
abbreviation "eP_FLOAT \<equiv> (64 :: param_type)"
abbreviation "eP_DOUBLE \<equiv> (65 :: param_type)"
abbreviation "eP_STRING \<equiv> (66 :: param_type)"
abbreviation "eP_DECIMAL \<equiv> (0x3F :: param_type)"
abbreviation "eP_UNKNOWN \<equiv> (0xFFFF :: param_type)"

definition IS_DECIMAL :: "param_type \<Rightarrow> bool" where
  "IS_DECIMAL d \<longleftrightarrow> d = and d eP_DECIMAL"

text \<open>A number: the bytes its value pointer leads to (\<open>None\<close> for NULL), and their type.\<close>

record lwm_number =
  num_value :: "byte list option"
  num_type :: param_type

datatype lwm_object =
    LWM_Unknown
  | LWM_Number "lwm_number option"
  | LWM_String cstring_ptr
  | LWM_Array "lwm_object list"
  | LWM_Dictionary "(cstring \<times> lwm_object) list"

type_synonym lwm_dict = "(cstring \<times> lwm_object) list"

record lwm_message =
  header :: lwm_dict
  body :: lwm_dict

definition node_num :: "'a list \<Rightarrow> nat" where
  "node_num xs = length xs mod 256"

section \<open>Little-endian words in memory\<close>

fun le_bytes :: "nat \<Rightarrow> nat \<Rightarrow> byte list" where
  "le_bytes 0 v = []"
| "le_bytes (Suc k) v = of_nat (v mod 256) # le_bytes k (v div 256)"

fun le_value :: "byte list \<Rightarrow> nat" where
  "le_value [] = 0"
| "le_value (b # bs) = unat b + 256 * le_value bs"

text \<open>\<^verbatim>\<open>*(T *)p\<close> for a type of \<open>k\<close> bytes.\<close>

definition load :: "nat \<Rightarrow> byte list option \<Rightarrow> nat res" where
  "load k p = rbind (deref p) (\<lambda>bs. if k \<le> length bs then Inr (le_value (take k bs)) else Inl Out_of_bounds)"

definition load_u32 :: "byte list option \<Rightarrow> 32 word res" where
  "load_u32 p = rbind (load 4 p) (\<lambda>v. Inr (of_nat v))"

definition bytes_of_u32 :: "32 word \<Rightarrow> byte list" where
  "bytes_of_u32 w = le_bytes 4 (unat w)"

lemma length_le_bytes [simp]: "length (le_bytes k v) = k"
  by (induction k arbitrary: v) auto

lemma le_value_le_bytes: "le_value (le_bytes k v) = v mod 256 ^ k"
proof (induction k arbitrary: v)
  case (Suc k)
  have "unat (of_nat (v mod 256) :: byte) = v mod 256"
    by (simp add: unsigned_of_nat take_bit_eq_mod)
  then show ?case using Suc by (simp add: mod_mult2_eq)
qed simp

lemma load_u32_bytes [lwm_simps]: "load_u32 (Some (bytes_of_u32 w)) = Inr w"
proof -
  have "unat w < 2 ^ 32" using unsigned_less [of w, where ?'a = nat] by simp
  then show ?thesis by (simp add: load_u32_def load_def bytes_of_u32_def le_value_le_bytes)
qed

section \<open>Objects\<close>

datatype lwmsg_data_type =
  eLWM_Unknown | eLWM_Number | eLWM_String | eLWM_Array | eLWM_Dictionary

fun lwm_type :: "lwm_object \<Rightarrow> lwmsg_data_type" where
  "lwm_type LWM_Unknown = eLWM_Unknown"
| "lwm_type (LWM_Number _) = eLWM_Number"
| "lwm_type (LWM_String _) = eLWM_String"
| "lwm_type (LWM_Array _) = eLWM_Array"
| "lwm_type (LWM_Dictionary _) = eLWM_Dictionary"

fun new_lwm_empty_object :: "lwmsg_data_type \<Rightarrow> lwm_object" where
  "new_lwm_empty_object eLWM_Number = LWM_Number (Some \<lparr>num_value = None, num_type = 0\<rparr>)"
| "new_lwm_empty_object eLWM_String = LWM_String None"
| "new_lwm_empty_object eLWM_Unknown = LWM_Unknown"
| "new_lwm_empty_object eLWM_Array = LWM_Array []"
| "new_lwm_empty_object eLWM_Dictionary = LWM_Dictionary []"

definition new_lwm_empty_object_for_ms :: "param_type \<Rightarrow> lwm_object option" where
  "new_lwm_empty_object_for_ms t =
     (if IS_DECIMAL t \<or> t = eP_FLOAT \<or> t = eP_DOUBLE then Some (new_lwm_empty_object eLWM_Number)
      else if t = eP_STRING then Some (new_lwm_empty_object eLWM_String)
      else None)"

definition new_lwm_string_object :: "cstring_ptr \<Rightarrow> lwm_object" where
  "new_lwm_string_object s = (case s of
      None \<Rightarrow> new_lwm_empty_object eLWM_String
    | Some str \<Rightarrow> LWM_String (Some str))"

definition set_lwm_string :: "lwm_object option \<Rightarrow> cstring_ptr \<Rightarrow> lwm_object option" where
  "set_lwm_string obj s = (case (obj, s) of
      (Some (LWM_String _), Some str) \<Rightarrow> Some (LWM_String (Some str))
    | _ \<Rightarrow> obj)"

text \<open>\<^verbatim>\<open>set_lwm_int\<close> and \<^verbatim>\<open>set_lwm_float\<close>: the value gets fresh memory of four bytes.\<close>

definition set_lwm_number :: "param_type \<Rightarrow> lwm_object option \<Rightarrow> 32 word \<Rightarrow> lwm_object option" where
  "set_lwm_number t obj v = (case obj of
      Some (LWM_Number _) \<Rightarrow>
        Some (LWM_Number (Some \<lparr>num_value = Some (bytes_of_u32 v), num_type = t\<rparr>))
    | _ \<Rightarrow> obj)"

definition set_lwm_int :: "lwm_object option \<Rightarrow> 32 word \<Rightarrow> lwm_object option" where
  "set_lwm_int = set_lwm_number eP_INT32"

definition set_lwm_float :: "lwm_object option \<Rightarrow> 32 word \<Rightarrow> lwm_object option" where
  "set_lwm_float = set_lwm_number eP_FLOAT"

definition get_lwm_string_value :: "lwm_object option \<Rightarrow> cstring_ptr" where
  "get_lwm_string_value obj = (case obj of Some (LWM_String s) \<Rightarrow> s | _ \<Rightarrow> None)"

definition get_lwm_int_value :: "lwm_object option \<Rightarrow> 32 word res" where
  "get_lwm_int_value obj = (case obj of
      Some (LWM_Number n) \<Rightarrow> rbind (deref n) (\<lambda>n. load_u32 (num_value n))
    | _ \<Rightarrow> Inr 0)"

text \<open>
  The table of sizes \<^verbatim>\<open>_get_size_of_type\<close> is declared \<^verbatim>\<open>extern\<close> and defined nowhere in
  the repository: it is the parameter \<open>size_of_type\<close>. The result is the buffer afterwards.
\<close>

definition get_lwm_number ::
  "(param_type \<Rightarrow> nat) \<Rightarrow> lwm_object option \<Rightarrow> byte list \<Rightarrow> byte list res" where
  "get_lwm_number size_of_type obj buf = (case obj of
      Some (LWM_Number (Some n)) \<Rightarrow>
        (let sz = size_of_type (num_type n) in
         if sz = 0 then Inr buf
         else rbind (deref (num_value n)) (\<lambda>bs.
           if sz \<le> length bs \<and> sz \<le> length buf then Inr (take sz bs @ drop sz buf)
           else Inl Out_of_bounds))
    | _ \<Rightarrow> Inr buf)"

section \<open>Dictionaries\<close>

fun dict_lookup :: "lwm_dict \<Rightarrow> cstring \<Rightarrow> lwm_object option" where
  "dict_lookup [] k = None"
| "dict_lookup ((k', v) # d) k = (if k' = k then Some v else dict_lookup d k)"

definition get_lwm_object_from_dict :: "lwm_dict option \<Rightarrow> cstring_ptr \<Rightarrow> lwm_object option" where
  "get_lwm_object_from_dict d k = (case (d, k) of
      (Some d, Some k) \<Rightarrow> dict_lookup d k
    | _ \<Rightarrow> None)"

fun delete_lwm_kvo_by_key :: "lwm_dict \<Rightarrow> cstring \<Rightarrow> lwm_dict" where
  "delete_lwm_kvo_by_key [] k = []"
| "delete_lwm_kvo_by_key ((k', v) # d) k =
     (if k' = k then d else (k', v) # delete_lwm_kvo_by_key d k)"

definition dict_put :: "lwm_dict \<Rightarrow> cstring \<Rightarrow> lwm_object \<Rightarrow> lwm_dict" where
  "dict_put d k v = (k, v) # delete_lwm_kvo_by_key d k"

definition set_lwm_object_to_dict ::
  "lwm_dict option \<Rightarrow> cstring_ptr \<Rightarrow> lwm_object option \<Rightarrow> lwm_dict option" where
  "set_lwm_object_to_dict d k v = (case (d, k, v) of
      (Some d, Some k, Some v) \<Rightarrow> Some (dict_put d k v)
    | _ \<Rightarrow> d)"

definition add_lwm_object_to_array :: "lwm_object list option \<Rightarrow> lwm_object option \<Rightarrow> lwm_object list option" where
  "add_lwm_object_to_array arr v = (case (arr, v) of
      (Some xs, Some x) \<Rightarrow> Some (x # xs)
    | _ \<Rightarrow> arr)"

text \<open>The contract of a keyed store: what was put last under a key is what a lookup finds.\<close>

locale keyed_store =
  fixes inv :: "'s \<Rightarrow> bool"
    and lookup :: "'s \<Rightarrow> 'k \<Rightarrow> 'v option"
    and put :: "'s \<Rightarrow> 'k \<Rightarrow> 'v \<Rightarrow> 's"
    and remove :: "'s \<Rightarrow> 'k \<Rightarrow> 's"
  assumes lookup_put: "inv s \<Longrightarrow> lookup (put s k v) k' = (if k' = k then Some v else lookup s k')"
    and lookup_remove: "inv s \<Longrightarrow> lookup (remove s k) k' = (if k' = k then None else lookup s k')"
    and inv_put: "inv s \<Longrightarrow> inv (put s k v)"
    and inv_remove: "inv s \<Longrightarrow> inv (remove s k)"
begin

lemma lookup_put_all:
  "inv s \<Longrightarrow> inv (foldl (\<lambda>s (k, v). put s k v) s kvs) \<and>
    lookup (foldl (\<lambda>s (k, v). put s k v) s kvs) k =
      (case map_of (rev kvs) k of Some v \<Rightarrow> Some v | None \<Rightarrow> lookup s k)"
proof (induction kvs arbitrary: s)
  case (Cons kv kvs)
  obtain j w where kv: "kv = (j, w)" by (cases kv)
  show ?case
    using Cons.IH [OF inv_put [OF Cons.prems, of j w]] lookup_put [OF Cons.prems, of j w k]
    by (auto simp: kv map_add_def split: option.splits)
qed simp

lemma put_commute:
  "inv s \<Longrightarrow> j \<noteq> k \<Longrightarrow> lookup (put (put s j v) k w) i = lookup (put (put s k w) j v) i"
  by (simp add: lookup_put inv_put)

lemma remove_put: "inv s \<Longrightarrow> lookup s k = None \<Longrightarrow> lookup (remove (put s k v) k) i = lookup s i"
  by (simp add: lookup_put lookup_remove inv_put)

end

definition dict_wf :: "lwm_dict \<Rightarrow> bool" where
  "dict_wf d \<longleftrightarrow> distinct (map fst d)"

lemma dict_lookup_map_of: "dict_lookup d k = map_of d k"
  by (induction d k rule: dict_lookup.induct) auto

lemma delete_kvo_notin [lwm_simps]: "k \<notin> set (map fst d) \<Longrightarrow> delete_lwm_kvo_by_key d k = d"
  by (induction d k rule: delete_lwm_kvo_by_key.induct) auto

lemma set_delete_kvo:
  "dict_wf d \<Longrightarrow> set (map fst (delete_lwm_kvo_by_key d k)) = set (map fst d) - {k}"
  by (induction d k rule: delete_lwm_kvo_by_key.induct) (auto simp: dict_wf_def)

lemma dict_wf_delete [lwm_simps]: "dict_wf d \<Longrightarrow> dict_wf (delete_lwm_kvo_by_key d k)"
proof (induction d k rule: delete_lwm_kvo_by_key.induct)
  case (2 k' v d k)
  then have "dict_wf d" "k' \<notin> set (map fst d)" by (auto simp: dict_wf_def)
  with 2 set_delete_kvo [of d k] show ?case by (auto simp: dict_wf_def)
qed simp

lemma dict_lookup_delete:
  "dict_wf d \<Longrightarrow> dict_lookup (delete_lwm_kvo_by_key d k) k' = (if k' = k then None else dict_lookup d k')"
  by (induction d k rule: delete_lwm_kvo_by_key.induct)
    (force simp: dict_wf_def dict_lookup_map_of map_of_eq_None_iff)+

lemma dict_wf_put [lwm_simps]: "dict_wf d \<Longrightarrow> dict_wf (dict_put d k v)"
  using set_delete_kvo [of d k] dict_wf_delete [of d k] by (auto simp: dict_wf_def dict_put_def)

interpretation dict: keyed_store dict_wf dict_lookup dict_put delete_lwm_kvo_by_key
  by unfold_locales (auto simp: dict_put_def dict_lookup_delete lwm_simps
      dict_wf_put [unfolded dict_put_def])

section \<open>Messages\<close>

definition new_lwm_empty_message :: lwm_message where
  "new_lwm_empty_message = \<lparr>header = [], body = []\<rparr>"

definition lwm_u32 :: "32 word \<Rightarrow> lwm_object" where
  "lwm_u32 w = LWM_Number (Some \<lparr>num_value = Some (bytes_of_u32 w), num_type = eP_UINT32\<rparr>)"

definition set_header :: "cstring \<Rightarrow> lwm_object \<Rightarrow> lwm_message \<Rightarrow> lwm_message" where
  "set_header k v m = m\<lparr>header := dict_put (header m) k v\<rparr>"

definition set_body :: "cstring \<Rightarrow> lwm_object \<Rightarrow> lwm_message \<Rightarrow> lwm_message" where
  "set_body k v m = m\<lparr>body := dict_put (body m) k v\<rparr>"

definition new_lwm_req_message :: "32 word \<Rightarrow> cstring_ptr \<Rightarrow> cstring_ptr \<Rightarrow> lwm_message" where
  "new_lwm_req_message ifid dri di =
     (let m = set_header ''if'' (lwm_u32 ifid) new_lwm_empty_message;
          m = (case dri of None \<Rightarrow> m | Some _ \<Rightarrow> set_header ''dri'' (new_lwm_string_object dri) m)
      in (case di of None \<Rightarrow> m | Some _ \<Rightarrow> set_header ''di'' (new_lwm_string_object di) m))"

definition new_lwm_resp_message :: "cstring_ptr \<Rightarrow> 32 word \<Rightarrow> lwm_message" where
  "new_lwm_resp_message dri rsc =
     (let m = new_lwm_empty_message;
          m = (case dri of None \<Rightarrow> m | Some _ \<Rightarrow> set_header ''dri'' (new_lwm_string_object dri) m)
      in if rsc \<noteq> 0 then set_header ''rsc'' (lwm_u32 rsc) m else m)"

definition get_lwm_interface_id :: "lwm_message \<Rightarrow> 32 word res" where
  "get_lwm_interface_id m = (case dict_lookup (header m) ''if'' of
      Some (LWM_Number (Some n)) \<Rightarrow>
        (if num_type n = eP_UINT32 then load_u32 (num_value n) else Inr 0)
    | _ \<Rightarrow> Inr 0)"

definition get_lwm_dri :: "lwm_message \<Rightarrow> cstring_ptr" where
  "get_lwm_dri m = (case dict_lookup (header m) ''dri'' of
      Some (LWM_String s) \<Rightarrow> s
    | _ \<Rightarrow> None)"

section \<open>The state of the sending side\<close>

record lwm_state =
  lwmsg_tx_dri :: int
  lwmsg_tx_dri_str :: cstring
  lwmsg_di_str :: cstring
  network_enabled :: bool

definition lwm_state0 :: lwm_state where
  "lwm_state0 = \<lparr>lwmsg_tx_dri = 1, lwmsg_tx_dri_str = [], lwmsg_di_str = [], network_enabled = False\<rparr>"

text \<open>\<^verbatim>\<open>sprintf\<close> and \<^verbatim>\<open>strcpy\<close> write past a buffer of \<open>cap\<close> bytes when the string does not fit.\<close>

definition store_cstring :: "nat \<Rightarrow> cstring \<Rightarrow> cstring res" where
  "store_cstring cap s = (if length s < cap then Inr s else Inl Out_of_bounds)"

definition get_lwm_tx_dri :: "lwm_state \<Rightarrow> (cstring \<times> lwm_state) res" where
  "get_lwm_tx_dri st =
     rbind (store_cstring 10 (show_int (lwmsg_tx_dri st))) (\<lambda>s.
       let n = lwmsg_tx_dri st + 1 in
       Inr (s, st\<lparr>lwmsg_tx_dri_str := s, lwmsg_tx_dri := (if 99999900 < n then 1 else n)\<rparr>))"

definition set_lwm_di :: "cstring \<Rightarrow> lwm_state \<Rightarrow> (bool \<times> lwm_state) res" where
  "set_lwm_di di st =
     (if 14 < length di then Inr (False, st)
      else rbind (store_cstring 15 di) (\<lambda>s. Inr (True, st\<lparr>lwmsg_di_str := s\<rparr>)))"

definition get_lwm_di :: "lwm_state \<Rightarrow> cstring" where
  "get_lwm_di st = lwmsg_di_str st"

definition get_lwmsg_network_enabled :: "lwm_state \<Rightarrow> bool" where
  "get_lwmsg_network_enabled st = network_enabled st"

definition set_lwmsg_network_enabled :: "bool \<Rightarrow> lwm_state \<Rightarrow> lwm_state" where
  "set_lwmsg_network_enabled b st = st\<lparr>network_enabled := b\<rparr>"

definition lwm_state_wf :: "lwm_state \<Rightarrow> bool" where
  "lwm_state_wf st \<longleftrightarrow> 1 \<le> lwmsg_tx_dri st \<and> lwmsg_tx_dri st \<le> 99999900 \<and>
     length (lwmsg_di_str st) < 15 \<and> length (lwmsg_tx_dri_str st) < 10"

section \<open>Deletion\<close>

text \<open>
  How many blocks of memory an object occupies, and how many \<^verbatim>\<open>delete_lwm_object\<close> gives
  back. The loops over the lists stop when the 8-bit counter is 0.
\<close>

fun object_blocks :: "lwm_object \<Rightarrow> nat" where
  "object_blocks LWM_Unknown = 1"
| "object_blocks (LWM_Number n) = 1 + (case n of None \<Rightarrow> 0 | Some n \<Rightarrow> 1 + (if num_value n = None then 0 else 1))"
| "object_blocks (LWM_String s) = 1 + (if s = None then 0 else 1)"
| "object_blocks (LWM_Array xs) = 1 + (1 + sum_list (map (\<lambda>x. 1 + object_blocks x) xs))"
| "object_blocks (LWM_Dictionary d) = 1 + (1 + sum_list (map (\<lambda>(k, v). 3 + object_blocks v) d))"

fun delete_lwm_object :: "lwm_object \<Rightarrow> nat" where
  "delete_lwm_object LWM_Unknown = 1"
| "delete_lwm_object (LWM_Number n) = 1 + (case n of None \<Rightarrow> 0 | Some n \<Rightarrow> 1 + (if num_value n = None then 0 else 1))"
| "delete_lwm_object (LWM_String s) = 1 + (if s = None then 0 else 1)"
| "delete_lwm_object (LWM_Array xs) =
     1 + (1 + sum_list (take (node_num xs) (map (\<lambda>x. 1 + delete_lwm_object x) xs)))"
| "delete_lwm_object (LWM_Dictionary d) =
     1 + (1 + sum_list (take (node_num d) (map (\<lambda>(k, v). 3 + delete_lwm_object v) d)))"

text \<open>\<^verbatim>\<open>_delete_lwm_kvo\<close>: the blocks given back and what is left of the dictionary.\<close>

definition delete_lwm_kvo :: "lwm_dict \<Rightarrow> nat \<times> lwm_dict" where
  "delete_lwm_kvo d =
     (sum_list (take (node_num d) (map (\<lambda>(k, v). 3 + delete_lwm_object v) d)), drop (node_num d) d)"

text \<open>
  \<^verbatim>\<open>_delete_lwm_keyvalue_object\<close>, \<^verbatim>\<open>_delete_lwm_dictionary\<close> and
  \<^verbatim>\<open>_delete_lwm_array\<close>: an entry is given back with its key, a list with its nodes.
\<close>

definition delete_lwm_keyvalue_object :: "cstring \<times> lwm_object \<Rightarrow> nat" where
  "delete_lwm_keyvalue_object kvo = delete_lwm_object (snd kvo) + 1 + 1"

definition delete_lwm_dictionary :: "lwm_dict \<Rightarrow> nat" where
  "delete_lwm_dictionary d = fst (delete_lwm_kvo d) + 1"

definition delete_lwm_array :: "lwm_object list \<Rightarrow> nat" where
  "delete_lwm_array xs = sum_list (take (node_num xs) (map (\<lambda>x. delete_lwm_object x + 1) xs)) + 1"

lemma delete_lwm_parts:
  "delete_lwm_object (LWM_Array xs) = 1 + delete_lwm_array xs"
  "delete_lwm_object (LWM_Dictionary d) = 1 + delete_lwm_dictionary d"
  "delete_lwm_kvo d = (sum_list (take (node_num d) (map (\<lambda>kvo. 1 + delete_lwm_keyvalue_object kvo) d)), drop (node_num d) d)"
  by (simp_all add: delete_lwm_array_def delete_lwm_dictionary_def delete_lwm_kvo_def delete_lwm_keyvalue_object_def
      case_prod_beta' eval_nat_numeral)

definition delete_lwm_message :: "lwm_message \<Rightarrow> nat" where
  "delete_lwm_message m = fst (delete_lwm_kvo (header m)) + fst (delete_lwm_kvo (body m)) + 1"

definition dict_blocks :: "lwm_dict \<Rightarrow> nat" where
  "dict_blocks d = sum_list (map (\<lambda>(k, v). 3 + object_blocks v) d)"

definition message_blocks :: "lwm_message \<Rightarrow> nat" where
  "message_blocks m = dict_blocks (header m) + dict_blocks (body m) + 1"

fun small_object :: "lwm_object \<Rightarrow> bool" where
  "small_object (LWM_Array xs) \<longleftrightarrow> length xs < 256 \<and> list_all small_object xs"
| "small_object (LWM_Dictionary d) \<longleftrightarrow> length d < 256 \<and> list_all (\<lambda>(k, v). small_object v) d"
| "small_object _ \<longleftrightarrow> True"

definition small_dict :: "lwm_dict \<Rightarrow> bool" where
  "small_dict d \<longleftrightarrow> small_object (LWM_Dictionary d)"

lemma delete_small: "small_object obj \<Longrightarrow> delete_lwm_object obj = object_blocks obj"
proof (induction obj rule: small_object.induct)
  case (1 xs)
  then have "map (\<lambda>x. 1 + delete_lwm_object x) xs = map (\<lambda>x. 1 + object_blocks x) xs"
    by (auto simp: list_all_iff)
  then show ?case using 1 by (simp add: node_num_def del: map_eq_conv)
next
  case (2 d)
  then have "map (\<lambda>(k, v). 3 + delete_lwm_object v) d = map (\<lambda>(k, v). 3 + object_blocks v) d"
    by (auto simp: list_all_iff split: prod.splits)
  then show ?case using 2 by (simp add: node_num_def del: map_eq_conv)
qed auto

lemma delete_kvo_small: "small_dict d \<Longrightarrow> delete_lwm_kvo d = (dict_blocks d, [])"
  using delete_small [of "LWM_Dictionary d"]
  by (simp add: small_dict_def delete_lwm_kvo_def dict_blocks_def node_num_def)

section \<open>Properties\<close>

text \<open>
  C29. A dictionary built by any sequence of \<^verbatim>\<open>set_lwm_object_to_dict\<close> answers a lookup
  with the value set last under the key, keeps its keys distinct, and no longer finds a key after
  \<^verbatim>\<open>_delete_lwm_kvo_by_key\<close>.
\<close>

theorem dict_last_write_wins:
  assumes "dict_wf d"
  shows "dict_lookup (foldl (\<lambda>d (k, v). dict_put d k v) d kvs) k =
      (case map_of (rev kvs) k of Some v \<Rightarrow> Some v | None \<Rightarrow> dict_lookup d k) \<and>
    dict_wf (foldl (\<lambda>d (k, v). dict_put d k v) d kvs) \<and>
    dict_lookup (delete_lwm_kvo_by_key (foldl (\<lambda>d (k, v). dict_put d k v) d kvs) k) k = None"
  using dict.lookup_put_all [OF assms, of kvs k] by (simp add: dict_lookup_delete)

lemma dict_last_write_wins_witness:
  "dict_lookup (foldl (\<lambda>d (k, v). dict_put d k v) []
     [(''a'', LWM_Unknown), (''b'', LWM_String None), (''a'', LWM_Array [])]) ''a'' = Some (LWM_Array [])"
  using dict_last_write_wins
      [of "[]" "[(''a'', LWM_Unknown), (''b'', LWM_String None), (''a'', LWM_Array [])]" "''a''"]
  by (simp add: dict_wf_def)

text \<open>
  A request message carries its interface id, dri and di, and a response message its
  response code and dri; a response has no interface id.
\<close>

theorem new_message_fields:
  "get_lwm_interface_id (new_lwm_req_message i dri di) = Inr i \<and>
   get_lwm_dri (new_lwm_req_message i dri di) = dri \<and>
   get_lwm_string_value (dict_lookup (header (new_lwm_req_message i dri di)) ''di'') = di \<and>
   get_lwm_interface_id (new_lwm_resp_message dri r) = Inr 0 \<and>
   get_lwm_dri (new_lwm_resp_message dri r) = dri \<and>
   get_lwm_int_value (dict_lookup (header (new_lwm_resp_message dri r)) ''rsc'') = Inr r"
  by (cases dri; cases di; cases "r = 0")
    (simp_all add: new_lwm_req_message_def new_lwm_resp_message_def new_lwm_empty_message_def
      set_header_def dict_put_def get_lwm_interface_id_def get_lwm_dri_def lwm_u32_def
      get_lwm_string_value_def get_lwm_int_value_def new_lwm_string_object_def
      lwm_simps Let_def)

text \<open>
  From the initial state on, \<^verbatim>\<open>get_lwm_tx_dri\<close> writes the decimal form of the
  counter, never past its 10-byte buffer, and keeps the counter between 1 and 99999900;
  \<^verbatim>\<open>set_lwm_di\<close> never writes past the 15-byte device id and changes it exactly when the
  new id has at most 14 characters.
\<close>

theorem tx_dri_and_di_bounded:
  assumes "lwm_state_wf st"
  shows "(\<exists>s st'. get_lwm_tx_dri st = Inr (s, st') \<and> lwm_state_wf st' \<and> length s \<le> 8 \<and>
      atoi s = lwmsg_tx_dri st \<and> lwmsg_di_str st' = lwmsg_di_str st) \<and>
    (\<exists>st'. set_lwm_di di st = Inr (length di \<le> 14, st') \<and> lwm_state_wf st' \<and>
      get_lwm_di st' = (if length di \<le> 14 then di else get_lwm_di st)) \<and>
    lwm_state_wf lwm_state0"
proof -
  let ?n = "nat (lwmsg_tx_dri st)"
  have n: "1 \<le> lwmsg_tx_dri st" "lwmsg_tx_dri st \<le> 99999900"
    using assms by (auto simp: lwm_state_wf_def)
  have d: "show_int (lwmsg_tx_dri st) = dec_digits ?n" using n by (simp add: show_int_def)
  have "length (dec_digits ?n) \<le> 8 \<longleftrightarrow> ?n < 10 ^ 8" by (rule length_dec_digits) simp
  then have len: "length (dec_digits ?n) \<le> 8" using n by simp
  have "atoi (dec_digits ?n) = lwmsg_tx_dri st" using n by (simp add: atoi_def)
  then show ?thesis
    using assms n len
    by (auto simp: get_lwm_tx_dri_def d store_cstring_def lwm_state_wf_def set_lwm_di_def
        get_lwm_di_def lwm_state0_def Let_def)
qed

lemma tx_dri_and_di_bounded_witness:
  "\<exists>s st'. get_lwm_tx_dri lwm_state0 = Inr (s, st') \<and> length s \<le> 8 \<and> atoi s = 1"
  using tx_dri_and_di_bounded [of lwm_state0 "[]"]
  by (auto simp: lwm_state_wf_def lwm_state0_def)

text \<open>
  \<^verbatim>\<open>delete_lwm_message\<close> gives back every block of a message all of whose lists have
  fewer than 256 entries.
\<close>

theorem delete_message_no_leak:
  assumes "small_dict (header m)" "small_dict (body m)"
  shows "delete_lwm_message m = message_blocks m"
  using assms by (simp add: delete_lwm_message_def message_blocks_def delete_kvo_small)

lemma delete_message_no_leak_witness:
  "delete_lwm_message (new_lwm_req_message 1 (Some ''7'') (Some ''d'')) = 17"
  using delete_message_no_leak [of "new_lwm_req_message 1 (Some ''7'') (Some ''d'')"]
  by (simp add: new_lwm_req_message_def new_lwm_empty_message_def set_header_def dict_put_def
      small_dict_def message_blocks_def dict_blocks_def lwm_u32_def new_lwm_string_object_def)

end
