(* ===== verification/LwmSerialize.thy ===== *)
theory LwmSerialize
  imports LwmTypes
begin

text \<open>
  Turning light weight messages into text (\<^verbatim>\<open>serialize_lwm_*\<close> of
  \<^verbatim>\<open>SIFW/iw_fw_lwMsgUtils.c\<close>). Every \<^verbatim>\<open>snprintf\<close> keeps its limit, which is one
  less than the buffer allocated just before it. The two floating-point formats are computed on
  the IEEE encoding: a conversion to \<^verbatim>\<open>int\<close> that C leaves undefined is the fault
  \<open>Overflow\<close>.
\<close>

section \<open>Floating-point numbers\<close>

text \<open>
  A finite number of an IEEE format with \<open>mb\<close> fraction bits and \<open>eb\<close> exponent bits is
  \<open>m * 2 ^ e\<close> with a sign; \<open>None\<close> for infinities and NaN.
\<close>

definition ieee_decode :: "nat \<Rightarrow> nat \<Rightarrow> nat \<Rightarrow> (bool \<times> nat \<times> int) option" where
  "ieee_decode eb mb v =
     (let frac = v mod 2 ^ mb;
          ex = (v div 2 ^ mb) mod 2 ^ eb;
          neg = odd (v div 2 ^ (mb + eb));
          bias = 2 ^ (eb - 1) - 1 :: int
      in if ex = 2 ^ eb - 1 then None
         else if ex = 0 then Some (neg, frac, 1 - bias - int mb)
         else Some (neg, 2 ^ mb + frac, int ex - bias - int mb))"

fun bit_length :: "nat \<Rightarrow> nat" where
  "bit_length n = (if n = 0 then 0 else Suc (bit_length (n div 2)))"

declare bit_length.simps [simp del]

text \<open>Rounding a product to \<open>prec\<close> bits, to nearest and ties to even.\<close>

definition round_to :: "nat \<Rightarrow> nat \<Rightarrow> int \<Rightarrow> nat \<times> int" where
  "round_to prec m e =
     (let s = bit_length m - prec in
      if s = 0 then (m, e)
      else (let q = m div 2 ^ s; r = m mod 2 ^ s; h = 2 ^ (s - 1) in
        (if h < r \<or> (r = h \<and> odd q) then q + 1 else q, e + int s)))"

text \<open>The conversion to \<^verbatim>\<open>int\<close> truncates; outside the 32-bit range it is undefined.\<close>

definition trunc_int :: "bool \<Rightarrow> nat \<Rightarrow> int \<Rightarrow> int res" where
  "trunc_int neg m e =
     (let a = int (if 0 \<le> e then m * 2 ^ nat e else m div 2 ^ nat (- e));
          i = (if neg then - a else a)
      in if - (2 ^ 31) \<le> i \<and> i < 2 ^ 31 then Inr i else Inl Overflow)"

definition c_mod :: "int \<Rightarrow> int \<Rightarrow> int" where
  "c_mod a b = (if 0 \<le> a then a mod b else - ((- a) mod b))"

text \<open>\<^verbatim>\<open>"%d.%d", (int)f, (int)(f * 100.f) % 100\<close>\<close>

definition show_ieee :: "nat \<Rightarrow> nat \<Rightarrow> nat \<Rightarrow> string res" where
  "show_ieee eb mb v = (case ieee_decode eb mb v of
      None \<Rightarrow> Inl Overflow
    | Some (neg, m, e) \<Rightarrow>
        rbind (trunc_int neg m e) (\<lambda>i.
        rbind (case round_to (mb + 1) (m * 100) e of (m', e') \<Rightarrow> trunc_int neg m' e') (\<lambda>h.
          Inr (show_int i @ ''.'' @ show_int (c_mod h 100)))))"

section \<open>Objects\<close>

definition serialize_number :: "lwm_number \<Rightarrow> cstring_ptr res" where
  "serialize_number n =
     (let t = num_type n; v = num_value n in
      if t = eP_INT32 then
        rbind (load 4 v) (\<lambda>b. Inr (Some (snprintf_str 11 (show_int (sint (of_nat b :: 32 word))))))
      else if t = eP_UINT32 then
        rbind (load 4 v) (\<lambda>b. Inr (Some (snprintf_str 10 (show_int (sint (of_nat b :: 32 word))))))
      else if t = eP_INT16 then
        rbind (load 2 v) (\<lambda>b. Inr (Some (snprintf_str 6 (show_int (sint (of_nat b :: 16 word))))))
      else if t = eP_UINT16 then
        rbind (load 2 v) (\<lambda>b. Inr (Some (snprintf_str 5 (show_int (uint (of_nat b :: 16 word))))))
      else if t = eP_INT8 then
        rbind (load 1 v) (\<lambda>b. Inr (Some (snprintf_str 4 (show_int (sint (of_nat b :: 8 word))))))
      else if t = eP_UINT8 then
        rbind (load 1 v) (\<lambda>b. Inr (Some (snprintf_str 3 (show_int (uint (of_nat b :: 8 word))))))
      else if t = eP_FLOAT then
        rbind (load 4 v) (\<lambda>b. rbind (show_ieee 8 23 b) (\<lambda>s. Inr (Some (snprintf_str 20 s))))
      else if t = eP_DOUBLE then
        rbind (load 8 v) (\<lambda>b. rbind (show_ieee 11 52 b) (\<lambda>s. Inr (Some (snprintf_str 20 s))))
      else Inr None)"

text \<open>
  The texts of the items are joined: a separator goes in when something follows the opening
  bracket already. Items that have no text are skipped. \<open>acc\<close> is what follows the bracket.
\<close>

definition join_item :: "char \<Rightarrow> cstring \<Rightarrow> cstring_ptr \<Rightarrow> cstring" where
  "join_item sep acc t = (case t of
      None \<Rightarrow> acc
    | Some s \<Rightarrow> (if acc \<noteq> [] then acc @ [sep] @ s else acc @ s))"

fun join_items :: "char \<Rightarrow> cstring \<Rightarrow> cstring_ptr res list \<Rightarrow> cstring res" where
  "join_items sep acc [] = Inr acc"
| "join_items sep acc (t # ts) = rbind t (\<lambda>s. join_items sep (join_item sep acc s) ts)"

definition bracket :: "char \<Rightarrow> char \<Rightarrow> cstring res \<Rightarrow> cstring_ptr res" where
  "bracket op cl r = rbind r (\<lambda>s. Inr (Some (op # s @ [cl])))"

definition kvo_text :: "cstring \<Rightarrow> cstring_ptr res \<Rightarrow> cstring_ptr res" where
  "kvo_text k r = rbind r (\<lambda>t. Inr (case t of None \<Rightarrow> None | Some s \<Rightarrow> Some (k @ ''='' @ s)))"

fun serialize_lwm_object :: "lwm_object \<Rightarrow> cstring_ptr res" where
  "serialize_lwm_object LWM_Unknown = Inr None"
| "serialize_lwm_object (LWM_Number n) = (case n of None \<Rightarrow> Inr None | Some n \<Rightarrow> serialize_number n)"
| "serialize_lwm_object (LWM_String s) = Inr s"
| "serialize_lwm_object (LWM_Array xs) =
     bracket CHR ''['' CHR '']'' (join_items CHR '','' [] (map serialize_lwm_object xs))"
| "serialize_lwm_object (LWM_Dictionary d) =
     bracket CHR ''{'' CHR ''}''
       (join_items CHR '';'' [] (map (\<lambda>(k, v). kvo_text k (serialize_lwm_object v)) d))"

definition serialize_lwm_kvo :: "cstring \<times> lwm_object \<Rightarrow> cstring_ptr res" where
  "serialize_lwm_kvo kv = (case kv of (k, v) \<Rightarrow> kvo_text k (serialize_lwm_object v))"

definition serialize_lwm_array :: "lwm_object list \<Rightarrow> cstring res" where
  "serialize_lwm_array xs = rbind (serialize_lwm_object (LWM_Array xs)) deref"

definition serialize_lwm_dictionary :: "lwm_dict \<Rightarrow> cstring res" where
  "serialize_lwm_dictionary d = rbind (serialize_lwm_object (LWM_Dictionary d)) deref"

definition serialize_lwm_message :: "lwm_message \<Rightarrow> cstring res" where
  "serialize_lwm_message m =
     rbind (serialize_lwm_dictionary (header m)) (\<lambda>h.
       if 0 < node_num (body m)
       then rbind (serialize_lwm_dictionary (body m)) (\<lambda>b. Inr (h @ b))
       else Inr h)"

section \<open>Lengths\<close>

lemma length_show_int:
  assumes "0 < k"
  shows "length (show_int i) \<le> Suc k \<longleftrightarrow> - (10 ^ k) < i \<and> i < 10 ^ Suc k"
proof (cases "i < 0")
  case True
  have "length (show_int i) \<le> Suc k \<longleftrightarrow> nat (- i) < 10 ^ k"
    using True length_dec_digits [OF assms] by (simp add: show_int_def)
  also have "\<dots> \<longleftrightarrow> - i < 10 ^ k" by (simp add: nat_less_iff True order.strict_implies_order)
  finally show ?thesis using True by (auto intro: less_trans [of i 0])
next
  case False
  have "length (show_int i) \<le> Suc k \<longleftrightarrow> nat i < 10 ^ Suc k"
    using False length_dec_digits [of "Suc k"] by (simp add: show_int_def)
  also have "\<dots> \<longleftrightarrow> i < 10 ^ Suc k" using False by (simp add: nat_less_iff)
  finally show ?thesis using False by (auto intro: order.strict_trans2 [of _ 0])
qed

lemma snprintf_exact: "snprintf_str n s = s \<longleftrightarrow> length s \<le> n - 1"
  by (simp add: snprintf_str_def take_all_iff)

lemma load_le_bytes [lwm_simps]: "v < 256 ^ k \<Longrightarrow> load k (Some (le_bytes k v)) = Inr v"
  by (simp add: load_def le_value_le_bytes)

text \<open>An integer as memory of its own width.\<close>

definition int_number :: "param_type \<Rightarrow> nat \<Rightarrow> int \<Rightarrow> lwm_number" where
  "int_number t k i = \<lparr>num_value = Some (le_bytes k (nat (i mod 256 ^ k))), num_type = t\<rparr>"

lemma load_int_number:
  assumes "0 < k"
  shows "load k (num_value (int_number t k i)) = Inr (nat (i mod 256 ^ k))"
proof -
  have "i mod 256 ^ k < 256 ^ k" by simp
  then have "nat (i mod 256 ^ k) < 256 ^ k" by (simp add: nat_less_iff)
  then show ?thesis by (simp add: int_number_def load_le_bytes)
qed

text \<open>The conversions of a loaded value give the integer back.\<close>

lemma word_of_mod:
  "of_nat (nat (i mod 2 ^ LENGTH('a))) = (of_int i :: 'a :: len word)"
  by (simp add: word_uint_eq_iff uint_word_of_int)

lemma sint_of_int_self:
  "- (2 ^ (LENGTH('a) - 1)) \<le> i \<Longrightarrow> i < 2 ^ (LENGTH('a) - 1) \<Longrightarrow> sint (of_int i :: 'a :: len word) = i"
  by (simp add: signed_of_int signed_take_bit_int_eq_self)

lemma text_exact:
  assumes "0 < k"
  shows "snprintf_str (k + 2) (show_int i) = show_int i \<longleftrightarrow> - (10 ^ k) < i \<and> i < 10 ^ Suc k"
  using length_show_int [OF assms, of i] by (simp add: snprintf_exact)

lemma show_int_neg_hd: "i < 0 \<Longrightarrow> show_int i = CHR ''-'' # dec_digits (nat (- i))"
  by (simp add: show_int_def)

lemma show_int_nonneg_hd: "0 \<le> i \<Longrightarrow> show_int i \<noteq> CHR ''-'' # cs"
proof
  assume "0 \<le> i" "show_int i = CHR ''-'' # cs"
  then have "CHR ''-'' \<in> set (dec_digits (nat i))" by (simp add: show_int_def)
  then have "isdigit CHR ''-''" by (rule dec_digits_isdigit)
  then show False by (simp add: isdigit_def)
qed

lemma cut_negative_text: "i < 0 \<Longrightarrow> 0 \<le> j \<Longrightarrow> snprintf_str (Suc (Suc k)) (show_int i) \<noteq> show_int j"
  using show_int_nonneg_hd [of j] by (simp add: snprintf_str_def show_int_neg_hd) metis

text \<open>The text of an answer to a request.\<close>

lemma serialize_answer:
  assumes "rsc < 1000000" "rsc \<noteq> 0"
  shows "serialize_lwm_message (new_lwm_resp_message (Some dri) (of_nat rsc)) =
    Inr (''{rsc='' @ show_int (int rsc) @ '';dri='' @ dri @ ''}'')"
proof -
  have w: "uint (of_nat rsc :: 32 word) = int rsc" "sint (of_nat rsc :: 32 word) = int rsc" "of_nat rsc \<noteq> (0 :: 32 word)"
proof -
    have u: "unat (of_nat rsc :: 32 word) = rsc" using assms by (simp add: unsigned_of_nat take_bit_nat_eq_self)
    then show "uint (of_nat rsc :: 32 word) = int rsc" by (metis uint_nat)
    show "sint (of_nat rsc :: 32 word) = int rsc"
      using assms by (simp add: signed_of_nat signed_take_bit_int_eq_self)
    show "of_nat rsc \<noteq> (0 :: 32 word)" using u assms by auto
  qed
  have l: "length (show_int (int rsc)) \<le> 9" using assms length_show_int [of 8 "int rsc"] by simp
  have u: "unat (of_nat rsc :: 32 word) = rsc" using w(1) by (metis nat_int unsigned_of_nat uint_nat of_nat_eq_iff)
  have "rsc < 256 ^ 4" using assms(1) by simp
  then have "load 4 (Some (bytes_of_u32 (of_nat rsc))) = Inr rsc"
    unfolding bytes_of_u32_def u by (rule load_le_bytes)
  with w(2) l have "serialize_lwm_object (lwm_u32 (of_nat rsc)) = Inr (Some (show_int (int rsc)))"
    by (simp add: lwm_u32_def serialize_number_def snprintf_str_def)
  moreover have "new_lwm_resp_message (Some dri) (of_nat rsc) =
      \<lparr>header = [(''rsc'', lwm_u32 (of_nat rsc)), (''dri'', LWM_String (Some dri))], body = []\<rparr>"
    using w(3) by (simp add: new_lwm_resp_message_def new_lwm_empty_message_def set_header_def dict_put_def
        new_lwm_string_object_def)
  ultimately show ?thesis
    by (simp add: serialize_lwm_message_def node_num_def serialize_lwm_dictionary_def join_item_def bracket_def
        kvo_text_def)
qed

section \<open>Properties\<close>

text \<open>
  The text of an integer object is its decimal form cut to the \<^verbatim>\<open>snprintf\<close> limit of
  its type. It is the whole decimal form exactly when the last digit fits, which the limits deny
  to the extreme values the buffers were sized for: the 32-bit numbers from -1000000000 down, the
  unsigned ones from 1000000000 up, the 16-bit ones from -10000 down and 10000 up, the 8-bit ones
  from -100 down and 100 up.
\<close>

theorem integer_text:
  "(i \<in> {- (2 ^ 31)..<2 ^ 31} \<longrightarrow>
      (\<exists>s. serialize_lwm_object (LWM_Number (Some (int_number eP_INT32 4 i))) = Inr (Some s) \<and>
        (s = show_int i \<longleftrightarrow> - 1000000000 < i))) \<and>
   (i \<in> {0..<2 ^ 32} \<longrightarrow>
      (\<exists>s. serialize_lwm_object (LWM_Number (Some (int_number eP_UINT32 4 i))) = Inr (Some s) \<and>
        (s = show_int i \<longleftrightarrow> i < 1000000000))) \<and>
   (i \<in> {- (2 ^ 15)..<2 ^ 15} \<longrightarrow>
      (\<exists>s. serialize_lwm_object (LWM_Number (Some (int_number eP_INT16 2 i))) = Inr (Some s) \<and>
        (s = show_int i \<longleftrightarrow> - 10000 < i))) \<and>
   (i \<in> {0..<2 ^ 16} \<longrightarrow>
      (\<exists>s. serialize_lwm_object (LWM_Number (Some (int_number eP_UINT16 2 i))) = Inr (Some s) \<and>
        (s = show_int i \<longleftrightarrow> i < 10000))) \<and>
   (i \<in> {- (2 ^ 7)..<2 ^ 7} \<longrightarrow>
      (\<exists>s. serialize_lwm_object (LWM_Number (Some (int_number eP_INT8 1 i))) = Inr (Some s) \<and>
        (s = show_int i \<longleftrightarrow> - 100 < i))) \<and>
   (i \<in> {0..<2 ^ 8} \<longrightarrow>
      (\<exists>s. serialize_lwm_object (LWM_Number (Some (int_number eP_UINT8 1 i))) = Inr (Some s) \<and>
        (s = show_int i \<longleftrightarrow> i < 100)))"
proof (intro conjI impI, goal_cases)
  case 1
  have "of_nat (nat (i mod 256 ^ 4)) = (of_int i :: 32 word)"
    using word_of_mod [of i, where ?'a = 32] by simp
  then show ?case
    using 1 load_int_number [of 4 eP_INT32 i] text_exact [of 9 i]
    by (simp add: serialize_number_def int_number_def sint_of_int_self)
next
  case 2
  have w: "of_nat (nat (i mod 256 ^ 4)) = (of_int i :: 32 word)"
    using word_of_mod [of i, where ?'a = 32] by simp
  have "snprintf_str 10 (show_int (sint (of_int i :: 32 word))) = show_int i \<longleftrightarrow> i < 1000000000"
  proof (cases "i < 2 ^ 31")
    case True
    then show ?thesis using 2 text_exact [of 8 i] by (simp add: sint_of_int_self)
  next
    case False
    have "(of_int i :: 32 word) = of_int (i - 2 ^ 32)" by simp
    also have "sint \<dots> = i - 2 ^ 32" using False 2 by (intro sint_of_int_self) auto
    finally show ?thesis
      using False 2 cut_negative_text [of "i - 2 ^ 32" i 8] by (simp add: numeral_eq_Suc)
  qed
  then show ?case
    using w load_int_number [of 4 eP_UINT32 i] by (simp add: serialize_number_def int_number_def)
next
  case 3
  have "of_nat (nat (i mod 256 ^ 2)) = (of_int i :: 16 word)"
    using word_of_mod [of i, where ?'a = 16] by simp
  then show ?case
    using 3 load_int_number [of 2 eP_INT16 i] text_exact [of 4 i]
    by (simp add: serialize_number_def int_number_def sint_of_int_self)
next
  case 4
  have "of_nat (nat (i mod 256 ^ 2)) = (of_int i :: 16 word)"
    using word_of_mod [of i, where ?'a = 16] by simp
  then show ?case
    using 4 load_int_number [of 2 eP_UINT16 i] text_exact [of 3 i]
    by (simp add: serialize_number_def int_number_def uint_word_of_int)
next
  case 5
  have "of_nat (nat (i mod 256 ^ 1)) = (of_int i :: 8 word)"
    using word_of_mod [of i, where ?'a = 8] by simp
  then show ?case
    using 5 load_int_number [of 1 eP_INT8 i] text_exact [of 2 i]
    by (simp add: serialize_number_def int_number_def sint_of_int_self)
next
  case 6
  have "of_nat (nat (i mod 256 ^ 1)) = (of_int i :: 8 word)"
    using word_of_mod [of i, where ?'a = 8] by simp
  then show ?case
    using 6 load_int_number [of 1 eP_UINT8 i] text_exact [of 1 i]
    by (simp add: serialize_number_def int_number_def uint_word_of_int numeral_3_eq_3)
qed

lemma integer_text_witness:
  "\<exists>s. serialize_lwm_object (LWM_Number (Some (int_number eP_INT32 4 (- (2 ^ 31))))) = Inr (Some s) \<and>
     s \<noteq> show_int (- (2 ^ 31))"
  using integer_text [of "- (2 ^ 31)"] by auto

text \<open>
  The text of a float is right when its hundredths have two digits, as for 42.25. The
  float next to 1.05 becomes 1.4, because the hundredths are cut and not padded, and -1.5 becomes
  -1.-50, because the remainder keeps the sign.
\<close>

theorem float_text:
  "show_ieee 8 23 0x3F866666 = Inr ''1.4'' \<and> show_ieee 8 23 0xBFC00000 = Inr ''-1.-50'' \<and>
   show_ieee 8 23 0x42290000 = Inr ''42.25''"
proof -
  have bl: "bit_length 880803800 = 30" "bit_length 1258291200 = 31" "bit_length 1107558400 = 31"
    by (simp_all add: bit_length.simps)
  have "show_ieee 8 23 0x3F866666 = Inr ''1.4''"
    "show_ieee 8 23 0xBFC00000 = Inr ''-1.-50''"
    "show_ieee 8 23 0x42290000 = Inr ''42.25''"
    by (simp_all add: show_ieee_def ieee_decode_def round_to_def trunc_int_def bl c_mod_def
        show_int_def del: rbind_eq_Inr)
      (simp_all add: dec_digits.simps)
  then show ?thesis by simp
qed

end
