(* ===== verification/LwmParse.thy ===== *)
theory LwmParse
  imports LwmSerialize
begin

text \<open>
  Reading light weight messages (\<^verbatim>\<open>_lwm_is_token\<close>, \<^verbatim>\<open>_lwm_*_parsing\<close> and
  \<^verbatim>\<open>parse_lwm_message_str\<close> of \<^verbatim>\<open>SIFW/iw_fw_lwMsgUtils.c\<close>). The pointer into the
  text is the suffix it points to, the empty suffix being the terminator; a step past the
  terminator is the fault \<open>Out_of_bounds\<close>. The variable \<^verbatim>\<open>start\<close> is a suffix too.
  The loops recurse into each other, so they run on fuel; \<open>parse_total\<close> below shows that
  the fuel of \<open>parse_lwm_message_str\<close> always suffices.

  The first node of a list is inserted with a store through NULL (\<^verbatim>\<open>iw_add_list_node\<close>). What
  the board makes of it is the parameter \<open>trap\<close> of \<open>parse_on\<close>: a fault, or nothing. The name
  \<open>parse_lwm_message_str\<close> is the parser on a board that lets the store pass, which is what
  every other theory takes the board to be.
\<close>

section \<open>The parser\<close>

definition lwm_is_token :: "char \<Rightarrow> string \<Rightarrow> bool" where
  "lwm_is_token ch tokens \<longleftrightarrow>
     tokens = [] \<or> list_ex (\<lambda>t. ch = t \<or> \<not> (isalnum ch \<or> isspace ch \<or> ispunct ch)) tokens"

definition adv :: "string \<Rightarrow> string res" where
  "adv p = (case p of [] \<Rightarrow> Inl Out_of_bounds | _ # q \<Rightarrow> Inr q)"

definition at_char :: "char \<Rightarrow> string \<Rightarrow> bool" where
  "at_char c p \<longleftrightarrow> take 1 p = [c]"

definition skip_char :: "char \<Rightarrow> string \<Rightarrow> string" where
  "skip_char c p = (if at_char c p then tl p else p)"

definition substring :: "string \<Rightarrow> string \<Rightarrow> string" where
  "substring start p = take (length start - length p) start"

text \<open>
  The stores through NULL made when an item is put into an array or a dictionary: the first node of an
  empty list has no next node, and neither has the last one, which may hold the old value of the key.
\<close>

definition array_store :: "bool \<Rightarrow> lwm_object list \<Rightarrow> unit res" where
  "array_store trap xs = null_store trap (xs = [])"

definition dict_store :: "bool \<Rightarrow> lwm_dict \<Rightarrow> cstring_ptr \<Rightarrow> unit res" where
  "dict_store trap d key = null_store trap (case key of
      None \<Rightarrow> d = []
    | Some k \<Rightarrow> delete_lwm_kvo_by_key d k = [] \<or> (fst (last d) = k \<and> k \<notin> fst ` set (butlast d)))"

lemma stores_pass [simp]: "array_store False xs = Inr ()" "dict_store False d k = Inr ()"
  by (simp_all add: array_store_def dict_store_def null_store_def)

text \<open>
  The modes the loops take. After a comma the array loop is in \<^verbatim>\<open>Openable | Object\<close>, which
  every test of the loop treats as \<^verbatim>\<open>Openable\<close>.
\<close>

datatype array_mode = PM_Openable | PM_Object | PM_Value string

datatype kv_mode = KV_Key "string option" | KV_Val cstring "string option"

text \<open>
  One iteration of each loop, and the functions around the loops; the parameters are the
  functions called. \<open>dict_parsing\<close> returns \<^verbatim>\<open>bFlag\<close>, the dictionary and the
  pointer: the callers take the dictionary as an object when the flag is set. An entry without a
  key only arises at the terminator; the next step of the dictionary loop then leaves the text.
\<close>

type_synonym array_parser = "string \<Rightarrow> (lwm_object option \<times> string) res"
type_synonym dict_parser = "lwm_dict \<Rightarrow> string \<Rightarrow> (bool \<times> lwm_dict \<times> string) res"
type_synonym kvo_parser = "kv_mode \<Rightarrow> string \<Rightarrow> ((cstring_ptr \<times> lwm_object) option \<times> string) res"

definition lwm_new_array_parsing ::
  "(array_mode \<Rightarrow> lwm_object list \<Rightarrow> array_parser) \<Rightarrow> array_parser" where
  "lwm_new_array_parsing loop p =
     (let q = skip_char CHR ''['' p in
      if at_char CHR '']'' q then Inr (Some (LWM_Array []), q)
      else loop PM_Openable [] q)"

definition array_step ::
  "bool \<Rightarrow> array_parser \<Rightarrow> (array_mode \<Rightarrow> lwm_object list \<Rightarrow> array_parser) \<Rightarrow> dict_parser
    \<Rightarrow> array_mode \<Rightarrow> lwm_object list \<Rightarrow> array_parser" where
  "array_step trap array loop dict mode xs p = (case p of
      [] \<Rightarrow> Inr (Some (LWM_Array xs), p)
    | c # q \<Rightarrow>
        if isspace c then loop mode xs q
        else (case mode of
          PM_Openable \<Rightarrow>
            if c = CHR '','' \<or> c = CHR '']'' then Inr (None, p)
            else if c = CHR ''{'' then
              rbind (dict [] p) (\<lambda>(ok, d, p').
                rbind (if ok then array_store trap xs else Inr ()) (\<lambda>_.
                  rbind (adv p') (loop PM_Object (if ok then LWM_Dictionary d # xs else xs))))
            else if c = CHR ''['' then
              rbind (array p) (\<lambda>(obj, p').
                rbind (if obj \<noteq> None then array_store trap xs else Inr ()) (\<lambda>_.
                  rbind (adv p') (loop PM_Object (case obj of None \<Rightarrow> xs | Some x \<Rightarrow> x # xs))))
            else if lwm_is_token c ''};='' then Inr (None, p)
            else loop (PM_Value p) xs q
        | PM_Object \<Rightarrow>
            if c = CHR '','' then loop PM_Openable xs q
            else if c = CHR '']'' then Inr (Some (LWM_Array xs), p)
            else loop PM_Object xs q
        | PM_Value start \<Rightarrow>
            if c = CHR '','' \<or> c = CHR '']'' then
              rbind (array_store trap xs) (\<lambda>_.
                let xs' = LWM_String (Some (substring start p)) # xs in
                if c = CHR '']'' then Inr (Some (LWM_Array xs'), p)
                else loop PM_Openable xs' q)
            else loop mode xs q))"

definition lwm_dict_parsing :: "dict_parser \<Rightarrow> dict_parser" where
  "lwm_dict_parsing loop d p =
     rbind (loop d (skip_char CHR ''{'' p)) (\<lambda>(ok, d', p').
       Inr (ok, if ok then d' else snd (delete_lwm_kvo d'), p'))"

definition dict_step :: "bool \<Rightarrow> dict_parser \<Rightarrow> kvo_parser \<Rightarrow> dict_parser" where
  "dict_step trap loop kvo d p = (case p of
      [] \<Rightarrow> Inr (True, d, p)
    | c # q \<Rightarrow>
        if isspace c then loop d q
        else if c = CHR ''}'' then Inr (True, d, p)
        else if c = CHR '';'' then loop d q
        else rbind (kvo (KV_Key None) p) (\<lambda>(r, p').
          case r of
            None \<Rightarrow> Inr (False, d, p')
          | Some (k, v) \<Rightarrow> rbind (dict_store trap d k) (\<lambda>_.
              if at_char CHR ''}'' p' then rbind (deref k) (\<lambda>k. Inr (True, dict_put d k v, p'))
              else rbind (adv p') (\<lambda>p''. rbind (deref k) (\<lambda>k. loop (dict_put d k v) p'')))))"

definition kvo_step :: "array_parser \<Rightarrow> dict_parser \<Rightarrow> kvo_parser \<Rightarrow> kvo_parser" where
  "kvo_step array dict loop mode p = (case p of
      [] \<Rightarrow> Inr (Some (case mode of KV_Key _ \<Rightarrow> None | KV_Val k _ \<Rightarrow> Some k, LWM_String None), p)
    | c # q \<Rightarrow>
        if isspace c then loop mode q
        else (case mode of
          KV_Key start \<Rightarrow>
            if lwm_is_token c ''{[]};,'' then Inr (None, p)
            else if c = CHR ''='' then
              (case start of
                 None \<Rightarrow> Inr (None, p)
               | Some s \<Rightarrow> loop (KV_Val (substring s p) None) q)
            else loop (KV_Key (case start of None \<Rightarrow> Some p | Some s \<Rightarrow> Some s)) q
        | KV_Val k start \<Rightarrow>
            (case start of
              None \<Rightarrow>
                if c = CHR ''{'' then
                  rbind (dict [] p) (\<lambda>(ok, d, p').
                    Inr (if ok then Some (Some k, LWM_Dictionary d) else None, p'))
                else if c = CHR ''['' then
                  rbind (array p) (\<lambda>(obj, p'). Inr (map_option (Pair (Some k)) obj, p'))
                else if lwm_is_token c '']};=,'' then Inr (None, p)
                else loop (KV_Val k (Some p)) q
            | Some s \<Rightarrow>
                if lwm_is_token c ''{[=,'' then Inr (None, p)
                else if lwm_is_token c '']};'' then
                  Inr (Some (Some k, LWM_String (Some (substring s p))), p)
                else loop mode q)))"

lemma dict_step_pass:
  "dict_step False loop kvo d p = (case p of
      [] \<Rightarrow> Inr (True, d, p)
    | c # q \<Rightarrow>
        if isspace c \<or> c = CHR '';'' then loop d q
        else if c = CHR ''}'' then Inr (True, d, p)
        else rbind (kvo (KV_Key None) p) (\<lambda>(r, p').
          case r of
            None \<Rightarrow> Inr (False, d, p')
          | Some (k, v) \<Rightarrow>
              if at_char CHR ''}'' p' then rbind (deref k) (\<lambda>k. Inr (True, dict_put d k v, p'))
              else rbind (adv p') (\<lambda>p''. rbind (deref k) (\<lambda>k. loop (dict_put d k v) p''))))"
  by (auto simp: dict_step_def split: list.split cong: option.case_cong prod.case_cong)

text \<open>The knot: every call costs one unit of fuel.\<close>

record parser_funs =
  array_fun :: array_parser
  array_loop_fun :: "array_mode \<Rightarrow> lwm_object list \<Rightarrow> array_parser"
  dict_fun :: dict_parser
  dict_loop_fun :: dict_parser
  kvo_loop_fun :: kvo_parser

primrec parsers :: "bool \<Rightarrow> nat \<Rightarrow> parser_funs" where
  "parsers trap 0 =
     \<lparr>array_fun = (\<lambda>p. Inl Out_of_fuel), array_loop_fun = (\<lambda>mode xs p. Inl Out_of_fuel),
      dict_fun = (\<lambda>d p. Inl Out_of_fuel), dict_loop_fun = (\<lambda>d p. Inl Out_of_fuel),
      kvo_loop_fun = (\<lambda>mode p. Inl Out_of_fuel)\<rparr>"
| "parsers trap (Suc n) =
     (let r = parsers trap n in
      \<lparr>array_fun = lwm_new_array_parsing (array_loop_fun r),
       array_loop_fun = array_step trap (array_fun r) (array_loop_fun r) (dict_fun r),
       dict_fun = lwm_dict_parsing (dict_loop_fun r),
       dict_loop_fun = dict_step trap (dict_loop_fun r) (kvo_loop_fun r),
       kvo_loop_fun = kvo_step (array_fun r) (dict_fun r) (kvo_loop_fun r)\<rparr>)"

definition array_parsing :: "bool \<Rightarrow> nat \<Rightarrow> array_parser" where
  "array_parsing trap n = array_fun (parsers trap n)"

definition array_loop :: "bool \<Rightarrow> nat \<Rightarrow> array_mode \<Rightarrow> lwm_object list \<Rightarrow> array_parser" where
  "array_loop trap n = array_loop_fun (parsers trap n)"

definition dict_parsing :: "bool \<Rightarrow> nat \<Rightarrow> dict_parser" where
  "dict_parsing trap n = dict_fun (parsers trap n)"

definition dict_loop :: "bool \<Rightarrow> nat \<Rightarrow> dict_parser" where
  "dict_loop trap n = dict_loop_fun (parsers trap n)"

definition kvo_loop :: "bool \<Rightarrow> nat \<Rightarrow> kvo_parser" where
  "kvo_loop trap n = kvo_loop_fun (parsers trap n)"

lemma parser_simps:
  "array_parsing trap 0 p = Inl Out_of_fuel"
  "array_parsing trap (Suc n) p = lwm_new_array_parsing (array_loop trap n) p"
  "array_loop trap 0 mode xs p = Inl Out_of_fuel"
  "array_loop trap (Suc n) mode xs p =
     array_step trap (array_parsing trap n) (array_loop trap n) (dict_parsing trap n) mode xs p"
  "dict_parsing trap 0 d p = Inl Out_of_fuel"
  "dict_parsing trap (Suc n) d p = lwm_dict_parsing (dict_loop trap n) d p"
  "dict_loop trap 0 d p = Inl Out_of_fuel"
  "dict_loop trap (Suc n) d p = dict_step trap (dict_loop trap n) (kvo_loop trap n) d p"
  "kvo_loop trap 0 kmode p = Inl Out_of_fuel"
  "kvo_loop trap (Suc n) kmode p = kvo_step (array_parsing trap n) (dict_parsing trap n) (kvo_loop trap n) kmode p"
  by (simp_all add: array_parsing_def array_loop_def dict_parsing_def dict_loop_def kvo_loop_def
      Let_def)

datatype message_mode = PM_Header | PM_Body | PM_Closed

fun message_loop ::
  "bool \<Rightarrow> nat \<Rightarrow> message_mode \<Rightarrow> bool \<Rightarrow> lwm_message \<Rightarrow> string \<Rightarrow> (bool \<times> lwm_message) res" where
  "message_loop trap 0 mode flag m p = Inl Out_of_fuel"
| "message_loop trap (Suc n) mode flag m p = (case p of
      [] \<Rightarrow> Inr (flag, m)
    | c # q \<Rightarrow>
        if isspace c then message_loop trap n mode flag m q
        else if lwm_is_token c ''[]};=,'' then Inr (flag, m)
        else if c = CHR ''{'' then
          (case mode of
             PM_Header \<Rightarrow> rbind (dict_parsing trap n (header m) p) (\<lambda>(ok, d, p').
               rbind (adv p') (message_loop trap n PM_Body True (m\<lparr>header := d\<rparr>)))
           | PM_Body \<Rightarrow> rbind (dict_parsing trap n (body m) p) (\<lambda>(ok, d, p').
               rbind (adv p') (message_loop trap n PM_Closed True (m\<lparr>body := d\<rparr>)))
           | PM_Closed \<Rightarrow> Inr (False, m))
        else Inr (False, m))"

definition parse_fuel :: "string \<Rightarrow> nat" where
  "parse_fuel s = 4 * length s + 4"

definition parse_on :: "bool \<Rightarrow> cstring_ptr \<Rightarrow> lwm_message option res" where
  "parse_on trap str = (case str of
      None \<Rightarrow> Inr None
    | Some s \<Rightarrow>
        if length s = 0 then Inr None
        else rbind (message_loop trap (parse_fuel s) PM_Header False new_lwm_empty_message s)
          (\<lambda>(flag, m). Inr (if flag then Some m else None)))"

definition parse_lwm_message_str :: "cstring_ptr \<Rightarrow> lwm_message option res" where
  "parse_lwm_message_str = parse_on False"

section \<open>The parser always comes to an end\<close>

text \<open>
  A parser \<open>fits\<close> when its only fault, but for stores through NULL that trap, is a step past the
  terminator and the pointer does not move back.
\<close>

definition parser_fault :: "bool \<Rightarrow> fault \<Rightarrow> bool" where
  "parser_fault trap e \<longleftrightarrow> e = Out_of_bounds \<or> trap \<and> e = Null_deref"

definition fits :: "bool \<Rightarrow> ('a \<Rightarrow> string) \<Rightarrow> nat \<Rightarrow> 'a res \<Rightarrow> bool" where
  "fits trap rest L r = (case r of Inl e \<Rightarrow> parser_fault trap e | Inr a \<Rightarrow> length (rest a) \<le> L)"

lemma fits_Inr [simp]: "fits trap rest L (Inr a) \<longleftrightarrow> length (rest a) \<le> L"
  and fits_Inl [simp]: "fits trap rest L (Inl e) \<longleftrightarrow> parser_fault trap e"
  and parser_fault_Out_of_bounds [simp]: "parser_fault trap Out_of_bounds"
  by (simp_all add: fits_def parser_fault_def)

lemma stores_cases:
  "array_store trap xs = Inr () \<or> (trap \<and> array_store trap xs = Inl Null_deref)"
  "dict_store trap d k = Inr () \<or> (trap \<and> dict_store trap d k = Inl Null_deref)"
  by (simp_all add: array_store_def dict_store_def null_store_def)

lemma fits_store:
  "fits trap rest L (f ()) \<Longrightarrow> fits trap rest L (rbind (array_store trap xs) f)"
  "fits trap rest L (f ()) \<Longrightarrow> fits trap rest L (rbind (dict_store trap d k) f)"
  using stores_cases(1) [of trap xs] stores_cases(2) [of trap d k] by (auto simp: parser_fault_def)

lemma fits_mono: "fits trap rest L r \<Longrightarrow> L \<le> L' \<Longrightarrow> fits trap rest L' r"
  by (auto simp: fits_def split: sum.splits)

lemma fits_bind:
  assumes "fits trap rest L r" "\<And>a. r = Inr a \<Longrightarrow> length (rest a) \<le> L \<Longrightarrow> fits trap rest' L' (f a)"
  shows "fits trap rest' L' (rbind r f)"
  using assms by (cases r) auto

lemma fits_adv:
  assumes "\<And>q. p = hd p # q \<Longrightarrow> fits trap rest L (f q)"
  shows "fits trap rest L (rbind (adv p) f)"
  using assms by (cases p) (auto simp: adv_def)

definition trd :: "'a \<times> 'b \<times> 'c \<Rightarrow> 'c" where
  "trd t = snd (snd t)"

lemma trd_simp [simp]: "trd (a, b, c) = c"
  by (simp add: trd_def)

definition key_at_end :: "((cstring_ptr \<times> lwm_object) option \<times> string) res \<Rightarrow> bool" where
  "key_at_end r \<longleftrightarrow> (\<forall>v p. r = Inr (Some (None, v), p) \<longrightarrow> p = [])"

definition parsers_fit :: "bool \<Rightarrow> nat \<Rightarrow> bool" where
  "parsers_fit trap n \<longleftrightarrow>
     (\<forall>q. 4 * Suc (length q) \<le> n \<longrightarrow>
       fits trap snd (Suc (length q)) (array_parsing trap n (CHR ''['' # q))) \<and>
     (\<forall>mode xs p. 4 * length p + 1 \<le> n \<longrightarrow> fits trap snd (length p) (array_loop trap n mode xs p)) \<and>
     (\<forall>d q. 4 * Suc (length q) \<le> n \<longrightarrow>
       fits trap trd (Suc (length q)) (dict_parsing trap n d (CHR ''{'' # q))) \<and>
     (\<forall>d p. 4 * length p + 2 \<le> n \<longrightarrow> fits trap trd (length p) (dict_loop trap n d p)) \<and>
     (\<forall>mode p. 4 * length p + 1 \<le> n \<longrightarrow>
       fits trap snd (length p) (kvo_loop trap n mode p) \<and> key_at_end (kvo_loop trap n mode p))"

lemma parsers_fitD:
  assumes "parsers_fit trap n"
  shows "4 * Suc (length q) \<le> n \<Longrightarrow> fits trap snd (Suc (length q)) (array_parsing trap n (CHR ''['' # q))"
    and "4 * length p + 1 \<le> n \<Longrightarrow> fits trap snd (length p) (array_loop trap n mode xs p)"
    and "4 * Suc (length q) \<le> n \<Longrightarrow> fits trap trd (Suc (length q)) (dict_parsing trap n d (CHR ''{'' # q))"
    and "4 * length p + 2 \<le> n \<Longrightarrow> fits trap trd (length p) (dict_loop trap n d p)"
    and "4 * length p + 1 \<le> n \<Longrightarrow> fits trap snd (length p) (kvo_loop trap n kmode p)"
    and "4 * length p + 1 \<le> n \<Longrightarrow> key_at_end (kvo_loop trap n kmode p)"
  using assms by (auto simp: parsers_fit_def)

lemma array_step_fits:
  assumes fit: "parsers_fit trap n" and n: "4 * length p \<le> n"
  shows "fits trap snd (length p) (array_step trap (array_parsing trap n) (array_loop trap n) (dict_parsing trap n) mode xs p)"
proof (cases p)
  case Nil
  then show ?thesis by (simp add: array_step_def)
next
  case (Cons c q)
  then have q: "4 * length q + 1 \<le> n" "4 * Suc (length q) \<le> n" using n by auto
  have loop: "fits trap snd (length p) (array_loop trap n mode' xs' p')" if "length p' \<le> length q" for mode' xs' p'
    using parsers_fitD(2) [OF fit, of p' mode' xs'] that q(1) Cons
    by (auto elim!: fits_mono)
  have after: "fits trap snd (length p) (rbind (adv p') (array_loop trap n mode' xs'))"
    if "length p' \<le> Suc (length q)" for p' mode' xs'
    by (rule fits_adv, rule loop) (metis that length_Cons Suc_le_mono)
  have nested: "fits trap snd (length p) (rbind (array_parsing trap n p) (\<lambda>(obj, p').
      rbind (if obj \<noteq> None then array_store trap xs else Inr ()) (\<lambda>_. rbind (adv p') (array_loop trap n mode' (f obj)))))"
    if "c = CHR ''[''" for mode' f
    by (rule fits_bind [OF parsers_fitD(1) [OF fit q(2), folded that Cons]])
      (auto intro!: after fits_store)
  have nested_d: "fits trap snd (length p) (rbind (dict_parsing trap n [] p) (\<lambda>(ok, d, p').
      rbind (if ok then array_store trap xs else Inr ()) (\<lambda>_. rbind (adv p') (array_loop trap n mode' (g ok d)))))"
    if "c = CHR ''{''" for mode' g
    by (rule fits_bind [OF parsers_fitD(3) [OF fit q(2), of "[]", folded that Cons]])
      (auto intro!: after fits_store)
  show ?thesis
    using Cons nested nested_d loop
    by (auto simp: array_step_def Let_def intro: fits_store split: array_mode.splits)
qed

lemma dict_step_fits:
  assumes fit: "parsers_fit trap n" and n: "4 * length p + 1 \<le> n"
  shows "fits trap trd (length p) (dict_step trap (dict_loop trap n) (kvo_loop trap n) d p)"
proof (cases p)
  case Nil
  then show ?thesis by (simp add: dict_step_def)
next
  case (Cons c q)
  have loop: "fits trap trd (length p) (dict_loop trap n d' p')" if "length p' \<le> length q" for d' p'
    using parsers_fitD(4) [OF fit, of p' d'] that n Cons by (auto elim!: fits_mono)
  have entry: "fits trap trd (length p) (case r of
          None \<Rightarrow> Inr (False, d, p')
        | Some (k, v) \<Rightarrow> rbind (dict_store trap d k) (\<lambda>_.
            if at_char CHR ''}'' p' then rbind (deref k) (\<lambda>k. Inr (True, dict_put d k v, p'))
            else rbind (adv p') (\<lambda>p''. rbind (deref k) (\<lambda>k. dict_loop trap n (dict_put d k v) p''))))"
    if r: "kvo_loop trap n (KV_Key None) p = Inr (r, p')" and len: "length p' \<le> length p" for r p'
  proof (cases r)
    case None
    then show ?thesis using len by simp
  next
    case (Some kv)
    obtain k v where kv: "kv = (k, v)" by (cases kv)
    show ?thesis
    proof (cases k)
      case None
      then have "p' = []"
        using parsers_fitD(6) [OF fit, of p "KV_Key None"] n r Some kv
        by (auto simp: key_at_end_def)
      then show ?thesis using Some kv by (auto intro!: fits_store simp: at_char_def adv_def)
    next
      case (Some k')
      have "fits trap trd (length p) (rbind (adv p') (dict_loop trap n (dict_put d k' v)))"
        by (rule fits_adv, rule loop) (metis len Cons length_Cons Suc_le_mono)
      then show ?thesis using \<open>r = Some kv\<close> kv Some len by (auto intro!: fits_store)
    qed
  qed
  have "fits trap trd (length p) (rbind (kvo_loop trap n (KV_Key None) p) (\<lambda>(r, p').
        case r of
          None \<Rightarrow> Inr (False, d, p')
        | Some (k, v) \<Rightarrow> rbind (dict_store trap d k) (\<lambda>_.
            if at_char CHR ''}'' p' then rbind (deref k) (\<lambda>k. Inr (True, dict_put d k v, p'))
            else rbind (adv p') (\<lambda>p''. rbind (deref k) (\<lambda>k. dict_loop trap n (dict_put d k v) p'')))))"
    by (rule fits_bind [OF parsers_fitD(5) [OF fit n]]) (use entry in auto)
  then show ?thesis using Cons loop by (simp add: dict_step_def)
qed

lemma kvo_step_fits:
  assumes fit: "parsers_fit trap n" and n: "4 * length p \<le> n"
  shows "fits trap snd (length p) (kvo_step (array_parsing trap n) (dict_parsing trap n) (kvo_loop trap n) mode p)" (is ?fits)
    and "key_at_end (kvo_step (array_parsing trap n) (dict_parsing trap n) (kvo_loop trap n) mode p)" (is ?key)
proof -
  show ?fits
  proof (cases p)
    case Nil
    then show ?thesis by (simp add: kvo_step_def)
  next
    case (Cons c q)
    have q: "4 * length q + 1 \<le> n" "4 * Suc (length q) \<le> n" using n Cons by auto
    have loop: "fits trap snd (length p) (kvo_loop trap n mode' q)" for mode'
      using parsers_fitD(5) [OF fit q(1), of mode'] Cons by (auto elim!: fits_mono)
    have nested: "fits trap snd (length p) (rbind (array_parsing trap n p) (\<lambda>(obj, p'). Inr (f obj, p')))"
      if "c = CHR ''[''" for f :: "_ \<Rightarrow> (cstring_ptr \<times> lwm_object) option"
      by (rule fits_bind [OF parsers_fitD(1) [OF fit q(2), folded that Cons]]) (use Cons in auto)
    have nested_d: "fits trap snd (length p) (rbind (dict_parsing trap n [] p) (\<lambda>(ok, d, p'). Inr (g ok d, p')))"
      if "c = CHR ''{''" for g :: "_ \<Rightarrow> _ \<Rightarrow> (cstring_ptr \<times> lwm_object) option"
      by (rule fits_bind [OF parsers_fitD(3) [OF fit q(2), of "[]", folded that Cons]])
        (use Cons in auto)
    show ?thesis
      using Cons nested nested_d loop
      by (auto simp: kvo_step_def split: kv_mode.splits option.splits)
  qed
  show ?key
  proof (cases p)
    case Nil
    then show ?thesis by (simp add: kvo_step_def key_at_end_def)
  next
    case (Cons c q)
    have "4 * length q + 1 \<le> n" using n Cons by simp
    then have "key_at_end (kvo_loop trap n mode' q)" for mode' by (rule parsers_fitD(6) [OF fit])
    then show ?thesis
      using Cons by (auto simp: kvo_step_def key_at_end_def split: kv_mode.splits option.splits if_splits)
  qed
qed

lemma parsers_fit_all: "parsers_fit trap n"
proof (induction n)
  case 0
  then show ?case by (simp add: parsers_fit_def)
next
  case (Suc n)
  note D = parsers_fitD [OF Suc]
  have "fits trap snd (Suc (length q)) (array_parsing trap (Suc n) (CHR ''['' # q))"
    if "4 * Suc (length q) \<le> Suc n" for q
    using D(2) [of q PM_Openable "[]"] that
    by (auto simp: parser_simps lwm_new_array_parsing_def skip_char_def at_char_def Let_def
        elim!: fits_mono)
  moreover have "fits trap trd (Suc (length q)) (dict_parsing trap (Suc n) d (CHR ''{'' # q))"
    if "4 * Suc (length q) \<le> Suc n" for d q
  proof -
    have "fits trap trd (length q) (dict_loop trap n d q)" using that by (intro D(4)) simp
    then show ?thesis
      by (auto simp: parser_simps lwm_dict_parsing_def skip_char_def at_char_def
          intro!: fits_bind [of trap trd "length q"])
  qed
  ultimately show ?case
    unfolding parsers_fit_def
    using array_step_fits [OF Suc] dict_step_fits [OF Suc] kvo_step_fits [OF Suc]
    by (simp add: parser_simps)
qed

definition ends :: "bool \<Rightarrow> 'a res \<Rightarrow> bool" where
  "ends trap r \<longleftrightarrow> (case r of Inl e \<Rightarrow> parser_fault trap e | Inr a \<Rightarrow> True)"

lemma ends_simps [simp]: "ends trap (Inr a)" "ends trap (Inl e) \<longleftrightarrow> parser_fault trap e"
  by (simp_all add: ends_def)

lemma message_loop_ends: "4 * length p + 3 \<le> n \<Longrightarrow> ends trap (message_loop trap n mode flag m p)"
proof (induction n arbitrary: mode flag m p)
  case (Suc n)
  show ?case
  proof (cases p)
    case (Cons c q)
    have loop: "ends trap (message_loop trap n mode' flag' m' p')" if "length p' \<le> length q" for mode' flag' m' p'
      using Suc.IH [of p'] Suc.prems Cons that by simp
    have dict: "ends trap (rbind (dict_parsing trap n d p) (\<lambda>(ok, d, p'). rbind (adv p') (message_loop trap n mode' True (f d))))"
      if c: "c = CHR ''{''" for d mode' f
    proof -
      have "fits trap trd (Suc (length q)) (dict_parsing trap n d p)"
        using parsers_fitD(3) [OF parsers_fit_all, of q n trap d] Suc.prems Cons c by simp
      then show ?thesis
        by (cases "dict_parsing trap n d p") (auto simp: adv_def loop split: list.splits)
    qed
    show ?thesis
      using dict [unfolded Cons] loop Cons by (cases mode) auto
  qed simp
qed simp

lemma parse_on_ends: "ends trap (parse_on trap str)"
proof (cases str)
  case (Some s)
  have "ends trap (message_loop trap (parse_fuel s) PM_Header False new_lwm_empty_message s)"
    by (rule message_loop_ends) (simp add: parse_fuel_def)
  then show ?thesis
    using Some
    by (cases "message_loop trap (parse_fuel s) PM_Header False new_lwm_empty_message s")
      (auto simp: parse_on_def)
qed (simp add: parse_on_def)

section \<open>A board on which stores through NULL trap\<close>

text \<open>Until a store traps, the parser does what it does on a board without traps.\<close>

definition trapped :: "'a res \<Rightarrow> 'a res \<Rightarrow> bool" where
  "trapped r r' \<longleftrightarrow> r = Inl Null_deref \<or> r = r'"

lemma trapped_refl [simp]: "trapped r r"
  by (simp add: trapped_def)

lemma trapped_bind:
  assumes "trapped r r'" "\<And>a. trapped (f a) (f' a)"
  shows "trapped (rbind r f) (rbind r' f')"
proof (cases "r = Inl Null_deref")
  case False
  then have "r = r'" using assms(1) by (simp add: trapped_def)
  then show ?thesis using assms(2) by (cases r') auto
qed (simp add: trapped_def)

lemma trapped_array_store [simp]:
  "trapped (array_store True xs) (Inr ())"
  "trapped (if b then array_store True xs else Inr ()) (if b then array_store False xs else Inr ())"
  using stores_cases(1) [of True xs] by (auto simp: trapped_def)

lemma trapped_store:
  "trapped (f ()) r \<Longrightarrow> trapped (rbind (array_store trap xs) f) r"
  "trapped (f ()) r \<Longrightarrow> trapped (rbind (dict_store trap d k) f) r"
  using stores_cases(1) [of trap xs] stores_cases(2) [of trap d k] by (auto simp: trapped_def)

lemma parsers_trapped:
  "trapped (array_parsing True n p) (array_parsing False n p)"
  "trapped (array_loop True n mode xs p) (array_loop False n mode xs p)"
  "trapped (dict_parsing True n d p) (dict_parsing False n d p)"
  "trapped (dict_loop True n d p) (dict_loop False n d p)"
  "trapped (kvo_loop True n kmode p) (kvo_loop False n kmode p)"
proof (induction n arbitrary: p mode xs d kmode)
  case (Suc n)
  {
    case 1
    show ?case by (simp add: parser_simps lwm_new_array_parsing_def Let_def Suc.IH)
  next
    case 2
    show ?case
      by (auto simp: parser_simps array_step_def Let_def split: list.split array_mode.split
          intro!: trapped_bind trapped_store Suc.IH)
  next
    case 3
    show ?case by (auto simp: parser_simps lwm_dict_parsing_def intro!: trapped_bind Suc.IH)
  next
    case 4
    show ?case
      by (auto simp: parser_simps dict_step_def split: list.split option.split
          intro!: trapped_bind trapped_store Suc.IH)
  next
    case 5
    show ?case
      by (auto simp: parser_simps kvo_step_def split: list.split kv_mode.split option.split
          intro!: trapped_bind Suc.IH)
  }
qed (simp_all add: parser_simps)

lemma message_loop_trapped: "trapped (message_loop True n mode flag m p) (message_loop False n mode flag m p)"
proof (induction n arbitrary: mode flag m p)
  case (Suc n)
  then show ?case
    by (auto split: list.split message_mode.split intro!: trapped_bind parsers_trapped)
qed simp

lemma parse_on_trapped: "trapped (parse_on True str) (parse_lwm_message_str str)"
  by (auto simp: parse_lwm_message_str_def parse_on_def split: option.split intro!: trapped_bind message_loop_trapped)

text \<open>Past the traps only empty dictionaries come.\<close>

lemma dict_store_empty [simp]: "dict_store True [] k = Inl Null_deref"
  by (simp add: dict_store_def null_store_def split: option.split)

lemma dict_loop_empty: "dict_loop True n [] p = Inr (ok, d, p') \<Longrightarrow> d = []"
proof (induction n arbitrary: p)
  case (Suc n)
  then show ?case
    by (auto simp: parser_simps dict_step_def split: list.splits if_splits option.splits)
qed (simp add: parser_simps)

lemma dict_parsing_empty: "dict_parsing True n [] p = Inr (ok, d, p') \<Longrightarrow> d = []"
  using dict_loop_empty
  by (cases n) (fastforce simp: parser_simps lwm_dict_parsing_def delete_lwm_kvo_def split: if_splits)+

lemma message_loop_empty:
  "message_loop True n mode flag m p = Inr (flag', m') \<Longrightarrow> header m = [] \<Longrightarrow> body m = [] \<Longrightarrow>
    header m' = [] \<and> body m' = []"
proof (induction n arbitrary: mode flag m p)
  case (Suc n)
  then show ?case
    by (fastforce split: list.splits if_splits message_mode.splits dest: dict_parsing_empty)
qed simp

lemma parse_on_empty: "parse_on True str = Inr (Some m) \<Longrightarrow> m = new_lwm_empty_message"
proof -
  assume "parse_on True str = Inr (Some m)"
  then have "header m = [] \<and> body m = []"
    using message_loop_empty [of _ _ False new_lwm_empty_message]
    by (fastforce simp: parse_on_def new_lwm_empty_message_def split: option.splits if_splits)
  then show ?thesis by (cases m) (simp add: new_lwm_empty_message_def)
qed

section \<open>Properties\<close>

text \<open>
  C2. The parser is total on every text. Where a store through NULL passes it returns a message or NULL,
  or it steps past the terminator: it reads nothing through NULL, and the fuel of the model never runs out. Where
  such a store traps it does the same up to the first one, which is made for the first entry
  of the first array or dictionary: the only message it can return is the one without entries.
\<close>

theorem parse_total:
  "((\<exists>r. parse_lwm_message_str str = Inr r) \<or> parse_lwm_message_str str = Inl Out_of_bounds) \<and>
   (parse_on True str = Inl Null_deref \<or>
    parse_on True str = parse_lwm_message_str str \<and>
    parse_on True str \<in> {Inr (Some new_lwm_empty_message), Inr None, Inl Out_of_bounds})"
proof -
  have "ends False (parse_lwm_message_str str)" using parse_on_ends by (simp add: parse_lwm_message_str_def)
  then have "(\<exists>r. parse_lwm_message_str str = Inr r) \<or> parse_lwm_message_str str = Inl Out_of_bounds"
    by (cases "parse_lwm_message_str str") (auto simp: parser_fault_def)
  moreover have "r \<in> {Some new_lwm_empty_message, None}" if "parse_on True str = Inr r" for r
    using that parse_on_empty by (cases r) auto
  ultimately show ?thesis
    using parse_on_trapped [of str] by (fastforce simp: trapped_def)
qed

end
