(* ===== verification/LwmRoundTrip.thy ===== *)
theory LwmRoundTrip
  imports LwmParse
begin

text \<open>
  What the parser makes of a serialized message. The lists come back reversed, because the
  parser inserts at the head, and every number comes back as its text: this is \<open>norm\<close>. The
  messages covered are those of \<open>message_wf\<close>: texts without the separators of their
  position, keys distinct, and a dictionary as the value of a key only inside an array (the parser
  loses what follows any other; see \<open>nested_dict_swallows\<close>).
\<close>

section \<open>Well-formed messages\<close>

definition printable :: "char \<Rightarrow> bool" where
  "printable c \<longleftrightarrow> isalnum c \<or> isspace c \<or> ispunct c"

definition starts_word :: "string \<Rightarrow> bool" where
  "starts_word s \<longleftrightarrow> s \<noteq> [] \<and> \<not> isspace (hd s)"

definition clear_of :: "string \<Rightarrow> string \<Rightarrow> bool" where
  "clear_of tokens s \<longleftrightarrow> list_all (\<lambda>c. printable c \<and> c \<notin> set tokens) s"

definition key_ok :: "cstring \<Rightarrow> bool" where
  "key_ok k \<longleftrightarrow> starts_word k \<and> clear_of ''{[]};,='' k"

definition value_ok :: "cstring \<Rightarrow> bool" where
  "value_ok s \<longleftrightarrow> starts_word s \<and> clear_of ''{[=,]};'' s"

definition item_ok :: "cstring \<Rightarrow> bool" where
  "item_ok s \<longleftrightarrow> starts_word s \<and> clear_of '',]{[};='' [hd s] \<and>
     list_all (\<lambda>c. c \<noteq> CHR '','' \<and> c \<noteq> CHR '']'') s"

definition text_ok :: "bool \<Rightarrow> cstring_ptr res \<Rightarrow> bool" where
  "text_ok as_value r = (case r of
      Inr (Some s) \<Rightarrow> (if as_value then value_ok s else item_ok s)
    | _ \<Rightarrow> False)"

text \<open>The flag says whether the object stands as the value of a key or in an array.\<close>

fun object_wf :: "bool \<Rightarrow> lwm_object \<Rightarrow> bool" where
  "object_wf as_value (LWM_Array xs) \<longleftrightarrow> list_all (object_wf False) xs"
| "object_wf as_value (LWM_Dictionary d) \<longleftrightarrow>
     \<not> as_value \<and> distinct (map fst d) \<and> list_all (\<lambda>(k, v). key_ok k \<and> object_wf True v) d"
| "object_wf as_value v \<longleftrightarrow> text_ok as_value (serialize_lwm_object v)"

fun norm :: "lwm_object \<Rightarrow> lwm_object" where
  "norm (LWM_Array xs) = LWM_Array (rev (map norm xs))"
| "norm (LWM_Dictionary d) = LWM_Dictionary (rev (map (\<lambda>(k, v). (k, norm v)) d))"
| "norm v = LWM_String (case serialize_lwm_object v of Inr t \<Rightarrow> t | Inl _ \<Rightarrow> None)"

definition norm_dict :: "lwm_dict \<Rightarrow> lwm_dict" where
  "norm_dict d = rev (map (\<lambda>(k, v). (k, norm v)) d)"

definition dict_ok :: "lwm_dict \<Rightarrow> bool" where
  "dict_ok d \<longleftrightarrow> object_wf False (LWM_Dictionary d)"

definition message_wf :: "lwm_message \<Rightarrow> bool" where
  "message_wf m \<longleftrightarrow> dict_ok (header m) \<and> dict_ok (body m) \<and> length (body m) < 256"

definition norm_message :: "lwm_message \<Rightarrow> lwm_message" where
  "norm_message m = \<lparr>header = norm_dict (header m), body = norm_dict (body m)\<rparr>"

section \<open>Reading words\<close>

lemma not_token: "printable c \<Longrightarrow> c \<notin> set ts \<Longrightarrow> ts \<noteq> [] \<Longrightarrow> \<not> lwm_is_token c ts"
  by (auto simp: lwm_is_token_def printable_def list_ex_iff)

lemma is_token: "c \<in> set ts \<Longrightarrow> lwm_is_token c ts"
  by (auto simp: lwm_is_token_def list_ex_iff)

lemma substring_app [simp]: "substring (s @ p) p = s" "substring (c # s @ p) p = c # s"
  by (simp_all add: substring_def)

lemma not_space [simp]:
  "\<not> isspace CHR ''{''" "\<not> isspace CHR ''}''" "\<not> isspace CHR ''[''" "\<not> isspace CHR '']''"
  "\<not> isspace CHR ''=''" "\<not> isspace CHR '';''" "\<not> isspace CHR '',''"
  by (simp_all add: isspace_def)

lemma printable_seps [simp]:
  "printable CHR ''{''" "printable CHR ''}''" "printable CHR ''[''" "printable CHR '']''"
  "printable CHR ''=''" "printable CHR '';''" "printable CHR '',''"
  by (simp_all add: printable_def ctype_defs)

lemma key_chars:
  "list_all (\<lambda>c. printable c \<and> c \<notin> set ''{[]};,='') ks \<Longrightarrow> length ks < n \<Longrightarrow>
    kvo_loop False n (KV_Key (Some s)) (ks @ CHR ''='' # r)
      = kvo_loop False (n - length ks - 1) (KV_Val (substring s (CHR ''='' # r)) None) r"
proof (induction ks arbitrary: n)
  case Nil
  then show ?case
    by (cases n) (simp_all add: parser_simps kvo_step_def not_token)
next
  case (Cons c ks)
  then show ?case
    by (cases n) (auto simp: parser_simps kvo_step_def not_token)
qed

lemma key_word:
  assumes "key_ok k" "length k < n"
  shows "kvo_loop False n (KV_Key None) (k @ CHR ''='' # r) = kvo_loop False (n - length k - 1) (KV_Val k None) r"
proof -
  obtain c ks where k: "k = c # ks" and c: "\<not> isspace c" "printable c" "c \<notin> set ''{[]};,=''"
    and ks: "list_all (\<lambda>c. printable c \<and> c \<notin> set ''{[]};,='') ks"
    using assms(1) by (cases k) (auto simp: key_ok_def starts_word_def clear_of_def)
  obtain m where n: "n = Suc m" "length ks < m" using assms(2) k by (cases n) auto
  have "kvo_loop False n (KV_Key None) (k @ CHR ''='' # r)
      = kvo_loop False m (KV_Key (Some (k @ CHR ''='' # r))) (ks @ CHR ''='' # r)"
    using c k n(1) by (simp add: parser_simps kvo_step_def not_token)
  also have "\<dots> = kvo_loop False (m - length ks - 1) (KV_Val k None) r"
    using key_chars [OF ks n(2), of "k @ CHR ''='' # r" r] by simp
  finally show ?thesis using k n by simp
qed

lemma value_chars:
  "list_all (\<lambda>c. printable c \<and> c \<notin> set ''{[=,]};'') vs \<Longrightarrow> length vs < n \<Longrightarrow>
    t \<in> set '']};'' \<Longrightarrow> kvo_loop False n (KV_Val k (Some s)) (vs @ t # r)
      = Inr (Some (Some k, LWM_String (Some (substring s (t # r)))), t # r)"
proof (induction vs arbitrary: n)
  case Nil
  then show ?case
    by (cases n) (auto simp: parser_simps kvo_step_def not_token is_token)
next
  case (Cons c vs)
  then show ?case
    by (cases n) (auto simp: parser_simps kvo_step_def not_token)
qed

lemma value_word:
  assumes "value_ok v" "length v < n" "t \<in> set '']};''"
  shows "kvo_loop False n (KV_Val k None) (v @ t # r) = Inr (Some (Some k, LWM_String (Some v)), t # r)"
proof -
  obtain c vs where v: "v = c # vs" and c: "\<not> isspace c" "printable c" "c \<notin> set ''{[=,]};''"
    and vs: "list_all (\<lambda>c. printable c \<and> c \<notin> set ''{[=,]};'') vs"
    using assms(1) by (cases v) (auto simp: value_ok_def starts_word_def clear_of_def)
  obtain m where n: "n = Suc m" "length vs < m" using assms(2) v by (cases n) auto
  have "kvo_loop False n (KV_Val k None) (v @ t # r) = kvo_loop False m (KV_Val k (Some (v @ t # r))) (vs @ t # r)"
    using c v n(1) by (auto simp: parser_simps kvo_step_def not_token)
  then show ?thesis using value_chars [OF vs n(2) assms(3), of k "v @ t # r" r] by simp
qed

lemma item_chars:
  "list_all (\<lambda>c. c \<noteq> CHR '','' \<and> c \<noteq> CHR '']'') vs \<Longrightarrow> length vs < n \<Longrightarrow>
    array_loop False n (PM_Value s) xs (vs @ CHR '','' # r)
      = array_loop False (n - length vs - 1) PM_Openable (LWM_String (Some (substring s (CHR '','' # r))) # xs) r \<and>
    array_loop False n (PM_Value s) xs (vs @ CHR '']'' # r)
      = Inr (Some (LWM_Array (LWM_String (Some (substring s (CHR '']'' # r))) # xs)), CHR '']'' # r)"
proof (induction vs arbitrary: n)
  case Nil
  then show ?case
    by (cases n) (auto simp: parser_simps array_step_def)
next
  case (Cons c vs)
  then show ?case
    by (cases n) (auto simp: parser_simps array_step_def)
qed

lemma item_word:
  assumes "item_ok v" "length v < n"
  shows "array_loop False n PM_Openable xs (v @ CHR '','' # r)
      = array_loop False (n - length v - 1) PM_Openable (LWM_String (Some v) # xs) r"
    and "array_loop False n PM_Openable xs (v @ CHR '']'' # r)
      = Inr (Some (LWM_Array (LWM_String (Some v) # xs)), CHR '']'' # r)"
proof -
  obtain c vs where v: "v = c # vs" and c: "\<not> isspace c" "printable c" "c \<notin> set '',]{[};=''"
    and vs: "list_all (\<lambda>c. c \<noteq> CHR '','' \<and> c \<noteq> CHR '']'') vs"
    using assms(1) by (cases v) (auto simp: item_ok_def starts_word_def clear_of_def)
  obtain m where n: "n = Suc m" "length vs < m" using assms(2) v by (cases n) auto
  have "array_loop False n PM_Openable xs (v @ t # r) = array_loop False m (PM_Value (v @ t # r)) xs (vs @ t # r)" for t
    using c v n(1) by (auto simp: parser_simps array_step_def not_token)
  then show "array_loop False n PM_Openable xs (v @ CHR '','' # r)
      = array_loop False (n - length v - 1) PM_Openable (LWM_String (Some v) # xs) r"
    and "array_loop False n PM_Openable xs (v @ CHR '']'' # r)
      = Inr (Some (LWM_Array (LWM_String (Some v) # xs)), CHR '']'' # r)"
    using item_chars [OF vs n(2)] v n by simp_all
qed

section \<open>Joined texts\<close>

fun joined :: "char \<Rightarrow> cstring list \<Rightarrow> cstring" where
  "joined sep [] = []"
| "joined sep [t] = t"
| "joined sep (t # ts) = t @ sep # joined sep ts"

lemma joined_Cons: "joined sep (t # ts) = t @ (if ts = [] then [] else sep # joined sep ts)"
  by (cases ts) auto

lemma join_items_joined_aux:
  "acc \<noteq> [] \<Longrightarrow> join_items sep acc (map (Inr \<circ> Some) ts)
    = Inr (acc @ (if ts = [] then [] else sep # joined sep ts))"
  by (induction ts arbitrary: acc) (auto simp: join_item_def joined_Cons)

lemma join_items_joined:
  assumes "list_all (\<lambda>t. t \<noteq> []) ts"
  shows "join_items sep [] (map (Inr \<circ> Some) ts) = Inr (joined sep ts)"
  using assms by (cases ts) (auto simp: join_item_def joined_Cons join_items_joined_aux)

section \<open>Reading objects\<close>

text \<open>What it means that the text of an object is read back as an item or as a value.\<close>

definition text_of :: "lwm_object \<Rightarrow> cstring" where
  "text_of x = (case serialize_lwm_object x of Inr (Some t) \<Rightarrow> t | _ \<Rightarrow> [])"

definition has_text :: "lwm_object \<Rightarrow> bool" where
  "has_text x \<longleftrightarrow> serialize_lwm_object x = Inr (Some (text_of x)) \<and> text_of x \<noteq> [] \<and>
     hd (text_of x) \<noteq> CHR '']''"

definition reads_item :: "lwm_object \<Rightarrow> bool" where
  "reads_item x \<longleftrightarrow> has_text x \<and>
     (\<forall>n acc r. 4 * (length (text_of x) + Suc (length r)) + 1 \<le> n \<longrightarrow>
       array_loop False n PM_Openable acc (text_of x @ CHR '']'' # r)
         = Inr (Some (LWM_Array (norm x # acc)), CHR '']'' # r) \<and>
       (\<exists>m. 4 * length r + 1 \<le> m \<and> array_loop False n PM_Openable acc (text_of x @ CHR '','' # r)
         = array_loop False m PM_Openable (norm x # acc) r))"

definition reads_value :: "lwm_object \<Rightarrow> bool" where
  "reads_value x \<longleftrightarrow> has_text x \<and>
     (\<forall>n k c r. c \<in> {CHR '';'', CHR ''}''} \<longrightarrow> 4 * (length (text_of x) + Suc (length r)) + 1 \<le> n \<longrightarrow>
       (\<exists>p. kvo_loop False n (KV_Val k None) (text_of x @ c # r) = Inr (Some (Some k, norm x), p) \<and>
         (p = c # r \<or> p = CHR '']'' # c # r)))"

lemma reads_itemD:
  assumes "reads_item x" "4 * (length (text_of x) + Suc (length r)) + 1 \<le> n"
  shows "array_loop False n PM_Openable acc (text_of x @ CHR '']'' # r)
      = Inr (Some (LWM_Array (norm x # acc)), CHR '']'' # r)"
    and "\<exists>m. 4 * length r + 1 \<le> m \<and> array_loop False n PM_Openable acc (text_of x @ CHR '','' # r)
      = array_loop False m PM_Openable (norm x # acc) r"
  using assms by (auto simp: reads_item_def)

lemma text_ok_text_of:
  assumes "text_ok v (serialize_lwm_object x)"
  shows "serialize_lwm_object x = Inr (Some (text_of x))" "text_of x \<noteq> []"
    "if v then value_ok (text_of x) else item_ok (text_of x)" "hd (text_of x) \<noteq> CHR '']''"
  using assms
  by (auto simp: text_ok_def text_of_def value_ok_def item_ok_def starts_word_def clear_of_def
      neq_Nil_conv split: sum.splits option.splits if_splits)

lemma scalar_item:
  assumes "text_ok False (serialize_lwm_object x)" "norm x = LWM_String (Some (text_of x))"
  shows "reads_item x"
proof -
  note t = text_ok_text_of [OF assms(1)]
  show ?thesis
    unfolding reads_item_def has_text_def
  proof (intro conjI allI impI, goal_cases)
    case (4 n acc r)
    then show ?case using item_word(2) [of "text_of x" n acc r] t assms(2) by simp
  next
    case (5 n acc r)
    then show ?case
      using item_word(1) [of "text_of x" n acc r] t assms(2)
      by (intro exI [of _ "n - length (text_of x) - 1"]) auto
  qed (use t in auto)
qed

lemma scalar_value:
  assumes "text_ok True (serialize_lwm_object x)" "norm x = LWM_String (Some (text_of x))"
  shows "reads_value x"
  unfolding reads_value_def has_text_def
  using text_ok_text_of [OF assms(1)] assms(2) by (auto simp: value_word)

lemma items_read:
  "xs \<noteq> [] \<Longrightarrow> (\<And>x. x \<in> set xs \<Longrightarrow> reads_item x) \<Longrightarrow>
    4 * (length (joined CHR '','' (map text_of xs)) + Suc (length r)) + 1 \<le> n \<Longrightarrow>
    array_loop False n PM_Openable acc (joined CHR '','' (map text_of xs) @ CHR '']'' # r)
      = Inr (Some (LWM_Array (rev (map norm xs) @ acc)), CHR '']'' # r)"
proof (induction xs arbitrary: acc n)
  case (Cons x xs)
  show ?case
  proof (cases "xs = []")
    case True
    then show ?thesis using reads_itemD(1) [of x r n acc] Cons.prems by simp
  next
    case False
    let ?r = "joined CHR '','' (map text_of xs) @ CHR '']'' # r"
    obtain m where "4 * length ?r + 1 \<le> m"
      "array_loop False n PM_Openable acc (text_of x @ CHR '','' # ?r) = array_loop False m PM_Openable (norm x # acc) ?r"
      using reads_itemD(2) [of x ?r n acc] Cons.prems False by (auto simp: joined_Cons)
    then show ?thesis using Cons.IH [OF False, of m "norm x # acc"] Cons.prems False
      by (simp add: joined_Cons)
  qed
qed simp

lemma array_text:
  assumes "\<And>x. x \<in> set xs \<Longrightarrow> has_text x"
  shows "serialize_lwm_object (LWM_Array xs) = Inr (Some (CHR ''['' # joined CHR '','' (map text_of xs) @ '']''))"
proof -
  have "map serialize_lwm_object xs = map (Inr \<circ> Some) (map text_of xs)"
    using assms by (simp add: has_text_def)
  moreover have "list_all (\<lambda>t. t \<noteq> []) (map text_of xs)"
    using assms by (auto simp: has_text_def list_all_iff)
  ultimately show ?thesis by (simp add: join_items_joined bracket_def del: map_map)
qed

lemma joined_hd: "joined sep (t # ts) \<noteq> [] \<and> hd (joined sep (t # ts)) = hd t" if "t \<noteq> []"
  using that by (simp add: joined_Cons)

lemma array_reads:
  assumes "\<And>x. x \<in> set xs \<Longrightarrow> reads_item x"
    and n: "4 * (length (text_of (LWM_Array xs)) + length r) \<le> n"
  shows "array_parsing False n (text_of (LWM_Array xs) @ r) = Inr (Some (norm (LWM_Array xs)), CHR '']'' # r)"
proof -
  let ?t = "joined CHR '','' (map text_of xs)"
  have has: "\<And>x. x \<in> set xs \<Longrightarrow> has_text x" using assms(1) by (auto simp: reads_item_def)
  have t: "text_of (LWM_Array xs) = CHR ''['' # ?t @ '']''"
    using array_text [OF has] by (simp add: text_of_def)
  obtain m where m: "n = Suc m" using n t by (cases n) auto
  show ?thesis
  proof (cases xs)
    case Nil
    then show ?thesis
      using m t by (simp add: parser_simps lwm_new_array_parsing_def skip_char_def at_char_def)
  next
    case (Cons y ys)
    have ne: "?t \<noteq> []" "hd ?t \<noteq> CHR '']''"
      using Cons has [of y] joined_hd [of "text_of y" "CHR '',''" "map text_of ys"]
      by (auto simp: has_text_def)
    then have "array_parsing False n (text_of (LWM_Array xs) @ r)
        = array_loop False m PM_Openable [] (?t @ CHR '']'' # r)"
      by (cases ?t) (auto simp: t m parser_simps lwm_new_array_parsing_def skip_char_def at_char_def)
    also have "\<dots> = Inr (Some (LWM_Array (rev (map norm xs) @ [])), CHR '']'' # r)"
      using Cons assms(1) n m t by (intro items_read) auto
    finally show ?thesis by simp
  qed
qed

lemma array_has_text:
  assumes "\<And>x. x \<in> set xs \<Longrightarrow> has_text x"
  shows "has_text (LWM_Array xs)" "hd (text_of (LWM_Array xs)) = CHR ''[''"
  using array_text [OF assms] by (auto simp: has_text_def text_of_def)

lemma array_item:
  assumes "\<And>x. x \<in> set xs \<Longrightarrow> reads_item x"
  shows "reads_item (LWM_Array xs)"
proof -
  let ?a = "LWM_Array xs"
  have has: "has_text ?a" "hd (text_of ?a) = CHR ''[''"
    using array_has_text assms by (auto simp: reads_item_def)
  then obtain u where u: "text_of ?a = CHR ''['' # u" by (cases "text_of ?a") (auto simp: has_text_def)
  have step: "array_loop False n PM_Openable acc (text_of ?a @ q) = array_loop False (n - 1) PM_Object (norm ?a # acc) q"
    if n: "4 * (length (text_of ?a) + length q) + 1 \<le> n" for n acc q
  proof -
    obtain m where m: "n = Suc m" "4 * (length (text_of ?a) + length q) \<le> m" using n by (cases n) auto
    show ?thesis
      using array_reads [OF assms m(2)] u m(1)
      by (simp add: parser_simps array_step_def adv_def)
  qed
  show ?thesis
    unfolding reads_item_def
  proof (intro conjI allI impI, goal_cases)
    case (2 n acc r)
    moreover obtain k where "n = Suc (Suc k)" using 2 by (cases n; cases "n - 1") auto
    ultimately show ?case
      using step [where n = n and q = "CHR '']'' # r" and acc = acc] by (simp add: parser_simps array_step_def)
  next
    case (3 n acc r)
    moreover obtain k where "n = Suc (Suc k)" using 3 by (cases n; cases "n - 1") auto
    ultimately show ?case
      using step [where n = n and q = "CHR '','' # r" and acc = acc]
      by (intro exI [of _ "n - 2"]) (simp add: parser_simps array_step_def)
  qed (rule has)
qed

lemma array_value:
  assumes "\<And>x. x \<in> set xs \<Longrightarrow> reads_item x"
  shows "reads_value (LWM_Array xs)"
proof -
  let ?a = "LWM_Array xs"
  have has: "has_text ?a" "hd (text_of ?a) = CHR ''[''"
    using array_has_text assms by (auto simp: reads_item_def)
  then obtain u where u: "text_of ?a = CHR ''['' # u" by (cases "text_of ?a") (auto simp: has_text_def)
  show ?thesis
    unfolding reads_value_def
  proof (intro conjI allI impI, goal_cases)
    case (2 n k c r)
    then obtain m where m: "n = Suc m" "4 * (length (text_of ?a) + length (c # r)) \<le> m" by (cases n) auto
    then show ?case
      using array_reads [OF assms m(2)] u by (simp add: parser_simps kvo_step_def)
  qed (rule has)
qed

section \<open>Reading dictionaries\<close>

definition entry_text :: "cstring \<times> lwm_object \<Rightarrow> cstring" where
  "entry_text kv = fst kv @ CHR ''='' # text_of (snd kv)"

definition norm_entry :: "cstring \<times> lwm_object \<Rightarrow> cstring \<times> lwm_object" where
  "norm_entry kv = (fst kv, norm (snd kv))"

definition reads_entry :: "cstring \<times> lwm_object \<Rightarrow> bool" where
  "reads_entry kv \<longleftrightarrow> key_ok (fst kv) \<and> reads_value (snd kv)"

lemma entry_text_ne: "entry_text kv \<noteq> []"
  by (simp add: entry_text_def)

lemma dict_loop_brace: "0 < n \<Longrightarrow> dict_loop False n d (CHR ''}'' # r) = Inr (True, d, CHR ''}'' # r)"
  by (cases n) (simp_all add: parser_simps dict_step_pass)

lemma dict_loop_semicolon: "0 < n \<Longrightarrow> dict_loop False n d (CHR '';'' # r) = dict_loop False (n - 1) d r"
  by (cases n) (simp_all add: parser_simps dict_step_pass)

lemma entry_read:
  assumes kv: "reads_entry kv" "fst kv \<notin> set (map fst d)" and c: "c \<in> {CHR '';'', CHR ''}''}"
    and n: "4 * (length (entry_text kv) + Suc (length r)) + 2 \<le> n"
  shows "c = CHR ''}'' \<Longrightarrow> dict_loop False n d (entry_text kv @ c # r) = Inr (True, norm_entry kv # d, c # r)"
    and "c = CHR '';'' \<Longrightarrow> \<exists>m. 4 * length r + 2 \<le> m \<and>
      dict_loop False n d (entry_text kv @ c # r) = dict_loop False m (norm_entry kv # d) r"
proof -
  obtain k v where kv_eq: "kv = (k, v)" by (cases kv)
  have k: "key_ok k" and v: "reads_value v" and new: "dict_put d k w = (k, w) # d" for w
    using kv kv_eq by (auto simp: reads_entry_def dict_put_def delete_kvo_notin)
  have len: "length (entry_text kv) = length k + Suc (length (text_of v))"
    by (simp add: entry_text_def kv_eq)
  obtain m where m: "n = Suc m" using n by (cases n) auto
  obtain b ks where b: "k = b # ks" "\<not> isspace b" "b \<noteq> CHR ''}''" "b \<noteq> CHR '';''"
    using k by (cases k) (auto simp: key_ok_def starts_word_def clear_of_def)
  have "\<exists>p. kvo_loop False (m - length k - 1) (KV_Val k None) (text_of v @ c # r) = Inr (Some (Some k, norm v), p) \<and>
      (p = c # r \<or> p = CHR '']'' # c # r)"
    using v c n m len unfolding reads_value_def by (elim conjE allE impE) auto
  then obtain p where p: "kvo_loop False m (KV_Key None) (entry_text kv @ c # r) = Inr (Some (Some k, norm v), p)"
      "p = c # r \<or> p = CHR '']'' # c # r"
    using key_word [OF k, of m "text_of v @ c # r"] n m len by (auto simp: entry_text_def kv_eq)
  have step: "dict_loop False n d (entry_text kv @ c # r) =
      (if at_char CHR ''}'' p then Inr (True, norm_entry kv # d, p)
       else rbind (adv p) (dict_loop False m (norm_entry kv # d)))"
    using p(1) b m
    by (simp add: parser_simps dict_step_pass entry_text_def kv_eq norm_entry_def new [unfolded b(1)])
  show "c = CHR ''}'' \<Longrightarrow> dict_loop False n d (entry_text kv @ c # r) = Inr (True, norm_entry kv # d, c # r)"
    using p(2) step n m by (auto simp: at_char_def adv_def dict_loop_brace)
  show "\<exists>m. 4 * length r + 2 \<le> m \<and> dict_loop False n d (entry_text kv @ c # r) = dict_loop False m (norm_entry kv # d) r"
    if semi: "c = CHR '';''"
    using p(2)
  proof
    assume "p = c # r"
    then show ?thesis using semi step n m by (intro exI [of _ m]) (auto simp: at_char_def adv_def)
  next
    assume "p = CHR '']'' # c # r"
    then show ?thesis
      using semi step n m
      by (intro exI [of _ "m - 1"]) (auto simp: at_char_def adv_def dict_loop_semicolon)
  qed
qed

lemma entries_read:
  "(\<And>kv. kv \<in> set es \<Longrightarrow> reads_entry kv) \<Longrightarrow> distinct (map fst es) \<Longrightarrow>
    set (map fst es) \<inter> set (map fst d) = {} \<Longrightarrow>
    4 * (length (joined CHR '';'' (map entry_text es)) + Suc (length r)) + 2 \<le> n \<Longrightarrow>
    dict_loop False n d (joined CHR '';'' (map entry_text es) @ CHR ''}'' # r)
      = Inr (True, rev (map norm_entry es) @ d, CHR ''}'' # r)"
proof (induction es arbitrary: d n)
  case Nil
  then show ?case by (simp add: dict_loop_brace)
next
  case (Cons e es)
  have new: "fst e \<notin> set (map fst d)" and e: "reads_entry e" using Cons.prems by auto
  show ?case
  proof (cases "es = []")
    case True
    then show ?thesis using entry_read(1) [OF e new, of "CHR ''}''" r n] Cons.prems by simp
  next
    case False
    let ?r = "joined CHR '';'' (map entry_text es) @ CHR ''}'' # r"
    obtain m where "4 * length ?r + 2 \<le> m"
      "dict_loop False n d (entry_text e @ CHR '';'' # ?r) = dict_loop False m (norm_entry e # d) ?r"
      using entry_read(2) [OF e new, of "CHR '';''" ?r n] Cons.prems False by (auto simp: joined_Cons)
    moreover have "dict_loop False m (norm_entry e # d) ?r
        = Inr (True, rev (map norm_entry es) @ norm_entry e # d, CHR ''}'' # r)"
      using Cons.prems \<open>4 * length ?r + 2 \<le> m\<close> by (intro Cons.IH) (auto simp: norm_entry_def)
    ultimately show ?thesis using False by (simp add: joined_Cons)
  qed
qed

lemma dict_text:
  assumes "\<And>kv. kv \<in> set d \<Longrightarrow> reads_entry kv"
  shows "serialize_lwm_object (LWM_Dictionary d)
    = Inr (Some (CHR ''{'' # joined CHR '';'' (map entry_text d) @ ''}''))"
proof -
  have "(case kv of (k, v) \<Rightarrow> kvo_text k (serialize_lwm_object v)) = Inr (Some (entry_text kv))"
    if "kv \<in> set d" for kv
    using assms [OF that]
    by (cases kv) (auto simp: reads_entry_def reads_value_def has_text_def kvo_text_def entry_text_def)
  then have "map (\<lambda>(k, v). kvo_text k (serialize_lwm_object v)) d = map (Inr \<circ> Some) (map entry_text d)"
    by simp
  moreover have "list_all (\<lambda>t. t \<noteq> []) (map entry_text d)"
    by (auto simp: list_all_iff entry_text_ne)
  ultimately show ?thesis by (simp add: join_items_joined bracket_def del: map_map)
qed

lemma norm_entry_norm: "rev (map norm_entry d) = norm_dict d"
  by (auto simp: norm_dict_def norm_entry_def)

lemma dict_reads:
  assumes "\<And>kv. kv \<in> set d \<Longrightarrow> reads_entry kv" "distinct (map fst d)"
    and "4 * (length (joined CHR '';'' (map entry_text d)) + 2 + length r) \<le> n"
  shows "dict_parsing False n [] (CHR ''{'' # joined CHR '';'' (map entry_text d) @ CHR ''}'' # r)
    = Inr (True, norm_dict d, CHR ''}'' # r)"
proof -
  obtain m where m: "n = Suc m" using assms(3) by (cases n) auto
  have "dict_loop False m [] (joined CHR '';'' (map entry_text d) @ CHR ''}'' # r)
      = Inr (True, rev (map norm_entry d) @ [], CHR ''}'' # r)"
    using assms m by (intro entries_read) auto
  then show ?thesis
    using m by (simp add: parser_simps lwm_dict_parsing_def skip_char_def at_char_def norm_entry_norm)
qed

lemma dict_item:
  assumes d: "\<And>kv. kv \<in> set d \<Longrightarrow> reads_entry kv" "distinct (map fst d)"
  shows "reads_item (LWM_Dictionary d)"
proof -
  let ?t = "joined CHR '';'' (map entry_text d)"
  have t: "text_of (LWM_Dictionary d) = CHR ''{'' # ?t @ ''}''"
    using dict_text [OF d(1)] by (simp add: text_of_def)
  have step: "array_loop False n PM_Openable acc (text_of (LWM_Dictionary d) @ q)
      = array_loop False (n - 1) PM_Object (norm (LWM_Dictionary d) # acc) q"
    if n: "4 * (length (text_of (LWM_Dictionary d)) + length q) + 1 \<le> n" for n acc q
  proof -
    obtain m where m: "n = Suc m" "4 * (length ?t + 2 + length q) \<le> m"
      using n t by (cases n) auto
    show ?thesis
      using dict_reads [OF d m(2)] t m(1)
      by (simp add: parser_simps array_step_def adv_def norm_dict_def)
  qed
  show ?thesis
    unfolding reads_item_def
  proof (intro conjI allI impI, goal_cases)
    case 1
    then show ?case using dict_text [OF d(1)] t by (simp add: has_text_def)
  next
    case (2 n acc r)
    moreover obtain k where "n = Suc (Suc k)" using 2 by (cases n; cases "n - 1") auto
    ultimately show ?case
      using step [where n = n and q = "CHR '']'' # r" and acc = acc] by (simp add: parser_simps array_step_def)
  next
    case (3 n acc r)
    moreover obtain k where "n = Suc (Suc k)" using 3 by (cases n; cases "n - 1") auto
    ultimately show ?case
      using step [where n = n and q = "CHR '','' # r" and acc = acc]
      by (intro exI [of _ "n - 2"]) (simp add: parser_simps array_step_def)
  qed
qed

lemma object_reads:
  "(object_wf False v \<longrightarrow> reads_item v) \<and> (object_wf True v \<longrightarrow> reads_value v)"
proof (induction v)
  case (LWM_Array xs)
  then show ?case using array_item [of xs] array_value [of xs] by (auto simp: list_all_iff)
next
  case (LWM_Dictionary d)
  have "reads_entry kv" if "list_all (\<lambda>(k, v). key_ok k \<and> object_wf True v) d" "kv \<in> set d" for kv
    using that LWM_Dictionary [of kv "snd kv"] by (cases kv) (auto simp: list_all_iff reads_entry_def)
  then show ?case using dict_item [of d] by auto
next
  case (LWM_Number n)
  have "text_ok b (serialize_lwm_object (LWM_Number n)) \<Longrightarrow>
      norm (LWM_Number n) = LWM_String (Some (text_of (LWM_Number n)))" for b
    using text_ok_text_of(1) [of b "LWM_Number n"] by simp
  then show ?case using scalar_item [of "LWM_Number n"] scalar_value [of "LWM_Number n"] by simp
next
  case (LWM_String s)
  have "text_ok b (serialize_lwm_object (LWM_String s)) \<Longrightarrow>
      norm (LWM_String s) = LWM_String (Some (text_of (LWM_String s)))" for b
    using text_ok_text_of(1) [of b "LWM_String s"] by simp
  then show ?case using scalar_item [of "LWM_String s"] scalar_value [of "LWM_String s"] by simp
qed (simp add: text_ok_def)

lemma dict_ok_entries:
  assumes "dict_ok d"
  shows "kv \<in> set d \<Longrightarrow> reads_entry kv" "distinct (map fst d)"
  using assms object_reads by (auto simp: dict_ok_def list_all_iff reads_entry_def)

definition dict_str :: "lwm_dict \<Rightarrow> cstring" where
  "dict_str d = joined CHR '';'' (map entry_text d)"

lemma serialize_dict_ok: "dict_ok d \<Longrightarrow> serialize_lwm_dictionary d = Inr (CHR ''{'' # dict_str d @ ''}'')"
  using dict_text [of d] dict_ok_entries(1) [of d] by (simp add: serialize_lwm_dictionary_def dict_str_def)

lemma parse_dict_ok:
  "dict_ok d \<Longrightarrow> 4 * (length (dict_str d) + 2 + length r) \<le> n \<Longrightarrow>
    dict_parsing False n [] (CHR ''{'' # dict_str d @ CHR ''}'' # r) = Inr (True, norm_dict d, CHR ''}'' # r)"
  using dict_reads [of d r n] dict_ok_entries [of d] by (simp add: dict_str_def)

lemma open_brace: "\<not> lwm_is_token CHR ''{'' ''[]};=,''"
  by (simp add: not_token)

lemma message_loop_end: "0 < n \<Longrightarrow> message_loop False n mode flag m [] = Inr (flag, m)"
  by (cases n) auto

lemma message_loop_body:
  assumes "dict_ok d" "body m = []" "4 * (length (dict_str d) + 2) + 2 \<le> n"
  shows "message_loop False n PM_Body flag m (CHR ''{'' # dict_str d @ ''}'')
    = Inr (True, m\<lparr>body := norm_dict d\<rparr>)"
proof -
  obtain k where k: "n = Suc k" using assms(3) by (cases n) auto
  then show ?thesis
    using parse_dict_ok [OF assms(1), of "[]" k] assms(2,3)
    by (simp add: open_brace adv_def message_loop_end)
qed

lemma message_loop_header:
  assumes "dict_ok d" "header m = []" "4 * (length (dict_str d) + 2 + length r) + 1 \<le> n"
  shows "message_loop False n PM_Header flag m (CHR ''{'' # dict_str d @ CHR ''}'' # r)
    = message_loop False (n - 1) PM_Body True (m\<lparr>header := norm_dict d\<rparr>) r"
proof -
  obtain k where k: "n = Suc k" using assms(3) by (cases n) auto
  then show ?thesis
    using parse_dict_ok [OF assms(1), of r k] assms(2,3) by (simp add: open_brace adv_def)
qed

lemma parse_header_only:
  assumes "dict_ok h"
  shows "parse_lwm_message_str (Some (CHR ''{'' # dict_str h @ ''}''))
    = Inr (Some \<lparr>header = norm_dict h, body = []\<rparr>)"
  using message_loop_header [OF assms, of new_lwm_empty_message "[]"
      "parse_fuel (CHR ''{'' # dict_str h @ ''}'')" False]
  by (simp add: parse_lwm_message_str_def parse_on_def new_lwm_empty_message_def parse_fuel_def message_loop_end)

section \<open>Properties\<close>

text \<open>
  C1. Serializing a well-formed message succeeds, and parsing the text gives the message back,
  every list reversed and every number as its text.
\<close>

theorem parse_serialize:
  assumes "message_wf m"
  shows "\<exists>s. serialize_lwm_message m = Inr s \<and>
    parse_lwm_message_str (Some s) = Inr (Some (norm_message m))"
proof -
  have h: "dict_ok (header m)" and b: "dict_ok (body m)" "node_num (body m) = length (body m)"
    using assms by (auto simp: message_wf_def node_num_def)
  let ?h = "CHR ''{'' # dict_str (header m) @ ''}''" and ?b = "CHR ''{'' # dict_str (body m) @ ''}''"
  show ?thesis
  proof (cases "body m = []")
    case True
    then have "serialize_lwm_message m = Inr ?h"
      using b by (simp add: serialize_lwm_message_def serialize_dict_ok [OF h])
    moreover have "parse_lwm_message_str (Some ?h) = Inr (Some (norm_message m))"
      using parse_header_only [OF h] True by (simp add: norm_message_def norm_dict_def)
    ultimately show ?thesis by blast
  next
    case False
    then have ser: "serialize_lwm_message m = Inr (?h @ ?b)"
      using b by (simp add: serialize_lwm_message_def serialize_dict_ok [OF h] serialize_dict_ok [OF b(1)])
    let ?n = "parse_fuel (?h @ ?b)"
    have "message_loop False ?n PM_Header False new_lwm_empty_message (?h @ ?b)
        = message_loop False (?n - 1) PM_Body True (new_lwm_empty_message\<lparr>header := norm_dict (header m)\<rparr>) ?b"
      using message_loop_header [OF h, of new_lwm_empty_message ?b ?n False]
      by (simp add: new_lwm_empty_message_def parse_fuel_def)
    also have "\<dots> = Inr (True, norm_message m)"
      using message_loop_body [OF b(1)]
      by (simp add: new_lwm_empty_message_def parse_fuel_def norm_message_def)
    finally show ?thesis using ser by (simp add: parse_lwm_message_str_def parse_on_def)
  qed
qed

lemma parse_serialize_witness:
  "\<exists>s. serialize_lwm_message \<lparr>header = [(''dri'', LWM_String (Some ''7''))],
       body = [(''p'', LWM_Array [LWM_String (Some ''x''), LWM_String (Some ''y'')])]\<rparr> = Inr s \<and>
     parse_lwm_message_str (Some s) = Inr (Some \<lparr>header = [(''dri'', LWM_String (Some ''7''))],
       body = [(''p'', LWM_Array [LWM_String (Some ''y''), LWM_String (Some ''x'')])]\<rparr>)"
  using parse_serialize [of "\<lparr>header = [(''dri'', LWM_String (Some ''7''))],
       body = [(''p'', LWM_Array [LWM_String (Some ''x''), LWM_String (Some ''y'')])]\<rparr>"]
  by (simp add: message_wf_def dict_ok_def key_ok_def starts_word_def clear_of_def text_ok_def
      value_ok_def item_ok_def printable_def ctype_defs norm_message_def norm_dict_def)

lemma value_to_end:
  "list_all (\<lambda>c. printable c \<and> c \<notin> set ''{[=,]};'') vs \<Longrightarrow> length vs < n \<Longrightarrow>
    kvo_loop False n (KV_Val k (Some s)) vs = Inr (Some (Some k, LWM_String None), [])"
proof (induction vs arbitrary: n)
  case Nil
  then show ?case by (cases n) (simp_all add: parser_simps kvo_step_def)
next
  case (Cons c vs)
  then show ?case by (cases n) (auto simp: parser_simps kvo_step_def not_token)
qed

lemma value_word_to_end:
  assumes "value_ok v" "length v < n"
  shows "kvo_loop False n (KV_Val k None) v = Inr (Some (Some k, LWM_String None), [])"
proof -
  obtain c vs where v: "v = c # vs" and c: "\<not> isspace c" "printable c" "c \<notin> set ''{[=,]};''"
    and vs: "list_all (\<lambda>c. printable c \<and> c \<notin> set ''{[=,]};'') vs"
    using assms(1) by (cases v) (auto simp: value_ok_def starts_word_def clear_of_def)
  obtain m where "n = Suc m" "length vs < m" using assms(2) v by (cases n) auto
  with v c value_to_end [OF vs] show ?thesis by (auto simp: parser_simps kvo_step_def not_token)
qed

lemma dict_loop_entry:
  assumes "key_ok k" "length k + 1 < n"
  shows "dict_loop False n d (k @ CHR ''='' # r) =
    rbind (kvo_loop False (n - length k - 2) (KV_Val k None) r) (\<lambda>(e, p').
      case e of
        None \<Rightarrow> Inr (False, d, p')
      | Some (k, v) \<Rightarrow>
          if at_char CHR ''}'' p' then rbind (deref k) (\<lambda>k. Inr (True, dict_put d k v, p'))
          else rbind (adv p') (\<lambda>p''. rbind (deref k) (\<lambda>k. dict_loop False (n - 1) (dict_put d k v) p'')))"
proof -
  obtain b ks where b: "k = b # ks" "\<not> isspace b" "b \<noteq> CHR ''}''" "b \<noteq> CHR '';''"
    using assms(1) by (cases k) (auto simp: key_ok_def starts_word_def clear_of_def)
  obtain m where m: "n = Suc m" "length k < m" using assms(2) by (cases n) auto
  show ?thesis
    using key_word [OF assms(1) m(2), of r] b(2-4) unfolding b(1) m(1) diff_Suc_1
    by (simp add: parser_simps dict_step_pass)
qed

text \<open>
  A text whose header does not close after a key and a value makes the parser read past
  the terminator of the text.
\<close>

theorem unterminated_dict_overreads:
  assumes "key_ok k" "value_ok v"
  shows "parse_lwm_message_str (Some (CHR ''{'' # k @ CHR ''='' # v)) = Inl Out_of_bounds"
proof -
  let ?s = "CHR ''{'' # k @ CHR ''='' # v"
  obtain n where n: "parse_fuel ?s = Suc (Suc n)" "4 * (length k + length v) + 4 \<le> n"
    by (simp add: parse_fuel_def)
  have "dict_loop False n [] (k @ CHR ''='' # v) = Inl Out_of_bounds"
    using n(2) value_word_to_end [OF assms(2), of "n - length k - 2" k]
    by (simp add: dict_loop_entry [OF assms(1)] at_char_def adv_def)
  then have "dict_parsing False (Suc n) [] ?s = Inl Out_of_bounds"
    by (simp add: parser_simps lwm_dict_parsing_def skip_char_def at_char_def)
  then show ?thesis
    by (simp add: parse_lwm_message_str_def parse_on_def n(1) open_brace new_lwm_empty_message_def)
qed

lemma unterminated_dict_overreads_witness:
  "parse_lwm_message_str (Some ''{if=20'') = Inl Out_of_bounds"
  using unterminated_dict_overreads [of "''if''" "''20''"]
  by (simp add: key_ok_def value_ok_def starts_word_def clear_of_def printable_def ctype_defs)

text \<open>
  A dictionary as the value of a key ends the dictionary around it: whatever follows, the
  header holds that one entry and the body is empty.
\<close>

theorem nested_dict_swallows:
  assumes "key_ok k" "key_ok j" "value_ok v" "c \<in> {CHR '';'', CHR ''}''}"
  shows "parse_lwm_message_str
      (Some (CHR ''{'' # k @ CHR ''='' # CHR ''{'' # j @ CHR ''='' # v @ CHR ''}'' # c # rest))
    = Inr (Some \<lparr>header = [(k, LWM_Dictionary [(j, LWM_String (Some v))])], body = []\<rparr>)"
proof -
  let ?inner = "CHR ''{'' # j @ CHR ''='' # v @ CHR ''}'' # c # rest"
  let ?s = "CHR ''{'' # k @ CHR ''='' # ?inner"
  obtain n where n: "parse_fuel ?s = Suc (Suc n)" "4 * (length k + length j + length v) + 14 \<le> n"
    by (simp add: parse_fuel_def)
  have inner: "dict_parsing False m [] ?inner = Inr (True, [(j, LWM_String (Some v))], CHR ''}'' # c # rest)"
    if m: "length j + length v + 4 \<le> m" for m
  proof -
    obtain i where i: "m = Suc i" "length j + length v + 3 \<le> i" using m by (cases m) auto
    have "dict_loop False i [] (j @ CHR ''='' # v @ CHR ''}'' # c # rest)
        = Inr (True, [(j, LWM_String (Some v))], CHR ''}'' # c # rest)"
      using i(2) value_word [OF assms(3), of "i - length j - 2" "CHR ''}''" j "c # rest"]
      by (simp add: dict_loop_entry [OF assms(2)] at_char_def dict_put_def)
    then show ?thesis
      using i(1) by (simp add: parser_simps lwm_dict_parsing_def skip_char_def at_char_def)
  qed
  obtain l where l: "n - length k - 2 = Suc l" "length j + length v + 4 \<le> l"
    using n(2) by (cases "n - length k - 2") auto
  have "kvo_loop False (n - length k - 2) (KV_Val k None) ?inner
      = Inr (Some (Some k, LWM_Dictionary [(j, LWM_String (Some v))]), CHR ''}'' # c # rest)"
    using inner [OF l(2)] l(1) by (simp add: parser_simps kvo_step_def)
  then have "dict_loop False n [] (k @ CHR ''='' # ?inner)
      = Inr (True, [(k, LWM_Dictionary [(j, LWM_String (Some v))])], CHR ''}'' # c # rest)"
    using n(2) by (simp add: dict_loop_entry [OF assms(1)] at_char_def dict_put_def)
  then have "dict_parsing False (Suc n) [] ?s
      = Inr (True, [(k, LWM_Dictionary [(j, LWM_String (Some v))])], CHR ''}'' # c # rest)"
    by (simp add: parser_simps lwm_dict_parsing_def skip_char_def at_char_def)
  moreover have "lwm_is_token c ''[]};=,''" using assms(4) by (auto intro!: is_token)
  moreover have "\<not> isspace c" using assms(4) by auto
  ultimately show ?thesis
    by (simp add: parse_lwm_message_str_def parse_on_def n(1) open_brace new_lwm_empty_message_def adv_def)
qed

lemma nested_dict_swallows_witness:
  "parse_lwm_message_str (Some ''{a={b=c};if=20}{task=3}'')
    = Inr (Some \<lparr>header = [(''a'', LWM_Dictionary [(''b'', LWM_String (Some ''c''))])], body = []\<rparr>)"
  using nested_dict_swallows [of "''a''" "''b''" "''c''" "CHR '';''" "''if=20}{task=3}''"]
  by (simp add: key_ok_def value_ok_def starts_word_def clear_of_def printable_def ctype_defs)

section \<open>What the parser can build\<close>

definition not_number :: "lwm_object \<Rightarrow> bool" where
  "not_number v \<longleftrightarrow> lwm_type v \<noteq> eLWM_Number"

definition parsed_dict :: "lwm_dict \<Rightarrow> bool" where
  "parsed_dict d \<longleftrightarrow> dict_wf d \<and> list_all (\<lambda>(k, v). not_number v) d"

lemma set_delete_subset: "set (delete_lwm_kvo_by_key d k) \<subseteq> set d"
  by (induction d k rule: delete_lwm_kvo_by_key.induct) auto

lemma parsed_dict_put: "parsed_dict d \<Longrightarrow> not_number v \<Longrightarrow> parsed_dict (dict_put d k v)"
  using dict_wf_put [of d k v] set_delete_subset [of d k]
  by (auto simp: parsed_dict_def dict_put_def list_all_iff)

lemma array_loop_result:
  "array_loop False n mode xs p = Inr (Some x, p') \<Longrightarrow> \<exists>ys. x = LWM_Array ys"
proof (induction n arbitrary: mode xs p)
  case (Suc n)
  note ih = Suc.IH
  from Suc.prems show ?case
    by (auto simp: parser_simps array_step_def Let_def split: list.splits array_mode.splits if_splits
        dest: ih)
qed (simp add: parser_simps)

lemma array_parsing_result:
  "array_parsing False n p = Inr (Some x, p') \<Longrightarrow> \<exists>ys. x = LWM_Array ys"
  by (cases n) (auto simp: parser_simps lwm_new_array_parsing_def Let_def
      split: if_splits dest: array_loop_result)

lemma kvo_loop_result: "kvo_loop False n mode p = Inr (Some (k, v), p') \<Longrightarrow> not_number v"
proof (induction n arbitrary: mode p)
  case (Suc n)
  note ih = Suc.IH
  from Suc.prems show ?case
    by (auto simp: parser_simps kvo_step_def not_number_def
        split: list.splits kv_mode.splits if_splits option.splits
        dest: ih [unfolded not_number_def] array_parsing_result)
qed (simp add: parser_simps)

lemma dict_step_result:
  assumes d: "parsed_dict d" and r: "dict_step False loop kvo d p = Inr (ok, d', p')"
    and loop: "\<And>d p. parsed_dict d \<Longrightarrow> loop d p = Inr (ok, d', p') \<Longrightarrow> parsed_dict d'"
    and kvo: "\<And>k v p'. kvo (KV_Key None) p = Inr (Some (k, v), p') \<Longrightarrow> not_number v"
  shows "parsed_dict d'"
proof (cases p)
  case Nil
  then show ?thesis using d r by (simp add: dict_step_pass)
next
  case (Cons c q)
  show ?thesis
  proof (cases "isspace c \<or> c = CHR ''}'' \<or> c = CHR '';''")
    case True
    then show ?thesis using d r loop Cons by (auto simp: dict_step_pass split: if_splits)
  next
    case False
    then obtain e p1 where e: "kvo (KV_Key None) p = Inr (e, p1)"
      using r Cons by (auto simp: dict_step_pass)
    show ?thesis
    proof (cases e)
      case None
      then show ?thesis using d r e False Cons by (simp add: dict_step_pass)
    next
      case (Some kv)
      obtain k v where kv: "e = Some (k, v)" using Some by (cases kv) auto
      then have "parsed_dict (dict_put d j v)" for j
        using kvo e parsed_dict_put [OF d] by blast
      then show ?thesis
        using r e kv False Cons loop by (auto simp: dict_step_pass split: if_splits)
    qed
  qed
qed

lemma dict_loop_result: "parsed_dict d \<Longrightarrow> dict_loop False n d p = Inr (ok, d', p') \<Longrightarrow> parsed_dict d'"
proof (induction n arbitrary: d p)
  case (Suc n)
  then show ?case
    using dict_step_result [of d "dict_loop False n" "kvo_loop False n" p] kvo_loop_result [of n]
    by (simp add: parser_simps)
qed (simp add: parser_simps)

lemma dict_parsing_result:
  assumes "parsed_dict d" "dict_parsing False n d p = Inr (ok, d', p')"
  shows "parsed_dict d'"
proof -
  obtain m e where e: "n = Suc m" "dict_loop False m d (skip_char CHR ''{'' p) = Inr (ok, e, p')"
    "d' = (if ok then e else snd (delete_lwm_kvo e))"
    using assms(2) by (cases n) (auto simp: parser_simps lwm_dict_parsing_def)
  have "parsed_dict e" by (rule dict_loop_result [OF assms(1) e(2)])
  then have "parsed_dict (drop k e)" for k
    by (auto simp: parsed_dict_def dict_wf_def drop_map [symmetric] list_all_iff
        dest: in_set_dropD)
  then show ?thesis using \<open>parsed_dict e\<close> e(3) by (simp add: delete_lwm_kvo_def)
qed

lemma message_loop_result:
  "message_loop False n mode flag m p = Inr (flag', m') \<Longrightarrow> parsed_dict (header m) \<Longrightarrow>
    parsed_dict (body m) \<Longrightarrow> parsed_dict (header m') \<and> parsed_dict (body m')"
proof (induction n arbitrary: mode flag m p)
  case (Suc n)
  note ih = Suc.IH
  show ?case
  proof (cases "p = []")
    case False
    then obtain c q where p: "p = c # q" by (cases p) auto
    from Suc.prems show ?thesis
      by (cases mode) (auto simp: p split: if_splits dest!: ih dest: dict_parsing_result)
  qed (use Suc.prems in auto)
qed simp

text \<open>
  A received message has dictionaries with distinct keys and no number objects, so
  \<^verbatim>\<open>get_lwm_interface_id\<close>, which wants a number, is 0 for every one of them.
\<close>

theorem parsed_message_shape:
  assumes "parse_lwm_message_str str = Inr (Some m)"
  shows "dict_wf (header m) \<and> dict_wf (body m) \<and> get_lwm_interface_id m = Inr 0"
proof -
  obtain s flag where s: "str = Some s" "message_loop False (parse_fuel s) PM_Header False new_lwm_empty_message s
      = Inr (flag, m)"
    using assms by (auto simp: parse_lwm_message_str_def parse_on_def split: option.splits if_splits)
  have "parsed_dict (header m) \<and> parsed_dict (body m)"
    using message_loop_result [OF s(2)]
    by (simp add: new_lwm_empty_message_def parsed_dict_def dict_wf_def)
  moreover have "get_lwm_interface_id m = Inr 0" if "parsed_dict (header m)"
  proof (cases "dict_lookup (header m) ''if''")
    case (Some v)
    then have "not_number v"
      using that by (auto simp: parsed_dict_def list_all_iff dict_lookup_map_of dest!: map_of_SomeD)
    then show ?thesis using Some by (cases v) (auto simp: get_lwm_interface_id_def not_number_def)
  qed (simp add: get_lwm_interface_id_def)
  ultimately show ?thesis by (simp add: parsed_dict_def)
qed

lemma parsed_message_shape_witness:
  "get_lwm_interface_id \<lparr>header = [(''if'', LWM_String (Some ''20''))], body = []\<rparr> = Inr 0"
proof -
  have "dict_ok [(''if'', LWM_String (Some ''20''))]"
    by (simp add: dict_ok_def key_ok_def starts_word_def clear_of_def text_ok_def value_ok_def
        printable_def ctype_defs)
  from parse_header_only [OF this]
  have "parse_lwm_message_str (Some (CHR ''{'' # dict_str [(''if'', LWM_String (Some ''20''))] @ ''}''))
      = Inr (Some \<lparr>header = [(''if'', LWM_String (Some ''20''))], body = []\<rparr>)"
    by (simp add: norm_dict_def)
  from parsed_message_shape [OF this] show ?thesis by simp
qed

end
