(* ===== verification/CollaboMsg.thy ===== *)
theory CollaboMsg
  imports Prelude
begin

text \<open>
  The collaboration messages between devices and server, common part
  (\<^verbatim>\<open>DCFW/iw_fw_collabomsg_internal.[ch]\<close>): the packed headers with their bit fields
  (lowest bit first), the attribute lists, and their two-way translation to bytes. A buffer handed
  to a parser is the list of the bytes really there; the size the caller claims is a separate
  argument. \<open>alloc\<close> says which allocations succeed. A structure returned without being
  written is the fault \<open>Uninitialised\<close>.
\<close>

section \<open>Bit fields\<close>

record cm_fixed_header =
  ack :: "1 word"
  message_id :: "5 word"
  dup :: "1 word"
  qos :: "1 word"

record cm_default_ack = cm_fixed_header +
  ack_reserved :: "2 word"
  return_code :: "6 word"

unbundle bit_operations_syntax

definition header_byte :: "'a cm_fixed_header_scheme \<Rightarrow> byte" where
  "header_byte h = ucast (ack h) OR push_bit 1 (ucast (message_id h)) OR
     push_bit 6 (ucast (dup h)) OR push_bit 7 (ucast (qos h))"

definition header_of_byte :: "byte \<Rightarrow> cm_fixed_header" where
  "header_of_byte b = \<lparr>ack = ucast b, message_id = ucast (drop_bit 1 b),
     dup = ucast (drop_bit 6 b), qos = ucast (drop_bit 7 b)\<rparr>"

text \<open>A byte with a field of 2 bits below one of 6 bits, and the other way round.\<close>

definition pack26 :: "2 word \<Rightarrow> 6 word \<Rightarrow> byte" where
  "pack26 a b = ucast a OR push_bit 2 (ucast b)"

definition unpack26 :: "byte \<Rightarrow> 2 word \<times> 6 word" where
  "unpack26 x = (ucast x, ucast (drop_bit 2 x))"

definition pack62 :: "6 word \<Rightarrow> 2 word \<Rightarrow> byte" where
  "pack62 a b = ucast a OR push_bit 6 (ucast b)"

definition unpack62 :: "byte \<Rightarrow> 6 word \<times> 2 word" where
  "unpack62 x = (ucast x, ucast (drop_bit 6 x))"

lemma unpack26_pack26 [cm_simps]: "unpack26 (pack26 a b) = (a, b)"
  by (auto simp: unpack26_def pack26_def intro!: bit_word_eqI)
    (auto simp: bit_simps dest: bit_imp_le_length)

lemma unpack62_pack62 [cm_simps]: "unpack62 (pack62 a b) = (a, b)"
  by (auto simp: unpack62_def pack62_def intro!: bit_word_eqI)
    (auto simp: bit_simps dest: bit_imp_le_length)

lemma header_of_byte_byte [cm_simps]:
  "header_of_byte (header_byte h) = cm_fixed_header.truncate h"
  by (auto simp: header_of_byte_def header_byte_def cm_fixed_header.defs simp del: push_bit_Suc
      intro!: bit_word_eqI)
    (auto simp: bit_simps simp del: push_bit_Suc dest: bit_imp_le_length)

section \<open>Memory\<close>

text \<open>\<^verbatim>\<open>memcpy\<close> of \<open>n\<close> bytes from a pointer into a buffer: what is read, and what follows.\<close>

definition read_bytes :: "nat \<Rightarrow> byte list \<Rightarrow> (byte list \<times> byte list) res" where
  "read_bytes n p = (if n \<le> length p then Inr (take n p, drop n p) else Inl Out_of_bounds)"

definition read_byte :: "byte list \<Rightarrow> (byte \<times> byte list) res" where
  "read_byte p = (case p of [] \<Rightarrow> Inl Out_of_bounds | b # q \<Rightarrow> Inr (b, q))"

text \<open>A serialized message with its size, or NULL when the buffer could not be allocated.\<close>

type_synonym cm_buffer = "byte list option \<times> nat"

definition alloc_buffer :: "bool \<Rightarrow> byte list \<Rightarrow> cm_buffer" where
  "alloc_buffer ok bs = (if ok then Some bs else None, length bs)"

section \<open>Headers\<close>

definition header_bytes :: "'a cm_fixed_header_scheme \<Rightarrow> byte list" where
  "header_bytes h = [header_byte h]"

definition default_ack_bytes :: "'a cm_default_ack_scheme \<Rightarrow> byte list" where
  "default_ack_bytes m = [header_byte m, pack26 (ack_reserved m) (return_code m)]"

definition default_ack_of_bytes :: "byte \<Rightarrow> byte \<Rightarrow> cm_default_ack" where
  "default_ack_of_bytes b c = cm_fixed_header.extend (header_of_byte b)
     (cm_default_ack.fields (fst (unpack26 c)) (snd (unpack26 c)))"

definition cm_header_serialize :: "bool \<Rightarrow> cm_fixed_header \<Rightarrow> cm_buffer" where
  "cm_header_serialize ok msg = alloc_buffer ok (header_bytes msg)"

definition cm_default_ack_serialize :: "bool \<Rightarrow> cm_default_ack \<Rightarrow> cm_buffer" where
  "cm_default_ack_serialize ok msg = alloc_buffer ok (default_ack_bytes msg)"

definition cm_header_parse :: "byte list \<Rightarrow> nat \<Rightarrow> cm_fixed_header res" where
  "cm_header_parse msg sz =
     (if 1 \<le> sz then rbind (read_byte msg) (\<lambda>(b, _). Inr (header_of_byte b))
      else Inl Uninitialised)"

definition cm_default_ack_parse :: "byte list \<Rightarrow> nat \<Rightarrow> cm_default_ack res" where
  "cm_default_ack_parse msg sz =
     (if 2 \<le> sz then rbind (read_byte msg) (\<lambda>(b, p). rbind (read_byte p) (\<lambda>(c, _).
        Inr (default_ack_of_bytes b c)))
      else Inl Uninitialised)"

section \<open>Attributes\<close>

record cm_attribute =
  attribute_id :: "6 word"
  value_length :: "2 word"

text \<open>\<open>values\<close> is the pointer to the bytes of the value.\<close>

record cm_attribute_value = cm_attribute +
  attr_values :: "byte list option"

definition cm_attribute_real_attr_count :: "byte \<Rightarrow> nat" where
  "cm_attribute_real_attr_count packed = unat packed + 1"

definition cm_attribute_packed_attr_count :: "32 word \<Rightarrow> byte" where
  "cm_attribute_packed_attr_count real = ucast (real - 1)"

primrec cm_real_value_length_loop :: "nat \<Rightarrow> 32 word \<Rightarrow> 32 word" where
  "cm_real_value_length_loop 0 rtn = rtn"
| "cm_real_value_length_loop (Suc i) rtn = cm_real_value_length_loop i (rtn * 2)"

definition cm_attribute_real_value_length :: "byte \<Rightarrow> 32 word" where
  "cm_attribute_real_value_length packed = cm_real_value_length_loop (unat packed) 1"

definition cm_attribute_packed_value_length :: "32 word \<Rightarrow> byte" where
  "cm_attribute_packed_value_length real =
     (if real = 8 then 3 else if real = 4 then 2 else if real = 2 then 1 else 0)"

text \<open>The number of value bytes of an attribute.\<close>

definition value_size :: "'a cm_attribute_scheme \<Rightarrow> nat" where
  "value_size a = unat (cm_attribute_real_value_length (ucast (value_length a)))"

definition attribute_byte :: "'a cm_attribute_scheme \<Rightarrow> byte" where
  "attribute_byte a = pack62 (attribute_id a) (value_length a)"

definition attribute_of_byte :: "byte \<Rightarrow> cm_attribute" where
  "attribute_of_byte b = \<lparr>attribute_id = fst (unpack62 b), value_length = snd (unpack62 b)\<rparr>"

definition cm_attributes_serialize_size :: "nat \<Rightarrow> nat" where
  "cm_attributes_serialize_size count = 1 * count"

definition cm_attributes_serialize :: "cm_attribute list option \<Rightarrow> nat \<Rightarrow> byte list res" where
  "cm_attributes_serialize attrs count =
     (if 0 < count then
        rbind (deref attrs) (\<lambda>as.
          if count \<le> length as then Inr (map attribute_byte (take count as)) else Inl Out_of_bounds)
      else Inr [])"

primrec cm_attribute_values_size_loop :: "cm_attribute_value list \<Rightarrow> nat \<Rightarrow> nat res" where
  "cm_attribute_values_size_loop as 0 = Inr 0"
| "cm_attribute_values_size_loop as (Suc i) =
     rbind (cm_attribute_values_size_loop as i) (\<lambda>s.
       if i < length as then Inr (s + value_size (as ! i)) else Inl Out_of_bounds)"

definition sizeof_attribute_value_payload :: nat where
  "sizeof_attribute_value_payload = 5 - 4"

definition cm_attribute_values_serialize_size :: "cm_attribute_value list option \<Rightarrow> nat \<Rightarrow> nat res" where
  "cm_attribute_values_serialize_size attrs count =
     (if count = 0 then Inr 0
      else rbind (deref attrs) (\<lambda>as. rbind (cm_attribute_values_size_loop as count) (\<lambda>s.
        Inr (s + sizeof_attribute_value_payload * count))))"

text \<open>One round of the copy loop writes the packed byte and the value.\<close>

fun cm_attribute_values_copy :: "cm_attribute_value list \<Rightarrow> nat \<Rightarrow> byte list res" where
  "cm_attribute_values_copy as 0 = Inr []"
| "cm_attribute_values_copy [] (Suc i) = Inl Out_of_bounds"
| "cm_attribute_values_copy (a # as) (Suc i) =
     rbind (deref (attr_values a)) (\<lambda>vs.
     rbind (read_bytes (value_size a) vs) (\<lambda>(v, _).
     rbind (cm_attribute_values_copy as i) (\<lambda>rest. Inr (attribute_byte a # v @ rest))))"

definition cm_attribute_values_serialize :: "cm_attribute_value list option \<Rightarrow> nat \<Rightarrow> byte list res" where
  "cm_attribute_values_serialize attrs count =
     (if 0 < count then rbind (deref attrs) (\<lambda>as. cm_attribute_values_copy as count) else Inr [])"

text \<open>
  The parsing loops. The allocations are numbered from \<open>a\<close> on: the array, then the value of
  each attribute in turn. When a value cannot be allocated the pointer into the message stays
  before it.
\<close>

fun cm_attributes_loop :: "nat \<Rightarrow> byte list \<Rightarrow> cm_attribute list res" where
  "cm_attributes_loop 0 p = Inr []"
| "cm_attributes_loop (Suc i) p =
     rbind (read_byte p) (\<lambda>(b, q). rbind (cm_attributes_loop i q) (\<lambda>as. Inr (attribute_of_byte b # as)))"

definition cm_attributes_parse ::
  "(nat \<Rightarrow> bool) \<Rightarrow> nat \<Rightarrow> byte list \<Rightarrow> nat \<Rightarrow> byte \<Rightarrow> cm_attribute list option res" where
  "cm_attributes_parse alloc a msg sz attr_count =
     (if 1 \<le> sz then
        (if alloc a
         then rbind (cm_attributes_loop (cm_attribute_real_attr_count attr_count) msg) (\<lambda>as. Inr (Some as))
         else Inl Null_deref)
      else Inr None)"

fun cm_attribute_values_loop ::
  "(nat \<Rightarrow> bool) \<Rightarrow> nat \<Rightarrow> nat \<Rightarrow> byte list \<Rightarrow> cm_attribute_value list res" where
  "cm_attribute_values_loop alloc a 0 p = Inr []"
| "cm_attribute_values_loop alloc a (Suc i) p =
     rbind (read_byte p) (\<lambda>(b, q).
       let h = attribute_of_byte b in
       if alloc a then
         rbind (read_bytes (value_size h) q) (\<lambda>(v, r).
         rbind (cm_attribute_values_loop alloc (Suc a) i r) (\<lambda>as.
           Inr (cm_attribute.extend h (cm_attribute_value.fields (Some v)) # as)))
       else
         rbind (cm_attribute_values_loop alloc (Suc a) i q) (\<lambda>as.
           Inr (cm_attribute.extend h (cm_attribute_value.fields None) # as)))"

definition cm_attribute_values_parse ::
  "(nat \<Rightarrow> bool) \<Rightarrow> nat \<Rightarrow> byte list \<Rightarrow> nat \<Rightarrow> byte \<Rightarrow> cm_attribute_value list option res" where
  "cm_attribute_values_parse alloc a msg sz attr_count =
     (if sizeof_attribute_value_payload \<le> sz then
        (if alloc a
         then rbind (cm_attribute_values_loop alloc (Suc a) (cm_attribute_real_attr_count attr_count) msg)
                (\<lambda>as. Inr (Some as))
         else Inr None)
      else Inr None)"

section \<open>Lemmas\<close>

lemma read_bytes_append [cm_simps]: "length v = n \<Longrightarrow> read_bytes n (v @ r) = Inr (v, r)"
  by (auto simp: read_bytes_def)

lemma read_byte_Cons [cm_simps]: "read_byte (b # r) = Inr (b, r)"
  by (simp add: read_byte_def)

lemma default_ack_round [cm_simps]:
  "default_ack_of_bytes (header_byte m) (pack26 (ack_reserved m) (return_code m)) = cm_default_ack.truncate m"
  by (simp add: default_ack_of_bytes_def cm_simps cm_default_ack.defs cm_fixed_header.defs)

lemma truncate_ids [cm_simps]:
  "cm_fixed_header.truncate (h :: cm_fixed_header) = h"
  "cm_default_ack.truncate (m :: cm_default_ack) = m"
  by (simp_all add: cm_fixed_header.defs cm_default_ack.defs)

lemma attribute_round [cm_simps]: "attribute_of_byte (attribute_byte a) = cm_attribute.truncate a"
  by (simp add: attribute_of_byte_def attribute_byte_def cm_simps cm_attribute.defs)

lemma attribute_round_plain [cm_simps]: "cm_attribute.truncate (a :: cm_attribute) = a"
  by (simp add: cm_attribute.defs)

lemma value_size_truncate [cm_simps]: "value_size (cm_attribute.truncate a) = value_size a"
  by (simp add: value_size_def cm_attribute.defs)

lemma two_bits: "unat (w :: 2 word) \<in> {0, 1, 2, 3}"
proof -
  have "unat w < 2 ^ 2" using unsigned_less [of w, where ?'a = nat] by simp
  then show ?thesis by auto
qed

lemma unat_ucast_up [cm_simps]:
  "LENGTH('a) \<le> LENGTH('b) \<Longrightarrow> unat (ucast (w :: 'a :: len word) :: 'b :: len word) = unat w"
proof -
  assume le: "LENGTH('a) \<le> LENGTH('b)"
  have "unat w < 2 ^ LENGTH('a)" using unsigned_less [of w, where ?'a = nat] by simp
  also have "\<dots> \<le> (2::nat) ^ LENGTH('b)" using le by (intro power_increasing) auto
  finally show ?thesis by (simp add: unsigned_ucast_eq take_bit_nat_eq_self)
qed

lemma value_size_pow: "value_size a = 2 ^ unat (value_length a)"
proof -
  have "unat (ucast (value_length a) :: byte) = unat (value_length a)" by (simp add: cm_simps)
  moreover have "cm_real_value_length_loop 1 1 = 2" "cm_real_value_length_loop 2 1 = 4"
    "cm_real_value_length_loop 3 1 = 8"
    by (simp_all add: numeral_2_eq_2 numeral_3_eq_3)
  ultimately show ?thesis
    using two_bits [of "value_length a"]
    by (auto simp: value_size_def cm_attribute_real_value_length_def)
qed

lemma value_size_le: "value_size a \<le> 8" "0 < value_size a"
  using two_bits [of "value_length a"] by (auto simp: value_size_pow)

definition attribute_value_ok :: "cm_attribute_value \<Rightarrow> bool" where
  "attribute_value_ok a \<longleftrightarrow> (case attr_values a of None \<Rightarrow> False | Some v \<Rightarrow> length v = value_size a)"

definition attribute_value_bytes :: "cm_attribute_value \<Rightarrow> byte list" where
  "attribute_value_bytes a = attribute_byte a # (case attr_values a of None \<Rightarrow> [] | Some v \<Rightarrow> v)"

lemma attributes_loop_bytes [cm_simps]:
  "cm_attributes_loop (length as) (map attribute_byte as @ r) = Inr as"
  by (induction as) (simp_all add: cm_simps)

lemma values_copy_ok:
  "list_all attribute_value_ok as \<Longrightarrow>
    cm_attribute_values_copy as (length as) = Inr (concat (map attribute_value_bytes as))"
  by (induction as) (auto simp: attribute_value_ok_def attribute_value_bytes_def read_bytes_def
      split: option.splits)

lemma values_loop_ok:
  "list_all attribute_value_ok as \<Longrightarrow> (\<And>i. alloc i) \<Longrightarrow>
    cm_attribute_values_loop alloc a (length as) (concat (map attribute_value_bytes as) @ r) = Inr as"
proof (induction as arbitrary: a)
  case (Cons b bs)
  obtain v where v: "attr_values b = Some v" "length v = value_size b"
    using Cons.prems(1) by (auto simp: attribute_value_ok_def split: option.splits)
  have "cm_attribute.extend (cm_attribute.truncate b) (cm_attribute_value.fields (Some v)) = b"
    using v(1) by (simp add: cm_attribute.defs cm_attribute_value.defs)
  then show ?case using v Cons by (simp add: attribute_value_bytes_def cm_simps Let_def)
qed simp

lemma values_size_loop_ok:
  "n \<le> length as \<Longrightarrow> cm_attribute_values_size_loop as n = Inr (sum_list (map value_size (take n as)))"
  by (induction n) (simp_all add: take_Suc_conv_app_nth)

lemma length_value_bytes:
  "list_all attribute_value_ok as \<Longrightarrow>
    length (concat (map attribute_value_bytes as)) = sum_list (map value_size as) + length as"
  by (induction as) (auto simp: attribute_value_ok_def attribute_value_bytes_def split: option.splits)

section \<open>The contract of a wire format\<close>

text \<open>
  Every well-formed message has a byte string, and the parser finds the message at the front of
  any buffer that starts with it. So the byte strings tell messages apart, and none is the front
  of another.
\<close>

locale wire_format =
  fixes ok :: "'m \<Rightarrow> bool"
    and encode :: "'m \<Rightarrow> byte list res"
    and decode :: "byte list \<Rightarrow> 'm res"
  assumes decode_encode: "ok m \<Longrightarrow> \<exists>bs. encode m = Inr bs \<and> (\<forall>rest. decode (bs @ rest) = Inr m)"
begin

lemma round_trip: "ok m \<Longrightarrow> rbind (encode m) decode = Inr m"
  using decode_encode [of m] by (metis append_Nil2 rbind_Inr)

lemma encode_injective: "ok m \<Longrightarrow> ok m' \<Longrightarrow> encode m = encode m' \<Longrightarrow> m = m'"
  using round_trip by (metis sum.inject(2))

lemma prefix_free:
  assumes "ok m" "ok m'" "encode m = Inr bs" "encode m' = Inr (bs @ rest)"
  shows "m = m'"
  using decode_encode [OF assms(1)] round_trip [OF assms(2)] assms(3,4) by auto

end

interpretation header_wire: wire_format "\<lambda>_. True" "\<lambda>h :: cm_fixed_header. Inr (header_bytes h)"
  "\<lambda>bs. cm_header_parse bs (length bs)"
  by unfold_locales (simp add: header_bytes_def cm_header_parse_def cm_simps)

interpretation ack_wire: wire_format "\<lambda>_. True" "\<lambda>m :: cm_default_ack. Inr (default_ack_bytes m)"
  "\<lambda>bs. cm_default_ack_parse bs (length bs)"
  by unfold_locales (simp add: default_ack_bytes_def cm_default_ack_parse_def cm_simps)

end
