(* ===== verification/CollaboIds.thy ===== *)
theory CollaboIds
  imports CollaboMsg LwmTypes
begin

text \<open>
  The collaboration messages one by one (\<^verbatim>\<open>DCFW/iw_fw_msg_id_x*.[ch]\<close>): their
  structures, initial values, serializers and parsers. Messages that share a layout share a record;
  every C function has its own definition. The pointer \<^verbatim>\<open>tasks\<close> of the messages 0x10,
  0x13 and 0x14 is a 32-bit address, as the code copies it.
\<close>

section \<open>Structures\<close>

record cm_connect =
  con_header :: cm_fixed_header
  con_reserved :: "2 word"
  con_length :: "6 word"
  protocol_version :: "4 word"
  id_flag :: "1 word"
  pwd_flag :: "1 word"
  con_undefined :: "2 word"
  keep_alive :: "8 word"

record cm_set_device_mode =
  dm_header :: cm_fixed_header
  dm_reserved :: "2 word"
  dm_length :: "6 word"
  dm_mode :: "2 word"
  dm_wake_up_interval :: "6 word"

record cm_check_status_ack =
  cs_header :: cm_default_ack
  cs_reserved :: "2 word"
  cs_length :: "6 word"
  cs_status :: "2 word"
  cs_wake_up_interval :: "6 word"

record cm_tasks_msg =
  tk_header :: cm_fixed_header
  tk_reserved :: "2 word"
  tk_length :: "6 word"
  tk_tasks :: "32 word"

record 'a cm_payload =
  task_id :: byte
  object_id :: "6 word"
  attr_count :: "2 word"
  attributes :: "'a list option"

record 'a cm_payload_msg =
  pm_header :: cm_fixed_header
  pm_reserved :: "2 word"
  pm_length :: "6 word"
  pm_payload :: "'a cm_payload option"

record cm_read_ack_payload =
  ra_object_id :: "6 word"
  ra_attr_count :: "2 word"
  ra_values :: "cm_attribute_value list option"

record cm_read_ack_msg =
  ra_header :: cm_default_ack
  ra_reserved :: "2 word"
  ra_length :: "6 word"
  ra_payload :: "cm_read_ack_payload option"

text \<open>The headers of the initial values: a request, and the acknowledgement of a message id.\<close>

definition request_header :: "5 word \<Rightarrow> 1 word \<Rightarrow> cm_fixed_header" where
  "request_header i q = \<lparr>ack = 0, message_id = i, dup = 0, qos = q\<rparr>"

definition ack_header :: "5 word \<Rightarrow> cm_default_ack" where
  "ack_header i = \<lparr>ack = 1, message_id = i, dup = 0, qos = 0, ack_reserved = 0, return_code = 0\<rparr>"

section \<open>The layouts\<close>

definition connect_bytes :: "cm_connect \<Rightarrow> byte list" where
  "connect_bytes m = [header_byte (con_header m), pack26 (con_reserved m) (con_length m),
     ucast (protocol_version m) OR push_bit 4 (ucast (id_flag m)) OR push_bit 5 (ucast (pwd_flag m))
       OR push_bit 6 (ucast (con_undefined m)), keep_alive m]"

definition connect_of_bytes :: "byte \<Rightarrow> byte \<Rightarrow> byte \<Rightarrow> byte \<Rightarrow> cm_connect" where
  "connect_of_bytes a b c d = \<lparr>con_header = header_of_byte a,
     con_reserved = fst (unpack26 b), con_length = snd (unpack26 b),
     protocol_version = ucast c, id_flag = ucast (drop_bit 4 c), pwd_flag = ucast (drop_bit 5 c),
     con_undefined = ucast (drop_bit 6 c), keep_alive = d\<rparr>"

definition device_mode_bytes :: "cm_set_device_mode \<Rightarrow> byte list" where
  "device_mode_bytes m = [header_byte (dm_header m), pack26 (dm_reserved m) (dm_length m),
     pack26 (dm_mode m) (dm_wake_up_interval m)]"

definition device_mode_of_bytes :: "byte \<Rightarrow> byte \<Rightarrow> byte \<Rightarrow> cm_set_device_mode" where
  "device_mode_of_bytes a b c = \<lparr>dm_header = header_of_byte a,
     dm_reserved = fst (unpack26 b), dm_length = snd (unpack26 b),
     dm_mode = fst (unpack26 c), dm_wake_up_interval = snd (unpack26 c)\<rparr>"

definition check_status_ack_bytes :: "cm_check_status_ack \<Rightarrow> byte list" where
  "check_status_ack_bytes m = default_ack_bytes (cs_header m) @ [pack26 (cs_reserved m) (cs_length m),
     pack26 (cs_status m) (cs_wake_up_interval m)]"

definition check_status_ack_of_bytes :: "byte \<Rightarrow> byte \<Rightarrow> byte \<Rightarrow> byte \<Rightarrow> cm_check_status_ack" where
  "check_status_ack_of_bytes a b c d = \<lparr>cs_header = default_ack_of_bytes a b,
     cs_reserved = fst (unpack26 c), cs_length = snd (unpack26 c),
     cs_status = fst (unpack26 d), cs_wake_up_interval = snd (unpack26 d)\<rparr>"

text \<open>The last four bytes are the pointer, not what it points to.\<close>

definition tasks_msg_bytes :: "cm_tasks_msg \<Rightarrow> byte list" where
  "tasks_msg_bytes m = [header_byte (tk_header m), pack26 (tk_reserved m) (tk_length m)] @
     bytes_of_u32 (tk_tasks m)"

definition tasks_msg_serialize :: "bool \<Rightarrow> cm_tasks_msg \<Rightarrow> cm_buffer" where
  "tasks_msg_serialize ok m = alloc_buffer ok (tasks_msg_bytes m)"

definition tasks_msg_parse :: "byte list \<Rightarrow> nat \<Rightarrow> cm_tasks_msg res" where
  "tasks_msg_parse msg sz =
     (if 6 \<le> sz then
        rbind (read_byte msg) (\<lambda>(a, p). rbind (read_byte p) (\<lambda>(b, p).
        rbind (read_bytes 4 p) (\<lambda>(t, p).
          Inr \<lparr>tk_header = header_of_byte a, tk_reserved = fst (unpack26 b),
               tk_length = snd (unpack26 b), tk_tasks = of_nat (le_value t)\<rparr>)))
      else Inl Uninitialised)"

section \<open>Messages with a payload\<close>

definition payload_msg_head :: "'a cm_payload_msg \<Rightarrow> byte list" where
  "payload_msg_head m = [header_byte (pm_header m), pack26 (pm_reserved m) (pm_length m)]"

definition payload_head :: "'a cm_payload \<Rightarrow> byte list" where
  "payload_head p = [task_id p, pack62 (object_id p) (attr_count p)]"

text \<open>
  The size is computed before anything is checked, so a message without payload faults here; the
  test of the payload pointer in the code comes after.
\<close>

definition attributes_msg_serialize :: "bool \<Rightarrow> cm_attribute cm_payload_msg \<Rightarrow> cm_buffer res" where
  "attributes_msg_serialize ok m =
     rbind (deref (pm_payload m)) (\<lambda>p.
       let count = unat (attr_count p) + 1; sz = 2 + 2 + cm_attributes_serialize_size count in
       if ok then
         rbind (cm_attributes_serialize (attributes p) count) (\<lambda>as.
           Inr (Some (payload_msg_head m @ payload_head p @ as), sz))
       else Inr (None, sz))"

definition values_msg_serialize :: "bool \<Rightarrow> cm_attribute_value cm_payload_msg \<Rightarrow> cm_buffer res" where
  "values_msg_serialize ok m =
     rbind (deref (pm_payload m)) (\<lambda>p.
       let count = unat (attr_count p) + 1 in
       rbind (cm_attribute_values_serialize_size (attributes p) count) (\<lambda>vsz.
         let sz = 2 + 2 + vsz in
         if ok then
           rbind (cm_attribute_values_serialize (attributes p) count) (\<lambda>as.
             Inr (Some (payload_msg_head m @ payload_head p @ as), sz))
         else Inr (None, sz)))"

text \<open>
  \<^verbatim>\<open>payload_parse\<close>, given the parser of the attributes, and what a payload shorter than its
  head leads to.
\<close>

definition payload_parse ::
  "((nat \<Rightarrow> bool) \<Rightarrow> nat \<Rightarrow> byte list \<Rightarrow> nat \<Rightarrow> byte \<Rightarrow> 'a list option res) \<Rightarrow> 'a cm_payload option res
    \<Rightarrow> (nat \<Rightarrow> bool) \<Rightarrow> byte list \<Rightarrow> nat \<Rightarrow> 'a cm_payload option res" where
  "payload_parse attrs_parse short alloc msg sz =
     (if 2 \<le> sz then
        (if alloc 0 then
           rbind (read_byte msg) (\<lambda>(t, p). rbind (read_byte p) (\<lambda>(oc, p).
           rbind (attrs_parse alloc 1 p (sz - 2) (ucast (snd (unpack62 oc)))) (\<lambda>as.
             Inr (Some \<lparr>task_id = t, object_id = fst (unpack62 oc), attr_count = snd (unpack62 oc),
                        attributes = as\<rparr>))))
         else Inr None)
      else short)"

definition payload_msg_parse ::
  "(byte list \<Rightarrow> nat \<Rightarrow> 'a cm_payload option res) \<Rightarrow> byte list \<Rightarrow> nat \<Rightarrow> 'a cm_payload_msg res" where
  "payload_msg_parse pparse msg sz =
     (if 2 \<le> sz then
        rbind (read_byte msg) (\<lambda>(a, p). rbind (read_byte p) (\<lambda>(b, p).
        rbind (pparse p (sz - 2)) (\<lambda>pl.
          Inr \<lparr>pm_header = header_of_byte a, pm_reserved = fst (unpack26 b),
               pm_length = snd (unpack26 b), pm_payload = pl\<rparr>)))
      else Inl Uninitialised)"

definition empty_payload_msg :: "5 word \<Rightarrow> 'a cm_payload_msg" where
  "empty_payload_msg i = \<lparr>pm_header = request_header i 1, pm_reserved = 0, pm_length = 0, pm_payload = None\<rparr>"

definition empty_tasks_msg :: "5 word \<Rightarrow> cm_tasks_msg" where
  "empty_tasks_msg i = \<lparr>tk_header = request_header i 1, tk_reserved = 0, tk_length = 0, tk_tasks = 0\<rparr>"

section \<open>0x00 Server advertise\<close>

definition cm_msg_x00 :: "cm_fixed_header" where
  "cm_msg_x00 = request_header 0x00 0"

definition cm_msg_x00_serialize :: "bool \<Rightarrow> cm_fixed_header \<Rightarrow> cm_buffer" where
  "cm_msg_x00_serialize = cm_header_serialize"

definition cm_msg_x00_parse :: "byte list \<Rightarrow> nat \<Rightarrow> cm_fixed_header res" where
  "cm_msg_x00_parse = cm_header_parse"

section \<open>0x02 Connect\<close>

definition cm_msg_x02 :: "cm_connect" where
  "cm_msg_x02 = \<lparr>con_header = request_header 0x02 1, con_reserved = 0, con_length = 0,
     protocol_version = 0, id_flag = 0, pwd_flag = 0, con_undefined = 0, keep_alive = 0\<rparr>"

definition cm_msg_x02_serialize :: "bool \<Rightarrow> cm_connect \<Rightarrow> cm_buffer" where
  "cm_msg_x02_serialize ok m =
     alloc_buffer ok (connect_bytes m)"

definition cm_msg_x02_parse :: "byte list \<Rightarrow> nat \<Rightarrow> cm_connect res" where
  "cm_msg_x02_parse msg sz =
     (if 4 \<le> sz then
        rbind (read_byte msg) (\<lambda>(a, p). rbind (read_byte p) (\<lambda>(b, p).
        rbind (read_byte p) (\<lambda>(c, p). rbind (read_byte p) (\<lambda>(d, p).
          Inr (connect_of_bytes a b c d)))))
      else Inl Uninitialised)"

definition cm_msg_x02_ack :: "cm_default_ack" where
  "cm_msg_x02_ack = ack_header 0x02"

definition cm_msg_x02_ack_serialize :: "bool \<Rightarrow> cm_default_ack \<Rightarrow> cm_buffer" where
  "cm_msg_x02_ack_serialize = cm_default_ack_serialize"

definition cm_msg_x02_ack_parse :: "byte list \<Rightarrow> nat \<Rightarrow> cm_default_ack res" where
  "cm_msg_x02_ack_parse = cm_default_ack_parse"

section \<open>0x03 Member info\<close>

definition cm_msg_x03 :: "cm_attribute cm_payload_msg" where
  "cm_msg_x03 = empty_payload_msg 0x03"

definition cm_msg_x03_serialize :: "bool \<Rightarrow> cm_attribute cm_payload_msg \<Rightarrow> cm_buffer res" where
  "cm_msg_x03_serialize = attributes_msg_serialize"

definition cm_msg_x03_payload_parse :: "(nat \<Rightarrow> bool) \<Rightarrow> byte list \<Rightarrow> nat \<Rightarrow> cm_attribute cm_payload option res" where
  "cm_msg_x03_payload_parse alloc msg sz =
     payload_parse cm_attributes_parse (Inr None) alloc msg sz"

definition cm_msg_x03_parse :: "(nat \<Rightarrow> bool) \<Rightarrow> byte list \<Rightarrow> nat \<Rightarrow> cm_attribute cm_payload_msg res" where
  "cm_msg_x03_parse alloc msg sz =
     payload_msg_parse (cm_msg_x03_payload_parse alloc) msg sz"

definition cm_msg_x03_ack :: "cm_default_ack" where
  "cm_msg_x03_ack = ack_header 0x03"

definition cm_msg_x03_ack_serialize :: "bool \<Rightarrow> cm_default_ack \<Rightarrow> cm_buffer" where
  "cm_msg_x03_ack_serialize = cm_default_ack_serialize"

definition cm_msg_x03_ack_parse :: "byte list \<Rightarrow> nat \<Rightarrow> cm_default_ack res" where
  "cm_msg_x03_ack_parse = cm_default_ack_parse"

section \<open>0x04 Set device mode\<close>

definition cm_msg_x04 :: "cm_set_device_mode" where
  "cm_msg_x04 = \<lparr>dm_header = request_header 0x04 1, dm_reserved = 0, dm_length = 1,
     dm_mode = 0, dm_wake_up_interval = 0\<rparr>"

definition cm_msg_x04_serialize :: "bool \<Rightarrow> cm_set_device_mode \<Rightarrow> cm_buffer" where
  "cm_msg_x04_serialize ok m =
     alloc_buffer ok (device_mode_bytes m)"

definition cm_msg_x04_parse :: "byte list \<Rightarrow> nat \<Rightarrow> cm_set_device_mode res" where
  "cm_msg_x04_parse msg sz =
     (if 3 \<le> sz then
        rbind (read_byte msg) (\<lambda>(a, p). rbind (read_byte p) (\<lambda>(b, p). rbind (read_byte p) (\<lambda>(c, p).
          Inr (device_mode_of_bytes a b c))))
      else Inl Uninitialised)"

definition cm_msg_x04_ack :: "cm_default_ack" where
  "cm_msg_x04_ack = ack_header 0x04"

definition cm_msg_x04_ack_serialize :: "bool \<Rightarrow> cm_default_ack \<Rightarrow> cm_buffer" where
  "cm_msg_x04_ack_serialize = cm_default_ack_serialize"

definition cm_msg_x04_ack_parse :: "byte list \<Rightarrow> nat \<Rightarrow> cm_default_ack res" where
  "cm_msg_x04_ack_parse = cm_default_ack_parse"

section \<open>0x05 Check status\<close>

definition cm_msg_x05 :: "cm_fixed_header" where
  "cm_msg_x05 = request_header 0x05 1"

definition cm_msg_x05_serialize :: "bool \<Rightarrow> cm_fixed_header \<Rightarrow> cm_buffer" where
  "cm_msg_x05_serialize = cm_header_serialize"

definition cm_msg_x05_parse :: "byte list \<Rightarrow> nat \<Rightarrow> cm_fixed_header res" where
  "cm_msg_x05_parse = cm_header_parse"

definition cm_msg_x05_ack :: "cm_check_status_ack" where
  "cm_msg_x05_ack = \<lparr>cs_header = ack_header 0x05, cs_reserved = 0, cs_length = 1,
     cs_status = 0, cs_wake_up_interval = 0\<rparr>"

definition cm_msg_x05_ack_serialize :: "bool \<Rightarrow> cm_check_status_ack \<Rightarrow> cm_buffer" where
  "cm_msg_x05_ack_serialize ok m =
     alloc_buffer ok (check_status_ack_bytes m)"

definition cm_msg_x05_ack_parse :: "byte list \<Rightarrow> nat \<Rightarrow> cm_check_status_ack res" where
  "cm_msg_x05_ack_parse msg sz =
     (if 4 \<le> sz then
        rbind (read_byte msg) (\<lambda>(a, p). rbind (read_byte p) (\<lambda>(b, p).
        rbind (read_byte p) (\<lambda>(c, p). rbind (read_byte p) (\<lambda>(d, p).
          Inr (check_status_ack_of_bytes a b c d)))))
      else Inl Uninitialised)"

section \<open>0x10 Task creation\<close>

definition cm_msg_x10 :: "cm_tasks_msg" where
  "cm_msg_x10 = empty_tasks_msg 0x10"

definition cm_msg_x10_serialize :: "bool \<Rightarrow> cm_tasks_msg \<Rightarrow> cm_buffer" where
  "cm_msg_x10_serialize = tasks_msg_serialize"

definition cm_msg_x10_parse :: "byte list \<Rightarrow> nat \<Rightarrow> cm_tasks_msg res" where
  "cm_msg_x10_parse = tasks_msg_parse"

definition cm_msg_x10_ack :: "cm_default_ack" where
  "cm_msg_x10_ack = ack_header 0x10"

definition cm_msg_x10_ack_serialize :: "bool \<Rightarrow> cm_default_ack \<Rightarrow> cm_buffer" where
  "cm_msg_x10_ack_serialize = cm_default_ack_serialize"

definition cm_msg_x10_ack_parse :: "byte list \<Rightarrow> nat \<Rightarrow> cm_default_ack res" where
  "cm_msg_x10_ack_parse = cm_default_ack_parse"

section \<open>0x11 Task run all\<close>

definition cm_msg_x11 :: "cm_fixed_header" where
  "cm_msg_x11 = request_header 0x11 1"

definition cm_msg_x11_serialize :: "bool \<Rightarrow> cm_fixed_header \<Rightarrow> cm_buffer" where
  "cm_msg_x11_serialize = cm_header_serialize"

definition cm_msg_x11_parse :: "byte list \<Rightarrow> nat \<Rightarrow> cm_fixed_header res" where
  "cm_msg_x11_parse = cm_header_parse"

definition cm_msg_x11_ack :: "cm_default_ack" where
  "cm_msg_x11_ack = ack_header 0x11"

definition cm_msg_x11_ack_serialize :: "bool \<Rightarrow> cm_default_ack \<Rightarrow> cm_buffer" where
  "cm_msg_x11_ack_serialize = cm_default_ack_serialize"

definition cm_msg_x11_ack_parse :: "byte list \<Rightarrow> nat \<Rightarrow> cm_default_ack res" where
  "cm_msg_x11_ack_parse = cm_default_ack_parse"

section \<open>0x12 Task stop all\<close>

definition cm_msg_x12 :: "cm_fixed_header" where
  "cm_msg_x12 = request_header 0x12 1"

definition cm_msg_x12_serialize :: "bool \<Rightarrow> cm_fixed_header \<Rightarrow> cm_buffer" where
  "cm_msg_x12_serialize = cm_header_serialize"

definition cm_msg_x12_parse :: "byte list \<Rightarrow> nat \<Rightarrow> cm_fixed_header res" where
  "cm_msg_x12_parse = cm_header_parse"

definition cm_msg_x12_ack :: "cm_default_ack" where
  "cm_msg_x12_ack = ack_header 0x12"

definition cm_msg_x12_ack_serialize :: "bool \<Rightarrow> cm_default_ack \<Rightarrow> cm_buffer" where
  "cm_msg_x12_ack_serialize = cm_default_ack_serialize"

definition cm_msg_x12_ack_parse :: "byte list \<Rightarrow> nat \<Rightarrow> cm_default_ack res" where
  "cm_msg_x12_ack_parse = cm_default_ack_parse"

section \<open>0x13 Task run\<close>

definition cm_msg_x13 :: "cm_tasks_msg" where
  "cm_msg_x13 = empty_tasks_msg 0x13"

definition cm_msg_x13_serialize :: "bool \<Rightarrow> cm_tasks_msg \<Rightarrow> cm_buffer" where
  "cm_msg_x13_serialize = tasks_msg_serialize"

definition cm_msg_x13_parse :: "byte list \<Rightarrow> nat \<Rightarrow> cm_tasks_msg res" where
  "cm_msg_x13_parse = tasks_msg_parse"

definition cm_msg_x13_ack :: "cm_default_ack" where
  "cm_msg_x13_ack = ack_header 0x13"

definition cm_msg_x13_ack_serialize :: "bool \<Rightarrow> cm_default_ack \<Rightarrow> cm_buffer" where
  "cm_msg_x13_ack_serialize = cm_default_ack_serialize"

definition cm_msg_x13_ack_parse :: "byte list \<Rightarrow> nat \<Rightarrow> cm_default_ack res" where
  "cm_msg_x13_ack_parse = cm_default_ack_parse"

section \<open>0x14 Task stop\<close>

definition cm_msg_x14 :: "cm_tasks_msg" where
  "cm_msg_x14 = empty_tasks_msg 0x14"

definition cm_msg_x14_serialize :: "bool \<Rightarrow> cm_tasks_msg \<Rightarrow> cm_buffer" where
  "cm_msg_x14_serialize = tasks_msg_serialize"

definition cm_msg_x14_parse :: "byte list \<Rightarrow> nat \<Rightarrow> cm_tasks_msg res" where
  "cm_msg_x14_parse = tasks_msg_parse"

definition cm_msg_x14_ack :: "cm_default_ack" where
  "cm_msg_x14_ack = ack_header 0x14"

definition cm_msg_x14_ack_serialize :: "bool \<Rightarrow> cm_default_ack \<Rightarrow> cm_buffer" where
  "cm_msg_x14_ack_serialize = cm_default_ack_serialize"

definition cm_msg_x14_ack_parse :: "byte list \<Rightarrow> nat \<Rightarrow> cm_default_ack res" where
  "cm_msg_x14_ack_parse = cm_default_ack_parse"

section \<open>0x15 Attribute write\<close>

definition cm_msg_x15 :: "cm_attribute_value cm_payload_msg" where
  "cm_msg_x15 = empty_payload_msg 0x15"

definition cm_msg_x15_serialize :: "bool \<Rightarrow> cm_attribute_value cm_payload_msg \<Rightarrow> cm_buffer res" where
  "cm_msg_x15_serialize = values_msg_serialize"

definition cm_msg_x15_payload_parse :: "(nat \<Rightarrow> bool) \<Rightarrow> byte list \<Rightarrow> nat \<Rightarrow> cm_attribute_value cm_payload option res" where
  "cm_msg_x15_payload_parse alloc msg sz =
     payload_parse cm_attribute_values_parse (Inl Uninitialised) alloc msg sz"

definition cm_msg_x15_parse :: "(nat \<Rightarrow> bool) \<Rightarrow> byte list \<Rightarrow> nat \<Rightarrow> cm_attribute_value cm_payload_msg res" where
  "cm_msg_x15_parse alloc msg sz =
     payload_msg_parse (cm_msg_x15_payload_parse alloc) msg sz"

definition cm_msg_x15_ack :: "cm_default_ack" where
  "cm_msg_x15_ack = ack_header 0x15"

definition cm_msg_x15_ack_serialize :: "bool \<Rightarrow> cm_default_ack \<Rightarrow> cm_buffer" where
  "cm_msg_x15_ack_serialize = cm_default_ack_serialize"

definition cm_msg_x15_ack_parse :: "byte list \<Rightarrow> nat \<Rightarrow> cm_default_ack res" where
  "cm_msg_x15_ack_parse = cm_default_ack_parse"

section \<open>0x16 Attribute read\<close>

definition cm_msg_x16 :: "cm_attribute cm_payload_msg" where
  "cm_msg_x16 = empty_payload_msg 0x16"

definition cm_msg_x16_serialize :: "bool \<Rightarrow> cm_attribute cm_payload_msg \<Rightarrow> cm_buffer res" where
  "cm_msg_x16_serialize ok m =
     rbind (deref (pm_payload m)) (\<lambda>p.
       let count = unat (attr_count p) + 1; sz = 2 + 2 + cm_attributes_serialize_size count in
       if ok then
         rbind (cm_attributes_serialize (attributes p) count) (\<lambda>as.
           Inr (Some (payload_msg_head m @ payload_head p @ as), sz))
       else Inl Null_deref)"

definition cm_msg_x16_payload_parse :: "(nat \<Rightarrow> bool) \<Rightarrow> byte list \<Rightarrow> nat \<Rightarrow> cm_attribute cm_payload option res" where
  "cm_msg_x16_payload_parse alloc msg sz =
     payload_parse cm_attributes_parse (Inr None) alloc msg sz"

definition cm_msg_x16_parse :: "(nat \<Rightarrow> bool) \<Rightarrow> byte list \<Rightarrow> nat \<Rightarrow> cm_attribute cm_payload_msg res" where
  "cm_msg_x16_parse alloc msg sz =
     payload_msg_parse (cm_msg_x16_payload_parse alloc) msg sz"

definition cm_msg_x16_ack :: "cm_read_ack_msg" where
  "cm_msg_x16_ack = \<lparr>ra_header = ack_header 0x16, ra_reserved = 0, ra_length = 0, ra_payload = None\<rparr>"

definition read_ack_head :: "cm_read_ack_msg \<Rightarrow> byte list" where
  "read_ack_head m = default_ack_bytes (ra_header m) @ [pack26 (ra_reserved m) (ra_length m)]"

definition cm_msg_x16_ack_serialize :: "bool \<Rightarrow> cm_read_ack_msg \<Rightarrow> cm_buffer res" where
  "cm_msg_x16_ack_serialize ok m =
     rbind (deref (ra_payload m)) (\<lambda>p.
       let count = unat (ra_attr_count p) + 1 in
       rbind (cm_attribute_values_serialize_size (ra_values p) count) (\<lambda>vsz.
         let sz = 3 + 1 + vsz in
         if ok then
           rbind (cm_attribute_values_serialize (ra_values p) count) (\<lambda>as.
             Inr (Some (read_ack_head m @ [pack62 (ra_object_id p) (ra_attr_count p)] @ as), sz))
         else Inr (None, sz)))"

definition cm_msg_x16_ack_payload_parse :: "(nat \<Rightarrow> bool) \<Rightarrow> byte list \<Rightarrow> nat \<Rightarrow> cm_read_ack_payload option res" where
  "cm_msg_x16_ack_payload_parse alloc msg sz =
     (if 1 \<le> sz then
        (if alloc 0 then
           rbind (read_byte msg) (\<lambda>(oc, p).
           rbind (cm_attribute_values_parse alloc 1 p (sz - 1) (ucast (snd (unpack62 oc)))) (\<lambda>as.
             Inr (Some \<lparr>ra_object_id = fst (unpack62 oc), ra_attr_count = snd (unpack62 oc), ra_values = as\<rparr>)))
         else Inr None)
      else Inr None)"

definition cm_msg_x16_ack_parse :: "(nat \<Rightarrow> bool) \<Rightarrow> byte list \<Rightarrow> nat \<Rightarrow> cm_read_ack_msg res" where
  "cm_msg_x16_ack_parse alloc msg sz =
     (if 3 \<le> sz then
        rbind (read_byte msg) (\<lambda>(a, p). rbind (read_byte p) (\<lambda>(b, p). rbind (read_byte p) (\<lambda>(c, p).
        rbind (cm_msg_x16_ack_payload_parse alloc p (sz - 3)) (\<lambda>pl.
          Inr \<lparr>ra_header = default_ack_of_bytes a b, ra_reserved = fst (unpack26 c),
               ra_length = snd (unpack26 c), ra_payload = pl\<rparr>))))
      else Inl Uninitialised)"

section \<open>0x17 Task input data\<close>

definition cm_msg_x17 :: "cm_attribute_value cm_payload_msg" where
  "cm_msg_x17 = empty_payload_msg 0x17"

definition cm_msg_x17_serialize :: "bool \<Rightarrow> cm_attribute_value cm_payload_msg \<Rightarrow> cm_buffer res" where
  "cm_msg_x17_serialize = values_msg_serialize"

definition cm_msg_x17_payload_parse :: "(nat \<Rightarrow> bool) \<Rightarrow> byte list \<Rightarrow> nat \<Rightarrow> cm_attribute_value cm_payload option res" where
  "cm_msg_x17_payload_parse alloc msg sz =
     payload_parse cm_attribute_values_parse (Inr None) alloc msg sz"

definition cm_msg_x17_parse :: "(nat \<Rightarrow> bool) \<Rightarrow> byte list \<Rightarrow> nat \<Rightarrow> cm_attribute_value cm_payload_msg res" where
  "cm_msg_x17_parse alloc msg sz =
     payload_msg_parse (cm_msg_x17_payload_parse alloc) msg sz"

definition cm_msg_x17_ack :: "cm_default_ack" where
  "cm_msg_x17_ack = ack_header 0x17"

definition cm_msg_x17_ack_serialize :: "bool \<Rightarrow> cm_default_ack \<Rightarrow> cm_buffer" where
  "cm_msg_x17_ack_serialize = cm_default_ack_serialize"

definition cm_msg_x17_ack_parse :: "byte list \<Rightarrow> nat \<Rightarrow> cm_default_ack res" where
  "cm_msg_x17_ack_parse = cm_default_ack_parse"

section \<open>0x18 Task output data\<close>

definition cm_msg_x18 :: "cm_attribute_value cm_payload_msg" where
  "cm_msg_x18 = empty_payload_msg 0x18"

definition cm_msg_x18_serialize :: "bool \<Rightarrow> cm_attribute_value cm_payload_msg \<Rightarrow> cm_buffer res" where
  "cm_msg_x18_serialize = values_msg_serialize"

definition cm_msg_x18_payload_parse :: "(nat \<Rightarrow> bool) \<Rightarrow> byte list \<Rightarrow> nat \<Rightarrow> cm_attribute_value cm_payload option res" where
  "cm_msg_x18_payload_parse alloc msg sz =
     payload_parse cm_attribute_values_parse (Inr None) alloc msg sz"

definition cm_msg_x18_parse :: "(nat \<Rightarrow> bool) \<Rightarrow> byte list \<Rightarrow> nat \<Rightarrow> cm_attribute_value cm_payload_msg res" where
  "cm_msg_x18_parse alloc msg sz =
     payload_msg_parse (cm_msg_x18_payload_parse alloc) msg sz"

definition cm_msg_x18_ack :: "cm_default_ack" where
  "cm_msg_x18_ack = ack_header 0x18"

definition cm_msg_x18_ack_serialize :: "bool \<Rightarrow> cm_default_ack \<Rightarrow> cm_buffer" where
  "cm_msg_x18_ack_serialize = cm_default_ack_serialize"

definition cm_msg_x18_ack_parse :: "byte list \<Rightarrow> nat \<Rightarrow> cm_default_ack res" where
  "cm_msg_x18_ack_parse = cm_default_ack_parse"

section \<open>Wire formats\<close>

text \<open>What a serializer sends and a parser finds when every allocation succeeds.\<close>

definition sent :: "cm_buffer res \<Rightarrow> byte list res" where
  "sent r = rbind r (\<lambda>(b, _). deref b)"

lemma sent_alloc [simp]: "sent (Inr (alloc_buffer True bs)) = Inr bs"
  by (simp add: sent_def alloc_buffer_def)

lemma connect_round [cm_simps]:
  "connect_of_bytes (header_byte (con_header m)) (pack26 (con_reserved m) (con_length m))
     (ucast (protocol_version m) OR push_bit 4 (ucast (id_flag m)) OR push_bit 5 (ucast (pwd_flag m))
       OR push_bit 6 (ucast (con_undefined m))) (keep_alive m) = m"
proof -
  let ?c = "ucast (protocol_version m) OR push_bit 4 (ucast (id_flag m)) OR
    push_bit 5 (ucast (pwd_flag m)) OR push_bit 6 (ucast (con_undefined m)) :: byte"
  have "ucast ?c = protocol_version m" "ucast (drop_bit 4 ?c) = id_flag m"
    "ucast (drop_bit 5 ?c) = pwd_flag m" "ucast (drop_bit 6 ?c) = con_undefined m"
    by (auto intro!: bit_word_eqI) (auto simp: bit_simps dest: bit_imp_le_length)
  then show ?thesis by (simp add: connect_of_bytes_def cm_simps)
qed

interpretation connect_wire: wire_format "\<lambda>_. True" "\<lambda>m. sent (Inr (cm_msg_x02_serialize True m))"
  "\<lambda>bs. cm_msg_x02_parse bs (length bs)"
  by unfold_locales (simp add: cm_msg_x02_serialize_def cm_msg_x02_parse_def connect_bytes_def cm_simps)

interpretation device_mode_wire: wire_format "\<lambda>_. True" "\<lambda>m. sent (Inr (cm_msg_x04_serialize True m))"
  "\<lambda>bs. cm_msg_x04_parse bs (length bs)"
  by unfold_locales (simp add: cm_msg_x04_serialize_def cm_msg_x04_parse_def device_mode_bytes_def
      device_mode_of_bytes_def cm_simps)

interpretation check_status_wire: wire_format "\<lambda>_. True" "\<lambda>m. sent (Inr (cm_msg_x05_ack_serialize True m))"
  "\<lambda>bs. cm_msg_x05_ack_parse bs (length bs)"
  by unfold_locales (simp add: cm_msg_x05_ack_serialize_def cm_msg_x05_ack_parse_def
      check_status_ack_bytes_def check_status_ack_of_bytes_def default_ack_bytes_def cm_simps)

lemma u32_bytes_value: "of_nat (le_value (bytes_of_u32 w)) = w"
proof -
  have "unat w < 2 ^ 32" using unsigned_less [of w, where ?'a = nat] by simp
  then show ?thesis by (simp add: bytes_of_u32_def le_value_le_bytes)
qed

interpretation tasks_wire: wire_format "\<lambda>_. True" "\<lambda>m. sent (Inr (tasks_msg_serialize True m))"
  "\<lambda>bs. tasks_msg_parse bs (length bs)"
proof
  fix m :: cm_tasks_msg
  have "length (bytes_of_u32 (tk_tasks m)) = 4" by (simp add: bytes_of_u32_def)
  then show "\<exists>bs. sent (Inr (tasks_msg_serialize True m)) = Inr bs \<and>
      (\<forall>rest. tasks_msg_parse (bs @ rest) (length (bs @ rest)) = Inr m)"
    by (simp add: tasks_msg_serialize_def tasks_msg_parse_def tasks_msg_bytes_def cm_simps u32_bytes_value)
qed

definition attributes_msg_ok :: "cm_attribute cm_payload_msg \<Rightarrow> bool" where
  "attributes_msg_ok m \<longleftrightarrow> (case pm_payload m of None \<Rightarrow> False | Some p \<Rightarrow>
     (case attributes p of None \<Rightarrow> False | Some as \<Rightarrow> length as = unat (attr_count p) + 1))"

definition values_msg_ok :: "cm_attribute_value cm_payload_msg \<Rightarrow> bool" where
  "values_msg_ok m \<longleftrightarrow> (case pm_payload m of None \<Rightarrow> False | Some p \<Rightarrow>
     (case attributes p of None \<Rightarrow> False | Some as \<Rightarrow>
        length as = unat (attr_count p) + 1 \<and> list_all attribute_value_ok as))"

lemma attributes_msg_okE:
  assumes "attributes_msg_ok m"
  obtains p as where "pm_payload m = Some p" "attributes p = Some as" "length as = unat (attr_count p) + 1"
  using assms by (auto simp: attributes_msg_ok_def split: option.splits)

lemma values_msg_okE:
  assumes "values_msg_ok m"
  obtains p as where "pm_payload m = Some p" "attributes p = Some as" "length as = unat (attr_count p) + 1"
    "list_all attribute_value_ok as"
  using assms by (auto simp: values_msg_ok_def split: option.splits)

lemma real_count [cm_simps]: "cm_attribute_real_attr_count (ucast (c :: 2 word)) = unat c + 1"
  by (simp add: cm_attribute_real_attr_count_def cm_simps)

lemma attributes_msg_serialize_ok:
  assumes "pm_payload m = Some p" "attributes p = Some as" "length as = unat (attr_count p) + 1"
  shows "attributes_msg_serialize True m
    = Inr (Some (payload_msg_head m @ payload_head p @ map attribute_byte as), 4 + length as)"
  using assms by (simp add: attributes_msg_serialize_def cm_attributes_serialize_size_def
      cm_attributes_serialize_def Let_def)

lemma attributes_msg_parse_ok:
  assumes "pm_payload m = Some p" "attributes p = Some as" "length as = unat (attr_count p) + 1"
  shows "payload_msg_parse (payload_parse cm_attributes_parse short (\<lambda>_. True))
      (payload_msg_head m @ payload_head p @ map attribute_byte as @ rest)
      (length (payload_msg_head m @ payload_head p @ map attribute_byte as @ rest)) = Inr m"
proof -
  have n: "Suc (unat (attr_count p)) = length as" and pos: "Suc 0 \<le> length as + length rest"
    using assms(3) by simp_all
  show ?thesis
    using assms(1,2) pos attributes_loop_bytes [of as rest]
    by (simp add: payload_msg_parse_def payload_parse_def payload_msg_head_def payload_head_def
        cm_attributes_parse_def cm_simps n del: rbind_eq_Inr cm_attributes_loop.simps)
qed

lemma values_msg_serialize_ok:
  assumes "pm_payload m = Some p" "attributes p = Some as" "length as = unat (attr_count p) + 1"
    and "list_all attribute_value_ok as"
  shows "values_msg_serialize True m
    = Inr (Some (payload_msg_head m @ payload_head p @ concat (map attribute_value_bytes as)),
        4 + length (concat (map attribute_value_bytes as)))"
proof -
  have n: "Suc (unat (attr_count p)) = length as" and pos: "0 < length as" using assms(3) by simp_all
  show ?thesis
    using assms(1,2) pos values_size_loop_ok [of "length as" as] values_copy_ok [OF assms(4)]
      length_value_bytes [OF assms(4)]
    by (simp add: values_msg_serialize_def n cm_attribute_values_serialize_size_def cm_attribute_values_serialize_def
        sizeof_attribute_value_payload_def Let_def
        del: rbind_eq_Inr cm_attribute_values_size_loop.simps cm_attribute_values_copy.simps)
qed

lemma values_msg_parse_ok:
  assumes "pm_payload m = Some p" "attributes p = Some as" "length as = unat (attr_count p) + 1"
    and "list_all attribute_value_ok as"
  shows "payload_msg_parse (payload_parse cm_attribute_values_parse short (\<lambda>_. True))
      (payload_msg_head m @ payload_head p @ concat (map attribute_value_bytes as) @ rest)
      (length (payload_msg_head m @ payload_head p @ concat (map attribute_value_bytes as) @ rest)) = Inr m"
proof -
  have n: "Suc (unat (attr_count p)) = length as" using assms(3) by simp
  define bs where "bs = concat (map attribute_value_bytes as)"
  have "Suc 0 \<le> length bs + length rest"
    using length_value_bytes [OF assms(4)] assms(3) by (simp add: bs_def)
  then show ?thesis
    using assms(1,2) values_loop_ok [OF assms(4), of "\<lambda>_. True" 2 rest] unfolding bs_def [symmetric]
    by (simp add: payload_msg_parse_def payload_parse_def payload_msg_head_def payload_head_def
        cm_attribute_values_parse_def sizeof_attribute_value_payload_def cm_simps n numeral_2_eq_2
        del: rbind_eq_Inr cm_attribute_values_loop.simps)
qed

lemma x16_serialize: "cm_msg_x16_serialize True m = attributes_msg_serialize True m"
  by (simp add: cm_msg_x16_serialize_def attributes_msg_serialize_def)

definition attributes_msg_size :: "'a cm_payload_msg \<Rightarrow> nat" where
  "attributes_msg_size m = (case pm_payload m of None \<Rightarrow> 0 | Some p \<Rightarrow> 5 + unat (attr_count p))"

lemma attributes_sent:
  assumes "attributes_msg_ok m"
  shows "\<exists>bs. attributes_msg_serialize True m = Inr (Some bs, length bs) \<and>
    length bs = attributes_msg_size m \<and>
    (\<forall>rest. cm_msg_x03_parse (\<lambda>_. True) (bs @ rest) (length (bs @ rest)) = Inr m \<and>
      cm_msg_x16_parse (\<lambda>_. True) (bs @ rest) (length (bs @ rest)) = Inr m)"
proof -
  obtain p as where a: "pm_payload m = Some p" "attributes p = Some as" "length as = unat (attr_count p) + 1"
    using assms by (rule attributes_msg_okE)
  let ?bs = "payload_msg_head m @ payload_head p @ map attribute_byte as"
  have len: "length ?bs = 4 + length as" by (simp add: payload_msg_head_def payload_head_def)
  have pp: "cm_msg_x03_payload_parse = payload_parse cm_attributes_parse (Inr None)"
    "cm_msg_x16_payload_parse = payload_parse cm_attributes_parse (Inr None)"
    by (simp_all add: fun_eq_iff cm_msg_x03_payload_parse_def cm_msg_x16_payload_parse_def)
  have "payload_msg_parse (payload_parse cm_attributes_parse (Inr None) (\<lambda>_. True)) (?bs @ rest)
      (length (?bs @ rest)) = Inr m" for rest
    using attributes_msg_parse_ok [OF a, of "Inr None" rest] by simp
  moreover have "attributes_msg_serialize True m = Inr (Some ?bs, length ?bs)"
    using attributes_msg_serialize_ok [OF a] len by simp
  ultimately show ?thesis
    using len a by (intro exI [of _ ?bs])
      (simp add: cm_msg_x03_parse_def cm_msg_x16_parse_def pp attributes_msg_size_def)
qed

lemma values_sent:
  assumes "values_msg_ok m"
  shows "\<exists>bs. values_msg_serialize True m = Inr (Some bs, length bs) \<and> length bs \<le> 40 \<and>
    (\<forall>rest. cm_msg_x15_parse (\<lambda>_. True) (bs @ rest) (length (bs @ rest)) = Inr m \<and>
      cm_msg_x17_parse (\<lambda>_. True) (bs @ rest) (length (bs @ rest)) = Inr m \<and>
      cm_msg_x18_parse (\<lambda>_. True) (bs @ rest) (length (bs @ rest)) = Inr m)"
proof -
  obtain p as where a: "pm_payload m = Some p" "attributes p = Some as" "length as = unat (attr_count p) + 1"
      "list_all attribute_value_ok as"
    using assms by (rule values_msg_okE)
  let ?vs = "concat (map attribute_value_bytes as)"
  let ?bs = "payload_msg_head m @ payload_head p @ ?vs"
  have len: "length ?bs = 4 + length ?vs" by (simp add: payload_msg_head_def payload_head_def)
  have "sum_list (map value_size as) \<le> sum_list (map (\<lambda>_. 8) as)"
    by (intro sum_list_mono value_size_le)
  then have vlen: "length ?vs \<le> 36"
    using length_value_bytes [OF a(4)] a(3) two_bits [of "attr_count p"] by (auto simp: sum_list_triv)
  have pp: "cm_msg_x15_payload_parse = payload_parse cm_attribute_values_parse (Inl Uninitialised)"
    "cm_msg_x17_payload_parse = payload_parse cm_attribute_values_parse (Inr None)"
    "cm_msg_x18_payload_parse = payload_parse cm_attribute_values_parse (Inr None)"
    by (simp_all add: fun_eq_iff cm_msg_x15_payload_parse_def cm_msg_x17_payload_parse_def
        cm_msg_x18_payload_parse_def)
  have "payload_msg_parse (payload_parse cm_attribute_values_parse short (\<lambda>_. True)) (?bs @ rest)
      (length (?bs @ rest)) = Inr m" for short rest
    using values_msg_parse_ok [OF a, of short rest] by simp
  moreover have "values_msg_serialize True m = Inr (Some ?bs, length ?bs)"
    using values_msg_serialize_ok [OF a] len by simp
  ultimately show ?thesis
    using len vlen by (intro exI [of _ ?bs])
      (simp add: cm_msg_x15_parse_def cm_msg_x17_parse_def cm_msg_x18_parse_def pp)
qed

definition read_ack_ok :: "cm_read_ack_msg \<Rightarrow> bool" where
  "read_ack_ok m \<longleftrightarrow> (case ra_payload m of None \<Rightarrow> False | Some p \<Rightarrow>
     (case ra_values p of None \<Rightarrow> False | Some as \<Rightarrow>
        length as = unat (ra_attr_count p) + 1 \<and> list_all attribute_value_ok as))"

lemma read_ack_sent:
  assumes "read_ack_ok m"
  shows "\<exists>bs. cm_msg_x16_ack_serialize True m = Inr (Some bs, length bs) \<and> length bs \<le> 40 \<and>
    (\<forall>rest. cm_msg_x16_ack_parse (\<lambda>_. True) (bs @ rest) (length (bs @ rest)) = Inr m)"
proof -
  obtain p as where a: "ra_payload m = Some p" "ra_values p = Some as"
      "length as = unat (ra_attr_count p) + 1" "list_all attribute_value_ok as"
    using assms by (auto simp: read_ack_ok_def split: option.splits)
  define vs where "vs = concat (map attribute_value_bytes as)"
  let ?bs = "read_ack_head m @ [pack62 (ra_object_id p) (ra_attr_count p)] @ vs"
  have n: "Suc (unat (ra_attr_count p)) = length as" and pos: "0 < length as" using a(3) by simp_all
  have vs: "length vs = sum_list (map value_size as) + length as"
    using length_value_bytes [OF a(4)] by (simp add: vs_def)
  have "sum_list (map value_size as) \<le> sum_list (map (\<lambda>_. 8) as)"
    by (intro sum_list_mono value_size_le)
  then have le: "length vs \<le> 36" and vpos: "Suc 0 \<le> length vs + k" for k
    using vs a(3) two_bits [of "ra_attr_count p"] by (auto simp: sum_list_triv)
  have len: "length ?bs = 4 + length vs" by (simp add: read_ack_head_def default_ack_bytes_def)
  have "cm_msg_x16_ack_serialize True m = Inr (Some ?bs, length ?bs)"
    using a(1,2) pos values_size_loop_ok [of "length as" as] values_copy_ok [OF a(4)] vs len
    by (simp add: cm_msg_x16_ack_serialize_def n cm_attribute_values_serialize_size_def
        cm_attribute_values_serialize_def sizeof_attribute_value_payload_def Let_def vs_def
        del: rbind_eq_Inr cm_attribute_values_size_loop.simps cm_attribute_values_copy.simps)
  moreover have "cm_msg_x16_ack_parse (\<lambda>_. True) (?bs @ rest) (length (?bs @ rest)) = Inr m" for rest
    using a(1,2) vpos values_loop_ok [OF a(4), of "\<lambda>_. True" 2 rest]
    unfolding vs_def [symmetric]
    by (simp add: cm_msg_x16_ack_parse_def cm_msg_x16_ack_payload_parse_def read_ack_head_def
        default_ack_bytes_def cm_attribute_values_parse_def sizeof_attribute_value_payload_def cm_simps
        n numeral_2_eq_2 del: rbind_eq_Inr cm_attribute_values_loop.simps)
  ultimately show ?thesis using len le by (intro exI [of _ ?bs]) simp
qed

interpretation attributes_wire: wire_format attributes_msg_ok "\<lambda>m. sent (cm_msg_x03_serialize True m)"
  "\<lambda>bs. cm_msg_x03_parse (\<lambda>_. True) bs (length bs)"
  by unfold_locales (use attributes_sent in \<open>fastforce simp: sent_def cm_msg_x03_serialize_def\<close>)

interpretation values_wire: wire_format values_msg_ok "\<lambda>m. sent (cm_msg_x17_serialize True m)"
  "\<lambda>bs. cm_msg_x17_parse (\<lambda>_. True) bs (length bs)"
  by unfold_locales (use values_sent in \<open>fastforce simp: sent_def cm_msg_x17_serialize_def\<close>)

interpretation read_ack_wire: wire_format read_ack_ok "\<lambda>m. sent (cm_msg_x16_ack_serialize True m)"
  "\<lambda>bs. cm_msg_x16_ack_parse (\<lambda>_. True) bs (length bs)"
  by unfold_locales (use read_ack_sent in \<open>fastforce simp: sent_def\<close>)

section \<open>Properties\<close>

text \<open>
  C11. Every message of fixed size survives the way over the wire: parsing what was serialized
  gives the same header, acknowledgement, connect, device mode, status or task message, and
  whatever follows in the buffer does not matter.
\<close>

theorem fixed_messages_round_trip:
  "rbind (sent (Inr (cm_msg_x00_serialize True h))) (\<lambda>bs. cm_msg_x00_parse (bs @ rest) (length (bs @ rest))) = Inr h \<and>
   rbind (sent (Inr (cm_msg_x03_ack_serialize True a))) (\<lambda>bs. cm_msg_x03_ack_parse (bs @ rest) (length (bs @ rest))) = Inr a \<and>
   rbind (sent (Inr (cm_msg_x02_serialize True c))) (\<lambda>bs. cm_msg_x02_parse (bs @ rest) (length (bs @ rest))) = Inr c \<and>
   rbind (sent (Inr (cm_msg_x04_serialize True d))) (\<lambda>bs. cm_msg_x04_parse (bs @ rest) (length (bs @ rest))) = Inr d \<and>
   rbind (sent (Inr (cm_msg_x05_ack_serialize True s))) (\<lambda>bs. cm_msg_x05_ack_parse (bs @ rest) (length (bs @ rest))) = Inr s \<and>
   rbind (sent (Inr (cm_msg_x10_serialize True t))) (\<lambda>bs. cm_msg_x10_parse (bs @ rest) (length (bs @ rest))) = Inr t"
  using header_wire.decode_encode [of h] ack_wire.decode_encode [of a] connect_wire.decode_encode [of c]
      device_mode_wire.decode_encode [of d] check_status_wire.decode_encode [of s]
      tasks_wire.decode_encode [of t]
  by (auto simp: cm_msg_x00_serialize_def cm_msg_x00_parse_def cm_header_serialize_def
        cm_msg_x03_ack_serialize_def cm_msg_x03_ack_parse_def cm_default_ack_serialize_def
        cm_msg_x10_serialize_def cm_msg_x10_parse_def simp del: rbind_eq_Inr length_append)

text \<open>
  C12. The messages with attributes survive the way over the wire as well, when the payload has
  as many attributes as its packed count says and every value has the length its attribute says.
  The reported size is the number of bytes sent, at most 8 for attributes and 40 for values.
\<close>

theorem attribute_messages_round_trip:
  assumes "attributes_msg_ok m" "values_msg_ok v" "read_ack_ok r"
  shows "(\<exists>bs. cm_msg_x03_serialize True m = Inr (Some bs, length bs) \<and>
      cm_msg_x16_serialize True m = Inr (Some bs, length bs) \<and> length bs \<le> 8 \<and>
      (\<forall>rest. cm_msg_x03_parse (\<lambda>_. True) (bs @ rest) (length (bs @ rest)) = Inr m \<and>
        cm_msg_x16_parse (\<lambda>_. True) (bs @ rest) (length (bs @ rest)) = Inr m)) \<and>
    (\<exists>bs. cm_msg_x15_serialize True v = Inr (Some bs, length bs) \<and>
      cm_msg_x17_serialize True v = Inr (Some bs, length bs) \<and>
      cm_msg_x18_serialize True v = Inr (Some bs, length bs) \<and> length bs \<le> 40 \<and>
      (\<forall>rest. cm_msg_x15_parse (\<lambda>_. True) (bs @ rest) (length (bs @ rest)) = Inr v \<and>
        cm_msg_x17_parse (\<lambda>_. True) (bs @ rest) (length (bs @ rest)) = Inr v \<and>
        cm_msg_x18_parse (\<lambda>_. True) (bs @ rest) (length (bs @ rest)) = Inr v)) \<and>
    (\<exists>bs. cm_msg_x16_ack_serialize True r = Inr (Some bs, length bs) \<and> length bs \<le> 40 \<and>
      (\<forall>rest. cm_msg_x16_ack_parse (\<lambda>_. True) (bs @ rest) (length (bs @ rest)) = Inr r))"
proof -
  have "attributes_msg_size m \<le> 8"
  proof (cases "pm_payload m")
    case (Some p)
    then show ?thesis using two_bits [of "attr_count p"] by (auto simp: attributes_msg_size_def)
  qed (simp add: attributes_msg_size_def)
  then show ?thesis
    using attributes_sent [OF assms(1)] values_sent [OF assms(2)] read_ack_sent [OF assms(3)]
    unfolding cm_msg_x03_serialize_def x16_serialize cm_msg_x15_serialize_def
      cm_msg_x17_serialize_def cm_msg_x18_serialize_def
    by fastforce
qed

definition example_values :: "cm_attribute_value list" where
  "example_values = [\<lparr>attribute_id = 1, value_length = 1, attr_values = Some [7, 9]\<rparr>,
     \<lparr>attribute_id = 2, value_length = 0, attr_values = Some [3]\<rparr>]"

lemma example_values_ok: "list_all attribute_value_ok example_values" "length example_values = 2"
  by (simp_all add: example_values_def attribute_value_ok_def value_size_pow)

lemma attribute_messages_round_trip_witness:
  "\<exists>bs. cm_msg_x16_ack_serialize True \<lparr>ra_header = ack_header 0x16, ra_reserved = 0, ra_length = 5,
       ra_payload = Some \<lparr>ra_object_id = 4, ra_attr_count = 1, ra_values = Some example_values\<rparr>\<rparr>
     = Inr (Some bs, length bs)"
  using attribute_messages_round_trip [of
      "\<lparr>pm_header = request_header 3 1, pm_reserved = 0, pm_length = 3, pm_payload =
        Some \<lparr>task_id = 1, object_id = 4, attr_count = 0, attributes = Some [\<lparr>attribute_id = 1, value_length = 2\<rparr>]\<rparr>\<rparr>"
      "\<lparr>pm_header = request_header 0x17 1, pm_reserved = 0, pm_length = 7, pm_payload =
        Some \<lparr>task_id = 1, object_id = 4, attr_count = 1, attributes = Some example_values\<rparr>\<rparr>"
      "\<lparr>ra_header = ack_header 0x16, ra_reserved = 0, ra_length = 5,
        ra_payload = Some \<lparr>ra_object_id = 4, ra_attr_count = 1, ra_values = Some example_values\<rparr>\<rparr>"]
  by (auto simp: attributes_msg_ok_def values_msg_ok_def read_ack_ok_def example_values_ok)

lemma attributes_loop_short: "length p < n \<Longrightarrow> cm_attributes_loop n p = Inl Out_of_bounds"
proof (induction n arbitrary: p)
  case (Suc n)
  then show ?case by (cases p) (auto simp: read_byte_def)
qed simp

lemma values_loop_short:
  "length p < n \<Longrightarrow> (\<And>i. alloc i) \<Longrightarrow> cm_attribute_values_loop alloc a n p = Inl Out_of_bounds"
proof (induction n arbitrary: a p)
  case (Suc n)
  show ?case
  proof (cases p)
    case (Cons b q)
    let ?k = "value_size (attribute_of_byte b)"
    show ?thesis
      using Suc Cons value_size_le(2) [of "attribute_of_byte b"]
      by (cases "?k \<le> length q") (simp_all add: read_byte_def read_bytes_def Let_def)
  qed (simp add: read_byte_def)
qed simp

text \<open>
  The attribute parsers check only that one byte is left: a message whose packed count
  announces more attributes than bytes follow is read past its end, whether or not the claimed
  size is right.
\<close>

theorem attribute_count_overread:
  assumes "as \<noteq> []" "length as < unat (snd (unpack62 oc)) + 1"
  shows "cm_msg_x03_parse (\<lambda>_. True) (h # l # t # oc # as) (length (h # l # t # oc # as)) = Inl Out_of_bounds \<and>
    cm_msg_x17_parse (\<lambda>_. True) (h # l # t # oc # as) (length (h # l # t # oc # as)) = Inl Out_of_bounds"
proof -
  have ne: "Suc 0 \<le> length as" using assms(1) by (cases as) auto
  have "cm_attributes_loop (unat (snd (unpack62 oc)) + 1) as = Inl Out_of_bounds"
    "cm_attribute_values_loop (\<lambda>_. True) 2 (unat (snd (unpack62 oc)) + 1) as = Inl Out_of_bounds"
    by (rule attributes_loop_short [OF assms(2)], rule values_loop_short [OF assms(2)]) simp
  then show ?thesis
    using ne by (simp add: cm_msg_x03_parse_def cm_msg_x17_parse_def cm_msg_x03_payload_parse_def
        cm_msg_x17_payload_parse_def payload_msg_parse_def payload_parse_def cm_attributes_parse_def
        cm_attribute_values_parse_def sizeof_attribute_value_payload_def cm_simps numeral_2_eq_2
        del: cm_attributes_loop.simps cm_attribute_values_loop.simps)
qed

lemma attribute_count_overread_witness:
  "cm_msg_x03_parse (\<lambda>_. True) [0x4c, 0x10, 1, 0xc4, 0x41] (length [0x4c, 0x10, 1, 0xc4, 0x41 :: byte])
     = Inl Out_of_bounds"
proof -
  have "unat (snd (unpack62 0xc4)) = 3" by (simp add: unpack62_def)
  then show ?thesis using attribute_count_overread [of "[0x41]" "0xc4" "0x4c" "0x10" 1] by simp
qed

text \<open>
  The initial value of every message with a payload makes its serializer dereference NULL,
  although the code tests the payload pointer afterwards. A message that ends before its payload
  head is parsed to a message without payload, except for 0x15, whose parser returns an
  indeterminate pointer.
\<close>

theorem payload_edge_cases:
  "cm_msg_x03_serialize ok cm_msg_x03 = Inl Null_deref \<and> cm_msg_x15_serialize ok cm_msg_x15 = Inl Null_deref \<and>
   cm_msg_x16_serialize ok cm_msg_x16 = Inl Null_deref \<and> cm_msg_x16_ack_serialize ok cm_msg_x16_ack = Inl Null_deref \<and>
   cm_msg_x17_serialize ok cm_msg_x17 = Inl Null_deref \<and> cm_msg_x18_serialize ok cm_msg_x18 = Inl Null_deref \<and>
   (\<exists>m. cm_msg_x17_parse alloc [h, l, t] 3 = Inr m \<and> pm_payload m = None) \<and>
   (\<exists>m. cm_msg_x03_parse alloc [h, l, t] 3 = Inr m \<and> pm_payload m = None) \<and>
   cm_msg_x15_parse alloc [h, l, t] 3 = Inl Uninitialised"
  by (simp add: cm_msg_x03_serialize_def cm_msg_x15_serialize_def cm_msg_x16_serialize_def
      cm_msg_x16_ack_serialize_def cm_msg_x17_serialize_def cm_msg_x18_serialize_def cm_msg_x03_def
      cm_msg_x15_def cm_msg_x16_def cm_msg_x16_ack_def cm_msg_x17_def cm_msg_x18_def
      attributes_msg_serialize_def values_msg_serialize_def empty_payload_msg_def
      cm_msg_x17_parse_def cm_msg_x15_parse_def cm_msg_x17_payload_parse_def cm_msg_x15_payload_parse_def
      cm_msg_x03_parse_def cm_msg_x03_payload_parse_def payload_msg_parse_def payload_parse_def cm_simps)

end
