(* ===== verification/ServiceTypes.thy ===== *)
theory ServiceTypes
  imports LwmSerialize
begin

text \<open>
  Micro services and their tasks (\<^verbatim>\<open>SMFW/iw_fw_microservices.c\<close> and
  \<^verbatim>\<open>iw_fw_microservices.h\<close>): the data, parameters, and the queries.

  The kernel is not part of the repository. Its create calls return the handles
  \<open>k_handle 0\<close>, \<open>k_handle 1\<close>, ... of an arbitrary function (0 is NULL), and every call
  is recorded in \<open>k_trace\<close>. A task is a record with its address, by which links and lines
  refer to it; lists are in the order \<^verbatim>\<open>LIST_FOREACH\<close> visits them. The functions of the
  applications are known by an identifier.
\<close>

section \<open>The kernel as the services see it\<close>

datatype kernel_call =
    Create_queue nat nat nat
  | Delete_queue nat
  | Create_task cstring nat
  | Delete_task nat
  | Suspend_task nat
  | Resume_task nat
  | Lock_mutex
  | Unlock_mutex

record kernel =
  k_handle :: "nat \<Rightarrow> nat"
  k_count :: nat
  k_addr :: nat
  k_tick :: nat
  k_trace :: "kernel_call list"

definition k_call :: "kernel_call \<Rightarrow> kernel \<Rightarrow> kernel" where
  "k_call c k = k\<lparr>k_trace := k_trace k @ [c]\<rparr>"

definition create_queue :: "nat \<Rightarrow> nat \<Rightarrow> kernel \<Rightarrow> nat \<times> kernel" where
  "create_queue len sz k = (let h = k_handle k (k_count k) in
     (h, k_call (Create_queue len sz h) (k\<lparr>k_count := Suc (k_count k)\<rparr>)))"

definition create_task :: "cstring \<Rightarrow> kernel \<Rightarrow> nat \<times> kernel" where
  "create_task nm k = (let h = k_handle k (k_count k) in
     (h, k_call (Create_task nm h) (k\<lparr>k_count := Suc (k_count k)\<rparr>)))"

definition new_addr :: "kernel \<Rightarrow> nat \<times> kernel" where
  "new_addr k = (k_addr k, k\<lparr>k_addr := Suc (k_addr k)\<rparr>)"

abbreviation "mainQUEUE_LENGTH \<equiv> (20::nat)"
abbreviation "MS_MAX_NAME_LENGTH \<equiv> (30::nat)"
abbreviation "sizeof_ptr \<equiv> (4::nat)"

section \<open>States\<close>

text \<open>\<^verbatim>\<open>WAITING\<close> is the same value as \<^verbatim>\<open>CREATED\<close>.\<close>

datatype state_type = NOT_READY | CREATED | STOPPED | RUNNING

abbreviation "WAITING \<equiv> CREATED"
abbreviation "I_S_ACTIVE \<equiv> NOT_READY"
abbreviation "I_S_READY \<equiv> CREATED"
abbreviation "I_S_STOP \<equiv> STOPPED"

fun state_code :: "state_type \<Rightarrow> nat" where
  "state_code NOT_READY = 0"
| "state_code CREATED = 1"
| "state_code STOPPED = 2"
| "state_code RUNNING = 4"

definition IS_ACTIVE_STATE :: "state_type \<Rightarrow> bool" where
  "IS_ACTIVE_STATE s \<longleftrightarrow> and (state_code s) 5 \<noteq> 0"

lemma IS_ACTIVE_STATE_iff [ms_simps]: "IS_ACTIVE_STATE s \<longleftrightarrow> s = CREATED \<or> s = RUNNING"
  by (cases s) (simp_all add: IS_ACTIVE_STATE_def)

section \<open>Data\<close>

datatype param_kind = USER_PARAM | STATIC_PARAM | FLEXIBLE_PARAM | MS_INPUT_PARAM

record parameter =
  p_value :: "byte list option"
  p_value_size :: nat
  p_type :: param_type
  p_name :: cstring
  p_alias :: cstring
  p_attr :: nat
  p_last_updated :: nat

abbreviation "ATTR_NONE \<equiv> (0::nat)"
abbreviation "ATTR_READ \<equiv> (1::nat)"
abbreviation "ATTR_WRITE \<equiv> (2::nat)"

datatype task_fn = base_task_type1 | base_task_type2 | base_task_type3 | base_task_type4 | Task_fn nat

record connect_line =
  start_task :: nat
  output_port_no :: nat
  dest_task :: nat
  input_port_no :: nat

record task_info =
  ti_addr :: nat
  ti_name :: cstring
  task_t :: nat
  ti_fn :: task_fn
  task_idx :: nat
  init_fn :: "nat option"
  before_fn :: "nat option"
  after_fn :: "nat option"
  input_queues :: "nat list"
  output_ports :: "connect_line option list"
  output_ptr :: "byte list option"
  input_item_size :: nat
  output_item_size :: nat
  user_params :: "parameter list"
  static_params :: "parameter list"
  flexible_params :: "parameter list"
  input_count :: nat
  output_count :: nat
  lwmsg_input_port :: int
  initial_state :: state_type
  ti_priority :: nat
  offloading :: bool
  add_task_list :: bool
  ti_state :: state_type

text \<open>
  A task link with its two branches, the connect lines (\<open>None\<close> for a NULL list, its
  items may be NULL too) and the name of the output. The current link is the path to it from the head.
\<close>

datatype task_link = TL (tl_task: "nat option") (next_on: "task_link option")
  (next_off: "task_link option") (connect_link_head: "connect_line option list option")
  (output_param_name: cstring)

record micro_service =
  ms_id :: cstring
  ms_name :: cstring
  tasks :: "task_info list"
  task_link_head :: "task_link option"
  current_task_link :: "bool list option"
  connect_lines :: "connect_line list"
  ms_state :: state_type
  latest_dri :: cstring
  input_params :: "parameter list"
  output_param :: parameter

definition zero_parameter :: parameter where
  "zero_parameter = \<lparr>p_value = None, p_value_size = 0, p_type = 0, p_name = [], p_alias = [],
     p_attr = 0, p_last_updated = 0\<rparr>"

text \<open>\<^verbatim>\<open>FN_MAKE_MS\<close>: a fresh service; its \<^verbatim>\<open>create\<close> is the application's.\<close>

definition make_ms :: "cstring \<Rightarrow> cstring \<Rightarrow> micro_service" where
  "make_ms nm i = \<lparr>ms_id = take MS_MAX_NAME_LENGTH i, ms_name = take MS_MAX_NAME_LENGTH nm,
     tasks = [], task_link_head = None, current_task_link = None, connect_lines = [],
     ms_state = NOT_READY, latest_dri = [], input_params = [], output_param = zero_parameter\<rparr>"

definition safe_alloc :: "nat \<Rightarrow> byte list option" where
  "safe_alloc sz = (if 0 < sz then Some (replicate sz 0) else None)"

definition update_task :: "nat \<Rightarrow> (task_info \<Rightarrow> task_info) \<Rightarrow> micro_service \<Rightarrow> micro_service" where
  "update_task a f ms = ms\<lparr>tasks := map (\<lambda>t. if ti_addr t = a then f t else t) (tasks ms)\<rparr>"

definition find_task :: "nat \<Rightarrow> task_info list \<Rightarrow> task_info option" where
  "find_task a ts = find (\<lambda>t. ti_addr t = a) ts"

section \<open>Adding tasks and parameters\<close>

text \<open>
  The 8-bit node counter of the list gives the index. The result is the address of the new
  task, or NULL when the port for messages does not exist.
\<close>

definition add_new_task ::
  "task_fn \<Rightarrow> nat option \<Rightarrow> nat option \<Rightarrow> nat option \<Rightarrow> cstring \<Rightarrow> nat \<Rightarrow> nat \<Rightarrow> int
    \<Rightarrow> micro_service \<Rightarrow> kernel \<Rightarrow> nat option \<times> micro_service \<times> kernel" where
  "add_new_task fp init before after nm ins outs lwm ms k =
     (if 0 \<le> lwm \<and> int ins < lwm + 1 then (None, ms, k)
      else
        (let (a, k1) = new_addr k;
             qs = replicate ins 0;
             (qs, k2) = (if 0 < ins \<and> 0 \<le> lwm
                then (let (h, k') = create_queue mainQUEUE_LENGTH sizeof_ptr k1 in (qs[nat lwm := h], k'))
                else (qs, k1));
             t = \<lparr>ti_addr = a, ti_name = take MS_MAX_NAME_LENGTH nm, task_t = 0, ti_fn = fp,
                  task_idx = node_num (tasks ms), init_fn = init, before_fn = before, after_fn = after,
                  input_queues = qs, output_ports = replicate outs None, output_ptr = None,
                  input_item_size = 0, output_item_size = 0, user_params = [], static_params = [],
                  flexible_params = [], input_count = ins, output_count = outs, lwmsg_input_port = lwm,
                  initial_state = I_S_READY, ti_priority = 1, offloading = False,
                  add_task_list = False, ti_state = NOT_READY\<rparr>
         in (Some a, ms\<lparr>tasks := t # tasks ms\<rparr>, k2)))"

text \<open>The queues of the data ports are replaced one by one; the message port keeps its own.\<close>

fun replace_queues :: "int \<Rightarrow> nat \<Rightarrow> nat \<Rightarrow> nat list \<Rightarrow> kernel \<Rightarrow> nat list \<times> kernel" where
  "replace_queues lwm sz i [] k = ([], k)"
| "replace_queues lwm sz i (q # qs) k =
     (if int i \<noteq> lwm then
        (let k = (if q \<noteq> 0 then k_call (Delete_queue q) k else k);
             (h, k) = create_queue mainQUEUE_LENGTH sz k;
             (hs, k) = replace_queues lwm sz (Suc i) qs k
         in (h # hs, k))
      else (let (hs, k) = replace_queues lwm sz (Suc i) qs k in (q # hs, k)))"

definition set_inout_item_size :: "nat \<Rightarrow> nat \<Rightarrow> task_info option \<Rightarrow> kernel \<Rightarrow> task_info option \<times> kernel" where
  "set_inout_item_size insz outsz t k = (case t of
      None \<Rightarrow> (None, k)
    | Some t \<Rightarrow>
        (let (qs, k') = replace_queues (lwmsg_input_port t) insz 0 (input_queues t) k
         in (Some (t\<lparr>input_item_size := insz, output_item_size := outsz, input_queues := qs,
               output_ptr := safe_alloc outsz\<rparr>), k')))"

definition make_task_parameter :: "param_kind \<Rightarrow> param_type \<Rightarrow> cstring \<Rightarrow> cstring \<Rightarrow> nat \<Rightarrow> parameter" where
  "make_task_parameter kind t nm al sz =
     \<lparr>p_value = safe_alloc sz, p_value_size = sz, p_type = t,
      p_name = take MS_MAX_NAME_LENGTH nm, p_alias = take MS_MAX_NAME_LENGTH al,
      p_attr = (case kind of USER_PARAM \<Rightarrow> ATTR_NONE | STATIC_PARAM \<Rightarrow> ATTR_READ
                | FLEXIBLE_PARAM \<Rightarrow> or ATTR_READ ATTR_WRITE | MS_INPUT_PARAM \<Rightarrow> or ATTR_READ ATTR_WRITE),
      p_last_updated = 0\<rparr>"

text \<open>\<^verbatim>\<open>memcpy\<close> of the initial value; nothing is copied when the size is 0.\<close>

definition param_with_init_value :: "parameter \<Rightarrow> byte list option \<Rightarrow> parameter res" where
  "param_with_init_value p v =
     (if p_value_size p = 0 then Inr p
      else rbind (deref v) (\<lambda>bs. rbind (deref (p_value p)) (\<lambda>old.
        if p_value_size p \<le> length bs \<and> p_value_size p \<le> length old
        then Inr (p\<lparr>p_value := Some (take (p_value_size p) bs @ drop (p_value_size p) old)\<rparr>)
        else Inl Out_of_bounds)))"

definition add_param_to_list :: "parameter list \<Rightarrow> parameter \<Rightarrow> byte list option \<Rightarrow> parameter list res" where
  "add_param_to_list ps p v = rbind (param_with_init_value p v) (\<lambda>p. Inr (p # ps))"

definition add_task_param ::
  "param_kind \<Rightarrow> param_type \<Rightarrow> cstring \<Rightarrow> cstring \<Rightarrow> byte list option \<Rightarrow> nat \<Rightarrow> task_info \<Rightarrow> task_info res" where
  "add_task_param kind t nm al v sz ti =
     (let p = make_task_parameter kind t nm al sz in
      case kind of
        USER_PARAM \<Rightarrow> rbind (add_param_to_list (user_params ti) p v) (\<lambda>ps. Inr (ti\<lparr>user_params := ps\<rparr>))
      | STATIC_PARAM \<Rightarrow> rbind (add_param_to_list (static_params ti) p v) (\<lambda>ps. Inr (ti\<lparr>static_params := ps\<rparr>))
      | FLEXIBLE_PARAM \<Rightarrow> rbind (add_param_to_list (flexible_params ti) p v) (\<lambda>ps. Inr (ti\<lparr>flexible_params := ps\<rparr>))
      | MS_INPUT_PARAM \<Rightarrow> Inr ti)"

definition add_ms_input_param ::
  "param_type \<Rightarrow> cstring \<Rightarrow> cstring \<Rightarrow> byte list option \<Rightarrow> nat \<Rightarrow> micro_service \<Rightarrow> micro_service res" where
  "add_ms_input_param t nm al v sz ms =
     rbind (add_param_to_list (input_params ms) (make_task_parameter MS_INPUT_PARAM t nm al sz) v)
       (\<lambda>ps. Inr (ms\<lparr>input_params := ps\<rparr>))"

section \<open>Looking things up\<close>

definition get_task_info_by_name :: "micro_service option \<Rightarrow> cstring_ptr \<Rightarrow> task_info option" where
  "get_task_info_by_name ms nm = (case (ms, nm) of
      (Some ms, Some n) \<Rightarrow> (if n = [] then None else find (\<lambda>t. ti_name t = n) (tasks ms))
    | _ \<Rightarrow> None)"

text \<open>\<^verbatim>\<open>__index + 1\<close> is computed in the 32 bits of \<^verbatim>\<open>size_t\<close>.\<close>

definition get_task_info_by_idx :: "micro_service option \<Rightarrow> nat \<Rightarrow> task_info option" where
  "get_task_info_by_idx ms i = (case ms of
      None \<Rightarrow> None
    | Some ms \<Rightarrow> (if node_num (tasks ms) < Suc i mod 2 ^ 32 then None
                 else find (\<lambda>t. task_idx t = i) (tasks ms)))"

text \<open>
  The guard reads the first character of both names unless both pointers are NULL or the first
  name is not empty.
\<close>

definition param_names_empty :: "cstring_ptr \<Rightarrow> cstring_ptr \<Rightarrow> bool res" where
  "param_names_empty nm al =
     (if nm = None \<and> al = None then Inr True
      else rbind (deref nm) (\<lambda>n. if n \<noteq> [] then Inr False else rbind (deref al) (\<lambda>a. Inr (a = []))))"

definition get_parameter_from_param_list ::
  "parameter list option \<Rightarrow> cstring_ptr \<Rightarrow> cstring_ptr \<Rightarrow> parameter option res" where
  "get_parameter_from_param_list ps nm al = (case ps of
      None \<Rightarrow> Inr None
    | Some ps \<Rightarrow>
        (if node_num ps = 0 then Inr None
         else rbind (param_names_empty nm al) (\<lambda>e.
           if e then Inr None
           else Inr (find (\<lambda>p. nm = Some (p_name p) \<or> al = Some (p_alias p)) ps))))"

text \<open>The first parameter of this name in the user, the static or the flexible list.\<close>

definition find_task_param :: "task_info \<Rightarrow> cstring_ptr \<Rightarrow> parameter option res" where
  "find_task_param ti nm =
     rbind (get_parameter_from_param_list (Some (user_params ti)) nm None) (\<lambda>r. case r of Some p \<Rightarrow> Inr (Some p) | None \<Rightarrow>
     rbind (get_parameter_from_param_list (Some (static_params ti)) nm None) (\<lambda>r. case r of Some p \<Rightarrow> Inr (Some p) | None \<Rightarrow>
     get_parameter_from_param_list (Some (flexible_params ti)) nm None))"

definition get_parameter_value_ptr :: "task_info \<Rightarrow> cstring_ptr \<Rightarrow> byte list option res" where
  "get_parameter_value_ptr ti nm =
     rbind (find_task_param ti nm) (\<lambda>r. Inr (case r of None \<Rightarrow> None | Some p \<Rightarrow> p_value p))"

definition get_ms_input_parameter_value_ptr :: "micro_service \<Rightarrow> cstring_ptr \<Rightarrow> byte list option res" where
  "get_ms_input_parameter_value_ptr ms nm =
     rbind (get_parameter_from_param_list (Some (input_params ms)) nm None)
       (\<lambda>r. Inr (case r of None \<Rightarrow> None | Some p \<Rightarrow> p_value p))"

fun find_param_w_task :: "nat \<Rightarrow> cstring_ptr \<Rightarrow> task_info list \<Rightarrow> parameter option res" where
  "find_param_w_task h nm [] = Inr None"
| "find_param_w_task h nm (ti # ts) =
     (if h \<noteq> 0 \<and> task_t ti \<noteq> h then find_param_w_task h nm ts
      else rbind (find_task_param ti nm) (\<lambda>r. case r of
          Some p \<Rightarrow> Inr (Some p)
        | None \<Rightarrow> find_param_w_task h nm ts))"

definition get_parameter_w_task :: "micro_service option \<Rightarrow> nat \<Rightarrow> cstring_ptr \<Rightarrow> parameter option res" where
  "get_parameter_w_task ms h nm = (case ms of
      None \<Rightarrow> Inr None
    | Some ms \<Rightarrow>
        (if node_num (tasks ms) = 0 \<or> nm = None \<or> nm = Some [] then Inr None
         else find_param_w_task h nm (tasks ms)))"

text \<open>The queues of a task without inputs are a NULL pointer, of length 0 here.\<close>

definition get_input_queue_from_taskinfo :: "task_info \<Rightarrow> nat \<Rightarrow> nat res" where
  "get_input_queue_from_taskinfo ti i =
     (if input_count ti < Suc i mod 2 ^ 32 then Inr 0
      else if i < length (input_queues ti) then Inr (input_queues ti ! i) else Inl Out_of_bounds)"

section \<open>The output parameter\<close>

definition set_output_param :: "param_type \<Rightarrow> nat \<Rightarrow> cstring \<Rightarrow> micro_service \<Rightarrow> micro_service" where
  "set_output_param t sz nm ms = ms\<lparr>output_param := (output_param ms)
     \<lparr>p_name := take MS_MAX_NAME_LENGTH nm, p_value := safe_alloc sz, p_value_size := sz,
      p_type := t, p_last_updated := 0\<rparr>\<rparr>"

definition set_output_param_value ::
  "byte list option \<Rightarrow> param_type \<Rightarrow> nat \<Rightarrow> kernel \<Rightarrow> micro_service \<Rightarrow> micro_service res" where
  "set_output_param_value v t sz k ms =
     rbind (param_with_init_value ((output_param ms)
         \<lparr>p_value := safe_alloc sz, p_value_size := sz, p_type := t\<rparr>) v)
       (\<lambda>p. Inr (ms\<lparr>output_param := p\<lparr>p_last_updated := k_tick k\<rparr>\<rparr>))"

section \<open>Values as message objects\<close>

text \<open>Rounding a number of the double format to single precision, to nearest and ties to even.\<close>

definition encode_single :: "bool \<Rightarrow> nat \<Rightarrow> int \<Rightarrow> nat" where
  "encode_single neg m e =
     (let E = max (- 149) (e + int (bit_length m) - 24);
          s = nat (E - e);
          q = (if s = 0 then m * 2 ^ nat (e - E)
               else (let d = m div 2 ^ s; r = m mod 2 ^ s; h = 2 ^ (s - 1) in
                 if h < r \<or> (r = h \<and> odd d) then d + 1 else d));
          b = (if m = 0 then 0 else min 0x7F800000 (nat (E + 149) * 2 ^ 23 + q))
      in (if neg then 2 ^ 31 else 0) + b)"

definition single_of_double :: "nat \<Rightarrow> nat" where
  "single_of_double v = (case ieee_decode 11 52 v of
      Some (neg, m, e) \<Rightarrow> encode_single neg m e
    | None \<Rightarrow> (if odd (v div 2 ^ 63) then 2 ^ 31 else 0) + 0x7F800000 +
        (if v mod 2 ^ 52 = 0 then 0 else 2 ^ 22 + (v mod 2 ^ 51) div 2 ^ 29))"

text \<open>A C string in a buffer ends at its first zero byte; a buffer without one is overrun.\<close>

definition c_string_at :: "byte list \<Rightarrow> cstring res" where
  "c_string_at bs = (if 0 \<in> set bs
     then Inr (map (\<lambda>b. char_of (unat b)) (takeWhile (\<lambda>b. b \<noteq> 0) bs)) else Inl Out_of_bounds)"

definition decimal_value :: "param_type \<Rightarrow> byte list option \<Rightarrow> 32 word res" where
  "decimal_value t v =
     (if t = eP_INT8 then rbind (load 1 v) (\<lambda>b. Inr (signed (of_nat b :: 8 word)))
      else if t = eP_INT16 then rbind (load 2 v) (\<lambda>b. Inr (signed (of_nat b :: 16 word)))
      else if t = eP_INT32 then rbind (load 4 v) (\<lambda>b. Inr (of_nat b))
      else if t = eP_UINT8 then rbind (load 1 v) (\<lambda>b. Inr (unsigned (of_nat b :: 8 word)))
      else if t = eP_UINT16 then rbind (load 2 v) (\<lambda>b. Inr (unsigned (of_nat b :: 16 word)))
      else rbind (load 4 v) (\<lambda>b. Inr (of_nat b)))"

definition new_lwm_object_from_type_value :: "param_type \<Rightarrow> byte list option \<Rightarrow> lwm_object option res" where
  "new_lwm_object_from_type_value t v =
     (let obj = new_lwm_empty_object_for_ms t in
      if IS_DECIMAL t then rbind (decimal_value t v) (\<lambda>w. Inr (set_lwm_int obj w))
      else if t = eP_FLOAT then rbind (load 4 v) (\<lambda>b. Inr (set_lwm_float obj (of_nat b)))
      else if t = eP_DOUBLE then rbind (load 8 v) (\<lambda>b. Inr (set_lwm_float obj (of_nat (single_of_double b))))
      else if t = eP_STRING then
        (case v of None \<Rightarrow> Inr obj
         | Some bs \<Rightarrow> rbind (c_string_at bs) (\<lambda>s. Inr (set_lwm_string obj (Some s))))
      else Inr None)"

end
