(* ===== verification/TaskLinks.thy ===== *)
theory TaskLinks
  imports ServiceTypes
begin

text \<open>
  Connect lines and task links of \<^verbatim>\<open>SMFW/iw_fw_microservices.c\<close>. A line goes from an
  output port of a task to an input port of another. The task links are a tree over the tasks of
  a service, with two branches at a task that can be offloaded; a leaf holds the lines to use for
  the choice of running tasks that leads to it. Pointers to tasks are their addresses.
\<close>

section \<open>Connect lines\<close>

definition add_connect_line ::
  "cstring_ptr \<Rightarrow> nat \<Rightarrow> cstring_ptr \<Rightarrow> nat \<Rightarrow> micro_service \<Rightarrow> connect_line option \<times> micro_service" where
  "add_connect_line start oport dest iport ms =
     (case get_task_info_by_name (Some ms) start of
        None \<Rightarrow> (None, ms)
      | Some s \<Rightarrow>
          (if output_count s < Suc oport mod 2 ^ 32 then (None, ms)
           else case get_task_info_by_name (Some ms) dest of
             None \<Rightarrow> (None, ms)
           | Some d \<Rightarrow>
               (if input_count d < Suc iport mod 2 ^ 32 then (None, ms)
                else (let l = \<lparr>start_task = ti_addr s, output_port_no = oport,
                               dest_task = ti_addr d, input_port_no = iport\<rparr>
                      in (Some l, ms\<lparr>connect_lines := l # connect_lines ms\<rparr>)))))"

text \<open>The list of the arguments is built by insertion at its head.\<close>

definition make_connect_link_list :: "connect_line option list \<Rightarrow> connect_line option list" where
  "make_connect_link_list ls = fold (#) ls []"

section \<open>The tree of links\<close>

definition leaf :: "nat option \<Rightarrow> task_link" where
  "leaf t = TL t None None None []"

text \<open>
  \<^verbatim>\<open>_find_task_links\<close> collects the links of the start task, and each of them gets fresh
  links to the destination; what a replaced link led to is lost.
\<close>

primrec extend_links :: "nat option \<Rightarrow> nat option \<Rightarrow> bool \<Rightarrow> task_link \<Rightarrow> task_link" where
  "extend_links start dest off (TL t on offl c n) =
     (if t = start
      then TL t (Some (leaf dest))
             (if off then Some (leaf dest) else map_option (extend_links start dest off) offl) c n
      else TL t (map_option (extend_links start dest off) on)
             (map_option (extend_links start dest off) offl) c n)"

definition add_task_link :: "task_info \<Rightarrow> nat option \<Rightarrow> task_link option \<Rightarrow> task_link option" where
  "add_task_link start dest head =
     (let h = (case head of None \<Rightarrow> leaf (Some (ti_addr start)) | Some h \<Rightarrow> h)
      in Some (extend_links (Some (ti_addr start)) dest (offloading start) h))"

text \<open>The tasks are linked in the order of the list, the newest first.\<close>

fun link_pairs :: "task_info list \<Rightarrow> task_link option \<Rightarrow> task_link option" where
  "link_pairs (l # r # ts) h = link_pairs (r # ts) (add_task_link l (Some (ti_addr r)) h)"
| "link_pairs [r] h = (if offloading r then add_task_link r None h else h)"
| "link_pairs [] h = h"

definition make_task_links :: "micro_service \<Rightarrow> micro_service" where
  "make_task_links ms = (if length (tasks ms) < 2 then ms
     else ms\<lparr>task_link_head := link_pairs (tasks ms) (task_link_head ms)\<rparr>)"

text \<open>
  \<^verbatim>\<open>_del_task_link\<close>: the blocks of memory given back, and those a tree of links has. The loop
  over the list of a link stops when its 8-bit counter is 0.
\<close>

fun del_task_link :: "task_link option \<Rightarrow> nat" where
  "del_task_link None = 0"
| "del_task_link (Some (TL t on offl c n)) =
     (case c of None \<Rightarrow> 0 | Some cs \<Rightarrow> node_num cs + 1) + del_task_link on + del_task_link offl + 1"

fun link_blocks :: "task_link option \<Rightarrow> nat" where
  "link_blocks None = 0"
| "link_blocks (Some (TL t on offl c n)) =
     (case c of None \<Rightarrow> 0 | Some cs \<Rightarrow> length cs + 1) + link_blocks on + link_blocks offl + 1"

fun short_links :: "task_link option \<Rightarrow> bool" where
  "short_links None \<longleftrightarrow> True"
| "short_links (Some (TL t on offl c n)) \<longleftrightarrow>
     (case c of None \<Rightarrow> True | Some cs \<Rightarrow> length cs < 256) \<and> short_links on \<and> short_links offl"

lemma del_task_link_all: "short_links l \<Longrightarrow> del_task_link l = link_blocks l"
  by (induction l rule: del_task_link.induct) (auto simp: node_num_def split: option.splits)

text \<open>
  \<^verbatim>\<open>_find_last_task_link\<close>: the way down from a link to the last one, as the list of its
  tests; \<open>None\<close> when the loop runs into a NULL link.
\<close>

function find_last_task_link :: "(nat option \<Rightarrow> bool res) \<Rightarrow> task_link option \<Rightarrow> bool list option res" where
  "find_last_task_link test None = Inr None"
| "find_last_task_link test (Some (TL t on offl c n)) =
     (if on = None \<and> offl = None then Inr (Some [])
      else rbind (test t) (\<lambda>b.
        rbind (find_last_task_link test (if b then on else offl)) (\<lambda>p. Inr (map_option ((#) b) p))))"
  by pat_completeness auto

termination
  by (relation "measure (\<lambda>(_, x). size_option size x)") auto

fun link_at :: "bool list \<Rightarrow> task_link option \<Rightarrow> task_link option" where
  "link_at [] l = l"
| "link_at (b # p) l = (case l of
      None \<Rightarrow> None
    | Some (TL t on offl c n) \<Rightarrow> link_at p (if b then on else offl))"

fun update_link :: "(task_link \<Rightarrow> task_link) \<Rightarrow> bool list \<Rightarrow> task_link \<Rightarrow> task_link" where
  "update_link f [] l = f l"
| "update_link f (b # p) (TL t on offl c n) =
     (if b then TL t (map_option (update_link f p) on) offl c n
      else TL t on (map_option (update_link f p) offl) c n)"

section \<open>Choosing the lines\<close>

definition curr_task_state :: "micro_service \<Rightarrow> nat option \<Rightarrow> bool res" where
  "curr_task_state ms t = rbind (deref t) (\<lambda>a.
     rbind (deref (find_task a (tasks ms))) (\<lambda>ti. Inr (IS_ACTIVE_STATE (ti_state ti))))"

definition init_task_state :: "micro_service \<Rightarrow> nat option \<Rightarrow> bool res" where
  "init_task_state ms t = rbind (deref t) (\<lambda>a.
     rbind (deref (find_task a (tasks ms))) (\<lambda>ti. Inr (initial_state ti = I_S_READY)))"

definition onoff_test :: "nat list \<Rightarrow> nat option \<Rightarrow> bool res" where
  "onoff_test offs t = Inr (t \<notin> Some ` set offs)"

definition off_tasks :: "cstring list \<Rightarrow> micro_service \<Rightarrow> nat list" where
  "off_tasks names ms =
     map ti_addr (rev (List.map_filter (\<lambda>n. get_task_info_by_name (Some ms) (Some n)) names))"

text \<open>The name is copied into 30 bytes.\<close>

definition set_connect_link ::
  "connect_line option list option \<Rightarrow> cstring \<Rightarrow> cstring list \<Rightarrow> micro_service option
    \<Rightarrow> micro_service option res" where
  "set_connect_link clinks oname offs ms = (case ms of
      None \<Rightarrow> Inr None
    | Some ms \<Rightarrow>
        rbind (find_last_task_link (onoff_test (off_tasks offs ms)) (task_link_head ms)) (\<lambda>r.
          case r of
            None \<Rightarrow> Inr (Some ms)
          | Some p \<Rightarrow> (if length oname < 30
              then Inr (Some (ms\<lparr>task_link_head := map_option
                (update_link (\<lambda>l. TL (tl_task l) (next_on l) (next_off l) clinks oname) p)
                (task_link_head ms)\<rparr>))
              else Inl Out_of_bounds)))"

text \<open>One line of the chosen list: it becomes the target of its port.\<close>

definition plug_line :: "micro_service \<Rightarrow> connect_line option \<Rightarrow> micro_service res" where
  "plug_line ms l = rbind (deref l) (\<lambda>l.
     rbind (deref (find_task (start_task l) (tasks ms))) (\<lambda>s.
       Inr (if output_port_no l < output_count s
            then update_task (start_task l)
              (\<lambda>t. t\<lparr>output_ports := (output_ports t)[output_port_no l := Some l]\<rparr>) ms
            else ms)))"

definition set_output_connect_line :: "micro_service \<Rightarrow> micro_service res" where
  "set_output_connect_line ms =
     rbind (find_last_task_link (curr_task_state ms) (task_link_head ms)) (\<lambda>r. case r of
        None \<Rightarrow> Inr ms
      | Some p \<Rightarrow>
          (case link_at p (task_link_head ms) of
             None \<Rightarrow> Inr ms
           | Some l \<Rightarrow>
               (let ms = set_output_param eP_UNKNOWN 0 (output_param_name l) (ms\<lparr>current_task_link := Some p\<rparr>)
                in case connect_link_head l of
                     None \<Rightarrow> Inr ms
                   | Some cs \<Rightarrow> rfold plug_line cs ms)))"

section \<open>The tree as a decision tree\<close>

text \<open>
  What the links are for: one level per task, two equal branches at a task that can be
  offloaded, and one more level when the last task can be.
\<close>

fun decision_tree :: "task_info list \<Rightarrow> task_link option" where
  "decision_tree [] = None"
| "decision_tree [t] = Some (if offloading t
     then TL (Some (ti_addr t)) (Some (leaf None)) (Some (leaf None)) None []
     else leaf (Some (ti_addr t)))"
| "decision_tree (t # r # ts) = Some (TL (Some (ti_addr t)) (decision_tree (r # ts))
     (if offloading t then decision_tree (r # ts) else None) None [])"

lemma decision_tree_Cons: "\<exists>l. decision_tree (t # ts) = Some l"
  by (cases ts) auto

primrec graft :: "nat \<Rightarrow> task_link \<Rightarrow> task_link \<Rightarrow> task_link" where
  "graft a s (TL t on offl c n) = (if t = Some a then s
     else TL t (map_option (graft a s) on) (map_option (graft a s) offl) c n)"

primrec link_tasks :: "task_link \<Rightarrow> nat set" where
  "link_tasks (TL t on offl c n) = set_option t \<union>
     \<Union> (set_option (map_option link_tasks on)) \<union> \<Union> (set_option (map_option link_tasks offl))"

primrec only_leaf :: "nat \<Rightarrow> task_link \<Rightarrow> bool" where
  "only_leaf a (TL t on offl c n) = (if t = Some a then on = None \<and> offl = None \<and> c = None \<and> n = []
     else pred_option (\<lambda>b. b) (map_option (only_leaf a) on) \<and>
       pred_option (\<lambda>b. b) (map_option (only_leaf a) offl))"

lemma extend_links_graft:
  "only_leaf a l \<Longrightarrow> extend_links (Some a) d off l =
     graft a (TL (Some a) (Some (leaf d)) (if off then Some (leaf d) else None) None []) l"
  by (induction l) (auto simp: option.pred_set intro!: option.map_cong0)

lemma graft_graft:
  "b \<notin> link_tasks l \<Longrightarrow> b \<noteq> a \<Longrightarrow> graft b s (graft a x l) = graft a (graft b s x) l"
  by (induction l) (auto simp: option.map_comp intro!: option.map_cong0)

lemma graft_absent: "a \<notin> link_tasks l \<Longrightarrow> graft a s l = l"
  by (induction l) (auto simp: map_option_idI intro!: map_option_idI)

lemma link_tasks_graft: "link_tasks (graft a s l) \<subseteq> link_tasks s \<union> link_tasks l"
  by (induction l) (fastforce split: if_splits)

lemma only_leaf_graft:
  "a \<noteq> b \<Longrightarrow> b \<notin> link_tasks l \<Longrightarrow> only_leaf b s \<Longrightarrow> only_leaf b (graft a s l)"
  by (induction l) (auto simp: option.pred_set)

lemma link_pairs_graft:
  assumes "distinct (map ti_addr (t # ts))" "only_leaf (ti_addr t) l"
    and "link_tasks l \<inter> ti_addr ` set ts = {}"
    and "ts = [] \<Longrightarrow> \<not> offloading t \<Longrightarrow> graft (ti_addr t) (leaf (Some (ti_addr t))) l = l"
  shows "link_pairs (t # ts) (Some l) = Some (graft (ti_addr t) (the (decision_tree (t # ts))) l)"
  using assms
proof (induction ts arbitrary: t l)
  case Nil
  then show ?case by (auto simp: add_task_link_def extend_links_graft)
next
  case (Cons r ts)
  let ?a = "ti_addr t" and ?b = "ti_addr r"
  let ?x = "TL (Some ?a) (Some (leaf (Some ?b))) (if offloading t then Some (leaf (Some ?b)) else None) None []"
  have ab: "?b \<noteq> ?a" and b: "?b \<notin> link_tasks l" using Cons.prems by auto
  have e: "add_task_link t (Some ?b) (Some l) = Some (graft ?a ?x l)"
    using Cons.prems by (simp add: add_task_link_def extend_links_graft)
  have tasks: "link_tasks (graft ?a ?x l) \<subseteq> {?a, ?b} \<union> link_tasks l"
    using link_tasks_graft [of ?a ?x l] by (auto simp: leaf_def split: if_splits)
  have fresh: "({?a, ?b} \<union> link_tasks l) \<inter> ti_addr ` set ts = {}"
    using Cons.prems(1,3) by auto
  have "link_pairs (r # ts) (Some (graft ?a ?x l)) = Some (graft ?b (the (decision_tree (r # ts))) (graft ?a ?x l))"
  proof (rule Cons.IH)
    show "only_leaf ?b (graft ?a ?x l)"
      using ab b by (intro only_leaf_graft) (auto simp: leaf_def)
    show "link_tasks (graft ?a ?x l) \<inter> ti_addr ` set ts = {}"
      using tasks fresh by blast
    show "graft ?b (leaf (Some ?b)) (graft ?a ?x l) = graft ?a ?x l"
      using ab b by (simp add: graft_graft) (simp add: leaf_def)
  qed (use Cons.prems in simp)
  also have "\<dots> = Some (graft ?a (the (decision_tree (t # r # ts))) l)"
    using ab b decision_tree_Cons [of r ts] by (auto simp: graft_graft leaf_def)
  finally show ?case using e by simp
qed

lemma make_task_links_tree:
  assumes "task_link_head ms = None" "distinct (map ti_addr (tasks ms))" "2 \<le> length (tasks ms)"
  shows "task_link_head (make_task_links ms) = decision_tree (tasks ms)"
proof -
  obtain t r ts where ts: "tasks ms = t # r # ts"
    using assms(3) by (auto simp: Suc_le_length_iff numeral_2_eq_2)
  have "link_pairs (t # r # ts) None = link_pairs (t # r # ts) (Some (leaf (Some (ti_addr t))))"
    by (simp add: add_task_link_def)
  also have "\<dots> = decision_tree (t # r # ts)"
    using link_pairs_graft [of t "r # ts" "leaf (Some (ti_addr t))"] assms(2) ts
    by (auto simp: leaf_def)
  finally show ?thesis using assms(1) ts by (simp add: make_task_links_def)
qed

section \<open>The way through the tree\<close>

fun route :: "(task_info \<Rightarrow> bool) \<Rightarrow> task_info list \<Rightarrow> bool list option" where
  "route act [] = None"
| "route act [t] = Some (if offloading t then [act t] else [])"
| "route act (t # r # ts) =
     (if act t \<or> offloading t then map_option ((#) (act t)) (route act (r # ts)) else None)"

lemma route_defined: "\<forall>t \<in> set ts. offloading t \<or> act t \<Longrightarrow> ts \<noteq> [] \<Longrightarrow> \<exists>p. route act ts = Some p"
  by (induction act ts rule: route.induct) auto

lemma route_eq:
  "route a ts = Some p \<Longrightarrow> route b ts = Some q \<Longrightarrow>
    p = q \<longleftrightarrow> (\<forall>t \<in> set ts. offloading t \<longrightarrow> a t = b t)"
  by (induction a ts arbitrary: p q rule: route.induct) (auto split: if_splits)

lemma find_last_decision_tree:
  assumes "\<And>t. t \<in> set ts \<Longrightarrow> test (Some (ti_addr t)) = Inr (act t)" "ts \<noteq> []"
  shows "find_last_task_link test (decision_tree ts) = Inr (route act ts)"
  using assms
proof (induction ts rule: decision_tree.induct)
  case (3 t r ts)
  then show ?case using decision_tree_Cons [of r ts] by auto
qed (auto simp: leaf_def)

primrec bare :: "task_link \<Rightarrow> task_link" where
  "bare (TL t on offl c n) = TL t (map_option bare on) (map_option bare offl) None []"

lemma find_last_bare: "find_last_task_link test (map_option bare h) = find_last_task_link test h"
  by (induction test h rule: find_last_task_link.induct) (auto intro!: rbind_cong split: if_splits)

definition links_ok :: "micro_service \<Rightarrow> bool" where
  "links_ok ms \<longleftrightarrow> map_option bare (task_link_head ms) = decision_tree (tasks ms) \<and>
     distinct (map ti_addr (tasks ms)) \<and> tasks ms \<noteq> []"

lemma bare_decision_tree [simp]: "map_option bare (decision_tree ts) = decision_tree ts"
  by (induction ts rule: decision_tree.induct) (auto simp: leaf_def)

lemma find_last_links_ok:
  assumes "links_ok ms" "\<And>t. t \<in> set (tasks ms) \<Longrightarrow> test (Some (ti_addr t)) = Inr (act t)"
  shows "find_last_task_link test (task_link_head ms) = Inr (route act (tasks ms))"
  using find_last_decision_tree [of "tasks ms" test act] assms
    find_last_bare [of test "task_link_head ms"] by (auto simp: links_ok_def)

lemma find_task_distinct:
  "distinct (map ti_addr ts) \<Longrightarrow> t \<in> set ts \<Longrightarrow> find_task (ti_addr t) ts = Some t"
  unfolding find_task_def by (induction ts) (auto simp: rev_image_eqI)

lemma curr_task_state_task:
  "distinct (map ti_addr (tasks ms)) \<Longrightarrow> t \<in> set (tasks ms) \<Longrightarrow>
    curr_task_state ms (Some (ti_addr t)) = Inr (IS_ACTIVE_STATE (ti_state t))"
  by (simp add: curr_task_state_def find_task_distinct)

section \<open>The labels of the links\<close>

definition label_at :: "bool list \<Rightarrow> task_link option \<Rightarrow> (connect_line option list option \<times> cstring) option" where
  "label_at p h = map_option (\<lambda>l. (connect_link_head l, output_param_name l)) (link_at p h)"

definition selected :: "(task_info \<Rightarrow> bool) \<Rightarrow> micro_service \<Rightarrow> (connect_line option list option \<times> cstring) option" where
  "selected act ms = (case route act (tasks ms) of None \<Rightarrow> None | Some p \<Rightarrow> label_at p (task_link_head ms))"

definition label_link :: "connect_line option list option \<Rightarrow> cstring \<Rightarrow> task_link \<Rightarrow> task_link" where
  "label_link c n l = TL (tl_task l) (next_on l) (next_off l) c n"

lemma bare_label [simp]: "bare (update_link (label_link c n) p l) = bare l"
proof (induction p arbitrary: l)
  case Nil
  then show ?case by (cases l) (simp add: label_link_def)
next
  case (Cons b p)
  then show ?case by (cases l) (auto simp: option.map_comp intro!: option.map_cong0)
qed

lemma label_at_update:
  "label_at q (map_option (update_link (label_link c n) p) h) =
     (if q = p then map_option (\<lambda>_. (c, n)) (link_at p h) else label_at q h)"
proof (induction p arbitrary: q h)
  case Nil
  then show ?case
    by (cases h; cases q; cases "the h") (auto simp: label_at_def label_link_def)
next
  case (Cons b p)
  then show ?case
    by (cases h; cases q; cases "the h") (auto simp: label_at_def)
qed

lemma link_at_find_last:
  "find_last_task_link test h = Inr (Some p) \<Longrightarrow> \<exists>l. link_at p h = Some l"
  by (induction test h arbitrary: p rule: find_last_task_link.induct) (auto split: if_splits)

lemma route_link:
  assumes "links_ok ms" "route act (tasks ms) = Some p"
  shows "\<exists>l. link_at p (task_link_head ms) = Some l"
proof -
  define test where "test a = (Inr (act (the (find_task (the a) (tasks ms)))) :: bool res)" for a
  have "find_last_task_link test (task_link_head ms) = Inr (Some p)"
    using assms find_last_links_ok [of ms test act]
    by (simp add: test_def links_ok_def find_task_distinct)
  then show ?thesis by (rule link_at_find_last)
qed

section \<open>Connecting the ports\<close>

definition port_of :: "micro_service \<Rightarrow> nat \<Rightarrow> nat \<Rightarrow> connect_line option" where
  "port_of ms a i = (case find_task a (tasks ms) of
      None \<Rightarrow> None
    | Some t \<Rightarrow> (if i < length (output_ports t) then output_ports t ! i else None))"

definition task_ports_ok :: "task_info \<Rightarrow> bool" where
  "task_ports_ok t \<longleftrightarrow> length (output_ports t) = output_count t"

definition line_fits :: "micro_service \<Rightarrow> connect_line \<Rightarrow> bool" where
  "line_fits ms l \<longleftrightarrow> (\<exists>t. find_task (start_task l) (tasks ms) = Some t \<and> output_port_no l < output_count t)"

lemma find_map_aux:
  "(\<And>t. ti_addr (f t) = ti_addr t) \<Longrightarrow>
    find (\<lambda>t. ti_addr t = a) (map (\<lambda>t. if ti_addr t = b then f t else t) ts) =
      map_option (\<lambda>t. if a = b then f t else t) (find (\<lambda>t. ti_addr t = a) ts)"
  by (induction ts) auto

lemma find_task_update:
  "(\<And>t. ti_addr (f t) = ti_addr t) \<Longrightarrow>
    find_task a (tasks (update_task b f ms)) =
      map_option (\<lambda>t. if a = b then f t else t) (find_task a (tasks ms))"
  unfolding find_task_def update_task_def by (simp add: find_map_aux)

lemma update_task_sel [simp]:
  "output_param (update_task a f ms) = output_param ms"
  "current_task_link (update_task a f ms) = current_task_link ms"
  "task_link_head (update_task a f ms) = task_link_head ms"
  "connect_lines (update_task a f ms) = connect_lines ms"
  "ms_state (update_task a f ms) = ms_state ms"
  "latest_dri (update_task a f ms) = latest_dri ms"
  "input_params (update_task a f ms) = input_params ms"
  "ms_id (update_task a f ms) = ms_id ms"
  by (simp_all add: update_task_def)

lemma find_task_addr: "find_task a ts = Some t \<Longrightarrow> ti_addr t = a \<and> t \<in> set ts"
  unfolding find_task_def by (auto simp: find_Some_iff)

text \<open>The effect of one line, and of all lines of a list.\<close>

lemma plug_line_fits:
  assumes "line_fits ms l" "\<forall>t \<in> set (tasks ms). task_ports_ok t"
  shows "\<exists>ms'. plug_line ms (Some l) = Inr ms' \<and> port_of ms' (start_task l) (output_port_no l) = Some l \<and>
    (\<forall>a i. (a, i) \<noteq> (start_task l, output_port_no l) \<longrightarrow> port_of ms' a i = port_of ms a i) \<and>
    (\<forall>k. line_fits ms' k = line_fits ms k) \<and> (\<forall>t \<in> set (tasks ms'). task_ports_ok t) \<and>
    output_param ms' = output_param ms \<and> current_task_link ms' = current_task_link ms"
proof -
  let ?f = "\<lambda>t. t\<lparr>output_ports := (output_ports t)[output_port_no l := Some l]\<rparr>"
  obtain t where t: "find_task (start_task l) (tasks ms) = Some t" "output_port_no l < output_count t"
    using assms(1) by (auto simp: line_fits_def)
  have len: "length (output_ports t) = output_count t"
    using t(1) assms(2) find_task_addr by (auto simp: task_ports_ok_def)
  have u: "find_task a (tasks (update_task (start_task l) ?f ms)) =
      map_option (\<lambda>t. if a = start_task l then ?f t else t) (find_task a (tasks ms))" for a
    by (rule find_task_update) simp
  have p: "plug_line ms (Some l) = Inr (update_task (start_task l) ?f ms)"
    using t by (simp add: plug_line_def)
  have fits: "line_fits (update_task (start_task l) ?f ms) k = line_fits ms k" for k
    by (cases "find_task (start_task k) (tasks ms)") (auto simp: line_fits_def u)
  have "\<forall>t \<in> set (tasks (update_task (start_task l) ?f ms)). task_ports_ok t"
    using assms(2) by (auto simp: update_task_def task_ports_ok_def)
  then show ?thesis
    unfolding p using t len
    by (intro exI [of _ "update_task (start_task l) ?f ms"])
      (auto simp: port_of_def fits u split: option.splits)
qed

definition line_port :: "connect_line \<Rightarrow> nat \<times> nat" where
  "line_port l = (start_task l, output_port_no l)"

lemma plug_lines:
  assumes "distinct (map line_port ls)" "\<forall>l \<in> set ls. line_fits ms l" "\<forall>t \<in> set (tasks ms). task_ports_ok t"
  shows "\<exists>ms'. rfold plug_line (map Some ls) ms = Inr ms' \<and>
    (\<forall>l \<in> set ls. port_of ms' (start_task l) (output_port_no l) = Some l) \<and>
    (\<forall>a i. (a, i) \<notin> line_port ` set ls \<longrightarrow> port_of ms' a i = port_of ms a i) \<and>
    output_param ms' = output_param ms \<and> current_task_link ms' = current_task_link ms"
  using assms
proof (induction ls arbitrary: ms)
  case (Cons l ls)
  then obtain m where m: "plug_line ms (Some l) = Inr m" "port_of m (start_task l) (output_port_no l) = Some l"
      "\<forall>a i. (a, i) \<noteq> (start_task l, output_port_no l) \<longrightarrow> port_of m a i = port_of ms a i"
      "\<forall>k. line_fits m k = line_fits ms k" "\<forall>t \<in> set (tasks m). task_ports_ok t"
      "output_param m = output_param ms" "current_task_link m = current_task_link ms"
    using plug_line_fits [of ms l] by auto
  obtain m' where m': "rfold plug_line (map Some ls) m = Inr m'"
      "\<forall>l \<in> set ls. port_of m' (start_task l) (output_port_no l) = Some l"
      "\<forall>a i. (a, i) \<notin> line_port ` set ls \<longrightarrow> port_of m' a i = port_of m a i"
      "output_param m' = output_param m" "current_task_link m' = current_task_link m"
    using Cons.IH [of m] Cons.prems m(4,5) by auto
  have "line_port l \<notin> line_port ` set ls" using Cons.prems(1) by auto
  then have "port_of m' (start_task l) (output_port_no l) = Some l"
    using m(2) m'(3) by (simp add: line_port_def)
  then show ?case
    using m m' by (auto simp: line_port_def)
qed simp

text \<open>
  C13. \<^verbatim>\<open>make_task_links\<close> turns the tasks of a service into a decision tree in the order of
  the list, and the search of \<^verbatim>\<open>set_output_connect_line\<close> goes through it by the states of
  the tasks, failing when a task before the last one is neither active nor can be offloaded.
\<close>

theorem make_task_links_decides:
  assumes "task_link_head ms = None" "distinct (map ti_addr (tasks ms))" "2 \<le> length (tasks ms)"
  shows "task_link_head (make_task_links ms) = decision_tree (tasks ms) \<and>
    find_last_task_link (curr_task_state ms) (task_link_head (make_task_links ms)) =
      Inr (route (\<lambda>t. IS_ACTIVE_STATE (ti_state t)) (tasks ms))"
proof -
  have "find_last_task_link (curr_task_state ms) (decision_tree (tasks ms)) =
      Inr (route (\<lambda>t. IS_ACTIVE_STATE (ti_state t)) (tasks ms))"
    using assms by (intro find_last_decision_tree curr_task_state_task) auto
  then show ?thesis by (simp add: make_task_links_tree assms)
qed

definition example_task :: "nat \<Rightarrow> cstring \<Rightarrow> bool \<Rightarrow> state_type \<Rightarrow> task_info" where
  "example_task a nm off st = \<lparr>ti_addr = a, ti_name = nm, task_t = 0, ti_fn = base_task_type1, task_idx = 0,
     init_fn = None, before_fn = None, after_fn = None, input_queues = [], output_ports = [None],
     output_ptr = None, input_item_size = 0, output_item_size = 0, user_params = [], static_params = [],
     flexible_params = [], input_count = 0, output_count = 1, lwmsg_input_port = - 1,
     initial_state = I_S_READY, ti_priority = 1, offloading = off, add_task_list = False, ti_state = st\<rparr>"

definition example_service :: "micro_service" where
  "example_service = (make_ms ''led'' ''ms1'')\<lparr>tasks :=
     [example_task 1 ''read'' False CREATED, example_task 2 ''filter'' True STOPPED]\<rparr>"

lemmas example_defs = example_service_def example_task_def make_ms_def

lemma example_ok: "task_link_head example_service = None"
    "distinct (map ti_addr (tasks example_service))" "2 \<le> length (tasks example_service)"
  by (simp_all add: example_defs)

lemma make_task_links_decides_witness:
  "find_last_task_link (curr_task_state example_service)
     (task_link_head (make_task_links example_service)) = Inr (Some [True, False])"
proof -
  have "find_last_task_link (curr_task_state example_service)
     (task_link_head (make_task_links example_service)) =
      Inr (route (\<lambda>t. IS_ACTIVE_STATE (ti_state t)) (tasks example_service))"
    using make_task_links_decides [OF example_ok] by blast
  then show ?thesis by (simp add: example_defs IS_ACTIVE_STATE_iff)
qed

text \<open>
  \<^verbatim>\<open>set_connect_link\<close> stores lines and an output name for one choice of running
  tasks: whenever exactly the named tasks are off they are selected, and for every other choice
  what was selected before still is.
\<close>

theorem connect_link_per_choice:
  assumes "links_ok ms" "length nm < 30"
    and "\<forall>t \<in> set (tasks ms). ti_addr t \<in> set (off_tasks offs ms) \<longrightarrow> offloading t"
  shows "\<exists>ms'. set_connect_link cl nm offs (Some ms) = Inr (Some ms') \<and> links_ok ms' \<and>
    (\<forall>act. (\<forall>t \<in> set (tasks ms). offloading t \<or> act t) \<longrightarrow>
      selected act ms' =
        (if \<forall>t \<in> set (tasks ms). offloading t \<longrightarrow> act t = (ti_addr t \<notin> set (off_tasks offs ms))
         then Some (cl, nm) else selected act ms))"
proof -
  let ?on = "\<lambda>t. ti_addr t \<notin> set (off_tasks offs ms)"
  obtain p where p: "route ?on (tasks ms) = Some p"
    using route_defined [of "tasks ms" ?on] assms(1,3) by (auto simp: links_ok_def)
  have f: "find_last_task_link (onoff_test (off_tasks offs ms)) (task_link_head ms) = Inr (Some p)"
    using find_last_links_ok [OF assms(1), of "onoff_test (off_tasks offs ms)" ?on] p
    by (auto simp: onoff_test_def)
  obtain l where l: "link_at p (task_link_head ms) = Some l"
    using route_link [OF assms(1) p] by blast
  define ms' where "ms' = ms\<lparr>task_link_head := map_option (update_link (label_link cl nm) p) (task_link_head ms)\<rparr>"
  have "set_connect_link cl nm offs (Some ms) = Inr (Some ms')"
    using f assms(2) by (simp add: set_connect_link_def ms'_def label_link_def [abs_def])
  moreover have "links_ok ms'"
    using assms(1) by (simp add: links_ok_def ms'_def option.map_comp comp_def)
  moreover have "selected act ms' =
        (if \<forall>t \<in> set (tasks ms). offloading t \<longrightarrow> act t = ?on t then Some (cl, nm) else selected act ms)"
    if d: "\<forall>t \<in> set (tasks ms). offloading t \<or> act t" for act
  proof -
    obtain q where q: "route act (tasks ms) = Some q"
      using route_defined [OF d] assms(1) unfolding links_ok_def by blast
    show ?thesis
      using route_eq [OF q p] q l by (auto simp: selected_def ms'_def label_at_update)
  qed
  ultimately show ?thesis by blast
qed

definition linked_service :: micro_service where
  "linked_service = make_task_links example_service"

lemma linked_service_ok: "links_ok linked_service" "tasks linked_service = tasks example_service"
  using make_task_links_tree [OF example_ok] example_ok(2,3)
  by (auto simp: links_ok_def linked_service_def make_task_links_def)

lemma connect_link_per_choice_witness:
  "\<exists>ms. set_connect_link None ''off'' [''filter''] (Some linked_service) = Inr (Some ms) \<and>
     selected (\<lambda>t. IS_ACTIVE_STATE (ti_state t)) ms = Some (None, ''off'')"
proof -
  have o: "off_tasks [''filter''] linked_service = [2]"
    by (simp add: off_tasks_def linked_service_ok get_task_info_by_name_def example_defs List.map_filter_def)
  have "\<forall>t \<in> set (tasks linked_service). ti_addr t \<in> set (off_tasks [''filter''] linked_service) \<longrightarrow> offloading t"
    by (simp add: o linked_service_ok example_defs)
  from connect_link_per_choice [OF linked_service_ok(1) _ this, of "''off''" None]
  show ?thesis
    by (auto simp: o linked_service_ok(2) example_defs IS_ACTIVE_STATE_iff)
qed

text \<open>
  C14. When the states of the tasks select a list of lines with different ports, every port in
  the list gets its line, all other ports keep theirs, and the output parameter gets the name
  stored with the list and no value. When a task before the last is off and cannot be offloaded,
  nothing changes: the lines of the previous choice stay in use.
\<close>

theorem outputs_follow_selection:
  assumes "links_ok ms" "\<forall>t \<in> set (tasks ms). task_ports_ok t"
    and "distinct (map line_port ls)" "\<forall>l \<in> set ls. line_fits ms l"
  shows "(selected (\<lambda>t. IS_ACTIVE_STATE (ti_state t)) ms = Some (Some (map Some ls), nm) \<longrightarrow>
      (\<exists>ms'. set_output_connect_line ms = Inr ms' \<and>
        (\<forall>l \<in> set ls. port_of ms' (start_task l) (output_port_no l) = Some l) \<and>
        (\<forall>a i. (a, i) \<notin> line_port ` set ls \<longrightarrow> port_of ms' a i = port_of ms a i) \<and>
        p_name (output_param ms') = take MS_MAX_NAME_LENGTH nm \<and> p_value (output_param ms') = None)) \<and>
    (route (\<lambda>t. IS_ACTIVE_STATE (ti_state t)) (tasks ms) = None \<longrightarrow> set_output_connect_line ms = Inr ms)"
proof -
  let ?act = "\<lambda>t. IS_ACTIVE_STATE (ti_state t)"
  have f: "find_last_task_link (curr_task_state ms) (task_link_head ms) = Inr (route ?act (tasks ms))"
    using assms(1) by (intro find_last_links_ok curr_task_state_task) (auto simp: links_ok_def)
  show ?thesis
  proof (intro conjI impI)
    assume sel: "selected ?act ms = Some (Some (map Some ls), nm)"
    then obtain p l where p: "route ?act (tasks ms) = Some p" "link_at p (task_link_head ms) = Some l"
        "connect_link_head l = Some (map Some ls)" "output_param_name l = nm"
      by (auto simp: selected_def label_at_def split: option.splits)
    define m where "m = set_output_param eP_UNKNOWN 0 nm (ms\<lparr>current_task_link := Some p\<rparr>)"
    have m: "tasks m = tasks ms" by (simp add: m_def set_output_param_def)
    have r: "set_output_connect_line ms = rfold plug_line (map Some ls) m"
      using f p by (simp add: set_output_connect_line_def m_def Let_def)
    have "\<forall>l \<in> set ls. line_fits m l" using assms(4) by (simp add: line_fits_def m)
    from plug_lines [OF assms(3) this] assms(2) r
    obtain ms' where "set_output_connect_line ms = Inr ms'"
        "\<forall>l \<in> set ls. port_of ms' (start_task l) (output_port_no l) = Some l"
        "\<forall>a i. (a, i) \<notin> line_port ` set ls \<longrightarrow> port_of ms' a i = port_of m a i"
        "output_param ms' = output_param m"
      by (auto simp: m)
    then show "\<exists>ms'. set_output_connect_line ms = Inr ms' \<and>
        (\<forall>l \<in> set ls. port_of ms' (start_task l) (output_port_no l) = Some l) \<and>
        (\<forall>a i. (a, i) \<notin> line_port ` set ls \<longrightarrow> port_of ms' a i = port_of ms a i) \<and>
        p_name (output_param ms') = take MS_MAX_NAME_LENGTH nm \<and> p_value (output_param ms') = None"
      by (intro exI [of _ ms']) (simp add: m_def set_output_param_def safe_alloc_def port_of_def)
  next
    assume "route ?act (tasks ms) = None"
    with f show "set_output_connect_line ms = Inr ms" by (simp add: set_output_connect_line_def)
  qed
qed

definition example_line :: connect_line where
  "example_line = \<lparr>start_task = 1, output_port_no = 0, dest_task = 2, input_port_no = 0\<rparr>"

definition wired_service :: micro_service where
  "wired_service = linked_service\<lparr>task_link_head :=
     map_option (update_link (label_link (Some [Some example_line]) ''temp'') [True, False])
       (task_link_head linked_service)\<rparr>"

lemma outputs_follow_selection_witness:
  "\<exists>ms. set_output_connect_line wired_service = Inr ms \<and> port_of ms 1 0 = Some example_line \<and>
     p_name (output_param ms) = ''temp''"
proof -
  have t: "tasks wired_service = tasks example_service"
    by (simp add: wired_service_def linked_service_ok)
  have l: "links_ok wired_service"
    using linked_service_ok by (simp add: links_ok_def wired_service_def option.map_comp comp_def)
  have r: "route (\<lambda>t. IS_ACTIVE_STATE (ti_state t)) (tasks example_service) = Some [True, False]"
    by (simp add: example_defs IS_ACTIVE_STATE_iff)
  have "\<exists>x. link_at [True, False] (task_link_head linked_service) = Some x"
    by (rule route_link [OF linked_service_ok(1), of "\<lambda>t. IS_ACTIVE_STATE (ti_state t)"])
      (simp only: r linked_service_ok(2))
  then have s: "selected (\<lambda>t. IS_ACTIVE_STATE (ti_state t)) wired_service
      = Some (Some (map Some [example_line]), ''temp'')"
    using r by (auto simp: selected_def t) (auto simp: wired_service_def label_at_update)
  have "\<forall>x \<in> set (tasks wired_service). task_ports_ok x" "\<forall>x \<in> set [example_line]. line_fits wired_service x"
    by (simp_all add: t task_ports_ok_def line_fits_def find_task_def example_line_def example_defs)
  from outputs_follow_selection [OF l this(1) _ this(2), of "''temp''"] s show ?thesis
    by (auto simp: example_line_def)
qed

end
