(* ===== verification/Microservice.thy ===== *)
theory Microservice
  imports TaskLinks
begin

text \<open>
  The life of a micro service (\<^verbatim>\<open>SMFW/iw_fw_microservices.c\<close>): creating, running,
  stopping and deleting it, switching its tasks on and off, and the messages that describe the
  services of a device.

  The operations are written for a service that is not NULL; \<open>null_guard\<close> is the test all of them
  begin with. \<^verbatim>\<open>create\<close> and the init handlers belong to the applications and are the
  parameters \<open>create\<close> and \<open>init\<close>. What other tasks do at the same time is not modelled.
\<close>

type_synonym create_fn = "micro_service \<Rightarrow> kernel \<Rightarrow> micro_service \<times> kernel"
type_synonym init_handler = "nat \<Rightarrow> task_info \<Rightarrow> kernel \<Rightarrow> bool \<times> task_info \<times> kernel"
type_synonym ms_result = "bool \<times> micro_service \<times> kernel"

definition null_guard ::
  "(micro_service \<Rightarrow> kernel \<Rightarrow> ms_result res) \<Rightarrow> micro_service option \<Rightarrow> kernel
    \<Rightarrow> (bool \<times> micro_service option \<times> kernel) res" where
  "null_guard f ms k = (case ms of
      None \<Rightarrow> Inr (False, None, k)
    | Some m \<Rightarrow> rbind (f m k) (\<lambda>(ok, m, k). Inr (ok, Some m, k)))"

section \<open>Tasks\<close>

definition delete_if :: "(nat \<Rightarrow> kernel_call) \<Rightarrow> nat \<Rightarrow> kernel \<Rightarrow> kernel" where
  "delete_if c h k = (if h \<noteq> 0 then k_call (c h) k else k)"

definition run_task :: "init_handler \<Rightarrow> bool \<Rightarrow> task_info \<Rightarrow> kernel \<Rightarrow> bool \<times> task_info \<times> kernel" where
  "run_task init force t k =
     (if \<not> force \<and> IS_ACTIVE_STATE (ti_state t) then (False, t, k)
      else
        (let k = delete_if Delete_task (task_t t) k;
             t = t\<lparr>task_t := 0, ti_state := STOPPED\<rparr>;
             (abort, t, k) = (case init_fn t of None \<Rightarrow> (False, t, k) | Some i \<Rightarrow> init i t k)
         in if abort then (False, t, k)
            else if 0 < input_item_size t \<or> 0 \<le> lwmsg_input_port t
            then (let (h, k) = create_task (ti_name t) k in (True, t\<lparr>task_t := h, ti_state := CREATED\<rparr>, k))
            else (False, t, k)))"

definition GET_INITIAL_ONOFF :: "task_info \<Rightarrow> bool" where
  "GET_INITIAL_ONOFF t \<longleftrightarrow> initial_state t \<noteq> I_S_STOP"

text \<open>The loop over the tasks of \<^verbatim>\<open>run_micro_service\<close>: it stops at the first failure.\<close>

fun run_tasks :: "init_handler \<Rightarrow> task_info list \<Rightarrow> kernel \<Rightarrow> bool \<times> task_info list \<times> kernel" where
  "run_tasks init [] k = (True, [], k)"
| "run_tasks init (t # ts) k =
     (let (ok, t, k) = (if GET_INITIAL_ONOFF t then run_task init False t k else (True, t, k))
      in if ok then (let (ok, ts, k) = run_tasks init ts k in (ok, t # ts, k))
         else (False, t # ts, k))"

definition is_tasks_running :: "micro_service option \<Rightarrow> bool" where
  "is_tasks_running ms = (case ms of
      None \<Rightarrow> False
    | Some ms \<Rightarrow> ms_state ms = RUNNING \<and>
        list_ex (\<lambda>t. ti_fn t \<noteq> base_task_type3 \<and> ti_fn t \<noteq> base_task_type4 \<and> ti_state t = RUNNING) (tasks ms))"

text \<open>A port whose item size is 0 keeps the handle of the queue just deleted.\<close>

fun recreate_queues :: "int \<Rightarrow> nat \<Rightarrow> nat \<Rightarrow> nat list \<Rightarrow> kernel \<Rightarrow> nat list \<times> kernel" where
  "recreate_queues lwm sz i [] k = ([], k)"
| "recreate_queues lwm sz i (q # qs) k =
     (let k = delete_if Delete_queue q k;
          (h, k) = (if int i = lwm then create_queue mainQUEUE_LENGTH sizeof_ptr k
                    else if 0 < sz then create_queue mainQUEUE_LENGTH sz k
                    else (q, k));
          (hs, k) = recreate_queues lwm sz (Suc i) qs k
      in (h # hs, k))"

definition task_off :: "task_info \<Rightarrow> kernel \<Rightarrow> task_info \<times> kernel" where
  "task_off t k =
     (let k = delete_if Delete_task (task_t t) k;
          (qs, k) = recreate_queues (lwmsg_input_port t) (input_item_size t) 0 (input_queues t) k
      in (t\<lparr>task_t := 0, input_queues := qs, output_ports := map (\<lambda>_. None) (output_ports t),
            ti_state := STOPPED, initial_state := I_S_STOP\<rparr>, k))"

text \<open>The task is given by its address, \<open>None\<close> for NULL.\<close>

definition task_onoff :: "nat option \<Rightarrow> bool \<Rightarrow> micro_service \<Rightarrow> kernel \<Rightarrow> ms_result res" where
  "task_onoff a on ms k = (case a of
      None \<Rightarrow> Inr (False, ms, k)
    | Some a \<Rightarrow> rbind (deref (find_task a (tasks ms))) (\<lambda>t.
        if \<not> offloading t then Inr (False, ms, k)
        else if on then
          (if IS_ACTIVE_STATE (ti_state t) then Inr (False, ms, k)
           else rbind (set_output_connect_line
               (update_task a (\<lambda>t. t\<lparr>initial_state := I_S_ACTIVE\<rparr>) ms)) (\<lambda>ms. Inr (True, ms, k)))
        else
          (let (t', k') = task_off t k
           in rbind (set_output_connect_line (update_task a (\<lambda>_. t') ms)) (\<lambda>ms. Inr (True, ms, k')))))"

section \<open>Services\<close>

definition create_micro_service :: "create_fn \<Rightarrow> micro_service \<Rightarrow> kernel \<Rightarrow> ms_result" where
  "create_micro_service create ms k =
     (if ms_state ms = NOT_READY
      then (let k = k_call Lock_mutex k;
                (ms, k) = create ms k;
                ms = ms\<lparr>ms_state := CREATED\<rparr>
            in (True, ms, k_call Unlock_mutex k))
      else (False, ms, k))"

text \<open>Every task is suspended and resumed at once.\<close>

definition bounce_task :: "task_info \<Rightarrow> kernel \<Rightarrow> kernel" where
  "bounce_task t k = (if task_t t \<noteq> 0 then k_call (Resume_task (task_t t)) (k_call (Suspend_task (task_t t)) k) else k)"

definition stop_task :: "micro_service \<Rightarrow> kernel \<Rightarrow> ms_result" where
  "stop_task ms k =
     (if ms_state ms = RUNNING \<or> ms_state ms = STOPPED
      then (let k = k_call Lock_mutex k;
                ms = ms\<lparr>ms_state := STOPPED\<rparr>;
                k = fold bounce_task (tasks ms) k;
                ms = ms\<lparr>latest_dri := []\<rparr>
            in (True, ms, k_call Unlock_mutex k))
      else (False, ms, k))"

text \<open>
  In the last case the message printed reads the state of a task through a pointer that is still
  NULL.
\<close>

definition run_micro_service :: "init_handler \<Rightarrow> micro_service \<Rightarrow> kernel \<Rightarrow> ms_result res" where
  "run_micro_service init ms k =
     (if ms_state ms = CREATED then
        (let k = k_call Lock_mutex k;
             ms = ms\<lparr>ms_state := RUNNING\<rparr>;
             (ok, ts, k) = run_tasks init (tasks ms) k;
             ms = ms\<lparr>tasks := ts\<rparr>
         in if \<not> ok
            then (let (_, ms, k) = stop_task ms (k_call Unlock_mutex k) in Inr (False, ms, k))
            else rbind (set_output_connect_line ms) (\<lambda>ms. Inr (True, ms, k_call Unlock_mutex k)))
      else if ms_state ms = STOPPED then
        (let k = k_call Lock_mutex k;
             ms = ms\<lparr>ms_state := RUNNING,
                    tasks := map (\<lambda>t. if ti_state t = STOPPED then t\<lparr>ti_state := RUNNING\<rparr> else t) (tasks ms)\<rparr>
         in Inr (True, ms, k_call Unlock_mutex k))
      else Inl Null_deref)"

definition release_task :: "task_info \<Rightarrow> kernel \<Rightarrow> kernel" where
  "release_task t k = fold (delete_if Delete_queue) (input_queues t) (delete_if Delete_task (task_t t) k)"

text \<open>The deletion loops stop when the 8-bit counter of the list is 0.\<close>

definition drain :: "'a list \<Rightarrow> 'a list" where
  "drain xs = drop (node_num xs) xs"

definition release_service :: "micro_service \<Rightarrow> kernel \<Rightarrow> micro_service \<times> kernel" where
  "release_service ms k =
     (let k = fold release_task (take (node_num (tasks ms)) (tasks ms)) k
      in (ms\<lparr>ms_state := NOT_READY, task_link_head := None, tasks := drain (tasks ms),
             output_param := (output_param ms)\<lparr>p_value := None\<rparr>,
             input_params := drain (input_params ms), connect_lines := drain (connect_lines ms),
             current_task_link := None\<rparr>, k))"

definition stop_if_running :: "micro_service \<Rightarrow> kernel \<Rightarrow> micro_service \<times> kernel" where
  "stop_if_running ms k = (if ms_state ms = RUNNING then snd (stop_task ms k) else (ms, k))"

definition del_micro_service :: "micro_service \<Rightarrow> kernel \<Rightarrow> ms_result" where
  "del_micro_service ms k =
     (let (ms, k) = stop_if_running ms k;
          (ms, k) = release_service ms (k_call Lock_mutex k)
      in (True, ms, k_call Unlock_mutex k))"

definition stop_micro_service :: "create_fn \<Rightarrow> micro_service \<Rightarrow> kernel \<Rightarrow> ms_result" where
  "stop_micro_service create ms k =
     (let (ms, k) = stop_if_running ms k;
          (ms, k) = release_service ms (k_call Lock_mutex k);
          (ms, k) = create ms k;
          ms = ms\<lparr>ms_state := CREATED\<rparr>
      in (True, ms, k_call Unlock_mutex k))"

end
