(* ===== verification/ServiceLife.thy ===== *)
theory ServiceLife
  imports Microservice "HOL-Library.Multiset" "HOL-Library.Sublist"
begin

text \<open>
  The life of a service as a state machine: its states, the discipline of its lock, and the
  queues and tasks of the kernel that it holds. The calls recorded in \<open>k_trace\<close> tell which handles
  are live and whether the lock is held; what an application's \<^verbatim>\<open>create\<close> and init
  handlers must not do is the locale \<open>application\<close>.
\<close>

section \<open>What a trace says\<close>

type_synonym handle = "nat + nat"

definition handle_if :: "(nat \<Rightarrow> handle) \<Rightarrow> nat \<Rightarrow> handle multiset" where
  "handle_if c h = (if h \<noteq> 0 then {#c h#} else {#})"

fun track :: "kernel_call \<Rightarrow> handle multiset \<Rightarrow> handle multiset" where
  "track (Create_queue n s h) M = M + handle_if Inl h"
| "track (Create_task nm h) M = M + handle_if Inr h"
| "track (Delete_queue h) M = M - {#Inl h#}"
| "track (Delete_task h) M = M - {#Inr h#}"
| "track _ M = M"

definition live :: "kernel \<Rightarrow> handle multiset" where
  "live k = fold track (k_trace k) {#}"

fun lock_run :: "kernel_call list \<Rightarrow> bool \<Rightarrow> bool option" where
  "lock_run [] b = Some b"
| "lock_run (Lock_mutex # cs) b = (if b then None else lock_run cs True)"
| "lock_run (Unlock_mutex # cs) b = (if b then lock_run cs False else None)"
| "lock_run (_ # cs) b = lock_run cs b"

text \<open>\<open>Some b\<close>: whether the lock is held; \<open>None\<close>: it was taken twice or released when free.\<close>

definition held :: "kernel \<Rightarrow> bool option" where
  "held k = lock_run (k_trace k) False"

lemma live_call [ms_simps]: "live (k_call c k) = track c (live k)"
  by (simp add: live_def k_call_def)

lemma live_count [simp]: "live (k\<lparr>k_count := n\<rparr>) = live k" "live (k\<lparr>k_addr := n\<rparr>) = live k"
  "held (k\<lparr>k_count := n\<rparr>) = held k" "held (k\<lparr>k_addr := n\<rparr>) = held k"
  by (simp_all add: live_def held_def)

lemma lock_run_append: "lock_run (xs @ ys) b = Option.bind (lock_run xs b) (lock_run ys)"
  by (induction xs b rule: lock_run.induct) auto

lemma held_call [ms_simps]:
  "held (k_call c k) = (case c of
      Lock_mutex \<Rightarrow> if held k = Some False then Some True else None
    | Unlock_mutex \<Rightarrow> if held k = Some True then Some False else None
    | _ \<Rightarrow> held k)"
  by (cases c; cases "held k") (auto simp: held_def k_call_def lock_run_append)

definition owned :: "task_info \<Rightarrow> handle multiset" where
  "owned t = handle_if Inr (task_t t) + (\<Sum>q \<leftarrow> input_queues t. handle_if Inl q)"

definition owned_all :: "task_info list \<Rightarrow> handle multiset" where
  "owned_all ts = (\<Sum>t \<leftarrow> ts. owned t)"

lemma owned_all_simps [simp]: "owned_all [] = {#}" "owned_all (t # ts) = owned t + owned_all ts"
  "owned_all (ts @ us) = owned_all ts + owned_all us"
  by (simp_all add: owned_all_def)

lemma handle_if_zero [simp]: "handle_if c 0 = {#}"
  by (simp add: handle_if_def)

section \<open>What the operations do to the handles and the lock\<close>

lemma create_queue_live [ms_simps]:
  "create_queue n s k = (h, k') \<Longrightarrow> live k' = live k + handle_if Inl h \<and> held k' = held k"
  by (auto simp: create_queue_def Let_def ms_simps)

lemma create_task_live [ms_simps]:
  "create_task nm k = (h, k') \<Longrightarrow> live k' = live k + handle_if Inr h \<and> held k' = held k"
  by (auto simp: create_task_def Let_def ms_simps)

lemma delete_queue_live: "live k = F + handle_if Inl q \<Longrightarrow> live (delete_if Delete_queue q k) = F"
  and delete_task_live: "live k = F + handle_if Inr q \<Longrightarrow> live (delete_if Delete_task q k) = F"
  and delete_held [ms_simps]: "held (delete_if Delete_queue q k) = held k" "held (delete_if Delete_task q k) = held k"
  by (auto simp: delete_if_def handle_if_def ms_simps)

lemma delete_queues_live:
  "live k = F + (\<Sum>q \<leftarrow> qs. handle_if Inl q) \<Longrightarrow>
    live (fold (delete_if Delete_queue) qs k) = F \<and> held (fold (delete_if Delete_queue) qs k) = held k"
proof (induction qs arbitrary: k)
  case (Cons q qs)
  have "live (delete_if Delete_queue q k) = F + (\<Sum>q \<leftarrow> qs. handle_if Inl q)"
    using Cons.prems by (intro delete_queue_live) (simp add: ac_simps)
  from Cons.IH [OF this] show ?case by (simp add: ms_simps)
qed simp

lemma release_task_live:
  assumes "live k = F + owned t"
  shows "live (release_task t k) = F \<and> held (release_task t k) = held k"
proof -
  have "live (delete_if Delete_task (task_t t) k) = F + (\<Sum>q \<leftarrow> input_queues t. handle_if Inl q)"
    using assms by (intro delete_task_live) (simp add: owned_def ac_simps)
  from delete_queues_live [OF this] show ?thesis by (simp add: release_task_def ms_simps)
qed

lemma release_tasks_live:
  "live k = F + owned_all ts \<Longrightarrow>
    live (fold release_task ts k) = F \<and> held (fold release_task ts k) = held k"
proof (induction ts arbitrary: k)
  case (Cons t ts)
  have "live k = (F + owned_all ts) + owned t" using Cons.prems by (simp add: ac_simps)
  from release_task_live [OF this] Cons.IH [of "release_task t k"] show ?case by simp
qed simp

lemma bounce_tasks_live:
  "live (fold bounce_task ts k) = live k \<and> held (fold bounce_task ts k) = held k"
  by (induction ts arbitrary: k) (simp_all add: bounce_task_def ms_simps)

definition sized :: "task_info \<Rightarrow> bool" where
  "sized t \<longleftrightarrow> 0 < input_item_size t \<or>
     (\<forall>i < length (input_queues t). int i = lwmsg_input_port t \<or> input_queues t ! i = 0)"

lemma recreate_queues_live:
  assumes "recreate_queues lwm sz i qs k = (qs', k')" "live k = F + (\<Sum>q \<leftarrow> qs. handle_if Inl q)"
    and "0 < sz \<or> (\<forall>j < length qs. int (i + j) = lwm \<or> qs ! j = 0)"
  shows "live k' = F + (\<Sum>q \<leftarrow> qs'. handle_if Inl q) \<and> held k' = held k \<and> length qs' = length qs"
  using assms
proof (induction lwm sz i qs k arbitrary: qs' k' F rule: recreate_queues.induct)
  case (2 lwm sz i q qs k)
  let ?k = "delete_if Delete_queue q k"
  let ?p = "if int i = lwm then create_queue mainQUEUE_LENGTH sizeof_ptr ?k
      else if 0 < sz then create_queue mainQUEUE_LENGTH sz ?k else (q, ?k)"
  obtain h k2 where h: "?p = (h, k2)" by (cases ?p)
  obtain hs k3 where hs: "recreate_queues lwm sz (Suc i) qs k2 = (hs, k3)"
    by (cases "recreate_queues lwm sz (Suc i) qs k2")
  have r: "qs' = h # hs" "k' = k3" using "2.prems"(1) h hs by (auto simp: Let_def)
  have "live k = (F + (\<Sum>q \<leftarrow> qs. handle_if Inl q)) + handle_if Inl q"
    using "2.prems"(2) by (simp add: ac_simps)
  from delete_queue_live [OF this]
  have d: "live ?k = F + (\<Sum>q \<leftarrow> qs. handle_if Inl q)" .
  have q: "int i \<noteq> lwm \<Longrightarrow> \<not> 0 < sz \<Longrightarrow> q = 0"
    using "2.prems"(3) by (auto dest: spec [of _ 0])
  have k2: "live k2 = (F + handle_if Inl h) + (\<Sum>q \<leftarrow> qs. handle_if Inl q)" "held k2 = held k"
    using h d q create_queue_live [of _ _ ?k h k2]
    by (auto simp: ms_simps ac_simps split: if_splits)
  have "0 < sz \<or> (\<forall>j < length qs. int (Suc i + j) = lwm \<or> qs ! j = 0)"
    using "2.prems"(3) by (auto dest: spec [of _ "Suc _"])
  from "2.IH" [OF refl h [symmetric] refl hs k2(1) this]
  show ?case using r k2(2) by (simp add: ac_simps)
qed simp

lemma task_off_live:
  assumes "task_off t k = (t', k')" "live k = F + owned t" "sized t"
  shows "live k' = F + owned t' \<and> held k' = held k"
proof -
  let ?k = "delete_if Delete_task (task_t t) k"
  obtain qs k2 where q: "recreate_queues (lwmsg_input_port t) (input_item_size t) 0 (input_queues t) ?k = (qs, k2)"
    by (cases "recreate_queues (lwmsg_input_port t) (input_item_size t) 0 (input_queues t) ?k")
  have "live ?k = F + (\<Sum>q \<leftarrow> input_queues t. handle_if Inl q)"
    using assms(2) by (intro delete_task_live) (simp add: owned_def ac_simps)
  from recreate_queues_live [OF q this] assms(1,3) q show ?thesis
    by (auto simp: task_off_def sized_def owned_def ms_simps)
qed

section \<open>Addresses and numbers of tasks\<close>

definition addrs_ok :: "micro_service \<Rightarrow> kernel \<Rightarrow> bool" where
  "addrs_ok ms k \<longleftrightarrow> distinct (map ti_addr (tasks ms)) \<and> (\<forall>a \<in> set (map ti_addr (tasks ms)). a < k_addr k)"

lemma addrs_ok_cong:
  "map ti_addr (tasks ms') = map ti_addr (tasks ms) \<Longrightarrow> k_addr k' = k_addr k \<Longrightarrow> addrs_ok ms' k' = addrs_ok ms k"
  unfolding addrs_ok_def by (simp only:)

lemma k_addr_call [simp]: "k_addr (k_call c k) = k_addr k" "k_addr (delete_if d h k) = k_addr k"
  by (simp_all add: k_call_def delete_if_def)

lemma k_addr_create [simp]:
  "k_addr (snd (create_queue n s k)) = k_addr k"
  "k_addr (snd (create_task nm k)) = k_addr k"
  by (simp_all add: create_queue_def create_task_def Let_def)

lemma k_addr_fold [simp]:
  "k_addr (fold (delete_if d) qs k) = k_addr k" "k_addr (fold bounce_task ts k) = k_addr k"
  by (induction qs arbitrary: k) (auto, induction ts arbitrary: k, auto simp: bounce_task_def)

lemma k_addr_recreate [simp]: "k_addr (snd (recreate_queues lwm sz i qs k)) = k_addr k"
  by (induction qs arbitrary: i k) (simp_all add: Let_def split_beta)

lemma k_addr_release: "k_addr (fold release_task ts k) = k_addr k"
  by (induction ts arbitrary: k) (auto simp: release_task_def)

lemma owned_all_update:
  assumes "distinct (map ti_addr ts)" "find_task a ts = Some t"
  shows "\<exists>M. owned_all ts = M + owned t \<and>
    owned_all (map (\<lambda>x. if ti_addr x = a then t' else x) ts) = M + owned t'"
  using assms
proof (induction ts)
  case (Cons u ts)
  show ?case
  proof (cases "ti_addr u = a")
    case True
    then have "map (\<lambda>x. if ti_addr x = a then t' else x) ts = ts"
      using Cons.prems(1) by (intro map_idI) (force simp: image_iff)
    then show ?thesis using True Cons.prems(2) by (auto simp: find_task_def ac_simps)
  next
    case False
    then obtain M where "owned_all ts = M + owned t"
        "owned_all (map (\<lambda>x. if ti_addr x = a then t' else x) ts) = M + owned t'"
      using Cons by (auto simp: find_task_def)
    with False show ?thesis by (intro exI [of _ "M + owned u"]) (simp add: ac_simps)
  qed
qed (simp add: find_task_def)

text \<open>Everything about a task but its ports, its states and its parameters.\<close>

definition same_tasks :: "micro_service \<Rightarrow> micro_service \<Rightarrow> bool" where
  "same_tasks ms ms' \<longleftrightarrow> map (\<lambda>t. (ti_addr t, owned t)) (tasks ms') = map (\<lambda>t. (ti_addr t, owned t)) (tasks ms)"

lemma same_tasks_iff: "same_tasks ms ms' \<Longrightarrow>
    owned_all (tasks ms') = owned_all (tasks ms) \<and> length (tasks ms') = length (tasks ms) \<and>
    map ti_addr (tasks ms') = map ti_addr (tasks ms) \<and> (tasks ms' = [] \<longleftrightarrow> tasks ms = [])"
  unfolding same_tasks_def owned_all_def
  by (auto dest: map_eq_imp_length_eq arg_cong [of _ _ "map snd"] arg_cong [of _ _ "map fst"] simp: comp_def)

lemma same_tasks_update [simp]:
  "(\<And>t. ti_addr (f t) = ti_addr t) \<Longrightarrow> (\<And>t. owned (f t) = owned t) \<Longrightarrow> same_tasks ms (update_task a f ms)"
  by (auto simp: same_tasks_def update_task_def)

text \<open>Connecting the outputs changes nothing in the tasks but their ports.\<close>

lemma set_output_connect_line_map:
  assumes "set_output_connect_line ms = Inr ms'" "\<And>t x. g (t\<lparr>output_ports := x\<rparr>) = g t"
  shows "map g (tasks ms') = map g (tasks ms) \<and> ms_state ms' = ms_state ms"
proof -
  let ?P = "\<lambda>m. map g (tasks m) = map g (tasks ms) \<and> ms_state m = ms_state ms"
  have step: "?P m'" if "?P m" "plug_line m l = Inr m'" for m l m'
  proof -
    have "map g (tasks (update_task a (\<lambda>t. t\<lparr>output_ports := f t\<rparr>) m)) = map g (tasks m)" for a f
      by (auto simp: update_task_def assms(2))
    then show ?thesis using that by (auto simp: plug_line_def split: if_splits)
  qed
  have loop: "?P m"
    if "rfold plug_line cs (set_output_param t s n (ms\<lparr>current_task_link := c\<rparr>)) = Inr m" for cs t s n c m
    by (rule rfold_invariant [OF that, of ?P]) (simp add: set_output_param_def, rule step)
  obtain r where r: "find_last_task_link (curr_task_state ms) (task_link_head ms) = Inr r"
    using assms by (auto simp: set_output_connect_line_def)
  show ?thesis
  proof (cases "\<exists>p l. r = Some p \<and> link_at p (task_link_head ms) = Some l")
    case False
    then have "ms' = ms"
      using assms r by (auto simp: set_output_connect_line_def split: option.splits)
    then show ?thesis by simp
  next
    case True
    then obtain p l where pl: "r = Some p" "link_at p (task_link_head ms) = Some l" by blast
    let ?m = "set_output_param eP_UNKNOWN 0 (output_param_name l) (ms\<lparr>current_task_link := Some p\<rparr>)"
    have "set_output_connect_line ms = (case connect_link_head l of None \<Rightarrow> Inr ?m | Some cs \<Rightarrow> rfold plug_line cs ?m)"
      using r pl by (simp add: set_output_connect_line_def Let_def)
    then show ?thesis
      using assms(1) loop by (cases "connect_link_head l") (auto simp: set_output_param_def)
  qed
qed

lemma set_output_connect_line_same:
  assumes "set_output_connect_line ms = Inr ms'"
  shows "same_tasks ms ms' \<and> ms_state ms' = ms_state ms"
  using set_output_connect_line_map [OF assms, of "\<lambda>t. (ti_addr t, owned t)"]
  by (simp add: same_tasks_def owned_def)

section \<open>What an application must respect\<close>

locale application =
  fixes create :: create_fn and init :: init_handler and n :: nat
  assumes create_live: "live k = F + owned_all (tasks ms) \<Longrightarrow> create ms k = (ms', k') \<Longrightarrow>
      live k' = F + owned_all (tasks ms') \<and> held k' = held k"
    and create_addrs: "addrs_ok ms k \<Longrightarrow> create ms k = (ms', k') \<Longrightarrow> addrs_ok ms' k'"
    and create_grows: "create ms k = (ms', k') \<Longrightarrow> k_addr k \<le> k_addr k'"
    and create_few: "create ms k = (ms', k') \<Longrightarrow> length (tasks ms') \<le> length (tasks ms) + n"
    and init_live: "live k = F + owned t \<Longrightarrow> init i t k = (b, t', k') \<Longrightarrow>
      live k' = F + owned t' \<and> held k' = held k \<and>
      ti_addr t' = ti_addr t \<and> task_t t' = task_t t \<and> k_addr k' = k_addr k"
begin

lemma run_task_live:
  assumes "live k = F + owned t" "run_task init force t k = (ok, t', k')"
  shows "live k' = F + owned t' \<and> held k' = held k \<and> ti_addr t' = ti_addr t \<and> k_addr k' = k_addr k"
proof (cases "\<not> force \<and> IS_ACTIVE_STATE (ti_state t)")
  case True
  then show ?thesis using assms by (simp add: run_task_def)
next
  case False
  let ?k = "delete_if Delete_task (task_t t) k" and ?t = "t\<lparr>task_t := 0, ti_state := STOPPED\<rparr>"
  obtain b u k1 where u: "(case init_fn t of None \<Rightarrow> (False, ?t, ?k) | Some i \<Rightarrow> init i ?t ?k) = (b, u, k1)"
    by (cases "case init_fn t of None \<Rightarrow> (False, ?t, ?k) | Some i \<Rightarrow> init i ?t ?k") auto
  have "live k = (F + owned ?t) + handle_if Inr (task_t t)"
    using assms(1) by (simp add: owned_def ac_simps)
  from delete_task_live [OF this]
  have d: "live ?k = F + owned ?t" .
  have u1: "live k1 = F + owned u" "held k1 = held k" "ti_addr u = ti_addr t" "k_addr k1 = k_addr k" "task_t u = 0"
    using u d init_live [OF d] by (auto simp: ms_simps split: option.splits)
  obtain h k2 where h: "create_task (ti_name u) k1 = (h, k2)" by (cases "create_task (ti_name u) k1")
  have k2: "live k2 = live k1 + handle_if Inr h" "held k2 = held k1" "k_addr k2 = k_addr k1"
    using create_task_live [OF h] k_addr_create(2) [of "ti_name u" k1] h by auto
  show ?thesis
    using assms(2) False u u1 k2 h
    by (auto simp: run_task_def Let_def owned_def split: if_splits)
qed

lemma run_tasks_live:
  assumes "live k = F + owned_all ts" "run_tasks init ts k = (ok, ts', k')"
  shows "live k' = F + owned_all ts' \<and> held k' = held k \<and> map ti_addr ts' = map ti_addr ts \<and> k_addr k' = k_addr k"
  using assms
proof (induction ts arbitrary: k F ok ts' k')
  case (Cons t ts)
  let ?p = "if GET_INITIAL_ONOFF t then run_task init False t k else (True, t, k)"
  obtain b u k1 where p: "?p = (b, u, k1)" by (cases ?p) auto
  have "live k = (F + owned_all ts) + owned t" using Cons.prems(1) by (simp add: ac_simps)
  then have u: "live k1 = (F + owned_all ts) + owned u" "held k1 = held k" "ti_addr u = ti_addr t" "k_addr k1 = k_addr k"
    using p run_task_live [of k _ t False b u k1] by (auto split: if_splits)
  show ?case
  proof (cases b)
    case True
    obtain b2 us k2 where r: "run_tasks init ts k1 = (b2, us, k2)" by (cases "run_tasks init ts k1") auto
    have "live k1 = (F + owned u) + owned_all ts" using u(1) by (simp add: ac_simps)
    from Cons.IH [OF this r] show ?thesis
      using Cons.prems(2) p r u True by (auto simp: Let_def ac_simps)
  next
    case False
    then show ?thesis using Cons.prems(2) p u by (auto simp: Let_def ac_simps)
  qed
qed simp

end

section \<open>The state machine\<close>

text \<open>
  The steps of a service: its operations, a task that marks itself running or waiting, and the
  description of a service that does not run (created once more, then deleted).
\<close>

inductive service_step ::
  "create_fn \<Rightarrow> init_handler \<Rightarrow> micro_service \<times> kernel \<Rightarrow> micro_service \<times> kernel \<Rightarrow> bool"
  for create init where
  Create: "create_micro_service create ms k = (ok, ms', k') \<Longrightarrow> service_step create init (ms, k) (ms', k')"
| Run: "run_micro_service init ms k = Inr (ok, ms', k') \<Longrightarrow> service_step create init (ms, k) (ms', k')"
| Stop: "stop_micro_service create ms k = (ok, ms', k') \<Longrightarrow> service_step create init (ms, k) (ms', k')"
| Halt: "stop_task ms k = (ok, ms', k') \<Longrightarrow> service_step create init (ms, k) (ms', k')"
| Del: "del_micro_service ms k = (ok, ms', k') \<Longrightarrow> service_step create init (ms, k) (ms', k')"
| Onoff: "find_task a (tasks ms) = Some t \<Longrightarrow> sized t \<Longrightarrow> task_onoff (Some a) on ms k = Inr (ok, ms', k') \<Longrightarrow>
    service_step create init (ms, k) (ms', k')"
| Task: "s = RUNNING \<or> s = WAITING \<Longrightarrow>
    service_step create init (ms, k) (update_task a (\<lambda>t. t\<lparr>ti_state := s\<rparr>) ms, k)"
| Describe: "ms_state ms \<noteq> RUNNING \<Longrightarrow> create ms k = (ms1, k1) \<Longrightarrow> del_micro_service ms1 k1 = (ok, ms', k') \<Longrightarrow>
    service_step create init (ms, k) (ms', k')"

text \<open>\<open>F\<close> is what the kernel holds for others, \<open>lo\<close> a bound below the next address.\<close>

definition service_inv :: "handle multiset \<Rightarrow> nat \<Rightarrow> nat \<Rightarrow> micro_service \<Rightarrow> kernel \<Rightarrow> bool" where
  "service_inv F lo n ms k \<longleftrightarrow> live k = F + owned_all (tasks ms) \<and> held k = Some False \<and> addrs_ok ms k \<and>
     length (tasks ms) \<le> n \<and> (ms_state ms = NOT_READY \<longrightarrow> tasks ms = []) \<and> lo \<le> k_addr k"

lemma drain_small: "length xs < 256 \<Longrightarrow> drain xs = []"
  by (simp add: drain_def node_num_def)

lemma release_service_all:
  assumes "release_service ms k = (ms', k')" "live k = F + owned_all (tasks ms)" "length (tasks ms) < 256"
  shows "live k' = F \<and> held k' = held k \<and> tasks ms' = [] \<and> ms_state ms' = NOT_READY \<and> k_addr k' = k_addr k"
  using assms release_tasks_live [of k F "tasks ms"]
  by (auto simp: release_service_def Let_def drain_small node_num_def k_addr_release)

lemma stop_task_same:
  assumes "stop_task ms k = (ok, ms', k')" "held k = Some False"
  shows "tasks ms' = tasks ms \<and> live k' = live k \<and> held k' = Some False \<and> k_addr k' = k_addr k \<and>
    ms_state ms' = (if ms_state ms = RUNNING then STOPPED else ms_state ms)"
  using assms bounce_tasks_live [of "tasks ms" "k_call Lock_mutex k"]
  by (auto simp: stop_task_def Let_def ms_simps split: if_splits)

lemma stop_if_running_same:
  assumes "stop_if_running ms k = (ms', k')" "held k = Some False"
  shows "tasks ms' = tasks ms \<and> live k' = live k \<and> held k' = Some False \<and> k_addr k' = k_addr k"
proof (cases "ms_state ms = RUNNING")
  case True
  obtain ok m k1 where s: "stop_task ms k = (ok, m, k1)" by (cases "stop_task ms k") auto
  with stop_task_same [OF s assms(2)] True assms(1) show ?thesis by (simp add: stop_if_running_def)
next
  case False
  with assms show ?thesis by (simp add: stop_if_running_def)
qed

lemma del_micro_service_all:
  assumes "del_micro_service ms k = (ok, ms', k')" "live k = F + owned_all (tasks ms)" "length (tasks ms) < 256"
    and "held k = Some False"
  shows "live k' = F \<and> held k' = Some False \<and> tasks ms' = [] \<and> ms_state ms' = NOT_READY \<and> k_addr k' = k_addr k"
proof -
  obtain m k1 where m: "stop_if_running ms k = (m, k1)" by (cases "stop_if_running ms k")
  obtain m2 k2 where r: "release_service m (k_call Lock_mutex k1) = (m2, k2)"
    by (cases "release_service m (k_call Lock_mutex k1)")
  from stop_if_running_same [OF m assms(4)] release_service_all [OF r] assms(1-3) m r
  show ?thesis by (auto simp: del_micro_service_def Let_def ms_simps)
qed

lemma service_inv_empty:
  "live k' = F \<Longrightarrow> held k' = Some False \<Longrightarrow> tasks ms' = [] \<Longrightarrow> lo \<le> k_addr k' \<Longrightarrow> service_inv F lo n ms' k'"
  by (simp add: service_inv_def addrs_ok_def)

lemma inv_same_tasks:
  assumes "service_inv F lo n ms k" "same_tasks ms ms'" "live k' = live k" "held k' = Some False" "k_addr k' = k_addr k"
    and "ms_state ms' = NOT_READY \<longrightarrow> tasks ms' = []"
  shows "service_inv F lo n ms' k'"
proof -
  have "addrs_ok ms' k'"
    using addrs_ok_cong [of ms' ms k' k] same_tasks_iff [OF assms(2)] assms(1,5) by (simp add: service_inv_def)
  then show ?thesis
    using assms same_tasks_iff [OF assms(2)] by (simp add: service_inv_def)
qed

context application
begin

lemma created_inv:
  assumes "create ms k = (m, k1)" "live k = F" "held k = Some True" "tasks ms = []" "lo \<le> k_addr k"
  shows "service_inv F lo n (m\<lparr>ms_state := CREATED\<rparr>) (k_call Unlock_mutex k1)"
  using create_live [of k F ms m k1] create_addrs [of ms k m k1] create_few [of ms k m k1] create_grows [of ms k m k1] assms
  by (simp add: service_inv_def addrs_ok_def ms_simps)

lemma create_inv:
  assumes "service_inv F lo n ms k" "create_micro_service create ms k = (ok, ms', k')"
  shows "service_inv F lo n ms' k'"
proof (cases "ms_state ms = NOT_READY")
  case True
  obtain m k1 where c: "create ms (k_call Lock_mutex k) = (m, k1)" by (cases "create ms (k_call Lock_mutex k)")
  have "service_inv F lo n (m\<lparr>ms_state := CREATED\<rparr>) (k_call Unlock_mutex k1)"
    using True assms(1) by (intro created_inv [OF c]) (simp_all add: service_inv_def ms_simps)
  then show ?thesis using assms(2) True c by (simp add: create_micro_service_def Let_def)
next
  case False
  with assms show ?thesis by (simp add: create_micro_service_def)
qed

lemma stop_inv:
  assumes few: "2 * n < 256" and "service_inv F lo n ms k" "stop_micro_service create ms k = (ok, ms', k')"
  shows "service_inv F lo n ms' k'"
proof -
  obtain m k1 where m: "stop_if_running ms k = (m, k1)" by (cases "stop_if_running ms k")
  obtain m2 k2 where r: "release_service m (k_call Lock_mutex k1) = (m2, k2)"
    by (cases "release_service m (k_call Lock_mutex k1)")
  obtain m3 k3 where c: "create m2 k2 = (m3, k3)" by (cases "create m2 k2")
  have "service_inv F lo n (m3\<lparr>ms_state := CREATED\<rparr>) (k_call Unlock_mutex k3)"
    using stop_if_running_same [OF m] release_service_all [OF r] assms(2) few
    by (intro created_inv [OF c]) (simp_all add: service_inv_def ms_simps)
  then show ?thesis using assms(3) m r c by (simp add: stop_micro_service_def Let_def)
qed

lemma halt_inv:
  assumes "service_inv F lo n ms k" "stop_task ms k = (ok, ms', k')"
  shows "service_inv F lo n ms' k'"
  using stop_task_same [OF assms(2)] assms(1) by (intro inv_same_tasks [OF assms(1)])
    (auto simp: service_inv_def same_tasks_def split: if_splits)

lemma run_tasks_inv:
  assumes "service_inv F lo n ms k" "run_tasks init (tasks ms) (k_call Lock_mutex k) = (ok, ts, k1)" "ms_state ms = CREATED"
  shows "live k1 = F + owned_all ts \<and> held k1 = Some True \<and> addrs_ok (ms\<lparr>ms_state := RUNNING, tasks := ts\<rparr>) k1 \<and>
    length ts \<le> n \<and> lo \<le> k_addr k1"
proof -
  have "live (k_call Lock_mutex k) = F + owned_all (tasks ms)"
    using assms(1) by (simp add: service_inv_def ms_simps)
  note r = run_tasks_live [OF this assms(2)]
  have "length ts = length (tasks ms)" using r by (metis length_map)
  moreover have "addrs_ok (ms\<lparr>ms_state := RUNNING, tasks := ts\<rparr>) k1"
    using addrs_ok_cong [of "ms\<lparr>ms_state := RUNNING, tasks := ts\<rparr>" ms k1 k] r assms(1)
    by (simp add: service_inv_def)
  ultimately show ?thesis using r assms(1) by (simp add: service_inv_def ms_simps)
qed

lemma run_inv:
  assumes "service_inv F lo n ms k" "run_micro_service init ms k = Inr (ok, ms', k')"
  shows "service_inv F lo n ms' k'"
proof (cases "ms_state ms = CREATED")
  case True
  obtain b ts k1 where r: "run_tasks init (tasks ms) (k_call Lock_mutex k) = (b, ts, k1)"
    by (cases "run_tasks init (tasks ms) (k_call Lock_mutex k)") auto
  note t = run_tasks_inv [OF assms(1) r True]
  let ?m = "ms\<lparr>ms_state := RUNNING, tasks := ts\<rparr>"
  have inv: "service_inv F lo n ?m (k_call Unlock_mutex k1)"
    using t by (simp add: service_inv_def addrs_ok_def ms_simps)
  show ?thesis
  proof (cases b)
    case True
    then obtain m where "set_output_connect_line ?m = Inr m" "ms' = m" "k' = k_call Unlock_mutex k1"
      using assms(2) \<open>ms_state ms = CREATED\<close> r by (auto simp: run_micro_service_def Let_def)
    with set_output_connect_line_same [of ?m m] inv show ?thesis
      by (intro inv_same_tasks [OF inv]) (auto simp: service_inv_def)
  next
    case False
    obtain b2 m k2 where s: "stop_task ?m (k_call Unlock_mutex k1) = (b2, m, k2)"
      by (cases "stop_task ?m (k_call Unlock_mutex k1)") auto
    from halt_inv [OF inv s] show ?thesis
      using assms(2) \<open>ms_state ms = CREATED\<close> r False s by (simp add: run_micro_service_def Let_def)
  qed
next
  case False
  then have st: "ms_state ms = STOPPED" using assms(2) by (simp add: run_micro_service_def split: if_splits)
  let ?m = "ms\<lparr>ms_state := RUNNING, tasks := map (\<lambda>t. if ti_state t = STOPPED then t\<lparr>ti_state := RUNNING\<rparr> else t) (tasks ms)\<rparr>"
  have e: "ms' = ?m" "k' = k_call Unlock_mutex (k_call Lock_mutex k)"
    using assms(2) st by (simp_all add: run_micro_service_def)
  have "same_tasks ms ?m" by (auto simp: same_tasks_def owned_def)
  then show ?thesis
    unfolding e using assms(1) st by (intro inv_same_tasks [OF assms(1)]) (simp_all add: service_inv_def ms_simps)
qed

lemma onoff_inv:
  assumes "service_inv F lo n ms k" "find_task a (tasks ms) = Some t" "sized t"
    and "task_onoff (Some a) on ms k = Inr (ok, ms', k')"
  shows "service_inv F lo n ms' k'"
proof -
  have same: "service_inv F lo n m' k2"
    if "set_output_connect_line m = Inr m'" "service_inv F lo n m k2" for m m' k2
    using set_output_connect_line_same [OF that(1)] that(2)
    by (intro inv_same_tasks [OF that(2)]) (auto simp: service_inv_def dest: same_tasks_iff)
  show ?thesis
  proof (cases "offloading t \<and> \<not> (on \<and> IS_ACTIVE_STATE (ti_state t))")
    case False
    then show ?thesis using assms by (auto simp: task_onoff_def split: if_splits)
  next
    case c: True
    show ?thesis
    proof (cases on)
      case True
      let ?m = "update_task a (\<lambda>t. t\<lparr>initial_state := I_S_ACTIVE\<rparr>) ms"
      have "same_tasks ms ?m" by (rule same_tasks_update) (simp_all add: owned_def)
      then have "service_inv F lo n ?m k"
        using assms(1) by (intro inv_same_tasks [OF assms(1)]) (auto simp: service_inv_def dest: same_tasks_iff)
      then show ?thesis using same [of ?m ms' k] assms(2,4) c True by (auto simp: task_onoff_def)
    next
      case False
      obtain t' k1 where o: "task_off t k = (t', k1)" by (cases "task_off t k")
      let ?m = "update_task a (\<lambda>_. t') ms"
      obtain M where M: "owned_all (tasks ms) = M + owned t" "owned_all (tasks ?m) = M + owned t'"
        using owned_all_update [OF _ assms(2)] assms(1) by (auto simp: service_inv_def addrs_ok_def update_task_def)
      have l: "live k1 = (F + M) + owned t'" "held k1 = held k"
        using task_off_live [OF o _ assms(3), of "F + M"] M(1) assms(1) by (auto simp: service_inv_def ac_simps)
      have ad: "ti_addr t' = a" "k_addr k1 = k_addr k"
        using o find_task_addr [OF assms(2)] by (auto simp: task_off_def Let_def split_beta)
      have "map ti_addr (tasks ?m) = map ti_addr (tasks ms)" using ad(1) by (auto simp: update_task_def)
      then have ad2: "addrs_ok ?m k1" "length (tasks ?m) = length (tasks ms)" "tasks ?m = [] \<longleftrightarrow> tasks ms = []"
        using assms(1) addrs_ok_cong [of ?m ms k1 k] ad(2) by (auto simp: service_inv_def update_task_def)
      have "service_inv F lo n ?m k1"
        using assms(1) M(2) l ad2 ad(2) by (simp add: service_inv_def ac_simps)
      then show ?thesis using same [of ?m ms' k1] assms(2,4) c False o by (auto simp: task_onoff_def)
    qed
  qed
qed

lemma del_inv:
  assumes "live k = F + owned_all (tasks ms)" "length (tasks ms) < 256" "held k = Some False" "lo \<le> k_addr k"
    and "del_micro_service ms k = (ok, ms', k')"
  shows "service_inv F lo n ms' k'"
  using del_micro_service_all [OF assms(5,1,2,3)] assms(4) by (simp add: service_inv_empty)

lemma step_inv:
  assumes few: "2 * n < 256" and "service_step create init (ms, k) (ms', k')" "service_inv F lo n ms k"
  shows "service_inv F lo n ms' k'"
  using assms(2)
proof cases
  case (Del ok)
  then show ?thesis using assms(3) few by (intro del_inv) (auto simp: service_inv_def)
next
  case (Task s a)
  have "same_tasks ms ms'" unfolding Task by (rule same_tasks_update) (simp_all add: owned_def)
  then show ?thesis
    using assms(3) Task by (intro inv_same_tasks [OF assms(3)]) (auto simp: service_inv_def dest: same_tasks_iff)
next
  case (Describe ms1 k1 ok)
  then show ?thesis
    using assms(3) few create_live [OF _ Describe(2), of F] create_few [OF Describe(2)] create_grows [OF Describe(2)]
    by (intro del_inv [of k1 F ms1]) (auto simp: service_inv_def)
next
  case (Create ok)
  then show ?thesis by (rule create_inv [OF assms(3)])
next
  case (Run ok)
  then show ?thesis by (rule run_inv [OF assms(3)])
next
  case (Stop ok)
  then show ?thesis by (rule stop_inv [OF few assms(3)])
next
  case (Halt ok)
  then show ?thesis by (rule halt_inv [OF assms(3)])
next
  case (Onoff a t on ok)
  then show ?thesis by (rule onoff_inv [OF assms(3)])
qed

lemma reachable_inv:
  assumes few: "2 * n < 256" and "(service_step create init)^** s s'" "service_inv F lo n (fst s) (snd s)"
  shows "service_inv F lo n (fst s') (snd s')"
  using assms(2,3)
proof (induction rule: rtranclp_induct)
  case (step y z)
  then show ?case using step_inv [OF few, of "fst y" "snd y" "fst z" "snd z"] by simp
qed simp

end

section \<open>Applications described by a table\<close>

text \<open>
  The macros of \<^verbatim>\<open>iw_fw_microservices.h\<close> let an application add its tasks
  (\<^verbatim>\<open>ADD_NEW_TASK_START\<close>, \<^verbatim>\<open>SET_INIT_FUNCTION\<close>,
  \<^verbatim>\<open>SET_OFFLOADING\<close>), link them (\<^verbatim>\<open>MAKE_TASK_LINKS\<close>) and set the item
  sizes in the init handlers. An application of this kind, for any table of tasks and sizes.
\<close>

record task_desc =
  d_name :: cstring
  d_fn :: task_fn
  d_init :: "nat option"
  d_inputs :: nat
  d_outputs :: nat
  d_lwmsg :: int
  d_offloading :: bool

definition add_described :: "task_desc \<Rightarrow> micro_service \<times> kernel \<Rightarrow> micro_service \<times> kernel" where
  "add_described d = (\<lambda>(ms, k).
     case add_new_task (d_fn d) (d_init d) None None (d_name d) (d_inputs d) (d_outputs d) (d_lwmsg d) ms k of
       (None, ms, k) \<Rightarrow> (ms, k)
     | (Some a, ms, k) \<Rightarrow> (update_task a (\<lambda>t. t\<lparr>offloading := d_offloading d\<rparr>) ms, k))"

definition described_create :: "task_desc list \<Rightarrow> create_fn" where
  "described_create ds ms k = (let (ms, k) = fold add_described ds (ms, k) in (make_task_links ms, k))"

definition sizes_init :: "(nat \<Rightarrow> nat \<times> nat) \<Rightarrow> init_handler" where
  "sizes_init sizes i t k =
     (case set_inout_item_size (fst (sizes i)) (snd (sizes i)) (Some t) k of
        (Some t, k) \<Rightarrow> (False, t, k)
      | (None, k) \<Rightarrow> (False, t, k))"

lemma replace_queues_live:
  assumes "replace_queues lwm sz i qs k = (qs', k')" "live k = F + (\<Sum>q \<leftarrow> qs. handle_if Inl q)"
  shows "live k' = F + (\<Sum>q \<leftarrow> qs'. handle_if Inl q) \<and> held k' = held k \<and> k_addr k' = k_addr k"
  using assms
proof (induction qs arbitrary: i k qs' k' F)
  case (Cons q qs)
  show ?case
  proof (cases "int i = lwm")
    case True
    obtain hs k2 where r: "replace_queues lwm sz (Suc i) qs k = (hs, k2)" by (cases "replace_queues lwm sz (Suc i) qs k")
    have "live k = (F + handle_if Inl q) + (\<Sum>q \<leftarrow> qs. handle_if Inl q)" using Cons.prems(2) by (simp add: ac_simps)
    from Cons.IH [OF r this] True r Cons.prems(1) show ?thesis by (auto simp: ac_simps)
  next
    case False
    let ?k = "delete_if Delete_queue q k"
    obtain h k1 where h: "create_queue mainQUEUE_LENGTH sz ?k = (h, k1)" by (cases "create_queue mainQUEUE_LENGTH sz ?k")
    obtain hs k2 where r: "replace_queues lwm sz (Suc i) qs k1 = (hs, k2)" by (cases "replace_queues lwm sz (Suc i) qs k1")
    have "live k = (F + (\<Sum>q \<leftarrow> qs. handle_if Inl q)) + handle_if Inl q" using Cons.prems(2) by (simp add: ac_simps)
    from delete_queue_live [OF this] create_queue_live [OF h]
    have "live k1 = (F + handle_if Inl h) + (\<Sum>q \<leftarrow> qs. handle_if Inl q)" "held k1 = held k"
      by (simp_all add: ms_simps ac_simps)
    with Cons.IH [OF r this(1)] False r h Cons.prems(1) k_addr_create(1) [of mainQUEUE_LENGTH sz ?k]
    show ?thesis by (auto simp: Let_def delete_if_def ac_simps)
  qed
qed simp

lemma sizes_init_live:
  assumes "live k = F + owned t" "sizes_init sizes i t k = (b, t', k')"
  shows "live k' = F + owned t' \<and> held k' = held k \<and>
      ti_addr t' = ti_addr t \<and> task_t t' = task_t t \<and> k_addr k' = k_addr k"
proof -
  obtain qs k1 where r: "replace_queues (lwmsg_input_port t) (fst (sizes i)) 0 (input_queues t) k = (qs, k1)"
    by (cases "replace_queues (lwmsg_input_port t) (fst (sizes i)) 0 (input_queues t) k")
  have "live k = (F + handle_if Inr (task_t t)) + (\<Sum>q \<leftarrow> input_queues t. handle_if Inl q)"
    using assms(1) by (simp add: owned_def ac_simps)
  from replace_queues_live [OF r this] assms(2) r show ?thesis
    by (auto simp: sizes_init_def set_inout_item_size_def owned_def ac_simps)
qed

lemma sum_replicate_zero [simp]: "sum_list (replicate n {#}) = {#}"
  by (induction n) simp_all

lemma sum_one_queue: "j < n \<Longrightarrow> (\<Sum>q \<leftarrow> (replicate n 0)[j := h]. handle_if Inl q) = handle_if Inl h"
  by (induction n arbitrary: j) (auto split: nat.splits)

lemma add_new_task_result:
  assumes "add_new_task fp i b a nm ins outs lwm ms k = (r, ms', k')"
  shows "(r = None \<and> ms' = ms \<and> k' = k) \<or>
    (\<exists>t. r = Some (ti_addr t) \<and> ms' = ms\<lparr>tasks := t # tasks ms\<rparr> \<and> ti_addr t = k_addr k \<and>
      ti_name t = take MS_MAX_NAME_LENGTH nm \<and> task_idx t = node_num (tasks ms) \<and>
      k_addr k' = Suc (k_addr k) \<and> live k' = live k + owned t \<and> held k' = held k)"
proof (cases "0 \<le> lwm \<and> int ins < lwm + 1")
  case True
  with assms show ?thesis by (simp add: add_new_task_def)
next
  case False
  let ?k = "k\<lparr>k_addr := Suc (k_addr k)\<rparr>"
  let ?p = "if 0 < ins \<and> 0 \<le> lwm
      then (let (h, k') = create_queue mainQUEUE_LENGTH sizeof_ptr ?k in ((replicate ins 0)[nat lwm := h], k'))
      else (replicate ins 0, ?k)"
  obtain qs k2 where p: "?p = (qs, k2)" by (cases ?p)
  have q: "live k2 = live k + (\<Sum>q \<leftarrow> qs. handle_if Inl q) \<and> held k2 = held k \<and> k_addr k2 = Suc (k_addr k)"
  proof (cases "0 < ins \<and> 0 \<le> lwm")
    case True
    obtain h k3 where h: "create_queue mainQUEUE_LENGTH sizeof_ptr ?k = (h, k3)"
      by (cases "create_queue mainQUEUE_LENGTH sizeof_ptr ?k")
    have "nat lwm < ins" using True False by linarith
    then show ?thesis
      using True p h create_queue_live [OF h] k_addr_create(1) [of mainQUEUE_LENGTH sizeof_ptr ?k]
      by (auto simp: sum_one_queue)
  next
    case False
    with p show ?thesis by auto
  qed
  have "add_new_task fp i b a nm ins outs lwm ms k = (r, ms', k') \<Longrightarrow> ?thesis"
    unfolding add_new_task_def new_addr_def Let_def case_prod_conv if_not_P [OF False]
    unfolding p [unfolded Let_def] case_prod_conv
    using q by (intro disjI2 exI [of _ "hd (tasks ms')"]) (auto simp: owned_def)
  with assms show ?thesis by simp
qed

lemma add_described_result:
  assumes "add_described d (ms, k) = (ms', k')"
  shows "(live k = F + owned_all (tasks ms) \<longrightarrow> live k' = F + owned_all (tasks ms')) \<and> held k' = held k \<and>
    (addrs_ok ms k \<longrightarrow> addrs_ok ms' k') \<and> k_addr k \<le> k_addr k' \<and> length (tasks ms') \<le> Suc (length (tasks ms))"
proof -
  obtain r m k1 where a: "add_new_task (d_fn d) (d_init d) None None (d_name d) (d_inputs d)
      (d_outputs d) (d_lwmsg d) ms k = (r, m, k1)"
    by (cases "add_new_task (d_fn d) (d_init d) None None (d_name d) (d_inputs d) (d_outputs d) (d_lwmsg d) ms k") auto
  show ?thesis
  proof (cases r)
    case None
    then show ?thesis using assms a add_new_task_result [OF a] by (auto simp: add_described_def)
  next
    case (Some x)
    then obtain t where t: "x = ti_addr t" "m = ms\<lparr>tasks := t # tasks ms\<rparr>" "ti_addr t = k_addr k"
        "k_addr k1 = Suc (k_addr k)" "live k1 = live k + owned t" "held k1 = held k"
      using add_new_task_result [OF a] by auto
    have e: "ms' = update_task x (\<lambda>t. t\<lparr>offloading := d_offloading d\<rparr>) m" "k' = k1"
      using assms a Some by (auto simp: add_described_def)
    have "same_tasks m ms'" unfolding e by (rule same_tasks_update) (simp_all add: owned_def)
    note s = same_tasks_iff [OF this]
    have "addrs_ok ms k \<longrightarrow> addrs_ok m k1"
      using t(2-4) by (auto simp: addrs_ok_def)
    then show ?thesis
      using t s e addrs_ok_cong [of ms' m k1 k1] by (auto simp: ac_simps)
  qed
qed

lemma add_described_fold:
  assumes "fold add_described ds (ms, k) = (ms', k')"
  shows "(live k = F + owned_all (tasks ms) \<longrightarrow> live k' = F + owned_all (tasks ms')) \<and> held k' = held k \<and>
    (addrs_ok ms k \<longrightarrow> addrs_ok ms' k') \<and> k_addr k \<le> k_addr k' \<and> length (tasks ms') \<le> length (tasks ms) + length ds"
  using assms
proof (induction ds arbitrary: ms k)
  case (Cons d ds)
  obtain m k1 where d: "add_described d (ms, k) = (m, k1)" by (cases "add_described d (ms, k)")
  from Cons.IH [of m k1] Cons.prems d add_described_result [OF d, of F] show ?case by auto
qed simp

lemma make_task_links_same [simp]: "tasks (make_task_links ms) = tasks ms"
  by (simp add: make_task_links_def)

lemma described_create_result:
  assumes "described_create ds ms k = (ms', k')"
  shows "(live k = F + owned_all (tasks ms) \<longrightarrow> live k' = F + owned_all (tasks ms')) \<and> held k' = held k \<and>
    (addrs_ok ms k \<longrightarrow> addrs_ok ms' k') \<and> k_addr k \<le> k_addr k' \<and> length (tasks ms') \<le> length (tasks ms) + length ds"
proof -
  obtain m k1 where f: "fold add_described ds (ms, k) = (m, k1)" by (cases "fold add_described ds (ms, k)")
  then have "ms' = make_task_links m" "k' = k1" using assms by (auto simp: described_create_def)
  with add_described_fold [OF f] addrs_ok_cong [of "make_task_links m" m k1 k1] show ?thesis by simp
qed

interpretation described: application "described_create ds" "sizes_init sizes" "length ds" for ds sizes
proof unfold_locales
qed (use described_create_result sizes_init_live in blast)+

section \<open>Properties\<close>

text \<open>
  C4. The states of a service: \<^verbatim>\<open>create_micro_service\<close> works from
  \<^verbatim>\<open>NOT_READY\<close> only, \<^verbatim>\<open>stop_task\<close> from \<^verbatim>\<open>RUNNING\<close> and
  \<^verbatim>\<open>STOPPED\<close>; stopping always leads to \<^verbatim>\<open>CREATED\<close> and deleting to
  \<^verbatim>\<open>NOT_READY\<close>. Running leads to \<^verbatim>\<open>RUNNING\<close>, or to
  \<^verbatim>\<open>STOPPED\<close> when a task fails; from \<^verbatim>\<open>NOT_READY\<close> and
  \<^verbatim>\<open>RUNNING\<close> it does not return FALSE, it reads through a NULL pointer.
\<close>

theorem service_states:
  "fst (create_micro_service create ms k) = (ms_state ms = NOT_READY) \<and>
   ms_state (fst (snd (create_micro_service create ms k))) = (if ms_state ms = NOT_READY then CREATED else ms_state ms) \<and>
   fst (stop_task ms k) = (ms_state ms = RUNNING \<or> ms_state ms = STOPPED) \<and>
   ms_state (fst (snd (stop_task ms k))) = (if ms_state ms = RUNNING then STOPPED else ms_state ms) \<and>
   fst (stop_micro_service create ms k) \<and> ms_state (fst (snd (stop_micro_service create ms k))) = CREATED \<and>
   fst (del_micro_service ms k) \<and> ms_state (fst (snd (del_micro_service ms k))) = NOT_READY \<and>
   (case run_micro_service init ms k of
      Inl e \<Rightarrow> ms_state ms = CREATED \<or> (e = Null_deref \<and> ms_state ms \<in> {NOT_READY, RUNNING})
    | Inr (ok, ms', k') \<Rightarrow> ms_state ms \<in> {CREATED, STOPPED} \<and> ms_state ms' = (if ok then RUNNING else STOPPED))"
proof -
  have "ms_state (fst (release_service m j)) = NOT_READY" for m j
    by (simp add: release_service_def)
  then have "fst (stop_micro_service create ms k) \<and> ms_state (fst (snd (stop_micro_service create ms k))) = CREATED \<and>
      fst (del_micro_service ms k) \<and> ms_state (fst (snd (del_micro_service ms k))) = NOT_READY"
    by (simp add: stop_micro_service_def del_micro_service_def split_beta)
  moreover have "case run_micro_service init ms k of
      Inl e \<Rightarrow> ms_state ms = CREATED \<or> (e = Null_deref \<and> ms_state ms \<in> {NOT_READY, RUNNING})
    | Inr (ok, ms', k') \<Rightarrow> ms_state ms \<in> {CREATED, STOPPED} \<and> ms_state ms' = (if ok then RUNNING else STOPPED)"
  proof (cases "ms_state ms")
    case CREATED
    obtain ok ts k1 where r: "run_tasks init (tasks ms) (k_call Lock_mutex k) = (ok, ts, k1)"
      by (cases "run_tasks init (tasks ms) (k_call Lock_mutex k)") auto
    let ?m = "ms\<lparr>ms_state := RUNNING, tasks := ts\<rparr>"
    have "ms_state m = RUNNING" if "set_output_connect_line ?m = Inr m" for m
      using set_output_connect_line_same [OF that] by simp
    with CREATED r show ?thesis
      by (cases ok; cases "set_output_connect_line ?m")
        (auto simp: run_micro_service_def stop_task_def Let_def)
  qed (auto simp: run_micro_service_def)
  ultimately show ?thesis
    by (auto simp: create_micro_service_def stop_task_def split_beta Let_def)
qed

lemma fresh_service_inv: "k_trace k = [] \<Longrightarrow> service_inv {#} 0 n (make_ms nm i) k"
  by (simp add: service_inv_def addrs_ok_def live_def held_def make_ms_def)

text \<open>
  C3. In whatever order a service is created, run, stopped, deleted, described and its tasks
  are switched, it holds exactly the queues and tasks of the kernel it has created and not
  deleted, none when it is not ready, and its lock is free between operations: nothing leaks,
  nothing is deleted twice, the lock is never taken twice. This needs a well-behaved application
  of fewer than 128 tasks, and item sizes set for the tasks that are switched off.
\<close>

theorem service_holds_what_it_created:
  assumes "application create init n" "2 * n < 256" "k_trace k = []"
    and "(service_step create init)^** (make_ms nm i, k) (ms, k')"
  shows "live k' = owned_all (tasks ms) \<and> held k' = Some False \<and> (ms_state ms = NOT_READY \<longrightarrow> live k' = {#})"
  using application.reachable_inv [OF assms(1,2,4), of "{#}" 0] fresh_service_inv [OF assms(3), of n nm i]
  by (auto simp: service_inv_def)

definition example_kernel :: kernel where
  "example_kernel = \<lparr>k_handle = Suc, k_count = 0, k_addr = 1, k_tick = 0, k_trace = []\<rparr>"

definition example_descs :: "task_desc list" where
  "example_descs = [\<lparr>d_name = ''send'', d_fn = base_task_type2, d_init = Some 0, d_inputs = 2, d_outputs = 0,
      d_lwmsg = 0, d_offloading = True\<rparr>,
    \<lparr>d_name = ''read'', d_fn = base_task_type1, d_init = Some 1, d_inputs = 1, d_outputs = 1,
      d_lwmsg = 0, d_offloading = False\<rparr>]"

definition example_sizes :: "nat \<Rightarrow> nat \<times> nat" where
  "example_sizes i = (4, 4)"

lemma service_holds_what_it_created_witness:
  "\<exists>ms k. service_step (described_create example_descs) (sizes_init example_sizes)
      (make_ms ''led'' ''ms1'', example_kernel) (ms, k) \<and> live k = owned_all (tasks ms) \<and> ms_state ms = CREATED"
proof -
  let ?C = "described_create example_descs" and ?I = "sizes_init example_sizes"
  obtain ok ms k where c: "create_micro_service ?C (make_ms ''led'' ''ms1'') example_kernel = (ok, ms, k)"
    by (cases "create_micro_service ?C (make_ms ''led'' ''ms1'') example_kernel") auto
  then have s: "service_step ?C ?I (make_ms ''led'' ''ms1'', example_kernel) (ms, k)" by (rule Create)
  have "ms_state ms = CREATED"
    using c service_states [of ?C "make_ms ''led'' ''ms1''" example_kernel ?I] by (simp add: make_ms_def)
  moreover have "live k = owned_all (tasks ms)"
    using service_holds_what_it_created [OF described.application_axioms [of example_descs example_sizes] _ _
        r_into_rtranclp [where r = "service_step ?C ?I", OF s]]
    by (simp add: example_descs_def example_kernel_def)
  ultimately show ?thesis using s by blast
qed

text \<open>What the loop over the tasks has done when it ends, and what it asked of the kernel for each task.\<close>

definition started :: "task_info \<Rightarrow> task_info \<Rightarrow> bool" where
  "started t t' \<longleftrightarrow> (if GET_INITIAL_ONOFF t then \<not> IS_ACTIVE_STATE (ti_state t) \<and> ti_state t' = CREATED
     else (ti_state t', task_t t', input_queues t') = (ti_state t, task_t t, input_queues t))"

definition start_calls :: "task_info \<Rightarrow> task_info \<Rightarrow> kernel_call list" where
  "start_calls t t' = (if \<not> GET_INITIAL_ONOFF t then []
     else (if task_t t = 0 then [] else [Delete_task (task_t t)]) @ [Create_task (ti_name t') (task_t t')])"

text \<open>Init handlers do with the kernel what they like, but do not take back what was done.\<close>

definition only_adds_calls :: "init_handler \<Rightarrow> bool" where
  "only_adds_calls init \<longleftrightarrow> (\<forall>i t k. prefix (k_trace k) (k_trace (snd (snd (init i t k)))))"

definition calls_between :: "kernel_call list \<Rightarrow> kernel \<Rightarrow> kernel \<Rightarrow> bool" where
  "calls_between cs k k' \<longleftrightarrow> (\<exists>ds. k_trace k' = k_trace k @ ds \<and> subseq cs ds)"

lemma calls_between_trans:
  assumes "calls_between cs k k1" "calls_between ds k1 k2"
  shows "calls_between (cs @ ds) k k2"
  using assms by (auto simp: calls_between_def intro: list_emb_append_mono)

lemma calls_between_call: "calls_between [c] k (k_call c k)" "calls_between [] k (k_call c k)"
  by (simp_all add: calls_between_def k_call_def)

lemma calls_between_refl [simp]: "calls_between [] k k"
  by (simp add: calls_between_def)

lemma delete_if_calls: "calls_between (if h = 0 then [] else [c h]) k (delete_if c h k)"
  by (simp add: delete_if_def calls_between_call)

lemma init_calls: "only_adds_calls init \<Longrightarrow> init i t k = (b, t', k') \<Longrightarrow> calls_between [] k k'"
  unfolding only_adds_calls_def calls_between_def prefix_def by (metis snd_conv list_emb_Nil)

lemma run_task_started:
  assumes "run_task init False t k = (True, t', k')" "only_adds_calls init"
  shows "\<not> IS_ACTIVE_STATE (ti_state t) \<and> ti_state t' = CREATED \<and>
    calls_between ((if task_t t = 0 then [] else [Delete_task (task_t t)]) @ [Create_task (ti_name t') (task_t t')]) k k'"
proof -
  let ?k = "delete_if Delete_task (task_t t) k"
  let ?t = "t\<lparr>task_t := 0, ti_state := STOPPED\<rparr>"
  have a: "\<not> IS_ACTIVE_STATE (ti_state t)" using assms(1) by (auto simp: run_task_def)
  obtain b t1 k1 where i: "(case init_fn t of None \<Rightarrow> (False, ?t, ?k) | Some i \<Rightarrow> init i ?t ?k) = (b, t1, k1)"
    by (cases "case init_fn t of None \<Rightarrow> (False, ?t, ?k) | Some i \<Rightarrow> init i ?t ?k") auto
  then have i': "calls_between [] ?k k1" using init_calls [OF assms(2)] by (auto split: option.splits)
  obtain h k2 where h: "create_task (ti_name t1) k1 = (h, k2)" by (cases "create_task (ti_name t1) k1")
  have r: "t' = t1\<lparr>task_t := h, ti_state := CREATED\<rparr>" "k' = k2"
    using assms(1) a i h by (auto simp: run_task_def Let_def split: if_splits)
  have "calls_between [Create_task (ti_name t1) h] k1 k2"
    using h by (auto simp: create_task_def Let_def calls_between_def k_call_def)
  then show ?thesis
    using a r calls_between_trans [OF delete_if_calls calls_between_trans [OF i']] by fastforce
qed

lemma run_tasks_started:
  "run_tasks init ts k = (True, ts', k') \<Longrightarrow> only_adds_calls init \<Longrightarrow>
    list_all2 started ts ts' \<and> calls_between (concat (map2 start_calls ts ts')) k k'"
proof (induction ts arbitrary: k ts' k')
  case (Cons t ts)
  let ?p = "if GET_INITIAL_ONOFF t then run_task init False t k else (True, t, k)"
  obtain b u k1 where p: "?p = (b, u, k1)" by (cases ?p) auto
  obtain b2 us k2 where r: "run_tasks init ts k1 = (b2, us, k2)" by (cases "run_tasks init ts k1") auto
  have e: "b" "b2" "ts' = u # us" "k' = k2" using Cons.prems(1) p r by (auto simp: Let_def split: if_splits)
  have "started t u \<and> calls_between (start_calls t u) k k1"
    using p \<open>b\<close> run_task_started [OF _ Cons.prems(2), of t k u k1]
    by (auto simp: started_def start_calls_def split: if_splits)
  moreover have "list_all2 started ts us \<and> calls_between (concat (map2 start_calls ts us)) k1 k2"
    using Cons.IH [OF _ Cons.prems(2)] r e(2) by simp
  ultimately show ?case using e calls_between_trans by auto
qed simp

text \<open>
  C22. When a created service runs, every task whose initial state is not "stop" was inactive and
  is created: the kernel is asked to delete the kernel task it had, if any, and to create one with its name, in the order of
  the tasks, and the handle the kernel returned is kept (the code does not look whether it is NULL). Every other task
  keeps its state, its kernel task and its queues.
\<close>

theorem run_starts_tasks:
  assumes "ms_state ms = CREATED" "run_micro_service init ms k = Inr (True, ms', k')" "only_adds_calls init"
  shows "ms_state ms' = RUNNING \<and> list_all2 started (tasks ms) (tasks ms') \<and>
    (\<exists>cs. k_trace k' = k_trace k @ cs \<and> subseq (concat (map2 start_calls (tasks ms) (tasks ms'))) cs)"
proof -
  obtain ok ts k1 where r: "run_tasks init (tasks ms) (k_call Lock_mutex k) = (ok, ts, k1)"
    by (cases "run_tasks init (tasks ms) (k_call Lock_mutex k)") auto
  let ?m = "ms\<lparr>ms_state := RUNNING, tasks := ts\<rparr>"
  have ok: ok using assms r by (auto simp: run_micro_service_def Let_def split: prod.splits if_splits)
  then have s: "set_output_connect_line ?m = Inr ms'" "k' = k_call Unlock_mutex k1"
    using assms r by (auto simp: run_micro_service_def)
  let ?g = "\<lambda>t. (ti_state t, task_t t, input_queues t, ti_name t)"
  have m: "map ?g (tasks ms') = map ?g ts" "ms_state ms' = RUNNING"
    using set_output_connect_line_map [OF s(1), of ?g] by simp_all
  have st: "list_all2 started (tasks ms) ts" "calls_between (concat (map2 start_calls (tasks ms) ts)) (k_call Lock_mutex k) k1"
    using r ok run_tasks_started [OF _ assms(3), of "tasks ms" "k_call Lock_mutex k" ts k1] by simp_all
  have len: "length (tasks ms') = length ts" using arg_cong [OF m(1), of length] by simp
  have same: "?g (tasks ms' ! i) = ?g (ts ! i)" if "i < length ts" for i
    using arg_cong [OF m(1), of "\<lambda>xs. xs ! i"] len that by simp
  have "list_all2 started (tasks ms) (tasks ms')"
    using st(1) len same by (simp add: list_all2_conv_all_nth started_def)
  moreover have "map2 start_calls (tasks ms) (tasks ms') = map2 start_calls (tasks ms) ts"
    using len same by (intro nth_equalityI) (simp_all add: start_calls_def)
  moreover have "calls_between (concat (map2 start_calls (tasks ms) ts)) k k'"
    using calls_between_trans [OF calls_between_call(2) calls_between_trans [OF st(2) calls_between_call(2)]] s(2) by simp
  ultimately show ?thesis using m(2) by (simp add: calls_between_def)
qed

definition example_init :: init_handler where
  "example_init i t k = (i = 1, t\<lparr>input_item_size := 4\<rparr>, k)"

definition one_task :: "nat \<Rightarrow> micro_service" where
  "one_task i = (make_ms ''led'' ''ms1'')\<lparr>ms_state := CREATED, tasks :=
     [(example_task 1 ''read'' False NOT_READY)\<lparr>init_fn := Some i\<rparr>]\<rparr>"

lemma run_starts_tasks_witness:
  "\<exists>ms k cs. run_micro_service example_init (one_task 0) example_kernel = Inr (True, ms, k) \<and>
     map ti_state (tasks ms) = [CREATED] \<and> k_trace k = k_trace example_kernel @ cs \<and>
     Create_task ''read'' (task_t (hd (tasks ms))) \<in> set cs"
proof -
  obtain ms k where r: "run_micro_service example_init (one_task 0) example_kernel = Inr (True, ms, k)"
    and n: "map ti_name (tasks ms) = [''read'']"
    by (simp add: run_micro_service_def one_task_def example_defs example_init_def GET_INITIAL_ONOFF_def
        run_task_def IS_ACTIVE_STATE_iff create_task_def set_output_connect_line_def Let_def delete_if_def del: rbind_eq_Inr)
  then obtain t where t: "tasks ms = [t]" "ti_name t = ''read''" by auto
  have "ms_state (one_task 0) = CREATED" by (simp add: one_task_def)
  moreover have "only_adds_calls example_init" by (simp add: only_adds_calls_def example_init_def)
  ultimately have "list_all2 started (tasks (one_task 0)) (tasks ms) \<and>
      (\<exists>cs. k_trace k = k_trace example_kernel @ cs \<and> subseq (concat (map2 start_calls (tasks (one_task 0)) (tasks ms))) cs)"
    using run_starts_tasks [OF _ r] by blast
  moreover have "GET_INITIAL_ONOFF (hd (tasks (one_task 0)))" "length (tasks (one_task 0)) = 1" "task_t (hd (tasks (one_task 0))) = 0"
    by (simp_all add: one_task_def example_task_def GET_INITIAL_ONOFF_def)
  ultimately obtain cs where "ti_state t = CREATED" "k_trace k = k_trace example_kernel @ cs"
      "subseq [Create_task ''read'' (task_t t)] cs"
    using t by (cases "tasks (one_task 0)") (auto simp: started_def start_calls_def)
  with r t show ?thesis by (force dest: subseq_singleton_left [THEN iffD1])
qed

text \<open>
  After a task could not be started, running the service once more reports success without
  creating anything: a task that has no kernel task is marked as running.
\<close>

theorem rerun_marks_missing_task:
  assumes "ms_state ms = CREATED" "run_micro_service init ms k = Inr (False, ms1, k1)"
  shows "\<exists>ms2 k2. run_micro_service init ms1 k1 = Inr (True, ms2, k2) \<and> ms_state ms2 = RUNNING \<and>
    k_count k2 = k_count k1 \<and>
    (\<forall>t \<in> set (tasks ms1). ti_state t = STOPPED \<longrightarrow> t\<lparr>ti_state := RUNNING\<rparr> \<in> set (tasks ms2))"
proof -
  have "ms_state ms1 = STOPPED"
    using service_states [of "\<lambda>m j. (m, j)" ms k init] assms by simp
  then show ?thesis
    by (force simp: run_micro_service_def k_call_def)
qed

lemma rerun_marks_missing_task_witness:
  "\<exists>ms1 k1 ms2 k2. run_micro_service example_init (one_task 1) example_kernel = Inr (False, ms1, k1) \<and>
     run_micro_service example_init ms1 k1 = Inr (True, ms2, k2) \<and>
     (\<exists>t \<in> set (tasks ms2). ti_state t = RUNNING \<and> task_t t = 0)"
proof -
  let ?t = "(example_task 1 ''read'' False STOPPED)\<lparr>init_fn := Some 1, input_item_size := 4\<rparr>"
  obtain ms1 k1 where r: "run_micro_service example_init (one_task 1) example_kernel = Inr (False, ms1, k1)"
      "tasks ms1 = [?t]"
    by (simp add: run_micro_service_def one_task_def example_defs example_init_def GET_INITIAL_ONOFF_def
        run_task_def IS_ACTIVE_STATE_iff delete_if_def stop_task_def Let_def del: rbind_eq_Inr)
  have "ms_state (one_task 1) = CREATED" by (simp add: one_task_def)
  from rerun_marks_missing_task [OF this r(1)] r obtain ms2 k2 where
    "run_micro_service example_init ms1 k1 = Inr (True, ms2, k2)"
    "\<forall>t \<in> set (tasks ms1). ti_state t = STOPPED \<longrightarrow> t\<lparr>ti_state := RUNNING\<rparr> \<in> set (tasks ms2)"
    by blast
  moreover from this(2) r(2) have "?t\<lparr>ti_state := RUNNING\<rparr> \<in> set (tasks ms2)"
    by (simp add: example_task_def)
  ultimately show ?thesis
    using r(1) by (intro exI [of _ ms1] exI [of _ k1] exI [of _ ms2] exI [of _ k2] conjI
        bexI [of _ "?t\<lparr>ti_state := RUNNING\<rparr>"]) (simp_all add: example_task_def)
qed

section \<open>Switching tasks\<close>

lemma find_task_map:
  assumes "map (\<lambda>t. (ti_addr t, f t)) us = map (\<lambda>t. (ti_addr t, f t)) ts"
  shows "map_option f (find_task a us) = map_option f (find_task a ts)"
  using assms
proof (induction us arbitrary: ts)
  case (Cons u us)
  then obtain v vs where "ts = v # vs" by (cases ts) auto
  with Cons show ?case by (auto simp: find_task_def)
qed (simp add: find_task_def)

definition switch_view :: "task_info \<Rightarrow> state_type \<times> state_type \<times> nat \<times> nat list" where
  "switch_view t = (ti_state t, initial_state t, task_t t, input_queues t)"

lemma connected_view:
  assumes "set_output_connect_line (update_task a f ms) = Inr ms'" "\<And>t. ti_addr (f t) = ti_addr t"
    and "find_task a (tasks ms) = Some t"
  shows "\<exists>t'. find_task a (tasks ms') = Some t' \<and> switch_view t' = switch_view (f t)"
proof -
  have "map (\<lambda>t. (ti_addr t, switch_view t)) (tasks ms') = map (\<lambda>t. (ti_addr t, switch_view t)) (tasks (update_task a f ms))"
    using set_output_connect_line_map [OF assms(1), of "\<lambda>t. (ti_addr t, switch_view t)"]
    by (simp add: switch_view_def)
  from find_task_map [OF this, of a] show ?thesis
    using find_task_update [of f a a ms] assms(2,3) by auto
qed

text \<open>What is asked of the kernel for one port, from its old and new queue, and for a task that is switched off.\<close>

definition port_calls :: "int \<Rightarrow> nat \<Rightarrow> nat \<Rightarrow> nat \<Rightarrow> nat \<Rightarrow> kernel_call list" where
  "port_calls lwm sz i old new = (if old = 0 then [] else [Delete_queue old]) @
     (if int i = lwm then [Create_queue mainQUEUE_LENGTH sizeof_ptr new]
      else if 0 < sz then [Create_queue mainQUEUE_LENGTH sz new] else [])"

definition off_calls :: "task_info \<Rightarrow> nat list \<Rightarrow> kernel_call list" where
  "off_calls t new = (if task_t t = 0 then [] else [Delete_task (task_t t)]) @
     concat (map (\<lambda>i. port_calls (lwmsg_input_port t) (input_item_size t) i (input_queues t ! i) (new ! i))
       [0 ..< length (input_queues t)])"

lemma recreate_queues_calls:
  "recreate_queues lwm sz i qs k = (qs', k') \<Longrightarrow>
    k_trace k' = k_trace k @ concat (map (\<lambda>j. port_calls lwm sz (i + j) (qs ! j) (qs' ! j)) [0 ..< length qs])"
proof (induction qs arbitrary: i k qs' k')
  case (Cons q qs)
  let ?k = "delete_if Delete_queue q k"
  obtain h k1 where h: "(if int i = lwm then create_queue mainQUEUE_LENGTH sizeof_ptr ?k
      else if 0 < sz then create_queue mainQUEUE_LENGTH sz ?k else (q, ?k)) = (h, k1)"
    by fastforce
  obtain hs k2 where r: "recreate_queues lwm sz (Suc i) qs k1 = (hs, k2)" by fastforce
  have e: "qs' = h # hs" "k' = k2" using Cons.prems h r by (auto simp: Let_def)
  have "k_trace k1 = k_trace k @ port_calls lwm sz i q h"
    using h by (auto simp: port_calls_def delete_if_def create_queue_def k_call_def Let_def split: if_splits)
  moreover have "[0 ..< length (q # qs)] = 0 # map Suc [0 ..< length qs]"
    by (simp add: upt_conv_Cons map_Suc_upt del: upt_Suc)
  ultimately show ?case using Cons.IH [OF r] e by (simp add: comp_def)
qed simp

lemma recreate_queues_length:
  "recreate_queues lwm sz i qs k = (qs', k') \<Longrightarrow> length qs' = length qs"
  by (induction qs arbitrary: i k qs' k') (auto simp: Let_def split: prod.splits if_splits)

lemma recreate_queues_unchanged:
  "recreate_queues lwm 0 i qs k = (qs', k') \<Longrightarrow> j < length qs \<Longrightarrow> int (i + j) \<noteq> lwm \<Longrightarrow> qs' ! j = qs ! j"
proof (induction qs arbitrary: i k qs' k' j)
  case (Cons q qs)
  then show ?case by (cases j) (fastforce simp: Let_def split: prod.splits)+
qed simp

text \<open>
  C21. Switching an offloadable task off asks the kernel to delete its kernel task and then, port by port, to delete the
  queue and to create a new one, and nothing else; the new queues are those of the task, a data port of a task without an
  item size keeping the handle of its deleted queue. The task is marked
  as stopped, also for the next run of the service. Switching an inactive one on only changes
  its initial state: it is not started, and nothing is asked of the kernel.
\<close>

theorem task_onoff_effects:
  assumes "find_task a (tasks ms) = Some t" "offloading t" "task_onoff (Some a) on ms k = Inr (True, ms', k')"
  shows "(\<not> on \<longrightarrow> (\<exists>t'. find_task a (tasks ms') = Some t' \<and> ti_state t' = STOPPED \<and> task_t t' = 0 \<and>
      \<not> GET_INITIAL_ONOFF t' \<and> k_trace k' = k_trace k @ off_calls t (input_queues t') \<and>
      length (input_queues t') = length (input_queues t) \<and>
      (input_item_size t = 0 \<longrightarrow> (\<forall>i < length (input_queues t). int i \<noteq> lwmsg_input_port t \<longrightarrow>
        input_queues t' ! i = input_queues t ! i)))) \<and>
    (on \<longrightarrow> k' = k \<and> (\<exists>t'. find_task a (tasks ms') = Some t' \<and> ti_state t' = ti_state t \<and> task_t t' = task_t t \<and>
      input_queues t' = input_queues t \<and> GET_INITIAL_ONOFF t'))"
proof (cases on)
  case True
  have "set_output_connect_line (update_task a (\<lambda>t. t\<lparr>initial_state := I_S_ACTIVE\<rparr>) ms) = Inr ms' \<and> k' = k"
    using assms True by (auto simp: task_onoff_def split: if_splits)
  then show ?thesis
    using connected_view [of a "\<lambda>t. t\<lparr>initial_state := I_S_ACTIVE\<rparr>" ms ms' t] assms(1) True
    by (auto simp: switch_view_def GET_INITIAL_ONOFF_def)
next
  case False
  let ?k = "delete_if Delete_task (task_t t) k"
  obtain qs k1 where q: "recreate_queues (lwmsg_input_port t) (input_item_size t) 0 (input_queues t) ?k = (qs, k1)"
    by fastforce
  obtain t' where o: "task_off t k = (t', k1)" and t': "ti_addr t' = a" "ti_state t' = STOPPED" "task_t t' = 0"
      "initial_state t' = I_S_STOP" "input_queues t' = qs"
    using q find_task_addr [OF assms(1)] by (simp add: task_off_def)
  have trace: "k_trace k1 = k_trace k @ off_calls t qs"
    using recreate_queues_calls [OF q] by (simp add: off_calls_def delete_if_def k_call_def)
  have r: "set_output_connect_line (update_task a (\<lambda>_. t') ms) = Inr ms' \<and> k' = k1"
    using assms False o by (auto simp: task_onoff_def)
  have "update_task a (\<lambda>_. t') ms = update_task a (\<lambda>x. if ti_addr x = a then t' else x) ms"
    by (auto simp: update_task_def)
  then have f: "set_output_connect_line (update_task a (\<lambda>x. if ti_addr x = a then t' else x) ms) = Inr ms'"
    using r by simp
  have "ti_addr (if ti_addr x = a then t' else x) = ti_addr x" for x using t'(1) by simp
  from connected_view [OF f this assms(1)] obtain v where
    "find_task a (tasks ms') = Some v" "switch_view v = switch_view t'"
    using find_task_addr [OF assms(1)] by auto
  moreover have "length qs = length (input_queues t)" by (rule recreate_queues_length [OF q])
  moreover have "qs ! i = input_queues t ! i"
    if "input_item_size t = 0" "i < length (input_queues t)" "int i \<noteq> lwmsg_input_port t" for i
    using q that recreate_queues_unchanged [of "lwmsg_input_port t" 0 "input_queues t" ?k qs k1 i] by simp
  ultimately show ?thesis using False r t' trace by (auto simp: switch_view_def GET_INITIAL_ONOFF_def)
qed

definition busy_service :: micro_service where
  "busy_service = (make_ms ''led'' ''ms1'')\<lparr>tasks := [(example_task 2 ''filter'' True RUNNING)
     \<lparr>task_t := 5, input_queues := [8, 9], input_item_size := 4, lwmsg_input_port := 1\<rparr>]\<rparr>"

lemma task_onoff_effects_witness:
  "\<exists>ms k t. task_onoff (Some 2) False busy_service example_kernel = Inr (True, ms, k) \<and>
     find_task 2 (tasks ms) = Some t \<and> ti_state t = STOPPED \<and> \<not> GET_INITIAL_ONOFF t \<and>
     (\<exists>q r. k_trace k = k_trace example_kernel @
       [Delete_task 5, Delete_queue 8, Create_queue 20 4 q, Delete_queue 9, Create_queue 20 4 r])"
proof -
  let ?t = "(example_task 2 ''filter'' True RUNNING)\<lparr>task_t := 5, input_queues := [8, 9], input_item_size := 4, lwmsg_input_port := 1\<rparr>"
  have f: "find_task 2 (tasks busy_service) = Some ?t" "offloading ?t"
    by (simp_all add: find_task_def busy_service_def make_ms_def example_task_def)
  obtain ms k where r: "task_onoff (Some 2) False busy_service example_kernel = Inr (True, ms, k)"
    using f by (simp add: task_onoff_def set_output_connect_line_def split_beta)
      (simp add: busy_service_def make_ms_def update_task_def)
  have calls: "off_calls ?t qs = [Delete_task 5, Delete_queue 8, Create_queue 20 4 (qs ! 0), Delete_queue 9, Create_queue 20 4 (qs ! 1)]" for qs
    by (simp add: off_calls_def port_calls_def numeral_2_eq_2)
  from task_onoff_effects [OF f r] obtain t where "find_task 2 (tasks ms) = Some t" "ti_state t = STOPPED"
      "\<not> GET_INITIAL_ONOFF t" "k_trace k = k_trace example_kernel @ off_calls ?t (input_queues t)"
    by blast
  with r show ?thesis unfolding calls by blast
qed

section \<open>A queue that is deleted twice\<close>

lemma count_call [simp]: "count_list (k_trace (k_call c k)) d = count_list (k_trace k) d + (if c = d then 1 else 0)"
  by (simp add: k_call_def)

lemma count_create_queue: "create_queue n s k = (h, k') \<Longrightarrow>
    count_list (k_trace k') (Delete_queue q) = count_list (k_trace k) (Delete_queue q)"
  by (auto simp: create_queue_def Let_def)

lemma count_delete_if:
  "count_list (k_trace (delete_if d h k)) (Delete_queue q) =
     count_list (k_trace k) (Delete_queue q) + (if h \<noteq> 0 \<and> d h = Delete_queue q then 1 else 0)"
  by (simp add: delete_if_def)

lemma recreate_queues_keeps:
  assumes "recreate_queues lwm 0 i qs k = (qs', k')" "j < length qs" "int (i + j) \<noteq> lwm" "qs ! j = q" "q \<noteq> 0"
  shows "j < length qs' \<and> qs' ! j = q \<and>
    Suc (count_list (k_trace k) (Delete_queue q)) \<le> count_list (k_trace k') (Delete_queue q)"
proof -
  have mono: "recreate_queues lwm 0 i qs k = (qs', k') \<Longrightarrow>
      count_list (k_trace k) (Delete_queue q) \<le> count_list (k_trace k') (Delete_queue q)" for i qs k qs' k'
  proof (induction qs arbitrary: i k qs' k')
    case (Cons p ps)
    let ?k = "delete_if Delete_queue p k"
    obtain h k2 where h: "(if int i = lwm then create_queue mainQUEUE_LENGTH sizeof_ptr ?k else (p, ?k)) = (h, k2)"
      by (cases "if int i = lwm then create_queue mainQUEUE_LENGTH sizeof_ptr ?k else (p, ?k)")
    obtain hs k3 where r: "recreate_queues lwm 0 (Suc i) ps k2 = (hs, k3)" by (cases "recreate_queues lwm 0 (Suc i) ps k2")
    have "count_list (k_trace k) (Delete_queue q) \<le> count_list (k_trace k2) (Delete_queue q)"
      using h count_create_queue [of _ _ ?k h k2 q] by (auto simp: count_delete_if split: if_splits)
    also have "\<dots> \<le> count_list (k_trace k3) (Delete_queue q)" by (rule Cons.IH [OF r])
    finally show ?case using Cons.prems h r by (auto simp: Let_def split: if_splits)
  qed simp
  show ?thesis
    using assms
  proof (induction qs arbitrary: i k qs' k' j)
    case (Cons p ps)
    let ?k = "delete_if Delete_queue p k"
    obtain h k2 where h: "(if int i = lwm then create_queue mainQUEUE_LENGTH sizeof_ptr ?k else (p, ?k)) = (h, k2)"
      by (cases "if int i = lwm then create_queue mainQUEUE_LENGTH sizeof_ptr ?k else (p, ?k)")
    obtain hs k3 where r: "recreate_queues lwm 0 (Suc i) ps k2 = (hs, k3)" by (cases "recreate_queues lwm 0 (Suc i) ps k2")
    have e: "qs' = h # hs" "k' = k3" using Cons.prems(1) h r by (auto simp: Let_def split: if_splits)
    have c: "count_list (k_trace k2) (Delete_queue q) =
        count_list (k_trace k) (Delete_queue q) + (if p = q then 1 else 0)"
      using h count_create_queue [of _ _ ?k h k2 q] Cons.prems(5)
      by (auto simp: count_delete_if split: if_splits)
    show ?case
    proof (cases j)
      case 0
      then show ?thesis using Cons.prems c mono [OF r] e h by simp
    next
      case (Suc l)
      have "l < length hs \<and> hs ! l = q \<and>
          Suc (count_list (k_trace k2) (Delete_queue q)) \<le> count_list (k_trace k3) (Delete_queue q)"
        using Cons.prems Suc by (intro Cons.IH [OF r]) auto
      with Suc e c show ?thesis by simp
    qed
  qed simp
qed

text \<open>
  A task whose item size is 0 keeps the handles of the data queues deleted when it is
  switched off, so switching it off again deletes the same queue a second time.
\<close>

theorem off_twice_deletes_twice:
  assumes "input_item_size t = 0" "j < length (input_queues t)" "int j \<noteq> lwmsg_input_port t"
    and "input_queues t ! j = q" "q \<noteq> 0" "task_off t k = (t1, k1)" "task_off t1 k1 = (t2, k2)"
  shows "count_list (k_trace k2) (Delete_queue q) \<ge> count_list (k_trace k) (Delete_queue q) + 2"
proof -
  have one: "input_item_size t' = 0 \<and> lwmsg_input_port t' = lwmsg_input_port t \<and> j < length (input_queues t') \<and>
      input_queues t' ! j = q \<and> Suc (count_list (k_trace k) (Delete_queue q)) \<le> count_list (k_trace k') (Delete_queue q)"
    if "task_off t k = (t', k')" "input_item_size t = 0" "j < length (input_queues t)" "int j \<noteq> lwmsg_input_port t"
      "input_queues t ! j = q" for t t' k k'
  proof -
    let ?k = "delete_if Delete_task (task_t t) k"
    obtain qs k3 where r: "recreate_queues (lwmsg_input_port t) 0 0 (input_queues t) ?k = (qs, k3)"
      by (cases "recreate_queues (lwmsg_input_port t) 0 0 (input_queues t) ?k")
    from recreate_queues_keeps [OF r, of j q] that assms(5) r show ?thesis
      by (auto simp: task_off_def Let_def count_delete_if split: prod.splits)
  qed
  from one [OF assms(6,1-4)] one [OF assms(7)] assms(3) show ?thesis by fastforce
qed

lemma off_twice_deletes_twice_witness:
  "\<exists>t1 k1 t2 k2. task_off ((example_task 1 ''a'' True CREATED)\<lparr>input_queues := [7]\<rparr>) example_kernel = (t1, k1) \<and>
     task_off t1 k1 = (t2, k2) \<and> 2 \<le> count_list (k_trace k2) (Delete_queue 7)"
proof -
  let ?t = "(example_task 1 ''a'' True CREATED)\<lparr>input_queues := [7]\<rparr>"
  obtain t1 k1 where 1: "task_off ?t example_kernel = (t1, k1)" by (cases "task_off ?t example_kernel")
  obtain t2 k2 where 2: "task_off t1 k1 = (t2, k2)" by (cases "task_off t1 k1")
  from off_twice_deletes_twice [OF _ _ _ _ _ 1 2, of 0 7] 1 2 show ?thesis
    by (simp add: example_task_def)
qed

end
