(* ===== verification/ServiceRegistry.thy ===== *)
theory ServiceRegistry
  imports ServiceLife
begin

text \<open>
  The services of the device (the static list \<^verbatim>\<open>_mservices\<close>, the newest first), the
  messages that describe them, and what the lookups by name, index and parameter return.
\<close>

section \<open>The list of services\<close>

record registry =
  services :: "micro_service list"
  device_registered :: bool

definition set_device_is_registered :: "bool \<Rightarrow> registry \<Rightarrow> registry" where
  "set_device_is_registered b r = r\<lparr>device_registered := b\<rparr>"

definition get_device_is_registered :: "registry \<Rightarrow> bool" where
  "get_device_is_registered r = device_registered r"

definition init_mservices :: "registry \<Rightarrow> registry" where
  "init_mservices r = r\<lparr>services := []\<rparr>"

definition add_micro_service :: "micro_service option \<Rightarrow> registry \<Rightarrow> bool \<times> registry" where
  "add_micro_service ms r = (case ms of
      None \<Rightarrow> (False, r)
    | Some ms \<Rightarrow> (True, r\<lparr>services := ms # services r\<rparr>))"

definition get_micro_service_info_by_id :: "cstring_ptr \<Rightarrow> registry \<Rightarrow> micro_service option" where
  "get_micro_service_info_by_id i r = (case i of
      None \<Rightarrow> None
    | Some i \<Rightarrow> (if i = [] then None else find (\<lambda>ms. ms_id ms = i) (services r)))"

section \<open>Messages about the device\<close>

definition make_device_registration_lwmsg :: "32 word \<Rightarrow> cstring_ptr \<Rightarrow> registry \<Rightarrow> lwm_message" where
  "make_device_registration_lwmsg ifid dri r =
     set_body ''mis'' (LWM_Array (fold (\<lambda>ms xs. new_lwm_string_object (Some (ms_id ms)) # xs) (services r) []))
       (new_lwm_req_message ifid dri None)"

text \<open>Describing a service that does not run: it is created for it and deleted afterwards.\<close>

definition described_service ::
  "create_fn \<Rightarrow> (micro_service \<Rightarrow> 'a res) \<Rightarrow> micro_service \<Rightarrow> kernel \<Rightarrow> ('a \<times> micro_service \<times> kernel) res" where
  "described_service create f ms k =
     (if ms_state ms = RUNNING then rbind (f ms) (\<lambda>x. Inr (x, ms, k))
      else (let (ms, k) = create ms k
            in rbind (f ms) (\<lambda>x. let (_, ms, k) = del_micro_service ms k in Inr (x, ms, k))))"

fun describe_services ::
  "create_fn \<Rightarrow> (micro_service \<Rightarrow> 'a res) \<Rightarrow> micro_service list \<Rightarrow> kernel \<Rightarrow> ('a list \<times> micro_service list \<times> kernel) res" where
  "describe_services create f [] k = Inr ([], [], k)"
| "describe_services create f (ms # mss) k =
     rbind (described_service create f ms k) (\<lambda>(x, ms, k).
     rbind (describe_services create f mss k) (\<lambda>(xs, mss, k). Inr (x # xs, ms # mss, k)))"

definition service_outputs :: "micro_service \<Rightarrow> lwm_object res" where
  "service_outputs ms =
     rbind (find_last_task_link (init_task_state ms) (task_link_head ms)) (\<lambda>r.
       let dop = (case r of None \<Rightarrow> []
                  | Some p \<Rightarrow> (case link_at p (task_link_head ms) of None \<Rightarrow> []
                      | Some l \<Rightarrow> [new_lwm_string_object (Some (output_param_name l))]));
           dmi = dict_put [] ''mi'' (new_lwm_string_object (Some (ms_id ms)));
           dmi = (if 0 < node_num dop then dict_put dmi ''ops'' (LWM_Array dop) else dmi)
       in Inr (LWM_Dictionary dmi))"

definition make_device_information_lwmsg ::
  "create_fn \<Rightarrow> 32 word \<Rightarrow> cstring_ptr \<Rightarrow> cstring_ptr \<Rightarrow> registry \<Rightarrow> kernel \<Rightarrow> (lwm_message \<times> registry \<times> kernel) res" where
  "make_device_information_lwmsg create ifid dri di r k =
     rbind (describe_services create service_outputs (services r) k) (\<lambda>(xs, mss, k).
       Inr (set_body ''mif'' (LWM_Array (rev xs)) (new_lwm_req_message ifid dri di), r\<lparr>services := mss\<rparr>, k))"

definition add_param_value :: "lwm_dict \<Rightarrow> parameter \<Rightarrow> lwm_dict res" where
  "add_param_value d p = rbind (new_lwm_object_from_type_value (p_type p) (p_value p)) (\<lambda>v.
     Inr (case v of None \<Rightarrow> d | Some v \<Rightarrow> dict_put d (p_alias p) v))"

text \<open>The description of a task: its index, whether it can be offloaded, and its parameters.\<close>

definition task_description :: "task_info \<Rightarrow> lwm_object res" where
  "task_description ti =
     rbind (rfold add_param_value (static_params ti) []) (\<lambda>dsp.
     rbind (rfold add_param_value (flexible_params ti) []) (\<lambda>dfp.
       let dti = (case set_lwm_int (Some (new_lwm_empty_object eLWM_Number)) (of_nat (task_idx ti)) of
                    None \<Rightarrow> [] | Some v \<Rightarrow> dict_put [] ''ti'' v);
           dti = dict_put dti ''to'' (new_lwm_string_object (Some (if offloading ti then ''TRUE'' else ''FALSE'')));
           dti = (if 0 < node_num dsp then dict_put dti ''sp'' (LWM_Dictionary dsp) else dti);
           dti = (if 0 < node_num dfp then dict_put dti ''fp'' (LWM_Dictionary dfp) else dti)
       in Inr (LWM_Dictionary dti)))"

definition add_task_description :: "lwm_object list \<Rightarrow> task_info \<Rightarrow> lwm_object list res" where
  "add_task_description xs ti =
     (if add_task_list ti then rbind (task_description ti) (\<lambda>d. Inr (d # xs)) else Inr xs)"

definition make_device_information_lwmsg2 ::
  "create_fn \<Rightarrow> cstring_ptr \<Rightarrow> 32 word \<Rightarrow> registry \<Rightarrow> kernel \<Rightarrow> (lwm_message \<times> registry \<times> kernel) res" where
  "make_device_information_lwmsg2 create dri rsc r k =
     rbind (describe_services create (\<lambda>ms. rfold add_task_description (tasks ms) []) (services r) k)
       (\<lambda>(xs, mss, k).
         Inr (set_body ''tif'' (LWM_Array (concat (rev xs))) (new_lwm_resp_message dri rsc), r\<lparr>services := mss\<rparr>, k))"

section \<open>Properties\<close>

definition reset_by_description :: "micro_service \<Rightarrow> micro_service \<Rightarrow> bool" where
  "reset_by_description ms ms' \<longleftrightarrow> (if ms_state ms = RUNNING then ms' = ms
     else ms_state ms' = NOT_READY \<and> task_link_head ms' = None \<and> current_task_link ms' = None)"

lemma describe_services_reset:
  "describe_services create f mss k = Inr (xs, mss', k') \<Longrightarrow> list_all2 reset_by_description mss mss'"
proof (induction create f mss k arbitrary: xs mss' k' rule: describe_services.induct)
  case (2 create f ms mss k)
  then obtain x ms1 k1 ys mss1 where d: "described_service create f ms k = Inr (x, ms1, k1)"
      "describe_services create f mss k1 = Inr (ys, mss1, k')" "mss' = ms1 # mss1"
    by (auto split: prod.splits)
  have "reset_by_description ms ms1"
    using d(1) by (auto simp: described_service_def reset_by_description_def del_micro_service_def
        release_service_def Let_def split_beta split: if_splits)
  with 2 d show ?case by auto
qed simp

text \<open>
  Building a message about the device puts every service that is not running back to
  \<^verbatim>\<open>NOT_READY\<close> and drops its links, also the ones that were created or stopped;
  running services are left alone.
\<close>

theorem describing_resets_services:
  assumes "make_device_information_lwmsg create ifid dri di r k = Inr (m, r', k') \<or>
    make_device_information_lwmsg2 create dri rsc r k = Inr (m, r', k')"
  shows "list_all2 reset_by_description (services r) (services r')"
  using assms
proof
  assume "make_device_information_lwmsg create ifid dri di r k = Inr (m, r', k')"
  then obtain xs where "describe_services create service_outputs (services r) k = Inr (xs, services r', k')"
    by (auto simp: make_device_information_lwmsg_def split: prod.splits)
  then show ?thesis by (rule describe_services_reset)
next
  assume "make_device_information_lwmsg2 create dri rsc r k = Inr (m, r', k')"
  then obtain xs where "describe_services create (\<lambda>ms. rfold add_task_description (tasks ms) []) (services r) k
      = Inr (xs, services r', k')"
    by (auto simp: make_device_information_lwmsg2_def split: prod.splits)
  then show ?thesis by (rule describe_services_reset)
qed

definition example_registry :: registry where
  "example_registry = \<lparr>services = [(make_ms ''led'' ''ms1'')\<lparr>ms_state := CREATED\<rparr>], device_registered = True\<rparr>"

lemma describing_resets_services_witness:
  "\<exists>m r k. make_device_information_lwmsg2 (\<lambda>ms k. (ms, k)) (Some ''7'') 200 example_registry example_kernel = Inr (m, r, k) \<and>
     map ms_state (services r) = [NOT_READY]"
proof -
  obtain m r k where r: "make_device_information_lwmsg2 (\<lambda>ms k. (ms, k)) (Some ''7'') 200 example_registry example_kernel
      = Inr (m, r, k)"
    by (simp add: make_device_information_lwmsg2_def example_registry_def described_service_def make_ms_def
        split_beta Let_def del: rbind_eq_Inr)
  from describing_resets_services [of "\<lambda>ms k. (ms, k)" 0 "Some ''7''" None example_registry example_kernel m r k 200] r
  show ?thesis by (auto simp: example_registry_def reset_by_description_def list_all2_Cons1 make_ms_def)
qed

lemma fold_Cons_map: "fold (\<lambda>x. (#) (f x)) xs ys = rev (map f xs) @ ys"
  by (induction xs arbitrary: ys) auto

text \<open>
  The registration message lists the identifiers of all services, the oldest first, and a
  lookup by identifier finds the service added last under it.
\<close>

theorem registration_lists_services:
  "dict_lookup (body (make_device_registration_lwmsg ifid dri r)) ''mis'' =
     Some (LWM_Array (map (\<lambda>ms. LWM_String (Some (ms_id ms))) (rev (services r)))) \<and>
   get_lwm_interface_id (make_device_registration_lwmsg ifid dri r) = Inr ifid \<and>
   get_lwm_dri (make_device_registration_lwmsg ifid dri r) = dri \<and>
   get_micro_service_info_by_id (Some i) (snd (add_micro_service (Some ms) r)) =
     (if i \<noteq> [] \<and> ms_id ms = i then Some ms else get_micro_service_info_by_id (Some i) r)"
  by (cases dri)
    (simp_all add: make_device_registration_lwmsg_def set_body_def dict_put_def new_lwm_string_object_def
      fold_Cons_map rev_map new_lwm_req_message_def new_lwm_empty_message_def set_header_def
      get_lwm_interface_id_def get_lwm_dri_def lwm_u32_def load_u32_bytes Let_def
      get_micro_service_info_by_id_def add_micro_service_def)

text \<open>
  With a name that is not empty a parameter is found by its name or its alias. Looking one
  up by its alias alone, which the comment of the function allows, reads through the NULL name;
  so does an empty name without an alias. A list of 256 parameters counts as empty.
\<close>

theorem parameter_lookup:
  "get_parameter_from_param_list (Some ps) (Some (c # n)) al =
     Inr (if length ps mod 256 = 0 then None
          else find (\<lambda>p. p_name p = c # n \<or> al = Some (p_alias p)) ps) \<and>
   get_parameter_from_param_list (Some ps) None (Some a) =
     (if length ps mod 256 = 0 then Inr None else Inl Null_deref) \<and>
   get_parameter_from_param_list (Some ps) (Some []) None =
     (if length ps mod 256 = 0 then Inr None else Inl Null_deref) \<and>
   get_parameter_from_param_list (Some ps) None None = Inr None"
  by (auto simp: get_parameter_from_param_list_def param_names_empty_def node_num_def
      intro!: arg_cong [of _ _ "\<lambda>P. find P ps"])

section \<open>The index of a task\<close>

definition idx_ok :: "task_info list \<Rightarrow> bool" where
  "idx_ok ts \<longleftrightarrow> map task_idx ts = rev [0..<length ts]"

lemma find_distinct_key: "distinct (map f ts) \<Longrightarrow> t \<in> set ts \<Longrightarrow> find (\<lambda>x. f x = f t) ts = Some t"
  by (induction ts) (auto simp: rev_image_eqI)

lemma idx_ok_lookup:
  assumes "idx_ok (tasks ms)" "length (tasks ms) < 256" "i < 2 ^ 32 - 1"
  shows "get_task_info_by_idx (Some ms) i =
    (if i < length (tasks ms) then Some (rev (tasks ms) ! i) else None)"
proof (cases "i < length (tasks ms)")
  case True
  let ?t = "rev (tasks ms) ! i"
  have "map task_idx (rev (tasks ms)) = [0..<length (tasks ms)]"
    using assms(1) by (simp add: idx_ok_def rev_map [symmetric])
  then have "task_idx ?t = i" using True by (metis length_rev nth_map nth_upt add_0)
  moreover have "distinct (map task_idx (tasks ms))" using assms(1) by (simp add: idx_ok_def)
  moreover have "?t \<in> set (tasks ms)" using True by (metis length_rev nth_mem set_rev)
  ultimately have "find (\<lambda>t. task_idx t = i) (tasks ms) = Some ?t"
    using find_distinct_key [of task_idx "tasks ms" ?t] by simp
  with True assms(2,3) show ?thesis by (simp add: get_task_info_by_idx_def node_num_def)
next
  case False
  with assms(2,3) show ?thesis by (simp add: get_task_info_by_idx_def node_num_def)
qed

text \<open>
  Tasks are numbered from 0 in the order they are added, and below 256 tasks a lookup by
  index returns the task with that number.
\<close>

theorem task_index_lookup:
  assumes "idx_ok (tasks ms)" "length (tasks ms) < 255" "i < 2 ^ 32 - 1"
    and "add_new_task fp ini b a nm ins outs lwm ms k = (Some x, ms', k')"
  shows "idx_ok (tasks ms') \<and> length (tasks ms') = Suc (length (tasks ms)) \<and>
    get_task_info_by_idx (Some ms') i = (if i < length (tasks ms') then Some (rev (tasks ms') ! i) else None) \<and>
    map_option ti_addr (get_task_info_by_idx (Some ms') (length (tasks ms))) = Some x"
proof -
  obtain t where t: "ms' = ms\<lparr>tasks := t # tasks ms\<rparr>" "task_idx t = node_num (tasks ms)" "x = ti_addr t"
    using add_new_task_result [OF assms(4)] by auto
  have ok: "idx_ok (tasks ms')" using assms(1,2) t by (simp add: idx_ok_def node_num_def)
  have len: "length (tasks ms') < 256" using assms(2) t by simp
  have "length (tasks ms) < (2::nat) ^ 32 - 1" using assms(2) by simp
  from idx_ok_lookup [OF ok len this] idx_ok_lookup [OF ok len assms(3)] ok show ?thesis
    by (simp add: t nth_append)
qed

lemma task_index_lookup_witness:
  "\<exists>x ms k. add_new_task base_task_type1 None None None ''read'' 1 0 (- 1) (make_ms ''led'' ''ms1'') example_kernel
      = (Some x, ms, k) \<and> map_option ti_addr (get_task_info_by_idx (Some ms) 0) = Some x"
proof -
  obtain x ms k where a: "add_new_task base_task_type1 None None None ''read'' 1 0 (- 1) (make_ms ''led'' ''ms1'') example_kernel
      = (Some x, ms, k)"
    by (simp add: add_new_task_def new_addr_def Let_def)
  have l: "tasks (make_ms ''led'' ''ms1'') = []" by (simp add: make_ms_def)
  have "map_option ti_addr (get_task_info_by_idx (Some ms) 0) = Some x"
    using task_index_lookup [OF _ _ _ a, of 0, THEN conjunct2, THEN conjunct2, THEN conjunct2]
    by (simp add: l idx_ok_def)
  with a show ?thesis by blast
qed

end
