(* ===== verification/LwmDist.thy ===== *)
theory LwmDist
  imports ServiceRegistry
begin

text \<open>
  The task that carries out the requests of the server
  (\<^verbatim>\<open>SIFW/task_lwmsg_dist.c\<close>): one step takes a message from the receive queue,
  changes the services, and answers. What leaves the task is a list of events. A list that
  is read as one of another kind, and a task or a text that does not exist, are faults.
\<close>

section \<open>Text to double\<close>

text \<open>
  \<^verbatim>\<open>atof\<close> of the C library: a decimal number with a fraction and an exponent, a
  hexadecimal one with a binary exponent, infinity or NaN; the nearest double, ties to even.
\<close>

definition encode_double :: "bool \<Rightarrow> nat \<Rightarrow> nat \<Rightarrow> nat" where
  "encode_double neg n d =
     (let scaled = (\<lambda>E. (if E < 0 then (n * 2 ^ nat (- E), d) else (n, d * 2 ^ nat E)));
          E0 = max (- 1074) (int (bit_length n) - int (bit_length d) - 53);
          E = (case scaled E0 of (a, b) \<Rightarrow> if a div b < 2 ^ 53 then E0 else E0 + 1);
          q = (case scaled E of (a, b) \<Rightarrow>
                let c = a div b; r = a mod b in if b < 2 * r \<or> (2 * r = b \<and> odd c) then c + 1 else c);
          v = (if n = 0 then 0 else min 0x7FF0000000000000 (nat (E + 1074) * 2 ^ 52 + q))
      in (if neg then 2 ^ 63 else 0) + v)"

fun digit_value :: "nat \<Rightarrow> char \<Rightarrow> nat option" where
  "digit_value b c =
     (if isdigit c then Some (code c - 48)
      else if b = 16 \<and> 97 \<le> code c \<and> code c \<le> 102 then Some (code c - 87)
      else if b = 16 \<and> 65 \<le> code c \<and> code c \<le> 70 then Some (code c - 55)
      else None)"

text \<open>Digits: how many, their value, and what follows them.\<close>

fun read_digits :: "nat \<Rightarrow> nat \<Rightarrow> nat \<Rightarrow> string \<Rightarrow> nat \<times> nat \<times> string" where
  "read_digits b k v [] = (k, v, [])"
| "read_digits b k v (c # cs) = (case digit_value b c of
      None \<Rightarrow> (k, v, c # cs)
    | Some d \<Rightarrow> read_digits b (Suc k) (b * v + d) cs)"

definition read_exponent :: "char list \<Rightarrow> string \<Rightarrow> int" where
  "read_exponent marks s = (case s of
      [] \<Rightarrow> 0
    | m # s \<Rightarrow> (if m \<in> set marks then
        (case s of
           [] \<Rightarrow> 0
         | c # cs \<Rightarrow> (if c = CHR ''-'' then - int (fst (snd (read_digits 10 0 0 cs)))
                     else if c = CHR ''+'' then int (fst (snd (read_digits 10 0 0 cs)))
                     else int (fst (snd (read_digits 10 0 0 (c # cs))))))
        else 0))"

definition read_real :: "nat \<Rightarrow> nat \<Rightarrow> char list \<Rightarrow> bool \<Rightarrow> string \<Rightarrow> nat" where
  "read_real b eb marks neg s =
     (let (k, v, s) = read_digits b 0 0 s;
          (k2, v, s) = (case s of
             [] \<Rightarrow> (0, v, s)
           | c # cs \<Rightarrow> (if c = CHR ''.'' then read_digits b 0 v cs else (0, v, s)));
          e = read_exponent marks s
      in if k + k2 = 0 then encode_double neg 0 1
         else encode_double neg (v * (if 0 \<le> e then eb ^ nat e else 1))
           (b ^ k2 * (if e < 0 then eb ^ nat (- e) else 1)))"

definition lower :: "string \<Rightarrow> string" where
  "lower s = map (\<lambda>c. if 65 \<le> code c \<and> code c \<le> 90 then char_of (code c + 32) else c) s"

definition atof_abs :: "bool \<Rightarrow> string \<Rightarrow> nat" where
  "atof_abs neg s =
     (if take 3 (lower s) = ''inf'' then (if neg then 2 ^ 63 else 0) + 0x7FF0000000000000
      else if take 3 (lower s) = ''nan'' then (if neg then 2 ^ 63 else 0) + 0x7FF8000000000000
      else if take 2 (lower s) = ''0x'' then read_real 16 2 [CHR ''p'', CHR ''P''] neg (drop 2 s)
      else read_real 10 10 [CHR ''e'', CHR ''E''] neg s)"

definition atof :: "string \<Rightarrow> nat" where
  "atof s = (case dropWhile isspace s of
      [] \<Rightarrow> 0
    | c # cs \<Rightarrow> (if c = CHR ''-'' then atof_abs True cs
                else if c = CHR ''+'' then atof_abs False cs
                else atof_abs False (c # cs)))"

section \<open>State and answers\<close>

text \<open>
  A message put into the send queue, one put into the queue of a task, a request that is freed.
\<close>

datatype dist_event =
    Respond lwm_message
  | Forward nat lwm_message nat
  | Free_message lwm_message

record dist_state =
  d_registry :: registry
  d_kernel :: kernel
  d_events :: "dist_event list"

definition emit :: "dist_event \<Rightarrow> dist_state \<Rightarrow> dist_state" where
  "emit e st = st\<lparr>d_events := d_events st @ [e]\<rparr>"

fun put_service :: "cstring \<Rightarrow> micro_service \<Rightarrow> micro_service list \<Rightarrow> micro_service list" where
  "put_service i m [] = []"
| "put_service i m (ms # mss) = (if ms_id ms = i then m # mss else ms # put_service i m mss)"

text \<open>The service found under an identifier is replaced by its new state.\<close>

definition set_service :: "micro_service \<Rightarrow> micro_service \<Rightarrow> kernel \<Rightarrow> dist_state \<Rightarrow> dist_state" where
  "set_service old new k st = st\<lparr>d_kernel := k, d_registry := (d_registry st)
     \<lparr>services := put_service (ms_id old) new (services (d_registry st))\<rparr>\<rparr>"

definition find_service :: "lwm_object \<Rightarrow> dist_state \<Rightarrow> micro_service option" where
  "find_service o' st = get_micro_service_info_by_id (get_lwm_string_value (Some o')) (d_registry st)"

text \<open>The items of the array \<^verbatim>\<open>mis\<close>, none when it is not there or not an array.\<close>

definition body_array :: "cstring \<Rightarrow> lwm_message \<Rightarrow> lwm_object list option" where
  "body_array k m = (case dict_lookup (body m) k of Some (LWM_Array xs) \<Rightarrow> Some xs | _ \<Rightarrow> None)"

text \<open>\<^verbatim>\<open>size_t tidx = atoi(...)\<close>\<close>

definition object_index :: "lwm_object \<Rightarrow> nat res" where
  "object_index o' = rbind (deref (get_lwm_string_value (Some o'))) (\<lambda>s. Inr (nat (atoi s mod 2 ^ 32)))"

abbreviation "eLWM_RSC_SUCCESS \<equiv> (200::nat)"
abbreviation "eLWM_RSC_BAD_REQ \<equiv> (400::nat)"
abbreviation "eLWM_RSC_FORBIDDEN \<equiv> (403::nat)"
abbreviation "eLWM_RSC_NOTFOUND \<equiv> (404::nat)"
abbreviation "eLWM_RSC_NOMCMSG \<equiv> (405::nat)"

abbreviation "eLWM_IF_DEV_TASK_INFO_REQUEST \<equiv> (3::int)"
abbreviation "eLWM_IF_MS_CREATION \<equiv> (10::int)"
abbreviation "eLWM_IF_MS_RUN \<equiv> (11::int)"
abbreviation "eLWM_IF_MS_OUTPUT_PARAM_READ \<equiv> (13::int)"
abbreviation "eLWM_IF_MS_STOP \<equiv> (15::int)"
abbreviation "eLWM_IF_MS_DELETE \<equiv> (16::int)"
abbreviation "eLWM_IF_TASK_ON \<equiv> (20::int)"
abbreviation "eLWM_IF_TASK_PARAM_SET \<equiv> (21::int)"
abbreviation "eLWM_IF_TASK_PARAM_READ \<equiv> (22::int)"
abbreviation "eLWM_IF_TASK_PARAM_READ_ALL \<equiv> (23::int)"
abbreviation "eLWM_IF_TASK_OFF \<equiv> (24::int)"

text \<open>A loop that may be left early: \<open>True\<close> means it was.\<close>

fun rfold_until :: "('s \<Rightarrow> 'a \<Rightarrow> (bool \<times> 's) res) \<Rightarrow> 'a list \<Rightarrow> 's \<Rightarrow> (bool \<times> 's) res" where
  "rfold_until f [] s = Inr (False, s)"
| "rfold_until f (x # xs) s = rbind (f s x) (\<lambda>(b, s). if b then Inr (True, s) else rfold_until f xs s)"

section \<open>Creating, running, stopping and deleting services\<close>

definition ms_operation :: "create_fn \<Rightarrow> init_handler \<Rightarrow> int \<Rightarrow> micro_service \<Rightarrow> kernel \<Rightarrow> ms_result res" where
  "ms_operation create init ifid ms k =
     (if ifid = eLWM_IF_MS_CREATION then Inr (create_micro_service create ms k)
      else if ifid = eLWM_IF_MS_RUN then run_micro_service init ms k
      else if ifid = eLWM_IF_MS_STOP then Inr (stop_micro_service create ms k)
      else if ifid = eLWM_IF_MS_DELETE then Inr (del_micro_service ms k)
      else Inl Null_deref)"

definition operation_step ::
  "create_fn \<Rightarrow> init_handler \<Rightarrow> int \<Rightarrow> nat \<times> dist_state \<Rightarrow> lwm_object \<Rightarrow> (nat \<times> dist_state) res" where
  "operation_step create init ifid = (\<lambda>(rsc, st) x. case find_service x st of
      None \<Rightarrow> Inr (eLWM_RSC_NOTFOUND, st)
    | Some ms \<Rightarrow> rbind (ms_operation create init ifid ms (d_kernel st)) (\<lambda>(ok, ms', k).
        Inr (if ok then eLWM_RSC_SUCCESS else rsc, set_service ms ms' k st)))"

definition lwmsg_operation ::
  "create_fn \<Rightarrow> init_handler \<Rightarrow> int \<Rightarrow> lwm_message \<Rightarrow> dist_state \<Rightarrow> (nat \<times> dist_state) res" where
  "lwmsg_operation create init ifid m st = (case body_array ''mis'' m of
      None \<Rightarrow> Inr (eLWM_RSC_BAD_REQ, st)
    | Some xs \<Rightarrow> rfold (operation_step create init ifid) xs (eLWM_RSC_BAD_REQ, st))"

section \<open>Setting parameters\<close>

text \<open>
  The bytes copied from the local variable of each type; for a text it is the address of the
  string itself (\<open>addr\<close>). \<^verbatim>\<open>double_value\<close> is read for the type float only.
\<close>

definition parameter_source :: "(cstring_ptr \<Rightarrow> nat) \<Rightarrow> param_type \<Rightarrow> cstring_ptr \<Rightarrow> byte list option res" where
  "parameter_source addr t str =
     (if IS_DECIMAL t then rbind (deref str) (\<lambda>s.
        let bytes = (\<lambda>n. Some (le_bytes n (nat (atoi s mod 2 ^ 32)))) in
        Inr (if t = eP_INT8 \<or> t = eP_UINT8 then bytes 1
             else if t = eP_INT16 \<or> t = eP_UINT16 then bytes 2
             else if t = eP_INT32 \<or> t = eP_UINT32 then bytes 4
             else None))
      else if t = eP_FLOAT then rbind (deref str) (\<lambda>s. Inr (Some (le_bytes 4 (single_of_double (atof s)))))
      else if t = eP_DOUBLE then Inr (Some (le_bytes 8 0))
      else if t = eP_STRING then Inr (Some (le_bytes sizeof_ptr (addr str)))
      else Inr None)"

definition parameter_set_by_string :: "(cstring_ptr \<Rightarrow> nat) \<Rightarrow> parameter \<Rightarrow> cstring_ptr \<Rightarrow> parameter res" where
  "parameter_set_by_string addr p str =
     rbind (parameter_source addr (p_type p) str) (\<lambda>src. case src of
       None \<Rightarrow> Inr p
     | Some bs \<Rightarrow> param_with_init_value p (Some bs))"

text \<open>The value of a dictionary or an array, for the loops that do not test which it is.\<close>

definition as_dict :: "lwm_object \<Rightarrow> lwm_dict res" where
  "as_dict x = (case x of
      LWM_Dictionary d \<Rightarrow> Inr d
    | LWM_Array [] \<Rightarrow> Inr []
    | LWM_Unknown \<Rightarrow> Inl Null_deref
    | LWM_String None \<Rightarrow> Inl Null_deref
    | LWM_Number None \<Rightarrow> Inl Null_deref
    | _ \<Rightarrow> Inl Out_of_bounds)"

definition as_array :: "lwm_object \<Rightarrow> lwm_object list res" where
  "as_array x = (case x of
      LWM_Array xs \<Rightarrow> Inr xs
    | LWM_Dictionary [] \<Rightarrow> Inr []
    | LWM_Unknown \<Rightarrow> Inl Null_deref
    | LWM_String None \<Rightarrow> Inl Null_deref
    | LWM_Number None \<Rightarrow> Inl Null_deref
    | _ \<Rightarrow> Inl Out_of_bounds)"

definition update_param :: "parameter \<Rightarrow> parameter \<Rightarrow> parameter list \<Rightarrow> parameter list" where
  "update_param old new ps = (case List.extract (\<lambda>p. p = old) ps of
      None \<Rightarrow> ps | Some (us, _, vs) \<Rightarrow> us @ new # vs)"

text \<open>One pair of \<^verbatim>\<open>fp\<close>: the flag tells whether some parameter was found so far.\<close>

definition param_set_step ::
  "(cstring_ptr \<Rightarrow> nat) \<Rightarrow> bool \<times> task_info option \<Rightarrow> cstring \<times> lwm_object \<Rightarrow> (bool \<times> task_info option) res" where
  "param_set_step addr = (\<lambda>(found, ti) (k, v). rbind (deref ti) (\<lambda>t.
     rbind (get_parameter_from_param_list (Some (flexible_params t)) None (Some k)) (\<lambda>r. case r of
       None \<Rightarrow> Inr (found, Some t)
     | Some p \<Rightarrow> rbind (parameter_set_by_string addr p (get_lwm_string_value (Some v))) (\<lambda>p'.
         Inr (True, Some (t\<lparr>flexible_params := update_param p p' (flexible_params t)\<rparr>))))))"

text \<open>One item of \<^verbatim>\<open>tis\<close>; without \<^verbatim>\<open>fp\<close> the function returns.\<close>

definition param_set_task ::
  "(cstring_ptr \<Rightarrow> nat) \<Rightarrow> lwm_message \<Rightarrow> nat \<times> bool \<times> micro_service \<Rightarrow> lwm_object
    \<Rightarrow> (bool \<times> nat \<times> bool \<times> micro_service) res" where
  "param_set_task addr m = (\<lambda>(rsc, found, ms) x. case dict_lookup (body m) ''fp'' of
      None \<Rightarrow> Inr (True, eLWM_RSC_BAD_REQ, found, ms)
    | Some fp \<Rightarrow> rbind (object_index x) (\<lambda>i. rbind (as_dict fp) (\<lambda>d.
        rbind (rfold (param_set_step addr) d (found, get_task_info_by_idx (Some ms) i)) (\<lambda>(found, ti).
          let ms = (case ti of None \<Rightarrow> ms | Some t \<Rightarrow> update_task (ti_addr t) (\<lambda>_. t) ms)
          in Inr (False, if found then eLWM_RSC_SUCCESS else eLWM_RSC_NOTFOUND, found, ms)))))"

definition param_set_service ::
  "(cstring_ptr \<Rightarrow> nat) \<Rightarrow> lwm_message \<Rightarrow> nat \<times> dist_state \<Rightarrow> lwm_object \<Rightarrow> (bool \<times> nat \<times> dist_state) res" where
  "param_set_service addr m = (\<lambda>(rsc, st) x. case find_service x st of
      None \<Rightarrow> Inr (False, rsc, st)
    | Some ms \<Rightarrow> (case body_array ''tis'' m of
        None \<Rightarrow> Inr (False, eLWM_RSC_BAD_REQ, st)
      | Some ts \<Rightarrow> rbind (rfold_until (param_set_task addr m) ts (rsc, False, ms)) (\<lambda>(ret, rsc, _, ms').
          Inr (ret, rsc, set_service ms ms' (d_kernel st) st))))"

definition lwmsg_param_set ::
  "(cstring_ptr \<Rightarrow> nat) \<Rightarrow> lwm_message \<Rightarrow> dist_state \<Rightarrow> (nat \<times> dist_state) res" where
  "lwmsg_param_set addr m st = (case body_array ''mis'' m of
      None \<Rightarrow> Inr (eLWM_RSC_BAD_REQ, st)
    | Some xs \<Rightarrow> (if node_num xs = 1
        then rbind (rfold_until (param_set_service addr m) xs (eLWM_RSC_BAD_REQ, st)) (\<lambda>(_, r). Inr r)
        else Inr (eLWM_RSC_BAD_REQ, st)))"

section \<open>Reading parameters\<close>

text \<open>All parameters of a task, answered at once.\<close>

definition read_all_params :: "cstring_ptr \<Rightarrow> task_info option \<Rightarrow> lwm_message res" where
  "read_all_params dri ti = rbind (deref ti) (\<lambda>t.
     rbind (rfold add_param_value (flexible_params t) []) (\<lambda>fp.
     rbind (rfold add_param_value (static_params t) []) (\<lambda>sp.
       Inr (set_body ''sp'' (LWM_Dictionary sp) (set_body ''fp'' (LWM_Dictionary fp)
         (new_lwm_resp_message dri (of_nat eLWM_RSC_SUCCESS)))))))"

text \<open>One name of \<^verbatim>\<open>fps\<close> or \<^verbatim>\<open>sps\<close>; the flag is about the last name only.\<close>

definition param_read_step ::
  "bool \<Rightarrow> task_info option \<Rightarrow> bool \<times> lwm_dict \<Rightarrow> lwm_object \<Rightarrow> (bool \<times> lwm_dict) res" where
  "param_read_step flexible ti = (\<lambda>(found, d) x. rbind (deref ti) (\<lambda>t.
     rbind (get_parameter_from_param_list
         (Some (if flexible then flexible_params t else static_params t)) None (get_lwm_string_value (Some x)))
       (\<lambda>r. case r of
          None \<Rightarrow> Inr (False, d)
        | Some p \<Rightarrow> rbind (add_param_value d p) (\<lambda>d. Inr (True, d)))))"

definition param_read_task ::
  "int \<Rightarrow> cstring_ptr \<Rightarrow> lwm_message \<Rightarrow> micro_service \<Rightarrow> nat \<times> dist_state \<Rightarrow> lwm_object \<Rightarrow> (nat \<times> dist_state) res" where
  "param_read_task ifid dri m ms = (\<lambda>(rsc, st) x.
     rbind (object_index x) (\<lambda>i.
       let ti = get_task_info_by_idx (Some ms) i;
           cfp = dict_lookup (body m) ''fps'';
           csp = dict_lookup (body m) ''sps''
       in if ifid = eLWM_IF_TASK_PARAM_READ_ALL
          then rbind (read_all_params dri ti) (\<lambda>r. Inr (300, emit (Respond r) st))
          else rbind (case cfp of Some l \<Rightarrow> as_array l | None \<Rightarrow> rbind (deref csp) as_array) (\<lambda>names.
            rbind (rfold (param_read_step (cfp \<noteq> None) ti) names (False, [])) (\<lambda>(found, d).
              if found
              then Inr (300, emit (Respond (set_body (if cfp \<noteq> None then ''fp'' else ''sp'') (LWM_Dictionary d)
                     (new_lwm_resp_message dri (of_nat eLWM_RSC_SUCCESS)))) st)
              else Inr (eLWM_RSC_NOTFOUND, st)))))"

definition param_read_service ::
  "int \<Rightarrow> cstring_ptr \<Rightarrow> lwm_message \<Rightarrow> nat \<times> dist_state \<Rightarrow> lwm_object \<Rightarrow> (bool \<times> nat \<times> dist_state) res" where
  "param_read_service ifid dri m = (\<lambda>(rsc, st) x. case find_service x st of
      None \<Rightarrow> Inr (False, eLWM_RSC_NOTFOUND, st)
    | Some ms \<Rightarrow>
        (if ms_state ms \<noteq> RUNNING then Inr (False, eLWM_RSC_FORBIDDEN, st)
         else case body_array ''tis'' m of
           None \<Rightarrow> Inr (True, rsc, st)
         | Some ts \<Rightarrow>
             (if node_num ts \<noteq> 1 \<or> (dict_lookup (body m) ''fps'' \<noteq> None \<and> dict_lookup (body m) ''sps'' \<noteq> None)
              then Inr (True, rsc, st)
              else rbind (rfold (param_read_task ifid dri m ms) ts (rsc, st)) (\<lambda>r. Inr (False, r)))))"

definition lwmsg_param_read ::
  "int \<Rightarrow> cstring_ptr \<Rightarrow> lwm_message \<Rightarrow> dist_state \<Rightarrow> (nat \<times> dist_state) res" where
  "lwmsg_param_read ifid dri m st = (case body_array ''mis'' m of
      None \<Rightarrow> Inr (eLWM_RSC_BAD_REQ, st)
    | Some xs \<Rightarrow> (if node_num xs = 1
        then rbind (rfold_until (param_read_service ifid dri m) xs (eLWM_RSC_BAD_REQ, st)) (\<lambda>(_, r). Inr r)
        else Inr (eLWM_RSC_BAD_REQ, st)))"

section \<open>Reading outputs\<close>

text \<open>Every task with a port for messages gets a new request.\<close>

definition forward_to_task :: "int \<Rightarrow> cstring_ptr \<Rightarrow> dist_state \<Rightarrow> task_info \<Rightarrow> dist_state res" where
  "forward_to_task ifid dri st t =
     (if 0 \<le> lwmsg_input_port t
      then (if nat (lwmsg_input_port t) < length (input_queues t)
            then Inr (emit (Forward (input_queues t ! nat (lwmsg_input_port t))
                   (new_lwm_req_message (of_int ifid) dri None) (task_t t)) st)
            else Inl Out_of_bounds)
      else Inr st)"

text \<open>The answer with the value of the output; without a value nothing is sent.\<close>

definition answer_output :: "cstring_ptr \<Rightarrow> micro_service \<Rightarrow> dist_state \<Rightarrow> (nat \<times> dist_state) res" where
  "answer_output dri ms st =
     (let p = output_param ms in case p_value p of
        None \<Rightarrow> Inr (300, st)
      | Some _ \<Rightarrow> rbind (new_lwm_object_from_type_value (p_type p) (p_value p)) (\<lambda>v.
          let d = (case v of None \<Rightarrow> [] | Some v \<Rightarrow> dict_put [] (p_name p) v)
          in Inr (300, emit (Respond (set_body ''op'' (LWM_Dictionary d)
               (new_lwm_resp_message dri (of_nat eLWM_RSC_SUCCESS)))) st)))"

definition output_read_step ::
  "int \<Rightarrow> cstring_ptr \<Rightarrow> nat \<times> dist_state \<Rightarrow> lwm_object \<Rightarrow> (nat \<times> dist_state) res" where
  "output_read_step ifid dri = (\<lambda>(rsc, st) x. case find_service x st of
      None \<Rightarrow> Inr (eLWM_RSC_NOTFOUND, st)
    | Some ms \<Rightarrow>
        (if ms_state ms \<noteq> RUNNING then Inr (eLWM_RSC_BAD_REQ, st)
         else rbind (deref dri) (\<lambda>dri'.
           if is_tasks_running (Some ms)
           then (if latest_dri ms = dri' then answer_output dri ms st else Inr (eLWM_RSC_BAD_REQ, st))
           else rbind (rfold (forward_to_task ifid dri) (tasks ms) st) (\<lambda>st.
             rbind (store_cstring (MS_MAX_NAME_LENGTH + 1) dri') (\<lambda>s.
               let ms' = ms\<lparr>latest_dri := s\<rparr>
               in answer_output dri ms' (set_service ms ms' (d_kernel st) st))))))"

definition lwmsg_output_param_read ::
  "int \<Rightarrow> cstring_ptr \<Rightarrow> lwm_message \<Rightarrow> dist_state \<Rightarrow> (nat \<times> dist_state) res" where
  "lwmsg_output_param_read ifid dri m st = (case body_array ''mis'' m of
      None \<Rightarrow> Inr (eLWM_RSC_BAD_REQ, st)
    | Some xs \<Rightarrow> rfold (output_read_step ifid dri) xs (eLWM_RSC_BAD_REQ, st))"

section \<open>Switching tasks\<close>

definition offload_task :: "int \<Rightarrow> nat \<times> micro_service \<times> kernel \<Rightarrow> lwm_object \<Rightarrow> (bool \<times> nat \<times> micro_service \<times> kernel) res" where
  "offload_task ifid = (\<lambda>(rsc, ms, k) x. rbind (object_index x) (\<lambda>i.
     case get_task_info_by_idx (Some ms) i of
       None \<Rightarrow> Inr (True, eLWM_RSC_NOTFOUND, ms, k)
     | Some ti \<Rightarrow> rbind (task_onoff (Some (ti_addr ti)) (ifid \<noteq> eLWM_IF_TASK_OFF) ms k) (\<lambda>(ok, ms, k).
         Inr (\<not> ok, if ok then eLWM_RSC_SUCCESS else eLWM_RSC_BAD_REQ, ms, k))))"

definition offload_step :: "int \<Rightarrow> lwm_message \<Rightarrow> nat \<times> dist_state \<Rightarrow> lwm_object \<Rightarrow> (nat \<times> dist_state) res" where
  "offload_step ifid m = (\<lambda>(rsc, st) x. case (find_service x st, body_array ''tis'' m) of
      (Some ms, Some ts) \<Rightarrow>
        rbind (rfold_until (offload_task ifid) ts (rsc, ms, d_kernel st)) (\<lambda>(_, rsc, ms', k).
          Inr (rsc, set_service ms ms' k st))
    | _ \<Rightarrow> Inr (eLWM_RSC_NOTFOUND, st))"

definition lwmsg_offloarding :: "int \<Rightarrow> lwm_message \<Rightarrow> dist_state \<Rightarrow> (nat \<times> dist_state) res" where
  "lwmsg_offloarding ifid m st = (case body_array ''mis'' m of
      None \<Rightarrow> Inr (eLWM_RSC_BAD_REQ, st)
    | Some xs \<Rightarrow> (if node_num xs = 1 then rfold (offload_step ifid m) xs (eLWM_RSC_BAD_REQ, st)
        else Inr (eLWM_RSC_BAD_REQ, st)))"

section \<open>One round of the task\<close>

definition dispatch ::
  "create_fn \<Rightarrow> init_handler \<Rightarrow> (cstring_ptr \<Rightarrow> nat) \<Rightarrow> int \<Rightarrow> cstring_ptr \<Rightarrow> lwm_message \<Rightarrow> dist_state
    \<Rightarrow> (nat \<times> dist_state) res" where
  "dispatch create init addr ifid dri m st =
     (if ifid = eLWM_IF_DEV_TASK_INFO_REQUEST then
        rbind (make_device_information_lwmsg2 create dri (of_nat eLWM_RSC_SUCCESS) (d_registry st) (d_kernel st))
          (\<lambda>(r, reg, k). Inr (300, emit (Respond r) (st\<lparr>d_registry := reg, d_kernel := k\<rparr>)))
      else if ifid \<in> {eLWM_IF_MS_CREATION, eLWM_IF_MS_RUN, eLWM_IF_MS_STOP, eLWM_IF_MS_DELETE}
      then lwmsg_operation create init ifid m st
      else if ifid = eLWM_IF_TASK_PARAM_SET then lwmsg_param_set addr m st
      else if ifid = eLWM_IF_TASK_PARAM_READ \<or> ifid = eLWM_IF_TASK_PARAM_READ_ALL
      then lwmsg_param_read ifid dri m st
      else if ifid = eLWM_IF_MS_OUTPUT_PARAM_READ then lwmsg_output_param_read ifid dri m st
      else if ifid = eLWM_IF_TASK_ON \<or> ifid = eLWM_IF_TASK_OFF then lwmsg_offloarding ifid m st
      else Inr (eLWM_RSC_BAD_REQ, st))"

text \<open>
  The message may be NULL. After code 300 the request is forgotten, not freed; a response is
  sent for all other codes when the request has a text under \<^verbatim>\<open>dri\<close>.
\<close>

definition lwmsg_dist_step ::
  "create_fn \<Rightarrow> init_handler \<Rightarrow> (cstring_ptr \<Rightarrow> nat) \<Rightarrow> lwm_message option \<Rightarrow> dist_state \<Rightarrow> dist_state res" where
  "lwmsg_dist_step create init addr lwmsg st = (case lwmsg of
      None \<Rightarrow> Inr st
    | Some m \<Rightarrow>
        rbind (if node_num (header m) = 0 then Inr (eLWM_RSC_NOMCMSG, None, st)
          else case (dict_lookup (header m) ''if'', dict_lookup (header m) ''dri'') of
            (Some cif, Some cdri) \<Rightarrow>
              rbind (deref (get_lwm_string_value (Some cif))) (\<lambda>s.
                let dri = get_lwm_string_value (Some cdri)
                in rbind (dispatch create init addr (atoi s) dri m st) (\<lambda>(rsc, st). Inr (rsc, dri, st)))
          | _ \<Rightarrow> Inr (eLWM_RSC_BAD_REQ, None, st))
        (\<lambda>(rsc, dri, st).
          if rsc = 300 then Inr st
          else Inr (emit (Free_message m) (case dri of
             None \<Rightarrow> st
           | Some _ \<Rightarrow> emit (Respond (new_lwm_resp_message dri (of_nat rsc))) st))))"

text \<open>
  \<^verbatim>\<open>lwmsg_dist_task\<close>: \<open>items\<close> are what the queue delivers until it fails, which ends the
  loop. The pause of 10 ms after each is left out.
\<close>

definition lwmsg_dist_task ::
  "create_fn \<Rightarrow> init_handler \<Rightarrow> (cstring_ptr \<Rightarrow> nat) \<Rightarrow> lwm_message option list \<Rightarrow> dist_state \<Rightarrow> dist_state res" where
  "lwmsg_dist_task create init addr items st = rfold (\<lambda>st item. lwmsg_dist_step create init addr item st) items st"

end
