(* ===== verification/DistProps.thy ===== *)
theory DistProps
  imports LwmDist
begin

text \<open>
  What the server sees of the request task: which requests are answered and freed, what can be
  set and read, and the requests that stop it.
\<close>

section \<open>Codes and events of the handlers\<close>

definition quiet :: "nat set \<Rightarrow> dist_state \<Rightarrow> nat \<times> dist_state \<Rightarrow> bool" where
  "quiet C st r \<longleftrightarrow> fst r \<in> C \<and> d_events (snd r) = d_events st \<and>
     device_registered (d_registry (snd r)) = device_registered (d_registry st)"

lemma set_service_events [simp]:
  "d_events (set_service a b k st) = d_events st"
  "device_registered (d_registry (set_service a b k st)) = device_registered (d_registry st)"
  by (simp_all add: set_service_def)

lemma rfold_until_invariant:
  assumes "rfold_until f xs s = Inr (b, s')" "P s" "\<And>s x b s'. P s \<Longrightarrow> f s x = Inr (b, s') \<Longrightarrow> P s'"
  shows "P s'"
  using assms(1,2)
proof (induction xs arbitrary: s)
  case (Cons x xs)
  then obtain c t where t: "f s x = Inr (c, t)" "if c then t = s' else rfold_until f xs t = Inr (b, s')"
    by (auto split: if_splits)
  then show ?case using assms(3) [OF Cons.prems(2) t(1)] Cons.IH by (auto split: if_splits)
qed simp

lemma operation_quiet:
  assumes "lwmsg_operation create init ifid m st = Inr r"
  shows "quiet {200, 400, 404} st r"
proof (cases "body_array ''mis'' m")
  case None
  with assms show ?thesis by (auto simp: lwmsg_operation_def quiet_def)
next
  case (Some xs)
  then have "rfold (operation_step create init ifid) xs (eLWM_RSC_BAD_REQ, st) = Inr r"
    using assms by (simp add: lwmsg_operation_def)
  then show ?thesis
    by (rule rfold_invariant [where P = "quiet {200, 400, 404} st"])
      (auto simp: quiet_def operation_step_def split: option.splits if_splits)
qed

lemma offload_task_code:
  "offload_task ifid (rsc, ms, k) x = Inr (b, rsc', ms', k') \<Longrightarrow> rsc' \<in> {200, 400, 404}"
  by (auto simp: offload_task_def split: option.splits if_splits)

lemma offload_quiet:
  assumes "lwmsg_offloarding ifid m st = Inr r"
  shows "quiet {200, 400, 404} st r"
proof (cases "\<exists>xs. body_array ''mis'' m = Some xs \<and> node_num xs = 1")
  case False
  with assms show ?thesis by (auto simp: lwmsg_offloarding_def quiet_def split: option.splits if_splits)
next
  case True
  then obtain xs where "rfold (offload_step ifid m) xs (eLWM_RSC_BAD_REQ, st) = Inr r"
    using assms by (auto simp: lwmsg_offloarding_def)
  then show ?thesis
  proof (rule rfold_invariant [where P = "quiet {200, 400, 404} st"])
    fix s x s'
    assume q: "quiet {200, 400, 404} st s" and o: "offload_step ifid m s x = Inr s'"
    obtain rsc st1 where s: "s = (rsc, st1)" by (cases s)
    show "quiet {200, 400, 404} st s'"
    proof (cases "find_service x st1 = None \<or> body_array ''tis'' m = None")
      case True
      with q o s show ?thesis by (auto simp: offload_step_def quiet_def split: option.splits)
    next
      case False
      then obtain ms ts where f: "find_service x st1 = Some ms" "body_array ''tis'' m = Some ts" by auto
      then obtain b rsc' ms' k where r: "rfold_until (offload_task ifid) ts (rsc, ms, d_kernel st1) = Inr (b, rsc', ms', k)"
          "s' = (rsc', set_service ms ms' k st1)"
        using o s by (auto simp: offload_step_def)
      have "fst (rsc', ms', k) \<in> {200, 400, 404}"
        using q s by (intro rfold_until_invariant [OF r(1), of "\<lambda>p. fst p \<in> {200, 400, 404}"])
          (auto simp: quiet_def dest: offload_task_code)
      with q s r(2) show ?thesis by (simp add: quiet_def)
    qed
  qed (simp add: quiet_def)
qed

section \<open>Setting parameters never succeeds\<close>

lemma lookup_without_name:
  "get_parameter_from_param_list ps None (Some a) = Inr r \<Longrightarrow> r = None"
  by (auto simp: get_parameter_from_param_list_def param_names_empty_def split: option.splits if_splits)

lemma param_set_step_not_found:
  "param_set_step addr (False, ti) x = Inr r \<Longrightarrow> r = (False, ti)"
  by (auto simp: param_set_step_def split_beta dest!: lookup_without_name split: option.splits)

definition distinct_tasks :: "micro_service \<Rightarrow> bool" where
  "distinct_tasks ms \<longleftrightarrow> distinct (map ti_addr (tasks ms))"

lemma update_task_same:
  assumes "distinct_tasks ms" "t \<in> set (tasks ms)"
  shows "update_task (ti_addr t) (\<lambda>_. t) ms = ms"
proof -
  have "(if ti_addr u = ti_addr t then t else u) = u" if "u \<in> set (tasks ms)" for u
    using assms that by (auto simp: distinct_tasks_def distinct_map inj_on_def)
  then have "map (\<lambda>u. if ti_addr u = ti_addr t then t else u) (tasks ms) = tasks ms"
    by (intro map_idI) auto
  then show ?thesis by (simp add: update_task_def)
qed

lemma get_task_info_by_idx_in: "get_task_info_by_idx (Some ms) i = Some t \<Longrightarrow> t \<in> set (tasks ms)"
  by (auto simp: get_task_info_by_idx_def find_Some_iff split: if_splits)

lemma param_set_task_quiet:
  assumes "param_set_task addr m (rsc, False, ms) x = Inr (b, rsc', f, ms')"
  shows "rsc' \<in> {400, 404} \<and> \<not> f"
proof (cases "dict_lookup (body m) ''fp''")
  case None
  with assms show ?thesis by (simp add: param_set_task_def)
next
  case (Some fp)
  with assms obtain i d ti where r: "rfold (param_set_step addr) d (False, get_task_info_by_idx (Some ms) i) = Inr (f, ti)"
      "rsc' = (if f then eLWM_RSC_SUCCESS else eLWM_RSC_NOTFOUND)"
    by (auto simp: param_set_task_def Let_def split_beta)
  have "(f, ti) = (False, get_task_info_by_idx (Some ms) i)"
    by (rule rfold_invariant [OF r(1), where P = "\<lambda>p. p = (False, get_task_info_by_idx (Some ms) i)"])
      (auto dest: param_set_step_not_found)
  then show ?thesis using r(2) by simp
qed

lemma param_set_quiet:
  assumes "lwmsg_param_set addr m st = Inr r"
  shows "quiet {400, 404} st r"
proof (cases "\<exists>xs. body_array ''mis'' m = Some xs \<and> node_num xs = 1")
  case False
  with assms show ?thesis by (auto simp: lwmsg_param_set_def quiet_def split: option.splits if_splits)
next
  case True
  then obtain xs b where "rfold_until (param_set_service addr m) xs (eLWM_RSC_BAD_REQ, st) = Inr (b, r)"
    using assms by (auto simp: lwmsg_param_set_def)
  then show ?thesis
  proof (rule rfold_until_invariant [where P = "quiet {400, 404} st"])
    fix s x b s'
    assume q: "quiet {400, 404} st s" and o: "param_set_service addr m s x = Inr (b, s')"
    obtain rsc st1 where s: "s = (rsc, st1)" by (cases s)
    show "quiet {400, 404} st s'"
    proof (cases "find_service x st1 = None \<or> body_array ''tis'' m = None")
      case True
      with q o s show ?thesis by (auto simp: param_set_service_def quiet_def split: option.splits)
    next
      case False
      then obtain ms ts where f: "find_service x st1 = Some ms" "body_array ''tis'' m = Some ts" by auto
      then obtain b rsc' g ms' where r: "rfold_until (param_set_task addr m) ts (rsc, False, ms) = Inr (b, rsc', g, ms')"
          "s' = (rsc', set_service ms ms' (d_kernel st1) st1)"
        using o s by (auto simp: param_set_service_def)
      let ?P = "\<lambda>p. fst p \<in> {400, 404} \<and> \<not> fst (snd p)"
      have "?P (rsc', g, ms')"
      proof (rule rfold_until_invariant [OF r(1), of ?P])
        show "?P (rsc, False, ms)" using q s by (simp add: quiet_def)
        show "?P t" if "?P u" "param_set_task addr m u y = Inr (c, t)" for u y c t
          using that param_set_task_quiet [of addr m "fst u" "snd (snd u)" y c "fst t" "fst (snd t)" "snd (snd t)"]
          by (cases u; cases t) auto
      qed
      with q s r(2) show ?thesis by (simp add: quiet_def)
    qed
  qed (simp add: quiet_def)
qed

lemma param_set_task_code:
  assumes "param_set_task addr m (rsc, False, ms) x = Inr (b, rsc', f, ms')" "distinct_tasks ms"
  shows "rsc' \<in> {400, 404} \<and> \<not> f \<and> ms' = ms"
proof (cases "dict_lookup (body m) ''fp''")
  case None
  with assms show ?thesis by (simp add: param_set_task_def)
next
  case (Some fp)
  with assms obtain i d ti where r: "rfold (param_set_step addr) d (False, get_task_info_by_idx (Some ms) i) = Inr (f, ti)"
      "rsc' = (if f then eLWM_RSC_SUCCESS else eLWM_RSC_NOTFOUND)"
      "ms' = (case ti of None \<Rightarrow> ms | Some t \<Rightarrow> update_task (ti_addr t) (\<lambda>_. t) ms)"
    by (auto simp: param_set_task_def Let_def split_beta)
  have "(f, ti) = (False, get_task_info_by_idx (Some ms) i)"
    by (rule rfold_invariant [OF r(1), where P = "\<lambda>p. p = (False, get_task_info_by_idx (Some ms) i)"])
      (auto dest: param_set_step_not_found)
  then show ?thesis
    using r(2,3) assms(2) by (auto split: option.splits dest: get_task_info_by_idx_in update_task_same)
qed

lemma put_service_same:
  "find (\<lambda>ms. ms_id ms = i) mss = Some ms \<Longrightarrow> put_service (ms_id ms) ms mss = mss \<and> ms_id ms = i"
  by (induction mss) (auto split: if_splits)

lemma find_service_id:
  "find_service x st = Some ms \<Longrightarrow> find (\<lambda>m. ms_id m = ms_id ms) (services (d_registry st)) = Some ms"
proof -
  assume "find_service x st = Some ms"
  then obtain i where i: "find (\<lambda>m. ms_id m = i) (services (d_registry st)) = Some ms"
    by (auto simp: find_service_def get_micro_service_info_by_id_def split: option.splits if_splits)
  with put_service_same [OF i] show ?thesis by simp
qed

lemma set_service_same: "find_service x st = Some ms \<Longrightarrow> set_service ms ms (d_kernel st) st = st"
  using put_service_same [OF find_service_id, of x st ms] by (simp add: set_service_def)

lemma find_service_in: "find_service x st = Some ms \<Longrightarrow> ms \<in> set (services (d_registry st))"
  by (auto simp: find_service_def get_micro_service_info_by_id_def find_Some_iff split: option.splits if_splits)

lemma param_set_nothing:
  assumes "lwmsg_param_set addr m st = Inr r" "\<forall>ms \<in> set (services (d_registry st)). distinct_tasks ms"
  shows "fst r \<in> {400, 404} \<and> snd r = st"
proof (cases "\<exists>xs. body_array ''mis'' m = Some xs \<and> node_num xs = 1")
  case False
  with assms(1) show ?thesis by (auto simp: lwmsg_param_set_def split: option.splits if_splits)
next
  case True
  then obtain xs b where "rfold_until (param_set_service addr m) xs (eLWM_RSC_BAD_REQ, st) = Inr (b, r)"
    using assms(1) by (auto simp: lwmsg_param_set_def)
  then show ?thesis
  proof (rule rfold_until_invariant [where P = "\<lambda>r. fst r \<in> {400, 404} \<and> snd r = st"])
    fix s x b s'
    assume q: "fst s \<in> {400, 404} \<and> snd s = st" and o: "param_set_service addr m s x = Inr (b, s')"
    obtain rsc where s: "s = (rsc, st)" using q by (cases s) simp
    show "fst s' \<in> {400, 404} \<and> snd s' = st"
    proof (cases "find_service x st = None \<or> body_array ''tis'' m = None")
      case True
      with q o s show ?thesis by (auto simp: param_set_service_def split: option.splits)
    next
      case False
      then obtain ms ts where f: "find_service x st = Some ms" "body_array ''tis'' m = Some ts" by auto
      then obtain b rsc' g ms' where r: "rfold_until (param_set_task addr m) ts (rsc, False, ms) = Inr (b, rsc', g, ms')"
          "s' = (rsc', set_service ms ms' (d_kernel st) st)"
        using o s by (auto simp: param_set_service_def)
      have d: "distinct_tasks ms" using assms(2) find_service_in [OF f(1)] by blast
      let ?P = "\<lambda>p. fst p \<in> {400, 404} \<and> snd p = (False, ms)"
      have "?P (rsc', g, ms')"
      proof (rule rfold_until_invariant [OF r(1), of ?P])
        show "?P (rsc, False, ms)" using q s by simp
        show "?P t" if "?P u" "param_set_task addr m u y = Inr (c, t)" for u y c t
          using that param_set_task_code [OF _ d, of addr m "fst u" y c "fst t" "fst (snd t)" "snd (snd t)"]
          by (cases u; cases t) auto
      qed
      with r(2) set_service_same [OF f(1)] show ?thesis by simp
    qed
  qed simp
qed

section \<open>Requests and their answers\<close>

definition request :: "cstring \<Rightarrow> cstring \<Rightarrow> lwm_message \<Rightarrow> bool" where
  "request i dri m \<longleftrightarrow> dict_lookup (header m) ''if'' = Some (LWM_String (Some i)) \<and>
     dict_lookup (header m) ''dri'' = Some (LWM_String (Some dri)) \<and> node_num (header m) \<noteq> 0"

lemma dist_step_request:
  assumes "request i dri m"
  shows "lwmsg_dist_step create init addr (Some m) st =
    rbind (dispatch create init addr (atoi i) (Some dri) m st) (\<lambda>(rsc, st).
      if rsc = 300 then Inr st
      else Inr (emit (Free_message m) (emit (Respond (new_lwm_resp_message (Some dri) (of_nat rsc))) st)))"
  using assms
  by (cases "dispatch create init addr (atoi i) (Some dri) m st")
    (auto simp: request_def lwmsg_dist_step_def get_lwm_string_value_def split: prod.splits)

definition control_ids :: "int set" where
  "control_ids = - {eLWM_IF_DEV_TASK_INFO_REQUEST, eLWM_IF_TASK_PARAM_READ, eLWM_IF_TASK_PARAM_READ_ALL,
     eLWM_IF_MS_OUTPUT_PARAM_READ}"

lemma dispatch_control:
  assumes "ifid \<in> control_ids" "dispatch create init addr ifid dri m st = Inr r"
  shows "quiet {200, 400, 404} st r"
proof (cases "ifid \<in> {eLWM_IF_MS_CREATION, eLWM_IF_MS_RUN, eLWM_IF_MS_STOP, eLWM_IF_MS_DELETE}")
  case True
  with assms have "lwmsg_operation create init ifid m st = Inr r"
    by (auto simp: dispatch_def control_ids_def)
  then show ?thesis by (rule operation_quiet)
next
  case other: False
  consider "ifid = eLWM_IF_TASK_PARAM_SET" | "ifid = eLWM_IF_TASK_ON \<or> ifid = eLWM_IF_TASK_OFF"
    | "ifid \<notin> {eLWM_IF_TASK_PARAM_SET, eLWM_IF_TASK_ON, eLWM_IF_TASK_OFF}" by auto
  then show ?thesis
  proof cases
    case 1
    with assms have "lwmsg_param_set addr m st = Inr r" by (simp add: dispatch_def)
    from param_set_quiet [OF this] show ?thesis by (auto simp: quiet_def)
  next
    case 2
    with assms have "lwmsg_offloarding ifid m st = Inr r" by (auto simp: dispatch_def)
    then show ?thesis by (rule offload_quiet)
  next
    case 3
    with assms other have "r = (eLWM_RSC_BAD_REQ, st)" by (auto simp: dispatch_def control_ids_def)
    then show ?thesis by (simp add: quiet_def)
  qed
qed

lemma control_answer:
  assumes "request i dri m" "atoi i \<in> control_ids" "lwmsg_dist_step create init addr (Some m) st = Inr st'"
  shows "\<exists>rsc \<in> {200, 400, 404}. d_events st' =
      d_events st @ [Respond (new_lwm_resp_message (Some dri) (of_nat rsc)), Free_message m] \<and>
    device_registered (d_registry st') = device_registered (d_registry st)"
proof -
  obtain rsc st1 where d: "dispatch create init addr (atoi i) (Some dri) m st = Inr (rsc, st1)"
      "(if rsc = 300 then Inr st1 else Inr (emit (Free_message m)
         (emit (Respond (new_lwm_resp_message (Some dri) (of_nat rsc))) st1))) = (Inr st' :: dist_state res)"
    using assms(3) unfolding dist_step_request [OF assms(1)] by auto
  have "quiet {200, 400, 404} st (rsc, st1)" using dispatch_control [OF assms(2) d(1)] .
  with d(2) show ?thesis by (auto simp: quiet_def emit_def split: if_splits)
qed

text \<open>
  A request to create, run, stop, delete, set or switch, and one with an unknown interface,
  is answered exactly once, with its own \<^verbatim>\<open>dri\<close> and one of the codes 200, 400 and
  404, and then freed, unless handling it faults.
\<close>

theorem control_requests_answered_once:
  assumes "request i dri m" "atoi i \<in> control_ids" "lwmsg_dist_step create init addr (Some m) st = Inr st'"
  shows "\<exists>rsc \<in> {200, 400, 404}. d_events st' =
    d_events st @ [Respond (new_lwm_resp_message (Some dri) (of_nat rsc)), Free_message m]"
  using control_answer [OF assms] by blast

definition example_request :: "cstring \<Rightarrow> lwm_object \<Rightarrow> lwm_message" where
  "example_request i b = \<lparr>header = [(''if'', LWM_String (Some i)), (''dri'', LWM_String (Some ''7''))],
     body = [(''mis'', b)]\<rparr>"

definition example_dist :: dist_state where
  "example_dist = \<lparr>d_registry = example_registry, d_kernel = example_kernel, d_events = []\<rparr>"

lemma example_request_ok: "request i ''7'' (example_request i b)"
  by (simp add: request_def example_request_def node_num_def)

lemma example_distinct: "\<forall>ms \<in> set (services (d_registry example_dist)). distinct_tasks ms"
  by (simp add: example_dist_def example_registry_def distinct_tasks_def make_ms_def)

lemma atoi_dec: "n < 2 ^ 31 \<Longrightarrow> atoi (dec_digits n) = int n"
  by (simp add: atoi_def)

lemma atoi_codes [simp]: "atoi ''16'' = 16" "atoi ''23'' = 23" "atoi ''21'' = 21" "atoi ''11'' = 11"
  by code_simp+

lemma control_requests_answered_once_witness:
  "\<exists>st rsc. lwmsg_dist_step (\<lambda>ms k. (ms, k)) example_init (\<lambda>_. 0)
      (Some (example_request ''16'' (LWM_Array [LWM_String (Some ''ms1'')]))) example_dist = Inr st \<and>
    d_events st = [Respond (new_lwm_resp_message (Some ''7'') rsc),
      Free_message (example_request ''16'' (LWM_Array [LWM_String (Some ''ms1'')]))]"
proof -
  let ?m = "example_request ''16'' (LWM_Array [LWM_String (Some ''ms1'')])"
  let ?s = "lwmsg_dist_step (\<lambda>ms k. (ms, k)) example_init (\<lambda>_. 0) (Some ?m) example_dist"
  have "body_array ''mis'' ?m = Some [LWM_String (Some ''ms1'')]"
    by (simp add: body_array_def example_request_def)
  then have "\<exists>r. dispatch (\<lambda>ms k. (ms, k)) example_init (\<lambda>_. 0) 16 (Some ''7'') ?m example_dist = Inr r"
    by (cases "find_service (LWM_String (Some ''ms1'')) example_dist")
      (simp_all add: dispatch_def lwmsg_operation_def operation_step_def ms_operation_def split_beta
        del: rbind_eq_Inr)
  then obtain rsc st where "dispatch (\<lambda>ms k. (ms, k)) example_init (\<lambda>_. 0) 16 (Some ''7'') ?m example_dist = Inr (rsc, st)"
    by auto
  then obtain st' where st': "?s = Inr st'"
    by (cases "rsc = 300") (simp_all add: dist_step_request [OF example_request_ok] del: rbind_eq_Inr)
  have "atoi ''16'' \<in> control_ids" by (simp add: control_ids_def)
  from control_requests_answered_once [OF example_request_ok this st'] st' show ?thesis
    by (auto simp: example_dist_def)
qed

text \<open>The events of a list of requests, answered with a list of codes.\<close>

definition answers_to :: "(cstring \<times> cstring \<times> lwm_message) list \<Rightarrow> nat list \<Rightarrow> dist_event list" where
  "answers_to rs rscs = concat (map (\<lambda>((i, dri, m), rsc).
     [Respond (new_lwm_resp_message (Some dri) (of_nat rsc)), Free_message m]) (zip rs rscs))"

text \<open>
  The request task answers in order. However many control requests the queue delivers, if none
  of them faults, each is answered exactly once with its own number, before the next is
  read, and freed; no answer is lost, repeated or reordered, whatever the requests before it
  did to the services.
\<close>

theorem requests_answered_in_order:
  assumes "\<forall>(i, dri, m) \<in> set rs. request i dri m \<and> atoi i \<in> control_ids"
    and "lwmsg_dist_task create init addr (map (\<lambda>(i, dri, m). Some m) rs) st = Inr st'"
  shows "\<exists>rscs. length rscs = length rs \<and> set rscs \<subseteq> {200, 400, 404} \<and>
    d_events st' = d_events st @ answers_to rs rscs"
  using assms
proof (induction rs arbitrary: st)
  case Nil
  then show ?case by (auto simp: lwmsg_dist_task_def answers_to_def)
next
  case (Cons r rs)
  obtain i dri m where r: "r = (i, dri, m)" by (cases r)
  from Cons.prems r obtain st1 where st1: "lwmsg_dist_step create init addr (Some m) st = Inr st1"
    "lwmsg_dist_task create init addr (map (\<lambda>(i, dri, m). Some m) rs) st1 = Inr st'"
    by (auto simp: lwmsg_dist_task_def)
  obtain rsc where rsc: "rsc \<in> {200, 400, 404}"
    "d_events st1 = d_events st @ [Respond (new_lwm_resp_message (Some dri) (of_nat rsc)), Free_message m]"
  proof -
    have "request i dri m" "atoi i \<in> control_ids" using Cons.prems(1) r by simp_all
    from control_answer [OF this st1(1)] that show thesis by blast
  qed
  obtain rscs where "length rscs = length rs" "set rscs \<subseteq> {200, 400, 404}" "d_events st' = d_events st1 @ answers_to rs rscs"
    using Cons.IH [OF _ st1(2)] Cons.prems(1) by auto
  with rsc r show ?case by (intro exI [of _ "rsc # rscs"]) (simp add: answers_to_def)
qed

lemma requests_answered_in_order_witness:
  "\<exists>st. lwmsg_dist_task (\<lambda>ms k. (ms, k)) example_init (\<lambda>_. 0)
      [Some (example_request ''15'' LWM_Unknown), Some (example_request ''15'' LWM_Unknown)] example_dist = Inr st \<and>
    length (d_events st) = 4"
proof -
  let ?m = "example_request ''15'' LWM_Unknown"
  have i: "atoi ''15'' = 15" by code_simp
  let ?step = "lwmsg_dist_step (\<lambda>ms k. (ms, k)) example_init (\<lambda>_. 0) (Some ?m)"
  have step: "\<exists>st'. ?step st = Inr st'" for st
    using dist_step_request [OF example_request_ok [of "''15''" LWM_Unknown]]
    by (simp add: i dispatch_def lwmsg_operation_def body_array_def example_request_def)
  obtain st1 where st1: "?step example_dist = Inr st1" using step by blast
  obtain st where "?step st1 = Inr st" using step by blast
  with st1 have st: "lwmsg_dist_task (\<lambda>ms k. (ms, k)) example_init (\<lambda>_. 0) [Some ?m, Some ?m] example_dist = Inr st"
    by (simp add: lwmsg_dist_task_def)
  let ?rs = "[(''15'', ''7'', ?m), (''15'', ''7'', ?m)]"
  have ok: "\<forall>(i, dri, m) \<in> set ?rs. request i dri m \<and> atoi i \<in> control_ids"
    by (simp add: example_request_ok i control_ids_def)
  obtain rscs where "length rscs = Suc (Suc 0)" "d_events st = answers_to ?rs rscs"
    using requests_answered_in_order [OF ok, of "\<lambda>ms k. (ms, k)" example_init "\<lambda>_. 0" example_dist st] st
    by (auto simp: example_dist_def)
  moreover then obtain a b where "rscs = [a, b]" by (auto simp: length_Suc_conv)
  ultimately have "length (d_events st) = 4" by (simp add: answers_to_def)
  with st show ?thesis by blast
qed

text \<open>
  C40. Setting a parameter never succeeds and never changes anything: the request looks
  parameters up by their alias alone, which faults or finds nothing, so the code is 400 or 404.
\<close>

theorem parameter_set_never_succeeds:
  assumes "lwmsg_param_set addr m st = Inr (rsc, st')" "\<forall>ms \<in> set (services (d_registry st)). distinct_tasks ms"
  shows "rsc \<in> {400, 404} \<and> st' = st"
  using param_set_nothing [OF assms] by simp

lemma parameter_set_never_succeeds_witness:
  "lwmsg_param_set (\<lambda>_. 0) (example_request ''21'' (LWM_Array [LWM_String (Some ''ms1'')])) example_dist
     = Inr (400, example_dist)"
proof -
  let ?m = "example_request ''21'' (LWM_Array [LWM_String (Some ''ms1'')])"
  have "body_array ''mis'' ?m = Some [LWM_String (Some ''ms1'')]" "body_array ''tis'' ?m = None"
    by (simp_all add: body_array_def example_request_def)
  then obtain rsc st where r: "lwmsg_param_set (\<lambda>_. 0) ?m example_dist = Inr (rsc, st)" "rsc = 400"
    by (cases "find_service (LWM_String (Some ''ms1'')) example_dist")
      (simp_all add: lwmsg_param_set_def param_set_service_def node_num_def del: rbind_eq_Inr)
  from parameter_set_never_succeeds [OF r(1) example_distinct] r show ?thesis by simp
qed

section \<open>Reading\<close>

definition no_free :: "dist_event \<Rightarrow> bool" where
  "no_free e \<longleftrightarrow> (case e of Free_message _ \<Rightarrow> False | _ \<Rightarrow> True)"

text \<open>Since \<open>st\<close>, nothing was freed.\<close>

definition extends :: "dist_state \<Rightarrow> dist_state \<Rightarrow> bool" where
  "extends st st' \<longleftrightarrow> (\<exists>es. d_events st' = d_events st @ es \<and> list_all no_free es)"

lemma extends_refl [simp]: "extends st st"
  by (simp add: extends_def)


lemma extends_set_service [simp]: "extends st (set_service a b k st') = extends st st'"
  by (simp add: extends_def)

lemma no_free_simps [simp]: "no_free (Respond r)" "no_free (Forward q r t)"
  by (simp_all add: no_free_def)















section \<open>Reading all parameters\<close>

lemma add_param_values:
  assumes "rfold add_param_value ps d = Inr d'" "distinct (map p_alias ps)" "dict_wf d"
  shows "dict_wf d' \<and> (\<forall>p \<in> set ps. \<exists>v. new_lwm_object_from_type_value (p_type p) (p_value p) = Inr v \<and>
      dict_lookup d' (p_alias p) = (case v of None \<Rightarrow> dict_lookup d (p_alias p) | Some x \<Rightarrow> Some x)) \<and>
    (\<forall>k. k \<notin> p_alias ` set ps \<longrightarrow> dict_lookup d' k = dict_lookup d k)"
  using assms
proof (induction ps arbitrary: d)
  case (Cons p ps)
  obtain d1 where d1: "add_param_value d p = Inr d1" "rfold add_param_value ps d1 = Inr d'"
    using Cons.prems(1) by auto
  then obtain v where v: "new_lwm_object_from_type_value (p_type p) (p_value p) = Inr v"
      "d1 = (case v of None \<Rightarrow> d | Some x \<Rightarrow> dict_put d (p_alias p) x)" "rfold add_param_value ps d1 = Inr d'"
    by (auto simp: add_param_value_def)
  have wf: "dict_wf d1" using Cons.prems(3) v(2) by (auto simp: dict_wf_put split: option.splits)
  have look: "dict_lookup d1 k = (if k = p_alias p \<and> v \<noteq> None then v else dict_lookup d k)" for k
    using Cons.prems(3) v(2) dict.lookup_put [of d "p_alias p" _ k] by (auto split: option.splits)
  have ih: "dict_wf d'" "\<And>q. q \<in> set ps \<Longrightarrow> \<exists>w. new_lwm_object_from_type_value (p_type q) (p_value q) = Inr w \<and>
      dict_lookup d' (p_alias q) = (case w of None \<Rightarrow> dict_lookup d1 (p_alias q) | Some x \<Rightarrow> Some x)"
    "\<And>k. k \<notin> p_alias ` set ps \<Longrightarrow> dict_lookup d' k = dict_lookup d1 k"
    using Cons.IH [OF v(3) _ wf] Cons.prems(2) by auto
  have p: "p_alias p \<notin> p_alias ` set ps" using Cons.prems(2) by simp
  have "\<exists>w. new_lwm_object_from_type_value (p_type q) (p_value q) = Inr w \<and>
      dict_lookup d' (p_alias q) = (case w of None \<Rightarrow> dict_lookup d (p_alias q) | Some x \<Rightarrow> Some x)"
    if q: "q \<in> set (p # ps)" for q
  proof (cases "q = p")
    case True
    have "dict_lookup d' (p_alias p) = dict_lookup d1 (p_alias p)" by (rule ih(3) [OF p])
    then show ?thesis unfolding True using v(1) look [of "p_alias p"] by (cases v) auto
  next
    case False
    then have qs: "q \<in> set ps" using q by simp
    then have "p_alias q \<noteq> p_alias p" using p by (metis imageI)
    then have "dict_lookup d1 (p_alias q) = dict_lookup d (p_alias q)" using look [of "p_alias q"] by simp
    with ih(2) [OF qs] show ?thesis by (simp only:)
  qed
  moreover have "dict_lookup d' k = dict_lookup d k" if "k \<notin> p_alias ` set (p # ps)" for k
    using that ih(3) [of k] look [of k] by simp
  ultimately show ?case using ih(1) by blast
qed simp

text \<open>
  Reading all parameters of a task answers with code 200 and with the value of every
  flexible parameter under \<^verbatim>\<open>fp\<close> and of every static one under \<^verbatim>\<open>sp\<close>, by alias.
\<close>

theorem read_all_answers_values:
  assumes "read_all_params dri (Some t) = Inr r" "distinct (map p_alias (flexible_params t))"
    and "distinct (map p_alias (static_params t))"
  shows "\<exists>fp sp. dict_lookup (body r) ''fp'' = Some (LWM_Dictionary fp) \<and>
    dict_lookup (body r) ''sp'' = Some (LWM_Dictionary sp) \<and>
    (\<forall>p \<in> set (flexible_params t). new_lwm_object_from_type_value (p_type p) (p_value p) = Inr (dict_lookup fp (p_alias p))) \<and>
    (\<forall>p \<in> set (static_params t). new_lwm_object_from_type_value (p_type p) (p_value p) = Inr (dict_lookup sp (p_alias p))) \<and>
    get_lwm_int_value (dict_lookup (header r) ''rsc'') = Inr 200"
proof -
  obtain fp sp where f: "rfold add_param_value (flexible_params t) [] = Inr fp"
      "rfold add_param_value (static_params t) [] = Inr sp"
      "r = set_body ''sp'' (LWM_Dictionary sp) (set_body ''fp'' (LWM_Dictionary fp) (new_lwm_resp_message dri 200))"
    using assms(1) by (auto simp: read_all_params_def)
  have "dict_wf []" by (simp add: dict_wf_def)
  note fp = add_param_values [OF f(1) assms(2) this] and sp = add_param_values [OF f(2) assms(3) this]
  have "get_lwm_int_value (dict_lookup (header r) ''rsc'') = Inr 200"
    unfolding f(3) by (cases dri; simp add: set_body_def dict_put_def new_lwm_resp_message_def new_lwm_empty_message_def
        set_header_def lwm_u32_def get_lwm_int_value_def load_u32_bytes)
  moreover have "dict_lookup (body r) ''fp'' = Some (LWM_Dictionary fp)" "dict_lookup (body r) ''sp'' = Some (LWM_Dictionary sp)"
    unfolding f(3) by (cases dri; simp add: set_body_def dict_put_def new_lwm_resp_message_def new_lwm_empty_message_def
        set_header_def)+
  ultimately show ?thesis
    using fp sp by (intro exI [of _ fp] exI [of _ sp] conjI) (auto split: option.splits)
qed

lemma read_all_answers_values_witness:
  "\<exists>r fp. read_all_params (Some ''7'') (Some ((example_task 1 ''read'' False CREATED)\<lparr>flexible_params :=
      [\<lparr>p_value = Some [5], p_value_size = 1, p_type = eP_UINT8, p_name = ''interval'', p_alias = ''iv'',
        p_attr = 3, p_last_updated = 0\<rparr>]\<rparr>)) = Inr r \<and>
    dict_lookup (body r) ''fp'' = Some (LWM_Dictionary fp) \<and> dict_lookup fp ''iv'' \<noteq> None"
proof -
  let ?p = "\<lparr>p_value = Some [5 :: byte], p_value_size = 1, p_type = eP_UINT8, p_name = ''interval'', p_alias = ''iv'',
      p_attr = 3, p_last_updated = 0\<rparr>"
  let ?t = "(example_task 1 ''read'' False CREATED)\<lparr>flexible_params := [?p]\<rparr>"
  obtain x where v: "new_lwm_object_from_type_value eP_UINT8 (Some [5]) = Inr (Some x)"
    by (simp add: new_lwm_object_from_type_value_def IS_DECIMAL_def decimal_value_def load_def
        new_lwm_empty_object_for_ms_def set_lwm_int_def set_lwm_number_def del: rbind_eq_Inr)
  have l: "flexible_params ?t = [?p]" "static_params ?t = []" by (simp_all add: example_task_def)
  obtain r where r: "read_all_params (Some ''7'') (Some ?t) = Inr r"
    unfolding read_all_params_def deref_simps rbind_Inr l
    by (simp add: add_param_value_def v del: rbind_eq_Inr)
  from read_all_answers_values [OF r] l v obtain fp where
    "dict_lookup (body r) ''fp'' = Some (LWM_Dictionary fp)" "dict_lookup fp ''iv'' = Some x" by auto
  with r show ?thesis by blast
qed

end
