(* ===== verification/DebugPrint.thy ===== *)
theory DebugPrint
  imports Prelude
begin

text \<open>
  The debug console of \<^verbatim>\<open>oal/iw/iw_debug.c\<close>: the digit printers \<^verbatim>\<open>prt8\<close>,
  \<^verbatim>\<open>prt10\<close>, \<^verbatim>\<open>prt16\<close> and \<^verbatim>\<open>PRT16\<close>, the format interpreter
  \<^verbatim>\<open>d_printf\<close>, the line discipline of \<^verbatim>\<open>_dputc\<close>, \<^verbatim>\<open>iw_printf\<close> and
  \<^verbatim>\<open>iw_get_cmd_str\<close>, and the number reader \<^verbatim>\<open>stod\<close>.

  The argument area of \<^verbatim>\<open>d_printf\<close> is a list of 32-bit words; reading behind it is
  \<^const>\<open>Out_of_bounds\<close>. An \<^verbatim>\<open>int\<close> is an integer whose additions and multiplications
  fault with \<^const>\<open>Overflow\<close> when they leave 32 bits, as C leaves them undefined; \<^verbatim>\<open><<\<close> on an
  \<^verbatim>\<open>int\<close> drops the high bits, as the compiler of the project defines it.
\<close>

unbundle bit_operations_syntax

section \<open>Digits\<close>

text \<open>
  Each printer collects the digits in \<^verbatim>\<open>temp\<close>, the last one first, above a NUL in
  \<^verbatim>\<open>temp[0]\<close>, and copies them out backwards, that NUL included.
\<close>

function prt8_temp :: "32 word \<Rightarrow> string" where
  "prt8_temp num = digit_char (unat (num AND 7)) #
     (if drop_bit 3 num = 0 then [] else prt8_temp (drop_bit 3 num))"
  by auto

function prt10_temp :: "32 word \<Rightarrow> string" where
  "prt10_temp num = digit_char (unat (num mod 10)) #
     (if num div 10 = 0 then [] else prt10_temp (num div 10))"
  by auto

definition lower_digits :: string where
  "lower_digits = ''0123456789abcdef''"

definition upper_digits :: string where
  "upper_digits = ''0123456789ABCDEF''"

function prt16_temp :: "string \<Rightarrow> 32 word \<Rightarrow> string" where
  "prt16_temp table num = table ! unat (num AND 15) #
     (if drop_bit 4 num = 0 then [] else prt16_temp table (drop_bit 4 num))"
  by auto

lemma unat_drop_bit_less:
  assumes "drop_bit k (w :: 32 word) \<noteq> 0" "0 < k"
  shows "unat (drop_bit k w) < unat w"
proof -
  have "unat (drop_bit k w) = unat w div 2 ^ k"
    by (simp only: unat_drop_bit_eq drop_bit_eq_div [of k "unat w"])
  moreover have "0 < unat w" using assms(1) by (cases "w = 0") (auto simp: unat_gt_0)
  moreover have "(1::nat) < 2 ^ k" using assms(2) by (intro one_less_power) auto
  ultimately show ?thesis by (simp only: div_less_dividend)
qed

lemma unat_div10_less: "(w :: 32 word) div 10 \<noteq> 0 \<Longrightarrow> unat (w div 10) < unat w"
proof -
  assume "w div 10 \<noteq> 0"
  then have "0 < unat w" by (cases "w = 0") (auto simp: unat_gt_0)
  then show ?thesis by (simp add: unat_div)
qed

termination prt8_temp
  by (relation "measure unat") (auto intro: unat_drop_bit_less)

termination prt10_temp
  by (relation "measure unat") (auto intro: unat_div10_less)

termination prt16_temp
  by (relation "measure (unat \<circ> snd)") (auto intro: unat_drop_bit_less)

declare prt8_temp.simps [simp del] prt10_temp.simps [simp del] prt16_temp.simps [simp del]

text \<open>The text written and the length returned.\<close>

definition prt8 :: "32 word \<Rightarrow> string \<times> nat" where
  "prt8 num = (rev (prt8_temp num), length (prt8_temp num))"

definition prt10 :: "32 word \<Rightarrow> string \<times> nat" where
  "prt10 num = (rev (prt10_temp num), length (prt10_temp num))"

definition prt16 :: "32 word \<Rightarrow> string \<times> nat" where
  "prt16 num = (rev (prt16_temp lower_digits num), length (prt16_temp lower_digits num))"

definition PRT16 :: "32 word \<Rightarrow> string \<times> nat" where
  "PRT16 num = (rev (prt16_temp upper_digits num), length (prt16_temp upper_digits num))"

section \<open>The format interpreter\<close>

definition int32 :: "int \<Rightarrow> int res" where
  "int32 i = (if - 2147483648 \<le> i \<and> i \<le> 2147483647 then Inr i else Inl Overflow)"

definition next_arg :: "32 word list \<Rightarrow> (32 word \<times> 32 word list) res" where
  "next_arg args = (case args of [] \<Rightarrow> Inl Out_of_bounds | a # as \<Rightarrow> Inr (a, as))"

text \<open>\<^verbatim>\<open>while (is_digit(*fmt)) fmin = fmin * 10 + *fmt++ - '0'\<close>\<close>

fun read_digits :: "int \<Rightarrow> string \<Rightarrow> (int \<times> string) res" where
  "read_digits n [] = Inr (n, [])"
| "read_digits n (c # cs) = (if isdigit c
     then rbind (int32 (n * 10)) (\<lambda>a. rbind (int32 (a + int (code c))) (\<lambda>b. read_digits (b - 48) cs))
     else Inr (n, c # cs))"

text \<open>A width or a precision: \<^verbatim>\<open>*\<close> takes it from the arguments.\<close>

definition read_field :: "string \<Rightarrow> 32 word list \<Rightarrow> (int \<times> string \<times> 32 word list) res" where
  "read_field fmt args = (if take 1 fmt = ''*''
     then rbind (next_arg args) (\<lambda>(a, args). Inr (sint a, drop 1 fmt, args))
     else rbind (read_digits 0 fmt) (\<lambda>(n, fmt). Inr (n, fmt, args)))"

text \<open>What the \<^verbatim>\<open>switch\<close> on the conversion leaves in the local variables.\<close>

record conversion =
  c_str :: string
  c_len :: int
  c_sign :: bool
  c_fill :: char
  c_max :: int

text \<open>
  \<^verbatim>\<open>cstr a\<close> is the C string at the address \<^verbatim>\<open>a\<close>. A conversion the interpreter does not
  know reads one byte at the address the argument happens to name.
\<close>

definition convert :: "(32 word \<Rightarrow> cstring) \<Rightarrow> char \<Rightarrow> 32 word \<Rightarrow> char \<Rightarrow> int \<Rightarrow> conversion res" where
  "convert cstr f a fill fmax = (let put = (\<lambda>str len. \<lparr>c_str = str, c_len = len, c_sign = False, c_fill = fill, c_max = fmax\<rparr>);
      num = (\<lambda>(str, n). put str (int n)) in
    if f = CHR ''c'' then
      Inr ((put [char_of (unat (take_bit 8 a))] 1)\<lparr>c_fill := CHR '' '', c_max := 0\<rparr>)
    else if f = CHR ''s'' then Inr ((put (cstr a) (int (length (cstr a))))\<lparr>c_fill := CHR '' ''\<rparr>)
    else if f = CHR ''d'' then
      (if sint a < 0
       then rbind (int32 (- sint a)) (\<lambda>i. Inr ((num (prt10 (word_of_int i)))\<lparr>c_sign := True, c_max := 0\<rparr>))
       else Inr ((num (prt10 a))\<lparr>c_max := 0\<rparr>))
    else if f = CHR ''u'' then Inr (num (prt10 a))
    else if f = CHR ''o'' then Inr ((num (prt8 a))\<lparr>c_max := 0\<rparr>)
    else if f = CHR ''x'' then Inr ((num (prt16 a))\<lparr>c_max := 0\<rparr>)
    else if f = CHR ''X'' then Inr ((num (PRT16 a))\<lparr>c_max := 0\<rparr>)
    else Inr (put (take 1 (cstr a @ [CHR 0x00])) 1))"

text \<open>The padding, and the characters put out for one conversion.\<close>

definition leading_of :: "conversion \<Rightarrow> int \<Rightarrow> int \<Rightarrow> int res" where
  "leading_of v len fmin = (if c_max v \<noteq> 0 \<or> fmin \<noteq> 0 then
     rbind (if fmin \<noteq> 0 then int32 (fmin - len) else Inr 0)
       (\<lambda>l. if c_sign v then int32 (l - 1) else Inr l)
     else Inr 0)"

definition put_conversion :: "bool \<Rightarrow> int \<Rightarrow> conversion \<Rightarrow> string res" where
  "put_conversion leftjust fmin v = (
     let len = (if c_max v \<noteq> 0 \<and> c_len v > c_max v then c_max v else c_len v) in
     rbind (leading_of v len fmin) (\<lambda>leading.
       let pad = replicate (nat leading) (c_fill v) in
       Inr ((if c_sign v \<and> c_fill v = CHR ''0'' then ''-'' else []) @
            (if leftjust then [] else pad) @
            (if c_sign v \<and> c_fill v = CHR '' '' then ''-'' else []) @
            take (nat len) (c_str v) @
            (if leftjust then pad else []))))"

text \<open>
  One directive, from behind its \<^verbatim>\<open>%\<close>: the text it puts out, the rest of the format and of
  the arguments; \<open>None\<close> when the format ends inside it.
\<close>

definition read_flags :: "string \<Rightarrow> bool \<times> char \<times> string" where
  "read_flags fmt = (
     let leftjust = (take 1 fmt = ''-''); fmt = (if leftjust then drop 1 fmt else fmt) in
     if take 1 fmt = ''0'' then (leftjust, CHR ''0'', drop 1 fmt) else (leftjust, CHR '' '', fmt))"

definition read_precision :: "string \<Rightarrow> 32 word list \<Rightarrow> (int \<times> string \<times> 32 word list) res" where
  "read_precision fmt args =
     (if take 1 fmt = ''.'' then read_field (drop 1 fmt) args else Inr (0, fmt, args))"

definition directive ::
    "(32 word \<Rightarrow> cstring) \<Rightarrow> string \<Rightarrow> 32 word list \<Rightarrow> (string \<times> string \<times> 32 word list) option res" where
  "directive cstr fmt args = (case read_flags fmt of (leftjust, fill, fmt) \<Rightarrow>
     rbind (read_field fmt args) (\<lambda>(fmin, fmt, args).
     rbind (read_precision fmt args) (\<lambda>(fmax, fmt, args).
       case fmt of
         [] \<Rightarrow> Inr None
       | f # fmt \<Rightarrow>
           rbind (next_arg args) (\<lambda>(a, args).
           rbind (convert cstr f a fill fmax) (\<lambda>v.
           rbind (put_conversion leftjust fmin v) (\<lambda>out. Inr (Some (out, fmt, args))))))))"

lemma read_digits_length: "read_digits n fmt = Inr (m, rest) \<Longrightarrow> length rest \<le> length fmt"
  by (induction n fmt arbitrary: m rest rule: read_digits.induct) (fastforce split: if_splits)+

lemma read_field_length: "read_field fmt args = Inr (m, rest, args') \<Longrightarrow> length rest \<le> length fmt"
  by (auto simp: read_field_def dest: read_digits_length split: if_splits)

lemma read_precision_length: "read_precision fmt args = Inr (m, rest, args') \<Longrightarrow> length rest \<le> length fmt"
  by (auto simp: read_precision_def dest: read_field_length split: if_splits)

lemma read_flags_length: "read_flags fmt = (leftjust, fill, rest) \<Longrightarrow> length rest \<le> length fmt"
  by (auto simp: read_flags_def Let_def split: if_splits)

lemma directive_length:
  assumes "directive cstr fmt args = Inr (Some (out, rest, args'))"
  shows "length rest < length fmt"
proof -
  obtain leftjust fill fmt2 where flags: "read_flags fmt = (leftjust, fill, fmt2)"
    by (cases "read_flags fmt")
  with assms obtain fmin fmt3 args3 fmax g args4 where
    r: "read_field fmt2 args = Inr (fmin, fmt3, args3)"
    and p: "read_precision fmt3 args3 = Inr (fmax, g # rest, args4)"
    unfolding directive_def by (auto simp: neq_Nil_conv split: list.splits)
  show ?thesis
    using read_flags_length [OF flags] read_field_length [OF r] read_precision_length [OF p] by simp
qed

function d_printf :: "(32 word \<Rightarrow> cstring) \<Rightarrow> string \<Rightarrow> 32 word list \<Rightarrow> string res" where
  "d_printf cstr [] args = Inr []"
| "d_printf cstr (c # fmt) args = (
     if c \<noteq> CHR ''%'' then rbind (d_printf cstr fmt args) (\<lambda>out. Inr (c # out))
     else if take 1 fmt = ''%'' then rbind (d_printf cstr (drop 1 fmt) args) (\<lambda>out. Inr (CHR ''%'' # out))
     else rbind (directive cstr fmt args) (\<lambda>d. case d of
         None \<Rightarrow> Inr ''%''
       | Some (out, fmt, args) \<Rightarrow> rbind (d_printf cstr fmt args) (\<lambda>out'. Inr (out @ out'))))"
  by pat_completeness auto

termination
  by (relation "measure (\<lambda>(cstr, fmt, args). length fmt)") (auto dest: directive_length)

declare d_printf.simps [simp del]

section \<open>The console\<close>

text \<open>
  \<^verbatim>\<open>_dputc\<close> puts a carriage return in front of a line feed that has none; the last
  character put is its static variable.
\<close>

definition dputc :: "char \<Rightarrow> char option \<Rightarrow> string \<times> char option" where
  "dputc ch old = ((if ch = CHR 0x0A \<and> old \<noteq> Some CHR 0x0D then [CHR 0x0D] else []) @ [ch], Some ch)"

fun dputc_all :: "string \<Rightarrow> char option \<Rightarrow> string \<times> char option" where
  "dputc_all [] old = ([], old)"
| "dputc_all (c # cs) old = (case dputc c old of (out, old) \<Rightarrow>
     case dputc_all cs old of (out', old) \<Rightarrow> (out @ out', old))"

text \<open>
  \<^verbatim>\<open>iw_printf\<close>: \<open>text\<close> is what \<^verbatim>\<open>vsprintf\<close> makes of the format and the arguments, written to a
  buffer of 256 bytes.
\<close>

definition iw_printf :: "string \<Rightarrow> char option \<Rightarrow> (string \<times> char option) res" where
  "iw_printf text old = (if 256 \<le> length text then Inl Out_of_bounds else Inr (dputc_all text old))"

text \<open>
  \<^verbatim>\<open>iw_get_cmd_str\<close> on a buffer of \<open>cap\<close> bytes: \<open>input\<close> is what \<^verbatim>\<open>iw_getc_uart\<close>
  yields on each call, \<open>None\<close> where it fails and the loop sleeps. The line typed and the
  characters echoed; the loop ends at a carriage return only.
\<close>

fun get_cmd_loop :: "nat \<Rightarrow> char option list \<Rightarrow> string \<Rightarrow> char option \<Rightarrow> (string \<times> string) res" where
  "get_cmd_loop cap [] buf old = Inl Out_of_fuel"
| "get_cmd_loop cap (None # input) buf old = get_cmd_loop cap input buf old"
| "get_cmd_loop cap (Some ch # input) buf old =
     (if cap \<le> length buf then Inl Out_of_bounds
      else if ch = CHR 0x0D then rbind (iw_printf [CHR 0x0A] old) (\<lambda>(out, old). Inr (buf, out))
      else rbind (iw_printf (if ch = CHR 0x00 then [] else [ch]) old) (\<lambda>(out, old).
           rbind (get_cmd_loop cap input (buf @ [ch]) old) (\<lambda>(line, echo). Inr (line, out @ echo))))"

definition iw_get_cmd_str :: "nat \<Rightarrow> char option list \<Rightarrow> char option \<Rightarrow> (string \<times> string) res" where
  "iw_get_cmd_str cap input old = get_cmd_loop cap input [] old"

section \<open>Reading numbers\<close>

text \<open>\<^verbatim>\<open>to_upper(c)\<close> is \<^verbatim>\<open>c & ~0x20\<close>.\<close>

fun to_upper :: "char \<Rightarrow> char" where
  "to_upper (Char b0 b1 b2 b3 b4 b5 b6 b7) = Char b0 b1 b2 b3 b4 False b6 b7"

text \<open>Behind a minus sign everything up to a digit or the end is skipped.\<close>

fun skip_to_digit :: "string \<Rightarrow> string" where
  "skip_to_digit [] = []"
| "skip_to_digit (c # cs) = (if isdigit c then c # cs else skip_to_digit cs)"

definition hex_value :: "char \<Rightarrow> int option" where
  "hex_value c = (if isdigit c then Some (int (code c) - 48)
     else let u = code (to_upper c) in
       if 65 \<le> u \<and> u \<le> 70 then Some (int u - 65 + 10) else None)"

fun stod_hex :: "int \<Rightarrow> string \<Rightarrow> int res" where
  "stod_hex n [] = Inr n"
| "stod_hex n (c # cs) = (case hex_value c of
     None \<Rightarrow> Inr n
   | Some t \<Rightarrow> rbind (int32 (signed_take_bit 31 (push_bit 4 n) + t)) (\<lambda>n. stod_hex n cs))"

fun stod_dec :: "int \<Rightarrow> string \<Rightarrow> int res" where
  "stod_dec n [] = Inr n"
| "stod_dec n (c # cs) = (if isdigit c
     then rbind (int32 (n * 10)) (\<lambda>m. rbind (int32 (m + (int (code c) - 48))) (\<lambda>n. stod_dec n cs))
     else Inr n)"

definition stod :: "cstring \<Rightarrow> int res" where
  "stod s = (
     let (sign, s) = (case s of [] \<Rightarrow> (1, s)
       | c # cs \<Rightarrow> if c = CHR ''-'' then (- 1, skip_to_digit cs) else (1, s)) in
     let hex = (case s of c # d # _ \<Rightarrow> c = CHR ''0'' \<and> to_upper d = CHR ''X'' | _ \<Rightarrow> False) in
     rbind (if hex then stod_hex 0 (drop 2 s) else stod_dec 0 s) (\<lambda>n. int32 (n * sign)))"

section \<open>Digits in positional notation\<close>

text \<open>The reference: the digits of a number to a base, the highest first.\<close>

fun positional :: "nat \<Rightarrow> (nat \<Rightarrow> char) \<Rightarrow> nat \<Rightarrow> string" where
  "positional b f n = (if n < b \<or> b < 2 then [f n] else positional b f (n div b) @ [f (n mod b)])"

declare positional.simps [simp del]

lemma dec_digits_positional: "dec_digits n = positional 10 digit_char n"
proof (induction n rule: dec_digits.induct)
  case (1 n)
  then show ?case by (subst dec_digits.simps, subst positional.simps) simp
qed

lemma length_positional:
  "2 \<le> b \<Longrightarrow> n < b ^ Suc k \<Longrightarrow> length (positional b f n) \<le> Suc k"
proof (induction k arbitrary: n)
  case 0
  then show ?case by (subst positional.simps) simp
next
  case (Suc k)
  from Suc.prems have "n div b < b ^ Suc k"
    by (simp add: less_mult_imp_div_less mult.commute mult.left_commute)
  with Suc show ?case by (subst positional.simps) simp
qed

lemma unat_and_mask: "unat (w AND mask k :: 32 word) = unat w mod 2 ^ k"
  by (simp only: take_bit_eq_mask [symmetric] unsigned_take_bit_eq take_bit_eq_mod [of k "unat w"])

lemma unat_drop_bit: "unat (drop_bit k w :: 32 word) = unat w div 2 ^ k"
  by (simp only: unat_drop_bit_eq drop_bit_eq_div [of k "unat w"])

lemma drop_bit_zero_iff: "drop_bit k (w :: 32 word) = 0 \<longleftrightarrow> unat w < 2 ^ k"
  by (simp add: unat_eq_zero [symmetric] unat_drop_bit div_eq_0_iff)

lemma rev_prt8_temp: "rev (prt8_temp w) = positional 8 digit_char (unat w)"
proof (induction w rule: prt8_temp.induct)
  case (1 w)
  have "unat (w AND 7) = unat w mod 8"
    using unat_and_mask [of w 3] by (simp add: mask_eq_exp_minus_1)
  with 1 show ?case
    using drop_bit_zero_iff [of 3 w] unat_drop_bit [of 3 w]
    by (subst prt8_temp.simps, subst positional.simps) auto
qed

lemma rev_prt16_temp: "rev (prt16_temp table w) = positional 16 (\<lambda>d. table ! d) (unat w)"
proof (induction table w rule: prt16_temp.induct)
  case (1 table w)
  have "unat (w AND 15) = unat w mod 16"
    using unat_and_mask [of w 4] by (simp add: mask_eq_exp_minus_1)
  with 1 show ?case
    using drop_bit_zero_iff [of 4 w] unat_drop_bit [of 4 w]
    by (subst prt16_temp.simps, subst positional.simps) auto
qed

lemma rev_prt10_temp: "rev (prt10_temp w) = positional 10 digit_char (unat w)"
proof (induction w rule: prt10_temp.induct)
  case (1 w)
  have d: "unat (w div 10) = unat w div 10" "unat (w mod 10) = unat w mod 10"
    by (simp_all add: unat_div unat_mod)
  then have "w div 10 = 0 \<longleftrightarrow> unat w < 10"
    by (simp add: unat_eq_zero [symmetric] div_eq_0_iff)
  with 1 d show ?case
    by (subst prt10_temp.simps, subst positional.simps) auto
qed

lemma unat_below: "unat (w :: 32 word) < 2 ^ 32"
  using unsigned_less [of w] by simp

lemma printers_positional:
  "prt8 w = (positional 8 digit_char (unat w), length (positional 8 digit_char (unat w)))"
  "prt10 w = (positional 10 digit_char (unat w), length (positional 10 digit_char (unat w)))"
  "prt16 w = (positional 16 (\<lambda>d. lower_digits ! d) (unat w), length (positional 16 (\<lambda>d. lower_digits ! d) (unat w)))"
  "PRT16 w = (positional 16 (\<lambda>d. upper_digits ! d) (unat w), length (positional 16 (\<lambda>d. upper_digits ! d) (unat w)))"
  by (simp_all add: prt8_def prt10_def prt16_def PRT16_def rev_prt8_temp [symmetric] rev_prt10_temp [symmetric]
      rev_prt16_temp [symmetric])

text \<open>
  C34. The four digit printers write the positional notation of the unsigned number they get,
  to the base 8, 10 and 16, and return its length; at most 11 digits, so neither \<^verbatim>\<open>temp[20]\<close>
  nor the caller's \<^verbatim>\<open>string[64]\<close> overflows.
\<close>

theorem digit_printers_positional:
  "prt8 w = (positional 8 digit_char (unat w), length (positional 8 digit_char (unat w))) \<and>
   prt10 w = (dec_digits (unat w), length (dec_digits (unat w))) \<and>
   prt16 w = (positional 16 (\<lambda>d. lower_digits ! d) (unat w), length (positional 16 (\<lambda>d. lower_digits ! d) (unat w))) \<and>
   PRT16 w = (positional 16 (\<lambda>d. upper_digits ! d) (unat w), length (positional 16 (\<lambda>d. upper_digits ! d) (unat w))) \<and>
   snd (prt8 w) \<le> 11 \<and> snd (prt10 w) \<le> 10 \<and> snd (prt16 w) \<le> 8 \<and> snd (PRT16 w) \<le> 8"
proof -
  have "length (positional 8 digit_char (unat w)) \<le> 11" "length (positional 10 digit_char (unat w)) \<le> 10"
    "length (positional 16 f (unat w)) \<le> 8" for f
    using length_positional [of 8 "unat w" 10] length_positional [of 10 "unat w" 9]
      length_positional [of 16 "unat w" 7] unat_below [of w] by simp_all
  then show ?thesis
    by (simp add: printers_positional dec_digits_positional)
qed

section \<open>Reading back what was printed\<close>

lemma int32_ok: "- 2147483648 \<le> i \<Longrightarrow> i \<le> 2147483647 \<Longrightarrow> int32 i = Inr i"
  by (simp add: int32_def)

lemma dec_value_mono: "acc \<le> dec_value acc xs"
proof (induction xs arbitrary: acc)
  case (Cons c cs)
  show ?case using Cons.IH [of "10 * acc + (code c - 48)"] by simp
qed simp

lemma stod_dec_digits:
  assumes "\<And>c. c \<in> set xs \<Longrightarrow> isdigit c" "dec_value n xs \<le> 2147483647"
  shows "stod_dec (int n) xs = Inr (int (dec_value n xs))"
  using assms
proof (induction xs arbitrary: n)
  case (Cons c cs)
  then have c: "isdigit c" by simp
  define m where "m = 10 * n + (code c - 48)"
  have "m \<le> dec_value m cs" by (rule dec_value_mono)
  moreover have dm: "dec_value n (c # cs) = dec_value m cs" using c by (simp add: m_def)
  ultimately have m: "int m \<le> 2147483647" using Cons.prems(2) by linarith
  have step: "int n * 10 + (int (code c) - 48) = int m" using c by (simp add: isdigit_def m_def)
  have "int n * 10 \<le> int m" using step c by (simp add: isdigit_def)
  then have i: "int32 (int n * 10) = Inr (int n * 10)" "int32 (int m) = Inr (int m)"
    using m by (simp_all add: int32_def)
  have "stod_dec (int m) cs = Inr (int (dec_value m cs))"
    using Cons.prems c by (intro Cons.IH) (auto simp: m_def)
  then show ?case by (simp only: stod_dec.simps c if_True i rbind_Inr step dm)
qed simp

lemma stod_decimal:
  assumes "n \<le> 2147483647"
  shows "stod (dec_digits n) = Inr (int n)" and "stod (CHR ''-'' # dec_digits n) = Inr (- int n)"
proof -
  obtain c cs where d: "dec_digits n = c # cs" by (cases "dec_digits n") auto
  have dig: "isdigit x" if "x \<in> set (c # cs)" for x using dec_digits_isdigit [of x n] d that by simp
  have c: "isdigit c" using dig [of c] by simp
  then have c': "c \<noteq> CHR ''-''" by (auto simp: isdigit_def)
  have n: "dec_value 0 (c # cs) = n" using dec_value_dec_digits [of n] unfolding d .
  have "stod_dec (int 0) (c # cs) = Inr (int (dec_value 0 (c # cs)))"
    by (rule stod_dec_digits [OF dig]) (simp_all only: n assms)
  then have v: "stod_dec 0 (c # cs) = Inr (int n)" by (simp add: n del: stod_dec.simps dec_value.simps)
  have x: "(case c # cs of a # b # _ \<Rightarrow> a = CHR ''0'' \<and> to_upper b = CHR ''X'' | _ \<Rightarrow> False) = False"
  proof (cases cs)
    case (Cons e ds)
    then have "isdigit e" using dig by simp
    then have "to_upper e \<noteq> CHR ''X''" by (cases e) (auto simp: isdigit_def)
    then show ?thesis using Cons by simp
  qed simp
  have i: "int32 (int n) = Inr (int n)" "int32 (- int n) = Inr (- int n)"
    using assms by (simp_all add: int32_def)
  show "stod (dec_digits n) = Inr (int n)"
    unfolding stod_def d Let_def using c c' x v i by (simp del: stod_dec.simps rbind_eq_Inr)
  show "stod (CHR ''-'' # dec_digits n) = Inr (- int n)"
    unfolding stod_def d Let_def using c c' x v i by (simp del: stod_dec.simps rbind_eq_Inr)
qed

lemma wrap_push4: "0 \<le> t \<Longrightarrow> t < 16 \<Longrightarrow>
  signed_take_bit 31 (push_bit 4 (signed_take_bit 31 p)) + t = signed_take_bit 31 (16 * p + (t :: int))"
proof -
  assume t: "0 \<le> t" "t < 16"
  have "take_bit 32 (push_bit 4 (signed_take_bit 31 p)) = take_bit 32 (push_bit 4 p)"
    by (simp only: take_bit_push_bit) (simp add: take_bit_signed_take_bit)
  then have "signed_take_bit 31 (push_bit 4 (signed_take_bit 31 p)) = signed_take_bit 31 (push_bit 4 p)"
    by (simp add: signed_take_bit_eq_iff_take_bit_eq del: push_bit_numeral)
  then have "signed_take_bit 31 (push_bit 4 (signed_take_bit 31 p)) = signed_take_bit 31 (16 * p)"
    by (simp add: push_bit_eq_mult mult.commute)
  moreover have "(16 * q + t) mod (16 * 268435456) = (16 * q) mod (16 * 268435456) + t" for q
    using t by (simp only: zmod_zmult2_eq) simp
  from this [of "p + 134217728"] have "signed_take_bit 31 (16 * p) + t = signed_take_bit 31 (16 * p + t)"
    by (simp add: signed_take_bit_eq_take_bit_shift take_bit_eq_mod algebra_simps)
  ultimately show ?thesis by simp
qed

text \<open>The two digit tables are read alike.\<close>

lemma hex_table:
  assumes "d < 16" "table = lower_digits \<or> table = upper_digits"
  shows "hex_value (table ! d) = Some (int d)"
proof -
  have "\<forall>d \<in> set [0..<16]. hex_value (lower_digits ! d) = Some (int d) \<and> hex_value (upper_digits ! d) = Some (int d)"
    by code_simp
  with assms show ?thesis by auto
qed

lemma stod_hex_append:
  "\<forall>c \<in> set xs. hex_value c \<noteq> None \<Longrightarrow> stod_hex n (xs @ ys) = rbind (stod_hex n xs) (\<lambda>m. stod_hex m ys)"
  by (induction xs arbitrary: n) (auto simp: rbind_assoc split: option.splits)

lemma positional_hex_value:
  assumes "table = lower_digits \<or> table = upper_digits"
  shows "\<forall>c \<in> set (positional 16 (\<lambda>d. table ! d) n). hex_value c \<noteq> None"
proof (induction n rule: less_induct)
  case (less n)
  show ?case
  proof (cases "n < 16")
    case True
    then show ?thesis by (subst positional.simps) (simp add: hex_table [OF _ assms])
  next
    case False
    then have "positional 16 (\<lambda>d. table ! d) n = positional 16 (\<lambda>d. table ! d) (n div 16) @ [table ! (n mod 16)]"
      by (subst positional.simps) simp
    with less.IH [of "n div 16"] False show ?thesis by (auto simp: hex_table [OF _ assms])
  qed
qed

lemma stod_hex_digits:
  assumes "table = lower_digits \<or> table = upper_digits"
  shows "stod_hex 0 (positional 16 (\<lambda>d. table ! d) n) = Inr (signed_take_bit 31 (int n))"
proof (induction n rule: less_induct)
  case (less n)
  have i: "int32 (signed_take_bit 31 x) = Inr (signed_take_bit 31 x)" for x
    using signed_take_bit_int_greater_eq_minus_exp [of 31 x] signed_take_bit_int_less_exp [of 31 x]
    by (simp add: int32_def)
  have last: "stod_hex (signed_take_bit 31 p) [table ! d] = Inr (signed_take_bit 31 (16 * p + int d))" if "d < 16" for p d
    using that by (simp add: hex_table [OF that assms] wrap_push4 i)
  show ?case
  proof (cases "n < 16")
    case True
    then show ?thesis using last [of n 0] by (subst positional.simps) simp
  next
    case False
    then have "stod_hex 0 (positional 16 (\<lambda>d. table ! d) n)
        = rbind (stod_hex 0 (positional 16 (\<lambda>d. table ! d) (n div 16))) (\<lambda>m. stod_hex m [table ! (n mod 16)])"
      by (subst positional.simps) (simp add: stod_hex_append [OF positional_hex_value [OF assms]])
    also have "\<dots> = Inr (signed_take_bit 31 (16 * int (n div 16) + int (n mod 16)))"
      using less.IH [of "n div 16"] False last [of "n mod 16" "int (n div 16)"] by simp
    also have "16 * int (n div 16) + int (n mod 16) = int (16 * (n div 16) + n mod 16)"
      by (simp only: of_nat_add of_nat_mult of_nat_numeral)
    also have "16 * (n div 16) + n mod 16 = n" by simp
    finally show ?thesis .
  qed
qed

lemma stod_hexadecimal:
  assumes "table = lower_digits \<or> table = upper_digits"
  shows "stod (''0x'' @ positional 16 (\<lambda>d. table ! d) n) = Inr (signed_take_bit 31 (int n))"
proof -
  have "int32 (signed_take_bit 31 (int n)) = Inr (signed_take_bit 31 (int n))"
    using signed_take_bit_int_greater_eq_minus_exp [of 31 "int n"] signed_take_bit_int_less_exp [of 31 "int n"]
    by (simp add: int32_def)
  then show ?thesis by (simp add: stod_def stod_hex_digits [OF assms] del: stod_hex.simps)
qed

section \<open>What the interpreter prints\<close>

lemmas directive_simps = directive_def read_flags_def read_field_def read_precision_def next_arg_def
  convert_def put_conversion_def leading_of_def isdigit_def

lemma sint_cases: "sint (a :: 32 word) = (if uint a < 2147483648 then uint a else uint a - 4294967296)"
proof -
  have "sint a = (uint a + 2147483648) mod 4294967296 - 2147483648"
    by (simp add: sint_uint signed_take_bit_eq_take_bit_shift take_bit_eq_mod)
  moreover have "0 \<le> uint a" "uint a < 4294967296" using unsigned_less [of a] by simp_all
  moreover have "(uint a + 2147483648) mod 4294967296 = (uint a - 2147483648) mod 4294967296"
    using mod_add_self2 [of "uint a - 2147483648" 4294967296] by (simp add: add.commute)
  ultimately show ?thesis
    by (cases "uint a < 2147483648") simp_all
qed

lemma unat_sint: "0 \<le> sint a \<Longrightarrow> unat (a :: 32 word) = nat (sint a)"
proof -
  have "uint a < 4294967296" using unsigned_less [of a, where ?'a = int] by simp
  then show "0 \<le> sint a \<Longrightarrow> unat a = nat (sint a)"
    unfolding sint_cases by (auto split: if_splits)
qed

lemma print_number: "0 \<le> sint a \<Longrightarrow> d_printf cstr ''%d'' [a] = Inr (fst (prt10 a))"
  by (simp add: d_printf.simps directive_simps printers_positional)

lemma print_nonnegative:
  "0 \<le> sint a \<Longrightarrow> d_printf cstr ''%d'' [a] = Inr (dec_digits (nat (sint a)))"
  by (simp add: print_number printers_positional dec_digits_positional unat_sint)

lemma uint_small: "0 \<le> i \<Longrightarrow> i < 4294967296 \<Longrightarrow> uint (word_of_int i :: 32 word) = i"
  by (simp add: uint_word_of_int_eq take_bit_eq_mod)

lemma negated_word:
  fixes a :: "32 word"
  assumes "sint a < 0" "sint a \<noteq> - 2147483648"
  shows "unat (word_of_int (- sint a) :: 32 word) = nat (- sint a)" and "int32 (- sint a) = Inr (- sint a)"
proof -
  have "uint a < 4294967296" using unsigned_less [of a, where ?'a = int] by simp
  then have b: "0 \<le> - sint a" "- sint a \<le> 2147483647"
    using assms unfolding sint_cases by (auto split: if_splits)
  then have "uint (word_of_int (- sint a) :: 32 word) = - sint a"
    by (intro uint_small) linarith+
  then show "unat (word_of_int (- sint a) :: 32 word) = nat (- sint a)"
    by (simp only: unat_eq_nat_uint)
  show "int32 (- sint a) = Inr (- sint a)" using b by (simp add: int32_def)
qed

lemma print_negative:
  assumes "sint a < 0" "sint a \<noteq> - 2147483648"
  shows "d_printf cstr ''%d'' [a] = Inr (CHR ''-'' # dec_digits (nat (- sint a)))"
  using negated_word [OF assms] assms
  by (simp add: d_printf.simps directive_simps printers_positional dec_digits_positional)

lemma print_hex:
  "d_printf cstr ''0x%x'' [a] = Inr (''0x'' @ fst (prt16 a))"
  "d_printf cstr ''0x%X'' [a] = Inr (''0x'' @ fst (PRT16 a))"
  by (simp_all add: d_printf.simps directive_simps printers_positional)

text \<open>
  C28. \<^verbatim>\<open>stod\<close> reads back what \<^verbatim>\<open>d_printf\<close> prints, in decimal for every
  \<^verbatim>\<open>int\<close> but the smallest and in hexadecimal for every word; at the smallest \<^verbatim>\<open>int\<close> both
  the printer and the reader overflow.
\<close>

theorem stod_reads_printed:
  "(sint a \<noteq> - (2 ^ 31) \<longrightarrow> (\<exists>s. d_printf cstr ''%d'' [a] = Inr s \<and> stod s = Inr (sint a))) \<and>
   (sint a = - (2 ^ 31) \<longrightarrow> d_printf cstr ''%d'' [a] = Inl Overflow) \<and>
   stod ''-2147483648'' = Inl Overflow \<and>
   (\<exists>s. d_printf cstr ''0x%x'' [a] = Inr s \<and> stod s = Inr (sint a)) \<and>
   (\<exists>s. d_printf cstr ''0x%X'' [a] = Inr s \<and> stod s = Inr (sint a))"
proof -
  have "uint a < 4294967296" using unsigned_less [of a, where ?'a = int] by simp
  moreover have "0 \<le> uint a" by simp
  ultimately have b: "sint a \<le> 2147483647" "- 2147483648 \<le> sint a"
    unfolding sint_cases by (simp_all only: split: if_splits) linarith+
  have dec: "\<exists>s. d_printf cstr ''%d'' [a] = Inr s \<and> stod s = Inr (sint a)" if "sint a \<noteq> - 2147483648"
  proof (cases "sint a < 0")
    case True
    then show ?thesis using print_negative [OF True that] stod_decimal(2) [of "nat (- sint a)"] b that by simp
  next
    case False
    then show ?thesis using print_nonnegative [of a] stod_decimal(1) [of "nat (sint a)"] b by simp
  qed
  have min: "d_printf cstr ''%d'' [a] = Inl Overflow" if "sint a = - 2147483648"
    using that by (simp add: d_printf.simps directive_simps int32_def)
  have hex: "stod (''0x'' @ fst (prt16 a)) = Inr (sint a)" "stod (''0x'' @ fst (PRT16 a)) = Inr (sint a)"
    using stod_hexadecimal [of _ "unat a"] by (simp_all add: printers_positional sint_uint)
  have over: "stod ''-2147483648'' = Inl Overflow" by code_simp
  show ?thesis using dec min hex over unfolding print_hex by auto
qed

lemma stod_reads_printed_witness:
  "(\<exists>s. d_printf (\<lambda>_. []) ''%d'' [- 42] = Inr s \<and> stod s = Inr (- 42)) \<and>
   d_printf (\<lambda>_. []) ''%d'' [0x80000000] = Inl Overflow"
  using stod_reads_printed [of "- 42" "\<lambda>_. []"] stod_reads_printed [of "0x80000000" "\<lambda>_. []"] by simp

section \<open>Fields\<close>

lemma read_digits_value:
  assumes "\<And>c. c \<in> set xs \<Longrightarrow> isdigit c" "dec_value n xs \<le> 2147483599" "\<not> isdigit f"
  shows "read_digits (int n) (xs @ f # rest) = Inr (int (dec_value n xs), f # rest)"
  using assms
proof (induction xs arbitrary: n)
  case (Cons c cs)
  then have c: "isdigit c" by simp
  define m where "m = 10 * n + (code c - 48)"
  have "m \<le> dec_value m cs" by (rule dec_value_mono)
  moreover have dm: "dec_value n (c # cs) = dec_value m cs" using c by (simp add: m_def)
  ultimately have m: "int m \<le> 2147483599" using Cons.prems(2) by linarith
  have step: "int n * 10 + int (code c) = int m + 48" using c by (simp add: isdigit_def m_def)
  have "int n * 10 \<le> int m" using step c by (simp add: isdigit_def)
  then have i: "int32 (int n * 10) = Inr (int n * 10)" "int32 (int m + 48) = Inr (int m + 48)"
    using m by (simp_all add: int32_def)
  have "read_digits (int m) (cs @ f # rest) = Inr (int (dec_value m cs), f # rest)"
    using Cons.prems c by (intro Cons.IH) (auto simp: m_def)
  then show ?case
    by (simp only: append_Cons read_digits.simps c if_True i rbind_Inr step dm add_diff_cancel_right')
qed simp

lemma dec_digits_head:
  "0 < n \<Longrightarrow> \<exists>c cs. dec_digits n = c # cs \<and> isdigit c \<and> c \<noteq> CHR ''0''"
proof (induction n rule: less_induct)
  case (less n)
  show ?case
  proof (cases "n < 10")
    case True
    have "code (digit_char n) \<noteq> code CHR ''0''" using less.prems code_digit_char [OF True] by simp
    then have "digit_char n \<noteq> CHR ''0''" by metis
    with True show ?thesis by (subst dec_digits.simps) simp
  next
    case False
    then have "0 < n div 10" "n div 10 < n" by auto
    from less.IH [OF this(2,1)] False show ?thesis by (subst dec_digits.simps) auto
  qed
qed

lemma read_width:
  assumes "0 < w" "w \<le> 2147483599" "\<not> isdigit f" "f \<noteq> CHR ''.''"
  shows "read_field (dec_digits w @ f # rest) args = Inr (int w, f # rest, args)"
    and "take 1 (dec_digits w @ f # rest) \<noteq> ''-''" "take 1 (dec_digits w @ f # rest) \<noteq> ''0''"
proof -
  obtain c cs where d: "dec_digits w = c # cs" and c: "isdigit c" "c \<noteq> CHR ''0''"
    using dec_digits_head [OF assms(1)] by blast
  have v: "dec_value 0 (dec_digits w) = w" by (rule dec_value_dec_digits)
  have "read_digits (int 0) (dec_digits w @ f # rest) = Inr (int w, f # rest)"
    using read_digits_value [of "dec_digits w" 0 f rest] dec_digits_isdigit assms(2,3) unfolding v by blast
  moreover have "c \<noteq> CHR ''*''" "c \<noteq> CHR ''-''" using c(1) by (auto simp: isdigit_def)
  ultimately show "read_field (dec_digits w @ f # rest) args = Inr (int w, f # rest, args)"
    by (simp add: read_field_def d del: read_digits.simps)
  show "take 1 (dec_digits w @ f # rest) \<noteq> ''-''" "take 1 (dec_digits w @ f # rest) \<noteq> ''0''"
    using c \<open>c \<noteq> CHR ''-''\<close> by (simp_all add: d)
qed

text \<open>The digits of an \<^verbatim>\<open>int\<close> and the number of characters the padding adds to them.\<close>

definition int_digits :: "32 word \<Rightarrow> string" where
  "int_digits a = dec_digits (nat \<bar>sint a\<bar>)"

definition int_sign :: "32 word \<Rightarrow> string" where
  "int_sign a = (if sint a < 0 then ''-'' else [])"

lemma convert_int:
  assumes "sint a \<noteq> - 2147483648"
  shows "convert cstr CHR ''d'' a fill fmax = Inr \<lparr>c_str = int_digits a, c_len = int (length (int_digits a)),
    c_sign = (sint a < 0), c_fill = fill, c_max = 0\<rparr>"
proof (cases "sint a < 0")
  case True
  from negated_word [OF this assms] True show ?thesis
    by (simp add: convert_def printers_positional dec_digits_positional int_digits_def)
next
  case False
  then show ?thesis
    by (simp add: convert_def printers_positional dec_digits_positional int_digits_def unat_sint)
qed

lemma put_int:
  assumes "0 < w" "w \<le> 2147483599" "fill = CHR ''0'' \<or> fill = CHR '' ''"
  shows "put_conversion left (int w) \<lparr>c_str = int_digits a, c_len = int (length (int_digits a)),
      c_sign = (sint a < 0), c_fill = fill, c_max = 0\<rparr> =
    (let pad = replicate (w - length (int_sign a @ int_digits a)) fill in
     Inr (if left then int_sign a @ int_digits a @ pad
          else if fill = CHR ''0'' then int_sign a @ pad @ int_digits a
          else pad @ int_sign a @ int_digits a))"
proof -
  have "uint a < 4294967296" using unsigned_less [of a, where ?'a = int] by simp
  moreover have "0 \<le> uint a" by simp
  ultimately have "\<bar>sint a\<bar> \<le> 2147483648"
    unfolding sint_cases by (simp only: split: if_splits) linarith
  then have "length (int_digits a) \<le> 10"
    unfolding int_digits_def by (simp add: length_dec_digits)
  then have i: "int32 (int w - int (length (int_digits a))) = Inr (int w - int (length (int_digits a)))"
    "int32 (int w - int (length (int_digits a)) - 1) = Inr (int w - int (length (int_digits a)) - 1)"
    using assms(1,2) by (simp_all add: int32_def)
  have n: "nat (int w - int k) = w - k" "nat (int w - int k - 1) = w - Suc k" for k by simp_all
  show ?thesis
    using assms(1,3) i by (auto simp: put_conversion_def leading_of_def int_sign_def n Let_def)
qed

text \<open>
  What \<^verbatim>\<open>%d\<close> prints with a width: padded on the left with blanks, or with zeros behind
  the sign, or on the right with blanks; with both flags the zeros go to the right of the
  number, so that \<^verbatim>\<open>%-05d\<close> prints 12000 for 12.
\<close>

theorem integer_fields:
  assumes "0 < w" "w \<le> 2147483599" "sint a \<noteq> - (2 ^ 31)"
  shows "let pad = replicate (w - length (int_sign a @ int_digits a)) in
    d_printf cstr (''%'' @ dec_digits w @ ''d'') [a] = Inr (pad CHR '' '' @ int_sign a @ int_digits a) \<and>
    d_printf cstr (''%0'' @ dec_digits w @ ''d'') [a] = Inr (int_sign a @ pad CHR ''0'' @ int_digits a) \<and>
    d_printf cstr (''%-'' @ dec_digits w @ ''d'') [a] = Inr (int_sign a @ int_digits a @ pad CHR '' '') \<and>
    d_printf cstr (''%-0'' @ dec_digits w @ ''d'') [a] = Inr (int_sign a @ int_digits a @ pad CHR ''0'')"
proof -
  have f: "\<not> isdigit CHR ''d''" "CHR ''d'' \<noteq> CHR ''.''" by (auto simp: isdigit_def)
  note r = read_width [OF assms(1,2) f]
  have a: "sint a \<noteq> - 2147483648" using assms(3) by simp
  note rules = d_printf.simps directive_def read_precision_def next_arg_def r convert_int [OF a]
    put_int [OF assms(1,2)]
  obtain c cs where d: "dec_digits w = c # cs" and c: "isdigit c"
    using dec_digits_head [OF assms(1)] by blast
  then have p: "take 1 (dec_digits w @ ''d'') \<noteq> ''%''" by (auto simp: isdigit_def)
  have fl: "read_flags (dec_digits w @ ''d'') = (False, CHR '' '', dec_digits w @ ''d'')"
    "read_flags (CHR ''0'' # dec_digits w @ ''d'') = (False, CHR ''0'', dec_digits w @ ''d'')"
    "read_flags (CHR ''-'' # dec_digits w @ ''d'') = (True, CHR '' '', dec_digits w @ ''d'')"
    "read_flags (CHR ''-'' # CHR ''0'' # dec_digits w @ ''d'') = (True, CHR ''0'', dec_digits w @ ''d'')"
    using r by (simp_all add: read_flags_def Let_def)
  show ?thesis
    unfolding Let_def using p by (simp add: rules fl Let_def)
qed

lemma integer_fields_witness:
  "d_printf (\<lambda>_. []) ''%-05d'' [12] = Inr ''12000'' \<and> d_printf (\<lambda>_. []) ''%5d'' [- 12] = Inr ''  -12''"
proof -
  have d: "dec_digits 5 = ''5''" "dec_digits 12 = ''12''" by (simp_all add: dec_digits.simps)
  have r: "replicate 2 c = [c, c]" "replicate 3 c = [c, c, c]" for c :: char by (simp_all add: numeral_eq_Suc)
  show ?thesis
    using integer_fields [of 5 12 "\<lambda>_. []"] integer_fields [of 5 "- 12" "\<lambda>_. []"]
    by (simp add: int_digits_def int_sign_def d r)
qed
end
