(* ===== verification/Devices.thy ===== *)
theory Devices
  imports Prelude
begin

text \<open>
  What the two device registries \<^verbatim>\<open>oal/iw/iw_dev_net.c\<close> and
  \<^verbatim>\<open>oal/iw/iw_dev_sensor.c\<close> have in common: the device and driver tables of five
  entries, the use of the buses (\<^verbatim>\<open>g_uart_using_info\<close>, \<^verbatim>\<open>g_i2c_using_info\<close> of
  \<^verbatim>\<open>oal/iw/iw_bsp.c\<close>), the fixed name fields and the lookups. The type \<open>'f\<close> is the
  table of driver functions (\<^verbatim>\<open>net_func_t\<close> or \<^verbatim>\<open>sensor_func_t\<close>).
\<close>

unbundle bit_operations_syntax

named_theorems dev_simps \<open>facts about device registries\<close>

section \<open>Text in fields of fixed size\<close>

abbreviation nul :: char where
  "nul \<equiv> CHR 0x00"

definition MAX_DRIVER_NAME_LEN :: nat where
  "MAX_DRIVER_NAME_LEN = 20"

text \<open>\<^verbatim>\<open>strncpy(field, s, n)\<close> over the first \<open>n\<close> bytes: cut off, or filled up with NUL.\<close>

definition strncpy :: "nat \<Rightarrow> cstring \<Rightarrow> string" where
  "strncpy n s = take n (s @ replicate n nul)"

text \<open>\<^verbatim>\<open>memcpy(dst, src, n)\<close>: both objects must hold \<open>n\<close> bytes.\<close>

definition memcpy :: "string \<Rightarrow> string \<Rightarrow> nat \<Rightarrow> string res" where
  "memcpy dst src n = (if length dst < n \<or> length src < n then Inl Out_of_bounds
     else Inr (take n src @ drop n dst))"

text \<open>The C string in a field, as \<^verbatim>\<open>strlen\<close> and \<^verbatim>\<open>strcpy\<close> read it: a field without NUL is overread.\<close>

definition field_str :: "string \<Rightarrow> cstring res" where
  "field_str f = (if nul \<in> set f then Inr (takeWhile (\<lambda>c. c \<noteq> nul) f) else Inl Out_of_bounds)"

text \<open>\<^verbatim>\<open>strcmp(s, field) == 0\<close>: the bytes are compared up to the first difference.\<close>

fun strcmp_eq :: "cstring \<Rightarrow> string \<Rightarrow> bool res" where
  "strcmp_eq s [] = Inl Out_of_bounds"
| "strcmp_eq [] (c # cs) = Inr (c = nul)"
| "strcmp_eq (a # s) (c # cs) = (if a \<noteq> c then Inr False else strcmp_eq s cs)"

lemma length_strncpy [simp]: "length (strncpy n s) = n"
  by (simp add: strncpy_def)

lemma strncpy_short: "length s \<le> n \<Longrightarrow> strncpy n s = s @ replicate (n - length s) nul"
  by (simp add: strncpy_def)

lemma strcmp_eq_append:
  "nul \<notin> set s \<Longrightarrow> nul \<notin> set t \<Longrightarrow> strcmp_eq s (t @ nul # r) = Inr (s = t)"
proof (induction s arbitrary: t)
  case Nil
  then show ?case by (cases t) auto
next
  case (Cons a s)
  then show ?case by (cases t) auto
qed

lemma strcmp_eq_strncpy:
  assumes "nul \<notin> set s" "nul \<notin> set t" "length t < n"
  shows "strcmp_eq s (strncpy n t) = Inr (s = t)"
proof -
  obtain k where k: "n - length t = Suc k" using assms(3) by (cases "n - length t") auto
  then show ?thesis
    using assms by (simp add: strncpy_short strcmp_eq_append)
qed

lemma strcmp_eq_full: "strcmp_eq (s @ t) s = Inl Out_of_bounds"
  by (induction s) auto

section \<open>The buses\<close>

datatype if_type_t = IF_TYPE_I2C | IF_TYPE_UART | IF_TYPE_SPI | IF_TYPE_GPIO | IF_TYPE_ADC

definition IF_ID_MAX :: nat where
  "IF_ID_MAX = 5"

record bus_usage =
  uart_using :: "32 word list"
  i2c_using :: "8 word list"

text \<open>
  The first half of \<^verbatim>\<open>iw_register_network\<close> and \<^verbatim>\<open>iw_register_sensor\<close>: \<open>None\<close>
  when the bus is taken and the registration is given up.
\<close>

definition claim_bus :: "if_type_t \<Rightarrow> nat \<Rightarrow> 32 word \<Rightarrow> bus_usage \<Rightarrow> bus_usage option res" where
  "claim_bus iface iface_id info bus = (
     if iface = IF_TYPE_UART then
       if IF_ID_MAX \<le> iface_id then Inl Out_of_bounds
       else if uart_using bus ! iface_id = 0
         then Inr (Some (bus\<lparr>uart_using := (uart_using bus)[iface_id := info]\<rparr>)) else Inr None
     else if iface = IF_TYPE_I2C then
       if IF_ID_MAX \<le> iface_id then Inl Out_of_bounds
       else if i2c_using bus ! iface_id = 0
         then Inr (Some (bus\<lparr>i2c_using := (i2c_using bus)[iface_id := 1]\<rparr>)) else Inr None
     else Inr (Some bus))"

definition initial_bus :: bus_usage where
  "initial_bus = \<lparr>uart_using = replicate IF_ID_MAX 0, i2c_using = replicate IF_ID_MAX 0\<rparr>"

section \<open>The tables\<close>

record 'f device =
  d_type :: "32 word"
  d_iface :: "if_type_t option"
  d_iface_id :: nat
  d_dev_id :: nat
  d_name :: string
  d_func :: "'f option"

record 'f driver =
  dr_name :: string
  dr_func :: "'f option"

record 'f registry =
  dev_num :: nat
  devs :: "'f device list"
  driver_num :: nat
  drivers :: "'f driver list"

text \<open>\<^verbatim>\<open>MAX_NET_DEV\<close>, \<^verbatim>\<open>MAX_NET_DRIVER\<close>, \<^verbatim>\<open>MAX_SENSOR_DEV\<close> and \<^verbatim>\<open>MAX_SENSOR_DRIVER\<close>\<close>

definition MAX_DEV :: nat where
  "MAX_DEV = 5"

definition empty_device :: "'f device" where
  "empty_device = \<lparr>d_type = 0, d_iface = None, d_iface_id = 0, d_dev_id = 0,
     d_name = replicate MAX_DRIVER_NAME_LEN nul, d_func = None\<rparr>"

definition empty_registry :: "'f registry" where
  "empty_registry = \<lparr>dev_num = 0, devs = replicate MAX_DEV empty_device, driver_num = 0,
     drivers = replicate MAX_DEV \<lparr>dr_name = replicate MAX_DRIVER_NAME_LEN nul, dr_func = None\<rparr>\<rparr>"

text \<open>The next entry is filled in and the counter incremented.\<close>

definition add_device :: "'f device \<Rightarrow> 'f registry \<Rightarrow> 'f registry" where
  "add_device dev reg = reg\<lparr>devs := (devs reg)[dev_num reg := dev], dev_num := dev_num reg + 1\<rparr>"

text \<open>
  The older registration, without a look at the number of devices and with a
  \<^verbatim>\<open>memcpy\<close> of the name: \<open>name\<close> is the whole object the argument points to.
\<close>

definition register_old ::
    "32 word \<Rightarrow> if_type_t \<Rightarrow> nat \<Rightarrow> 32 word \<Rightarrow> string \<Rightarrow> bus_usage \<times> 'f registry \<Rightarrow> (bus_usage \<times> 'f registry) res" where
  "register_old type iface iface_id info name st = (case st of (bus, reg) \<Rightarrow>
     rbind (claim_bus iface iface_id info bus) (\<lambda>claimed. case claimed of
       None \<Rightarrow> Inr (bus, reg)
     | Some bus \<Rightarrow>
         if MAX_DEV \<le> dev_num reg then Inl Out_of_bounds
         else let dev = devs reg ! dev_num reg in
           rbind (memcpy (d_name dev) name MAX_DRIVER_NAME_LEN) (\<lambda>field.
             let dev = dev\<lparr>d_type := type, d_iface := Some iface, d_iface_id := iface_id, d_name := field,
                           d_dev_id := dev_num reg + 1\<rparr> in
             Inr (bus, add_device dev reg))))"

definition register_driver :: "'f driver \<Rightarrow> 'f registry \<Rightarrow> 'f registry res" where
  "register_driver driver reg = (
     if MAX_DEV \<le> driver_num reg then Inl Out_of_bounds
     else let dr = drivers reg ! driver_num reg in
       rbind (memcpy (dr_name dr) (dr_name driver) MAX_DRIVER_NAME_LEN) (\<lambda>field.
         Inr (reg\<lparr>drivers := (drivers reg)[driver_num reg := \<lparr>dr_name = field, dr_func = dr_func driver\<rparr>],
                  driver_num := driver_num reg + 1\<rparr>)))"

text \<open>The registration in use: it refuses a sixth device and takes the driver with the device.\<close>

definition register_new ::
    "32 word \<Rightarrow> cstring \<Rightarrow> if_type_t \<Rightarrow> nat \<Rightarrow> 'f driver option \<Rightarrow> 'f registry \<Rightarrow> (iw_error_t \<times> 'f registry) res" where
  "register_new type name iface iface_id driver reg = (
     if MAX_DEV \<le> dev_num reg then Inr (IW_FAIL, reg)
     else rbind (deref driver) (\<lambda>driver.
       let dev = (devs reg ! dev_num reg)\<lparr>d_type := type, d_name := strncpy MAX_DRIVER_NAME_LEN name,
                   d_iface := Some iface, d_iface_id := iface_id, d_func := dr_func driver\<rparr> in
       Inr (IW_SUCCESS, add_device dev reg)))"

section \<open>Lookups\<close>

abbreviation registered :: "'f registry \<Rightarrow> 'f device list" where
  "registered reg \<equiv> take (dev_num reg) (devs reg)"

text \<open>By type bits and name: without a name the loop runs on and the last device stays.\<close>

fun devid_loop ::
    "32 word \<Rightarrow> cstring_ptr \<Rightarrow> 'f device list \<Rightarrow> nat \<Rightarrow> nat option \<Rightarrow> nat option res" where
  "devid_loop type name [] i found = Inr found"
| "devid_loop type name (dev # ds) i found = (
     if 0 < type \<and> d_type dev AND type \<noteq> 0 then
       (case name of
         Some s \<Rightarrow> rbind (strcmp_eq s (d_name dev)) (\<lambda>eq.
           if eq then Inr (Some i) else devid_loop type name ds (Suc i) found)
       | None \<Rightarrow> devid_loop type name ds (Suc i) (Some i))
     else devid_loop type name ds (Suc i) found)"

text \<open>By all the type bits: the first device. A type without bits is found in any device.\<close>

fun by_type_loop :: "32 word \<Rightarrow> 'f device list \<Rightarrow> nat \<Rightarrow> nat option" where
  "by_type_loop type [] i = None"
| "by_type_loop type (dev # ds) i =
     (if d_type dev AND type = type then Some i else by_type_loop type ds (Suc i))"

fun by_name_loop :: "cstring \<Rightarrow> 'f device list \<Rightarrow> nat \<Rightarrow> nat option res" where
  "by_name_loop name [] i = Inr None"
| "by_name_loop name (dev # ds) i = (
     if d_type dev \<noteq> 0 then rbind (strcmp_eq name (d_name dev)) (\<lambda>eq.
       if eq then Inr (Some i) else by_name_loop name ds (Suc i))
     else by_name_loop name ds (Suc i))"

text \<open>The status, and what is written through \<^verbatim>\<open>devid\<close>.\<close>

definition found_dev :: "nat option \<Rightarrow> iw_error_t \<times> nat option" where
  "found_dev r = (if r = None then IW_FAIL else IW_SUCCESS, r)"

text \<open>What \<^verbatim>\<open>registered_net_info_t\<close> and \<^verbatim>\<open>registered_sensor_info_t\<close> hold.\<close>

record registered_info =
  ri_dev_id :: nat
  ri_type :: "32 word"
  ri_name :: string

definition put_info :: "nat \<Rightarrow> registered_info \<Rightarrow> registered_info list \<Rightarrow> registered_info list res" where
  "put_info i entry info = (if length info \<le> i then Inl Out_of_bounds else Inr (info[i := entry]))"

definition get_info :: "nat \<Rightarrow> registered_info list \<Rightarrow> registered_info res" where
  "get_info i info = (if length info \<le> i then Inl Out_of_bounds else Inr (info ! i))"

section \<open>Calls through the driver table\<close>

text \<open>
  \<^verbatim>\<open>if (dev[dev_id].func && dev[dev_id].func->op) return ...->op(&dev[dev_id], ...); return fail\<close>:
  \<open>w\<close> is the state of the hardware the driver functions read and change.
\<close>

definition dispatch_dev ::
    "'f registry \<Rightarrow> nat \<Rightarrow> ('f \<Rightarrow> 'g option) \<Rightarrow> 'r \<Rightarrow> ('g \<Rightarrow> 'w \<Rightarrow> 'r \<times> 'w) \<Rightarrow> 'w \<Rightarrow> ('r \<times> 'w) res" where
  "dispatch_dev reg dev_id sel fail call w = (
     if MAX_DEV \<le> dev_id then Inl Out_of_bounds
     else case Option.bind (d_func (devs reg ! dev_id)) sel of
       None \<Rightarrow> Inr (fail, w)
     | Some g \<Rightarrow> Inr (call g w))"

section \<open>What the registrations keep\<close>

definition device_ok :: "'f device \<Rightarrow> bool" where
  "device_ok dev \<longleftrightarrow> length (d_name dev) = MAX_DRIVER_NAME_LEN"

text \<open>The tables have their size, the counters stay in it, the unused entries are untouched.\<close>

definition registry_ok :: "'f registry \<Rightarrow> bool" where
  "registry_ok reg \<longleftrightarrow> length (devs reg) = MAX_DEV \<and> length (drivers reg) = MAX_DEV \<and>
     dev_num reg \<le> MAX_DEV \<and> driver_num reg \<le> MAX_DEV \<and>
     list_all device_ok (devs reg) \<and> list_all (\<lambda>d. length (dr_name d) = MAX_DRIVER_NAME_LEN) (drivers reg) \<and>
     drop (dev_num reg) (devs reg) = replicate (MAX_DEV - dev_num reg) empty_device"

lemma empty_registry_ok [dev_simps]: "registry_ok empty_registry"
  by (simp add: registry_ok_def empty_registry_def device_ok_def empty_device_def list_all_iff)

lemma list_all_update: "list_all P xs \<Longrightarrow> P x \<Longrightarrow> list_all P (xs[i := x])"
  using set_update_subset_insert [of xs i x] by (auto simp: list_all_iff)

lemma drop_free:
  assumes "drop n xs = replicate (k - n) e" "n < k" "length xs = k"
  shows "drop (Suc n) (xs[n := x]) = replicate (k - Suc n) e" and "xs ! n = e"
proof -
  have "xs ! n = drop n xs ! 0" using assms(2,3) by simp
  also have "\<dots> = e" using assms(2) unfolding assms(1) by simp
  finally show "xs ! n = e" .
  have "drop (Suc n) (xs[n := x]) = drop 1 (drop n xs)" by (simp add: drop_drop)
  also have "\<dots> = replicate (k - Suc n) e" using assms(1) by simp
  finally show "drop (Suc n) (xs[n := x]) = replicate (k - Suc n) e" .
qed

lemma registry_ok_append:
  assumes "registry_ok reg" "dev_num reg < MAX_DEV" "device_ok dev"
  shows "registry_ok (add_device dev reg)"
  using assms drop_free(1) [of "dev_num reg" "devs reg" MAX_DEV empty_device dev]
  by (simp add: registry_ok_def add_device_def list_all_update)

lemma memcpy_length [dev_simps]: "memcpy dst src n = Inr f \<Longrightarrow> length f = length dst"
  by (auto simp: memcpy_def split: if_splits)

text \<open>The entry the older registration writes, and all it does when it does not fault.\<close>

definition old_device :: "32 word \<Rightarrow> if_type_t \<Rightarrow> nat \<Rightarrow> string \<Rightarrow> 'f registry \<Rightarrow> 'f device" where
  "old_device type iface iface_id field reg = (devs reg ! dev_num reg)\<lparr>d_type := type, d_iface := Some iface,
     d_iface_id := iface_id, d_name := field, d_dev_id := dev_num reg + 1\<rparr>"

lemma register_old_cases:
  assumes "register_old type iface iface_id info name (bus, reg) = Inr (bus', reg')"
  obtains "claim_bus iface iface_id info bus = Inr None" "bus' = bus" "reg' = reg"
  | field where "claim_bus iface iface_id info bus = Inr (Some bus')" "dev_num reg < MAX_DEV"
      "memcpy (d_name (devs reg ! dev_num reg)) name MAX_DRIVER_NAME_LEN = Inr field"
      "reg' = add_device (old_device type iface iface_id field reg) reg"
proof (cases "claim_bus iface iface_id info bus")
  case (Inr claimed)
  show ?thesis
  proof (cases claimed)
    case None
    with Inr have "register_old type iface iface_id info name (bus, reg) = Inr (bus, reg)"
      by (simp add: register_old_def)
    with assms have "bus' = bus" "reg' = reg" by simp_all
    then show ?thesis using that(1) Inr None by blast
  next
    case (Some b)
    note c = Inr Some
    have n: "dev_num reg < MAX_DEV"
      by (rule ccontr) (use assms c in \<open>simp add: register_old_def\<close>)
    show ?thesis
    proof (cases "memcpy (d_name (devs reg ! dev_num reg)) name MAX_DRIVER_NAME_LEN")
      case (Inl e)
      then show ?thesis using assms c n by (simp add: register_old_def Let_def)
    next
      case (Inr field)
      then have "register_old type iface iface_id info name (bus, reg)
          = Inr (b, add_device (old_device type iface iface_id field reg) reg)"
        using c n by (simp add: register_old_def Let_def old_device_def)
      with assms have "bus' = b" "reg' = add_device (old_device type iface iface_id field reg) reg"
        by simp_all
      then show ?thesis using that(2) c n Inr by blast
    qed
  qed
next
  case (Inl e)
  then show ?thesis using assms by (simp add: register_old_def)
qed

lemma register_old_ok:
  assumes "registry_ok reg" "register_old type iface iface_id info name (bus, reg) = Inr (bus', reg')"
  shows "registry_ok reg'"
  using assms(2)
proof (cases rule: register_old_cases)
  case 1
  with assms(1) show ?thesis by simp
next
  case (2 field)
  have "device_ok (devs reg ! dev_num reg)"
    using assms(1) 2(2) by (simp add: registry_ok_def list_all_length)
  then have "length field = MAX_DRIVER_NAME_LEN"
    using memcpy_length [OF 2(3)] by (simp add: device_ok_def)
  then show ?thesis
    unfolding 2(4) by (intro registry_ok_append assms(1) 2(2)) (simp add: device_ok_def old_device_def)
qed

lemma register_driver_ok:
  assumes "registry_ok reg" "register_driver driver reg = Inr reg'"
  shows "registry_ok reg'"
proof -
  obtain field where f: "driver_num reg < MAX_DEV"
    "memcpy (dr_name (drivers reg ! driver_num reg)) (dr_name driver) MAX_DRIVER_NAME_LEN = Inr field"
    "reg' = reg\<lparr>drivers := (drivers reg)[driver_num reg := \<lparr>dr_name = field, dr_func = dr_func driver\<rparr>],
       driver_num := driver_num reg + 1\<rparr>"
    using assms(2) by (auto simp: register_driver_def Let_def split: if_splits)
  have "length (dr_name (drivers reg ! driver_num reg)) = MAX_DRIVER_NAME_LEN"
    using assms(1) f(1) by (simp add: registry_ok_def list_all_length)
  then show ?thesis
    using assms(1) f(1) memcpy_length [OF f(2)] unfolding f(3)
    by (simp add: registry_ok_def list_all_update)
qed

lemma register_new_ok:
  assumes "registry_ok reg" "register_new type name iface iface_id driver reg = Inr (e, reg')"
  shows "registry_ok reg'"
proof (cases "dev_num reg < MAX_DEV")
  case True
  with assms(2) obtain dr where "driver = Some dr" by (cases driver) (auto simp: register_new_def)
  with assms(2) True have "reg' = add_device ((devs reg ! dev_num reg)\<lparr>d_type := type,
      d_name := strncpy MAX_DRIVER_NAME_LEN name, d_iface := Some iface, d_iface_id := iface_id,
      d_func := dr_func dr\<rparr>) reg"
    by (simp add: register_new_def Let_def)
  with registry_ok_append [OF assms(1) True] show ?thesis by (simp add: device_ok_def)
next
  case False
  then show ?thesis using assms by (simp add: register_new_def)
qed

section \<open>The lookups, declaratively\<close>

text \<open>The type bits: the last device that shares one, and the first that has all of them.\<close>

lemma devid_loop_last:
  "\<exists>r. devid_loop type None ds i found = Inr r \<and>
    (r = found \<and> (\<forall>j < length ds. \<not> (0 < type \<and> d_type (ds ! j) AND type \<noteq> 0)) \<or>
     (\<exists>j < length ds. r = Some (i + j) \<and> 0 < type \<and> d_type (ds ! j) AND type \<noteq> 0 \<and>
        (\<forall>k < length ds. j < k \<longrightarrow> d_type (ds ! k) AND type = 0)))"
proof (induction ds arbitrary: i found)
  case (Cons dev ds)
  let ?found = "if 0 < type \<and> d_type dev AND type \<noteq> 0 then Some i else found"
  have "devid_loop type None (dev # ds) i found = devid_loop type None ds (Suc i) ?found" by simp
  with Cons.IH [of "Suc i" ?found] show ?case
    by (auto simp: All_less_Suc2 Ex_less_Suc2 split: if_splits)
qed simp

lemma by_type_loop_first:
  "by_type_loop type ds i = None \<and> (\<forall>j < length ds. d_type (ds ! j) AND type \<noteq> type) \<or>
   (\<exists>j < length ds. by_type_loop type ds i = Some (i + j) \<and> d_type (ds ! j) AND type = type \<and>
      (\<forall>k < j. d_type (ds ! k) AND type \<noteq> type))"
proof (induction ds arbitrary: i)
  case (Cons dev ds)
  show ?case
  proof (cases "d_type dev AND type = type")
    case False
    with Cons.IH [of "Suc i"] show ?thesis
      by (auto simp: All_less_Suc2 Ex_less_Suc2)
  qed auto
qed simp

section \<open>A directory of names\<close>

fun first_index :: "('a \<Rightarrow> bool) \<Rightarrow> 'a list \<Rightarrow> nat option" where
  "first_index P [] = None"
| "first_index P (x # xs) = (if P x then Some 0 else map_option Suc (first_index P xs))"

fun register_all :: "('d \<Rightarrow> 's \<Rightarrow> (iw_error_t \<times> 's) res) \<Rightarrow> 'd list \<Rightarrow> 's \<Rightarrow> (iw_error_t list \<times> 's) res" where
  "register_all register [] s = Inr ([], s)"
| "register_all register (d # ds) s = rbind (register d s) (\<lambda>(e, s).
     rbind (register_all register ds s) (\<lambda>(es, s). Inr (e # es, s)))"

text \<open>
  What a client of a registry relies on: five entries, kept in the order of registration, and
  a lookup that finds the first entry of a name.
\<close>

locale device_directory =
  fixes ok :: "'s \<Rightarrow> bool" and names :: "'s \<Rightarrow> string list" and empty :: 's
    and good :: "'d \<Rightarrow> bool" and entry_name :: "'d \<Rightarrow> string" and good_name :: "string \<Rightarrow> bool"
    and register :: "'d \<Rightarrow> 's \<Rightarrow> (iw_error_t \<times> 's) res"
    and lookup :: "string \<Rightarrow> 's \<Rightarrow> (iw_error_t \<times> nat option) res"
  assumes ok_empty: "ok empty" and names_empty: "names empty = []"
    and register_room: "ok s \<Longrightarrow> good d \<Longrightarrow> length (names s) < 5 \<Longrightarrow>
      \<exists>s'. register d s = Inr (IW_SUCCESS, s') \<and> ok s' \<and> names s' = names s @ [entry_name d]"
    and register_full: "ok s \<Longrightarrow> 5 \<le> length (names s) \<Longrightarrow> register d s = Inr (IW_FAIL, s)"
    and lookup_first: "ok s \<Longrightarrow> good_name n \<Longrightarrow> lookup n s = Inr (found_dev (first_index (\<lambda>m. n = m) (names s)))"
begin

lemma register_all_full:
  "ok s \<Longrightarrow> 5 \<le> length (names s) \<Longrightarrow> register_all register ds s = Inr (replicate (length ds) IW_FAIL, s)"
  by (induction ds) (simp_all add: register_full)

lemma register_all_names:
  "ok s \<Longrightarrow> list_all good ds \<Longrightarrow> length (names s) + n = 5 \<Longrightarrow>
   \<exists>s'. register_all register ds s =
       Inr (replicate (min n (length ds)) IW_SUCCESS @ replicate (length ds - n) IW_FAIL, s') \<and>
     ok s' \<and> names s' = names s @ take n (map entry_name ds)"
proof (induction ds arbitrary: s n)
  case (Cons d ds)
  show ?case
  proof (cases n)
    case 0
    then have "5 \<le> length (names s)" using Cons.prems(3) by simp
    then show ?thesis
      using register_all_full [OF Cons.prems(1), of "d # ds"] Cons.prems(1) 0 by (simp del: register_all.simps)
  next
    case (Suc k)
    then obtain s1 where s1: "register d s = Inr (IW_SUCCESS, s1)" "ok s1" "names s1 = names s @ [entry_name d]"
      using register_room [OF Cons.prems(1), of d] Cons.prems by auto
    with Cons.IH [of s1 k] Cons.prems Suc obtain s' where
      "register_all register ds s1 = Inr (replicate (min k (length ds)) IW_SUCCESS @ replicate (length ds - k) IW_FAIL, s')"
      "ok s'" "names s' = names s1 @ take k (map entry_name ds)" by auto
    then show ?thesis using s1 Suc by simp
  qed
qed simp

lemma directory:
  assumes "list_all good ds"
  shows "\<exists>s. register_all register ds empty =
      Inr (replicate (min 5 (length ds)) IW_SUCCESS @ replicate (length ds - 5) IW_FAIL, s) \<and>
    (\<forall>n. good_name n \<longrightarrow> lookup n s = Inr (found_dev (first_index (\<lambda>m. n = m) (take 5 (map entry_name ds)))))"
  using register_all_names [OF ok_empty assms, of 5] lookup_first by (auto simp: names_empty)

end

section \<open>The registries as directories\<close>

record 'f entry =
  e_type :: "32 word"
  e_name :: cstring
  e_iface :: if_type_t
  e_num :: nat
  e_driver :: "'f driver"

definition name_ok :: "cstring \<Rightarrow> bool" where
  "name_ok s \<longleftrightarrow> nul \<notin> set s \<and> length s < MAX_DRIVER_NAME_LEN"

definition entry_ok :: "'f entry \<Rightarrow> bool" where
  "entry_ok e \<longleftrightarrow> e_type e \<noteq> 0 \<and> name_ok (e_name e)"

definition register_entry :: "'f entry \<Rightarrow> 'f registry \<Rightarrow> (iw_error_t \<times> 'f registry) res" where
  "register_entry e reg = register_new (e_type e) (e_name e) (e_iface e) (e_num e) (Some (e_driver e)) reg"

definition name_of :: "'f device \<Rightarrow> cstring" where
  "name_of dev = takeWhile (\<lambda>c. c \<noteq> nul) (d_name dev)"

definition named :: "'f device \<Rightarrow> bool" where
  "named dev \<longleftrightarrow> d_type dev \<noteq> 0 \<and> name_ok (name_of dev) \<and> d_name dev = strncpy MAX_DRIVER_NAME_LEN (name_of dev)"

definition directory_ok :: "'f registry \<Rightarrow> bool" where
  "directory_ok reg \<longleftrightarrow> registry_ok reg \<and> list_all named (registered reg)"

definition dev_names :: "'f registry \<Rightarrow> string list" where
  "dev_names reg = map name_of (registered reg)"

lemma takeWhile_strncpy: "name_ok s \<Longrightarrow> takeWhile (\<lambda>c. c \<noteq> nul) (strncpy MAX_DRIVER_NAME_LEN s) = s"
proof -
  assume s: "name_ok s"
  then obtain k where "MAX_DRIVER_NAME_LEN - length s = Suc k"
    by (cases "MAX_DRIVER_NAME_LEN - length s") (auto simp: name_ok_def)
  moreover have "takeWhile (\<lambda>c. c \<noteq> nul) (s @ nul # t) = s" for t
    using s by (subst takeWhile_append2) (auto simp: name_ok_def)
  ultimately show ?thesis using s by (simp add: name_ok_def strncpy_short)
qed

lemma by_name_loop_first:
  "list_all named ds \<Longrightarrow> name_ok n \<Longrightarrow>
   by_name_loop n ds i = Inr (map_option ((+) i) (first_index (\<lambda>m. n = m) (map name_of ds)))"
proof (induction ds arbitrary: i)
  case (Cons dev ds)
  then have "strcmp_eq n (d_name dev) = Inr (n = name_of dev)"
    using strcmp_eq_strncpy [of n "name_of dev" MAX_DRIVER_NAME_LEN] by (simp add: named_def name_ok_def)
  moreover have "(+) (Suc i) = (\<lambda>x. Suc (i + x))" by auto
  ultimately show ?case using Cons by (auto simp: named_def option.map_comp o_def)
qed simp

lemma registered_add:
  "registry_ok reg \<Longrightarrow> dev_num reg < MAX_DEV \<Longrightarrow> registered (add_device dev reg) = registered reg @ [dev]"
  by (simp add: add_device_def registry_ok_def take_Suc_conv_app_nth)

lemma length_dev_names: "directory_ok reg \<Longrightarrow> length (dev_names reg) = dev_num reg"
  by (simp add: directory_ok_def dev_names_def registry_ok_def)

interpretation registry: device_directory directory_ok dev_names empty_registry entry_ok e_name name_ok
  register_entry "\<lambda>n reg. rbind (by_name_loop n (registered reg) 0) (\<lambda>r. Inr (found_dev r))"
proof unfold_locales
  show "directory_ok (empty_registry :: 'a registry)"
    using empty_registry_ok [where 'a = 'a] by (simp add: directory_ok_def) (simp add: empty_registry_def)
  show "dev_names (empty_registry :: 'a registry) = []"
    by (simp add: dev_names_def empty_registry_def)
next
  fix reg :: "'a registry" and e :: "'a entry"
  assume ok: "directory_ok reg" "entry_ok e" and "length (dev_names reg) < 5"
  then have n: "dev_num reg < MAX_DEV" by (simp add: length_dev_names MAX_DEV_def)
  define dev where "dev = (devs reg ! dev_num reg)\<lparr>d_type := e_type e,
    d_name := strncpy MAX_DRIVER_NAME_LEN (e_name e), d_iface := Some (e_iface e), d_iface_id := e_num e,
    d_func := dr_func (e_driver e)\<rparr>"
  have r: "register_entry e reg = Inr (IW_SUCCESS, add_device dev reg)"
    using n by (simp add: register_entry_def register_new_def dev_def Let_def)
  have nm: "name_of dev = e_name e" using ok(2) by (simp add: name_of_def dev_def takeWhile_strncpy entry_ok_def)
  then have "named dev" using ok(2) by (simp add: named_def dev_def entry_ok_def)
  moreover have "registry_ok (add_device dev reg)"
    using ok(1) n by (intro registry_ok_append) (simp_all add: directory_ok_def device_ok_def dev_def)
  ultimately show "\<exists>s'. register_entry e reg = Inr (IW_SUCCESS, s') \<and> directory_ok s' \<and>
      dev_names s' = dev_names reg @ [e_name e]"
    using ok(1) n r nm by (simp add: directory_ok_def dev_names_def registered_add)
next
  fix reg :: "'a registry" and e :: "'a entry"
  assume "directory_ok reg" "5 \<le> length (dev_names reg)"
  then show "register_entry e reg = Inr (IW_FAIL, reg)"
    by (simp add: length_dev_names register_entry_def register_new_def MAX_DEV_def)
next
  fix reg :: "'a registry" and n
  assume "directory_ok reg" "name_ok n"
  moreover have "map_option ((+) 0) r = r" for r :: "nat option" by (cases r) simp_all
  ultimately show "rbind (by_name_loop n (registered reg) 0) (\<lambda>r. Inr (found_dev r)) =
      Inr (found_dev (first_index (\<lambda>m. n = m) (dev_names reg)))"
    by (simp add: by_name_loop_first directory_ok_def dev_names_def)
qed

end
