(* ===== verification/Networks.thy ===== *)
theory Networks
  imports Devices
begin

text \<open>
  The network devices of \<^verbatim>\<open>oal/iw/iw_dev_net.c\<close>: registration, lookup, the calls through
  the table of driver functions, initialisation with its connection task, and the rounds of
  \<^verbatim>\<open>netConnectionTask\<close>. The driver functions are not part of the repository: they are
  fields of the driver table and act on the state \<open>'w\<close> of the hardware. A driver function gets
  the number of its device and leaves the registry alone. Output parameters are results;
  \<open>None\<close> stands for a value the callee did not write.
\<close>

unbundle bit_operations_syntax

section \<open>Types\<close>

definition NET_DEV_TYPE_WIFI :: "32 word" where "NET_DEV_TYPE_WIFI = 1"
definition NET_DEV_TYPE_BLE :: "32 word" where "NET_DEV_TYPE_BLE = 2"
definition NET_DEV_TYPE_LORA :: "32 word" where "NET_DEV_TYPE_LORA = 4"

definition NET_SUCCESS :: int where "NET_SUCCESS = 0"
definition NET_FAIL :: int where "NET_FAIL = - 1"
definition NET_TIMEOUT :: int where "NET_TIMEOUT = - 2"
definition NET_AP_NOT_FOUND :: int where "NET_AP_NOT_FOUND = - 3"

definition NET_CONNECTED :: int where "NET_CONNECTED = 1"
definition NET_GOT_IP :: int where "NET_GOT_IP = 2"

lemmas net_type_defs = NET_DEV_TYPE_WIFI_def NET_DEV_TYPE_BLE_def NET_DEV_TYPE_LORA_def
lemmas net_code_defs = NET_SUCCESS_def NET_FAIL_def NET_TIMEOUT_def NET_AP_NOT_FOUND_def
  NET_CONNECTED_def NET_GOT_IP_def

datatype dev_init_status_t = DEV_NOT_INITIALIZED | DEV_INITIALIZED | DEV_INIT_ERROR | DEV_DEINITIALIZED

text \<open>A pointer argument \<^verbatim>\<open>void *config\<close> and what a driver puts there.\<close>

type_synonym config = "nat option"

record 'w net_func =
  nf_init :: "(nat \<Rightarrow> 'w \<Rightarrow> iw_error_t \<times> 'w) option"
  nf_deinit :: "(nat \<Rightarrow> 'w \<Rightarrow> iw_error_t \<times> 'w) option"
  nf_is_ready :: "(nat \<Rightarrow> 'w \<Rightarrow> (iw_error_t \<times> dev_init_status_t option) \<times> 'w) option"
  nf_available :: "(nat \<Rightarrow> 'w \<Rightarrow> (iw_error_t \<times> nat option) \<times> 'w) option"
  nf_recv_data :: "(nat \<Rightarrow> nat \<Rightarrow> 'w \<Rightarrow> (iw_error_t \<times> string \<times> nat) \<times> 'w) option"
  nf_send_data :: "(nat \<Rightarrow> string \<Rightarrow> 'w \<Rightarrow> iw_error_t \<times> 'w) option"
  nf_connect :: "(nat \<Rightarrow> nat \<Rightarrow> 'w \<Rightarrow> int \<times> 'w) option"
  nf_disconnect :: "(nat \<Rightarrow> 'w \<Rightarrow> iw_error_t \<times> 'w) option"
  nf_is_connected :: "(nat \<Rightarrow> 'w \<Rightarrow> (iw_error_t \<times> int option) \<times> 'w) option"
  nf_scan :: "(nat \<Rightarrow> 'w \<Rightarrow> (int \<times> int option) \<times> 'w) option"
  nf_get_capa :: "(nat \<Rightarrow> 'w \<Rightarrow> (iw_error_t \<times> nat option) \<times> 'w) option"
  nf_set_config :: "(nat \<Rightarrow> nat \<Rightarrow> config \<Rightarrow> 'w \<Rightarrow> iw_error_t \<times> 'w) option"
  nf_get_config :: "(nat \<Rightarrow> config \<Rightarrow> 'w \<Rightarrow> (iw_error_t \<times> nat option \<times> config) \<times> 'w) option"
  nf_set_power :: "(nat \<Rightarrow> nat \<Rightarrow> 'w \<Rightarrow> iw_error_t \<times> 'w) option"
  nf_get_power :: "(nat \<Rightarrow> 'w \<Rightarrow> (iw_error_t \<times> nat option) \<times> 'w) option"
  nf_get_rssi :: "(nat \<Rightarrow> 'w \<Rightarrow> (iw_error_t \<times> int option) \<times> 'w) option"
  nf_connect_server :: "(nat \<Rightarrow> cstring_ptr \<Rightarrow> int \<Rightarrow> nat \<Rightarrow> int \<Rightarrow> 'w \<Rightarrow> int \<times> 'w) option"
  nf_disconnect_server :: "(nat \<Rightarrow> 'w \<Rightarrow> int \<times> 'w) option"

type_synonym 'w net_registry = "'w net_func registry"

section \<open>Registration and lookup\<close>

definition iw_register_network ::
    "32 word \<Rightarrow> if_type_t \<Rightarrow> nat \<Rightarrow> 32 word \<Rightarrow> string \<Rightarrow> bus_usage \<times> 'w net_registry \<Rightarrow> (bus_usage \<times> 'w net_registry) res" where
  "iw_register_network type iface iface_id info name st = register_old type iface iface_id info name st"

definition iw_register_network_driver :: "'w net_func driver \<Rightarrow> 'w net_registry \<Rightarrow> 'w net_registry res" where
  "iw_register_network_driver driver reg = register_driver driver reg"

definition iw_register_network_new ::
    "32 word \<Rightarrow> cstring \<Rightarrow> if_type_t \<Rightarrow> nat \<Rightarrow> 'w net_func driver option \<Rightarrow> 'w net_registry \<Rightarrow>
     (iw_error_t \<times> 'w net_registry) res" where
  "iw_register_network_new dev_type name iface if_num driver reg =
     register_new dev_type name iface if_num driver reg"

definition iw_get_registered_net_num :: "'w net_registry \<Rightarrow> nat" where
  "iw_get_registered_net_num reg = dev_num reg"

definition iw_get_network_devid :: "32 word \<Rightarrow> cstring_ptr \<Rightarrow> 'w net_registry \<Rightarrow> (iw_error_t \<times> nat option) res" where
  "iw_get_network_devid type name reg =
     rbind (devid_loop type name (registered reg) 0 None) (\<lambda>r. Inr (found_dev r))"

definition iw_get_network_dev_id_by_type :: "32 word \<Rightarrow> 'w net_registry \<Rightarrow> iw_error_t \<times> nat option" where
  "iw_get_network_dev_id_by_type type reg = found_dev (by_type_loop type (registered reg) 0)"

definition iw_get_network_dev_id_by_name :: "cstring \<Rightarrow> 'w net_registry \<Rightarrow> (iw_error_t \<times> nat option) res" where
  "iw_get_network_dev_id_by_name name reg =
     rbind (by_name_loop name (registered reg) 0) (\<lambda>r. Inr (found_dev r))"

text \<open>
  An entry of the caller's array: the name is copied without its terminator, so that the
  bytes behind it stay.
\<close>

definition copy_net_info :: "nat \<Rightarrow> 'w net_func device \<Rightarrow> registered_info list \<Rightarrow> registered_info list res" where
  "copy_net_info i dev info =
     rbind (get_info i info) (\<lambda>old.
     rbind (field_str (d_name dev)) (\<lambda>s.
     rbind (memcpy (ri_name old) (d_name dev) (length s)) (\<lambda>name.
       put_info i \<lparr>ri_dev_id = i, ri_type = d_type dev, ri_name = name\<rparr> info)))"

fun all_networks_loop :: "'w net_func device list \<Rightarrow> nat \<Rightarrow> registered_info list \<Rightarrow> registered_info list res" where
  "all_networks_loop [] i info = Inr info"
| "all_networks_loop (dev # ds) i info =
     rbind (copy_net_info i dev info) (all_networks_loop ds (Suc i))"

definition iw_get_all_networks_info ::
    "registered_info list \<Rightarrow> 'w net_registry \<Rightarrow> (iw_error_t \<times> registered_info list) res" where
  "iw_get_all_networks_info info reg =
     rbind (all_networks_loop (registered reg) 0 info) (\<lambda>info. Inr (IW_SUCCESS, info))"

text \<open>
  The first device of the type is always reported; a later one only when it has the name,
  and it ends the loop.
\<close>

fun network_info_loop ::
    "32 word \<Rightarrow> cstring_ptr \<Rightarrow> 'w net_func device list \<Rightarrow> nat \<Rightarrow> bool \<Rightarrow> registered_info list \<Rightarrow>
     (bool \<times> registered_info list) res" where
  "network_info_loop type name [] i found info = Inr (found, info)"
| "network_info_loop type name (dev # ds) i found info = (
     if d_type dev \<noteq> type then network_info_loop type name ds (Suc i) found info
     else rbind (if \<not> found then Inr True
                 else (case name of None \<Rightarrow> Inr False | Some s \<Rightarrow> strcmp_eq s (d_name dev))) (\<lambda>hit.
       if hit then rbind (copy_net_info i dev info) (\<lambda>info.
         if found then Inr (True, info) else network_info_loop type name ds (Suc i) True info)
       else network_info_loop type name ds (Suc i) found info))"

definition iw_get_network_info ::
    "32 word \<Rightarrow> cstring_ptr \<Rightarrow> registered_info list option \<Rightarrow> 'w net_registry \<Rightarrow>
     (iw_error_t \<times> registered_info list option) res" where
  "iw_get_network_info type name info reg = (case info of
     None \<Rightarrow> Inr (IW_FAIL, None)
   | Some info \<Rightarrow> rbind (network_info_loop type name (registered reg) 0 False info) (\<lambda>(found, info).
       Inr (if found then IW_SUCCESS else IW_FAIL, Some info)))"

section \<open>Calls through the driver table\<close>

definition iw_is_ready_network ::
    "'w net_registry \<Rightarrow> nat \<Rightarrow> 'w \<Rightarrow> ((iw_error_t \<times> dev_init_status_t option) \<times> 'w) res" where
  "iw_is_ready_network reg dev_id w = dispatch_dev reg dev_id nf_is_ready (IW_FAIL, None) (\<lambda>g. g dev_id) w"

definition iw_available_network :: "'w net_registry \<Rightarrow> nat \<Rightarrow> 'w \<Rightarrow> ((iw_error_t \<times> nat option) \<times> 'w) res" where
  "iw_available_network reg dev_id w = dispatch_dev reg dev_id nf_available (IW_FAIL, None) (\<lambda>g. g dev_id) w"

text \<open>The status, the bytes put into the buffer and the length, \<open>len\<close> on failure.\<close>

definition iw_recv_data_network ::
    "'w net_registry \<Rightarrow> nat \<Rightarrow> nat \<Rightarrow> 'w \<Rightarrow> ((iw_error_t \<times> string \<times> nat) \<times> 'w) res" where
  "iw_recv_data_network reg dev_id len w =
     dispatch_dev reg dev_id nf_recv_data (IW_FAIL, [], len) (\<lambda>g. g dev_id len) w"

definition iw_send_data_network :: "'w net_registry \<Rightarrow> nat \<Rightarrow> string \<Rightarrow> 'w \<Rightarrow> (iw_error_t \<times> 'w) res" where
  "iw_send_data_network reg dev_id buff w = dispatch_dev reg dev_id nf_send_data IW_FAIL (\<lambda>g. g dev_id buff) w"

definition iw_connect_network :: "'w net_registry \<Rightarrow> nat \<Rightarrow> nat \<Rightarrow> 'w \<Rightarrow> (int \<times> 'w) res" where
  "iw_connect_network reg dev_id timeout w = dispatch_dev reg dev_id nf_connect NET_FAIL (\<lambda>g. g dev_id timeout) w"

definition iw_disconnect_network :: "'w net_registry \<Rightarrow> nat \<Rightarrow> 'w \<Rightarrow> (iw_error_t \<times> 'w) res" where
  "iw_disconnect_network reg dev_id w = dispatch_dev reg dev_id nf_disconnect IW_FAIL (\<lambda>g. g dev_id) w"

definition iw_is_connected_network ::
    "'w net_registry \<Rightarrow> nat \<Rightarrow> 'w \<Rightarrow> ((iw_error_t \<times> int option) \<times> 'w) res" where
  "iw_is_connected_network reg dev_id w = dispatch_dev reg dev_id nf_is_connected (IW_FAIL, None) (\<lambda>g. g dev_id) w"

definition iw_scan_network :: "'w net_registry \<Rightarrow> nat \<Rightarrow> 'w \<Rightarrow> ((int \<times> int option) \<times> 'w) res" where
  "iw_scan_network reg dev_id w = dispatch_dev reg dev_id nf_scan (NET_FAIL, None) (\<lambda>g. g dev_id) w"

definition iw_get_capa_network :: "'w net_registry \<Rightarrow> nat \<Rightarrow> 'w \<Rightarrow> ((iw_error_t \<times> nat option) \<times> 'w) res" where
  "iw_get_capa_network reg dev_id w = dispatch_dev reg dev_id nf_get_capa (IW_FAIL, None) (\<lambda>g. g dev_id) w"

definition iw_set_config_network :: "'w net_registry \<Rightarrow> nat \<Rightarrow> nat \<Rightarrow> config \<Rightarrow> 'w \<Rightarrow> (iw_error_t \<times> 'w) res" where
  "iw_set_config_network reg dev_id wake_src config w =
     dispatch_dev reg dev_id nf_set_config IW_FAIL (\<lambda>g. g dev_id wake_src config) w"

definition iw_get_config_network ::
    "'w net_registry \<Rightarrow> nat \<Rightarrow> config \<Rightarrow> 'w \<Rightarrow> ((iw_error_t \<times> nat option \<times> config) \<times> 'w) res" where
  "iw_get_config_network reg dev_id config w =
     dispatch_dev reg dev_id nf_get_config (IW_FAIL, None, config) (\<lambda>g. g dev_id config) w"

definition iw_set_pwrmode_network :: "'w net_registry \<Rightarrow> nat \<Rightarrow> nat \<Rightarrow> 'w \<Rightarrow> (iw_error_t \<times> 'w) res" where
  "iw_set_pwrmode_network reg dev_id pwr_mode w =
     dispatch_dev reg dev_id nf_set_power IW_FAIL (\<lambda>g. g dev_id pwr_mode) w"

definition iw_get_pwrmode_network :: "'w net_registry \<Rightarrow> nat \<Rightarrow> 'w \<Rightarrow> ((iw_error_t \<times> nat option) \<times> 'w) res" where
  "iw_get_pwrmode_network reg dev_id w = dispatch_dev reg dev_id nf_get_power (IW_FAIL, None) (\<lambda>g. g dev_id) w"

definition iw_get_rssi_network :: "'w net_registry \<Rightarrow> nat \<Rightarrow> 'w \<Rightarrow> ((iw_error_t \<times> int option) \<times> 'w) res" where
  "iw_get_rssi_network reg dev_id w = dispatch_dev reg dev_id nf_get_rssi (IW_FAIL, None) (\<lambda>g. g dev_id) w"

definition iw_connect_server ::
    "'w net_registry \<Rightarrow> nat \<Rightarrow> cstring_ptr \<Rightarrow> int \<Rightarrow> nat \<Rightarrow> int \<Rightarrow> 'w \<Rightarrow> (int \<times> 'w) res" where
  "iw_connect_server reg dev_id address port timeout proto w =
     dispatch_dev reg dev_id nf_connect_server NET_FAIL (\<lambda>g. g dev_id address port timeout proto) w"

definition iw_disconnect_server :: "'w net_registry \<Rightarrow> nat \<Rightarrow> 'w \<Rightarrow> (int \<times> 'w) res" where
  "iw_disconnect_server reg dev_id w = dispatch_dev reg dev_id nf_disconnect_server NET_FAIL (\<lambda>g. g dev_id) w"

section \<open>Initialisation and the connection task\<close>

text \<open>
  \<^verbatim>\<open>connection_task_handle\<close> and the tasks the kernel knows: \<open>running_tasks\<close> are those
  created and not deleted. Whether the kernel has room for another task is an argument.
\<close>

record connection_tasks =
  conn_handle :: "nat option"
  running_tasks :: "nat list"
  next_handle :: nat

definition create_connection_task :: "bool \<Rightarrow> connection_tasks \<Rightarrow> connection_tasks" where
  "create_connection_task room k = (if room
     then k\<lparr>conn_handle := Some (next_handle k), running_tasks := next_handle k # running_tasks k,
            next_handle := next_handle k + 1\<rparr>
     else k\<lparr>conn_handle := None\<rparr>)"

definition delete_connection_task :: "connection_tasks \<Rightarrow> connection_tasks" where
  "delete_connection_task k = (case conn_handle k of
     None \<Rightarrow> k
   | Some h \<Rightarrow> k\<lparr>conn_handle := None, running_tasks := removeAll h (running_tasks k)\<rparr>)"

definition iw_init_network ::
    "'w net_registry \<Rightarrow> bool \<Rightarrow> nat \<Rightarrow> connection_tasks \<Rightarrow> 'w \<Rightarrow> (iw_error_t \<times> connection_tasks \<times> 'w) res" where
  "iw_init_network reg room dev_id k w = (
     let dev = devs reg ! dev_id in
     if dev_num reg \<le> dev_id then Inr (IW_FAIL, k, w)
     else if d_type dev = 0 then Inr (IW_FAIL, k, w)
     else case d_func dev of
       None \<Rightarrow> Inr (IW_FAIL, k, w)
     | Some func \<Rightarrow> rbind (deref (nf_init func)) (\<lambda>init. case init dev_id w of (retval, w) \<Rightarrow>
         if retval = IW_FAIL then Inr (IW_FAIL, k, w)
         else if d_type dev = NET_DEV_TYPE_WIFI \<or> d_type dev = NET_DEV_TYPE_LORA then
           let k = create_connection_task room k in
           Inr (if conn_handle k = None then IW_FAIL else IW_SUCCESS, k, w)
         else Inr (IW_SUCCESS, k, w)))"

definition iw_deinit_network ::
    "'w net_registry \<Rightarrow> nat \<Rightarrow> connection_tasks \<Rightarrow> 'w \<Rightarrow> (iw_error_t \<times> connection_tasks \<times> 'w) res" where
  "iw_deinit_network reg dev_id k w =
     rbind (dispatch_dev reg dev_id nf_deinit IW_FAIL (\<lambda>g. g dev_id) w) (\<lambda>(_, w).
       Inr (IW_SUCCESS, delete_connection_task k, w))"

text \<open>
  The local variables of \<^verbatim>\<open>netConnectionTask\<close> that live from one round to the next, and
  one round of its loop: whether the loop goes on, and the milliseconds slept.
\<close>

record conn_locals =
  connected_status :: int
  dev_status :: dev_init_status_t

definition initial_locals :: conn_locals where
  "initial_locals = \<lparr>connected_status = 0, dev_status = DEV_NOT_INITIALIZED\<rparr>"

definition is_connected_for :: "32 word \<Rightarrow> int \<Rightarrow> bool" where
  "is_connected_for type status \<longleftrightarrow>
     type = NET_DEV_TYPE_WIFI \<and> status = NET_GOT_IP \<or> type = NET_DEV_TYPE_LORA \<and> status = NET_CONNECTED"

text \<open>Scanning and connecting, on a device that is ready.\<close>

definition try_connect :: "'w net_registry \<Rightarrow> nat \<Rightarrow> 'w \<Rightarrow> (nat \<times> 'w) res" where
  "try_connect reg dev_id w =
     rbind (iw_scan_network reg dev_id w) (\<lambda>((net_retval, rssi), w).
       if net_retval = NET_SUCCESS then
         rbind (iw_connect_network reg dev_id (20 * 1000) w) (\<lambda>(net_retval, w). Inr (1000, w))
       else if net_retval = NET_AP_NOT_FOUND then Inr (1000 + 1000, w)
       else Inr (1000, w))"

definition connection_round ::
    "'w net_registry \<Rightarrow> 32 word \<Rightarrow> nat \<Rightarrow> conn_locals \<Rightarrow> 'w \<Rightarrow> (bool \<times> nat \<times> conn_locals \<times> 'w) res" where
  "connection_round reg type dev_id v w =
     rbind (iw_is_connected_network reg dev_id w) (\<lambda>((retval, status), w).
       let v = (case status of None \<Rightarrow> v | Some s \<Rightarrow> v\<lparr>connected_status := s\<rparr>) in
       if retval = IW_FAIL then Inr (True, 1000, v, w)
       else if is_connected_for type (connected_status v) then Inr (True, 1000, v, w)
       else rbind (iw_is_ready_network reg dev_id w) (\<lambda>((retval, status), w).
         let v = (case status of None \<Rightarrow> v | Some s \<Rightarrow> v\<lparr>dev_status := s\<rparr>) in
         if retval = IW_FAIL then Inr (True, 1000, v, w)
         else if dev_status v = DEV_INITIALIZED then
           rbind (try_connect reg dev_id w) (\<lambda>(slept, w). Inr (True, slept, v, w))
         else if dev_status v = DEV_INIT_ERROR then Inr (False, 0, v, w)
         else Inr (True, 1000, v, w)))"

text \<open>At most \<open>n\<close> rounds: whether the loop still runs, the time slept, and the state.\<close>

fun connection_rounds ::
    "nat \<Rightarrow> 'w net_registry \<Rightarrow> 32 word \<Rightarrow> nat \<Rightarrow> conn_locals \<Rightarrow> 'w \<Rightarrow> (bool \<times> nat \<times> conn_locals \<times> 'w) res" where
  "connection_rounds 0 reg type dev_id v w = Inr (True, 0, v, w)"
| "connection_rounds (Suc n) reg type dev_id v w =
     rbind (connection_round reg type dev_id v w) (\<lambda>(running, slept, v, w).
       if running then rbind (connection_rounds n reg type dev_id v w) (\<lambda>(running, slept', v, w).
         Inr (running, slept + slept', v, w))
       else Inr (False, slept, v, w))"

text \<open>The task looks its device up by the type it was created for.\<close>

definition netConnectionTask :: "nat \<Rightarrow> 'w net_registry \<Rightarrow> 32 word \<Rightarrow> 'w \<Rightarrow> (bool \<times> nat \<times> 'w) res" where
  "netConnectionTask n reg type w =
     rbind (iw_get_network_devid type None reg) (\<lambda>(retval, devid).
       if retval = IW_FAIL then Inr (False, 0, w)
       else let dev_id = (case devid of None \<Rightarrow> 0 | Some i \<Rightarrow> i) in
         rbind (connection_rounds n reg type dev_id initial_locals w) (\<lambda>(running, slept, v, w).
           Inr (running, slept, w)))"

end
