(* ===== verification/Sensors.thy ===== *)
theory Sensors
  imports Networks
begin

text \<open>
  The sensors of \<^verbatim>\<open>oal/iw/iw_dev_sensor.c\<close>: registration, lookup, initialisation and the
  calls through the table of driver functions, modelled like those of the network devices.
\<close>

unbundle bit_operations_syntax

section \<open>Types\<close>

definition SENSOR_TYPE_TMP :: "32 word" where "SENSOR_TYPE_TMP = 1"
definition SENSOR_TYPE_CO2 :: "32 word" where "SENSOR_TYPE_CO2 = 2"
definition SENSOR_TYPE_HUM :: "32 word" where "SENSOR_TYPE_HUM = 4"

record 'w sensor_func =
  sf_init :: "(nat \<Rightarrow> 'w \<Rightarrow> iw_error_t \<times> 'w) option"
  sf_deinit :: "(nat \<Rightarrow> 'w \<Rightarrow> iw_error_t \<times> 'w) option"
  sf_is_ready :: "(nat \<Rightarrow> 'w \<Rightarrow> (iw_error_t \<times> dev_init_status_t option) \<times> 'w) option"
  sf_read :: "(nat \<Rightarrow> 32 word \<Rightarrow> nat \<Rightarrow> 'w \<Rightarrow> (iw_error_t \<times> byte list option) \<times> 'w) option"
  sf_get_capa :: "(nat \<Rightarrow> 'w \<Rightarrow> (iw_error_t \<times> nat option) \<times> 'w) option"
  sf_set_config :: "(nat \<Rightarrow> nat \<Rightarrow> config \<Rightarrow> 'w \<Rightarrow> iw_error_t \<times> 'w) option"
  sf_get_config :: "(nat \<Rightarrow> config \<Rightarrow> 'w \<Rightarrow> (iw_error_t \<times> nat option \<times> config) \<times> 'w) option"
  sf_set_power :: "(nat \<Rightarrow> nat \<Rightarrow> 'w \<Rightarrow> iw_error_t \<times> 'w) option"
  sf_get_power :: "(nat \<Rightarrow> 'w \<Rightarrow> (iw_error_t \<times> nat option) \<times> 'w) option"

type_synonym 'w sensor_registry = "'w sensor_func registry"

section \<open>Registration and lookup\<close>

definition iw_register_sensor ::
    "32 word \<Rightarrow> if_type_t \<Rightarrow> nat \<Rightarrow> 32 word \<Rightarrow> string \<Rightarrow> bus_usage \<times> 'w sensor_registry \<Rightarrow>
     (bus_usage \<times> 'w sensor_registry) res" where
  "iw_register_sensor type iface iface_id info name st = register_old type iface iface_id info name st"

definition iw_register_sensor_driver :: "'w sensor_func driver \<Rightarrow> 'w sensor_registry \<Rightarrow> 'w sensor_registry res" where
  "iw_register_sensor_driver driver reg = register_driver driver reg"

definition iw_register_sensor_new ::
    "32 word \<Rightarrow> cstring \<Rightarrow> if_type_t \<Rightarrow> nat \<Rightarrow> 'w sensor_func driver option \<Rightarrow> 'w sensor_registry \<Rightarrow>
     (iw_error_t \<times> 'w sensor_registry) res" where
  "iw_register_sensor_new dev_type name iface if_num driver reg =
     register_new dev_type name iface if_num driver reg"

definition iw_get_registered_sensor_num :: "'w sensor_registry \<Rightarrow> nat" where
  "iw_get_registered_sensor_num reg = dev_num reg"

text \<open>\<^verbatim>\<open>strcpy\<close> of the name, with its terminator.\<close>

definition get_sensor_entry :: "nat \<Rightarrow> 'w sensor_registry \<Rightarrow> registered_info list \<Rightarrow> registered_info list res" where
  "get_sensor_entry i reg info =
     rbind (get_info i info) (\<lambda>old.
     rbind (field_str (d_name (devs reg ! i))) (\<lambda>s.
     rbind (memcpy (ri_name old) (s @ [nul]) (length s + 1)) (\<lambda>name.
       put_info i \<lparr>ri_dev_id = i, ri_type = d_type (devs reg ! i), ri_name = name\<rparr> info)))"

definition iw_get_all_sensors_info ::
    "registered_info list \<Rightarrow> 'w sensor_registry \<Rightarrow> (iw_error_t \<times> registered_info list) res" where
  "iw_get_all_sensors_info info reg =
     rbind (rfold (\<lambda>info i. get_sensor_entry i reg info) [0..<dev_num reg] info) (\<lambda>info. Inr (IW_SUCCESS, info))"

fun sensor_info_loop ::
    "32 word \<Rightarrow> cstring \<Rightarrow> 'w sensor_registry \<Rightarrow> nat list \<Rightarrow> registered_info list \<Rightarrow>
     (iw_error_t \<times> registered_info list) res" where
  "sensor_info_loop type name reg [] info = Inr (IW_FAIL, info)"
| "sensor_info_loop type name reg (i # is) info =
     rbind (if d_type (devs reg ! i) = type then strcmp_eq name (d_name (devs reg ! i)) else Inr False) (\<lambda>hit.
       if hit then rbind (get_sensor_entry i reg info) (\<lambda>info. Inr (IW_SUCCESS, info))
       else sensor_info_loop type name reg is info)"

definition iw_get_sensor_info ::
    "32 word \<Rightarrow> cstring_ptr \<Rightarrow> registered_info list option \<Rightarrow> 'w sensor_registry \<Rightarrow>
     (iw_error_t \<times> registered_info list option) res" where
  "iw_get_sensor_info type name info reg = (case (name, info) of
     (Some name, Some info) \<Rightarrow> rbind (sensor_info_loop type name reg [0..<dev_num reg] info)
       (\<lambda>(e, info). Inr (e, Some info))
   | _ \<Rightarrow> Inr (IW_FAIL, info))"

definition iw_get_sensor_dev_info :: "nat \<Rightarrow> 'w sensor_registry \<Rightarrow> 'w sensor_func device option" where
  "iw_get_sensor_dev_info dev_id reg = (
     if dev_num reg \<le> dev_id then None
     else if d_type (devs reg ! dev_id) = 0 then None
     else Some (devs reg ! dev_id))"

definition iw_get_sensor_devid :: "32 word \<Rightarrow> cstring_ptr \<Rightarrow> 'w sensor_registry \<Rightarrow> (iw_error_t \<times> nat option) res" where
  "iw_get_sensor_devid type name reg =
     rbind (devid_loop type name (registered reg) 0 None) (\<lambda>r. Inr (found_dev r))"

definition iw_get_sensor_dev_id_by_type :: "32 word \<Rightarrow> 'w sensor_registry \<Rightarrow> iw_error_t \<times> nat option" where
  "iw_get_sensor_dev_id_by_type type reg = found_dev (by_type_loop type (registered reg) 0)"

definition iw_get_sensor_dev_id_by_name :: "cstring \<Rightarrow> 'w sensor_registry \<Rightarrow> (iw_error_t \<times> nat option) res" where
  "iw_get_sensor_dev_id_by_name name reg =
     rbind (by_name_loop name (registered reg) 0) (\<lambda>r. Inr (found_dev r))"

section \<open>Calls through the driver table\<close>

definition iw_init_sensor :: "'w sensor_registry \<Rightarrow> nat \<Rightarrow> 'w \<Rightarrow> iw_error_t \<times> 'w" where
  "iw_init_sensor reg dev_id w = (
     let dev = devs reg ! dev_id in
     if dev_num reg \<le> dev_id then (IW_FAIL, w)
     else if d_type dev = 0 then (IW_FAIL, w)
     else case d_func dev of
       None \<Rightarrow> (IW_FAIL, w)
     | Some func \<Rightarrow> (case sf_init func of None \<Rightarrow> (IW_FAIL, w) | Some init \<Rightarrow> init dev_id w))"

definition iw_deinit_sensor :: "'w sensor_registry \<Rightarrow> nat \<Rightarrow> 'w \<Rightarrow> (iw_error_t \<times> 'w) res" where
  "iw_deinit_sensor reg dev_id w = dispatch_dev reg dev_id sf_deinit IW_FAIL (\<lambda>g. g dev_id) w"

definition iw_is_ready_sensor ::
    "'w sensor_registry \<Rightarrow> nat \<Rightarrow> 'w \<Rightarrow> ((iw_error_t \<times> dev_init_status_t option) \<times> 'w) res" where
  "iw_is_ready_sensor reg dev_id w = dispatch_dev reg dev_id sf_is_ready (IW_FAIL, None) (\<lambda>g. g dev_id) w"

text \<open>\<open>None\<close> where nothing is written to the buffer.\<close>

definition iw_read_sensor ::
    "'w sensor_registry \<Rightarrow> nat \<Rightarrow> 32 word \<Rightarrow> nat \<Rightarrow> 'w \<Rightarrow> ((iw_error_t \<times> byte list option) \<times> 'w) res" where
  "iw_read_sensor reg dev_id type len w =
     dispatch_dev reg dev_id sf_read (IW_FAIL, None) (\<lambda>g. g dev_id type len) w"

definition iw_get_capa_sensor :: "'w sensor_registry \<Rightarrow> nat \<Rightarrow> 'w \<Rightarrow> ((iw_error_t \<times> nat option) \<times> 'w) res" where
  "iw_get_capa_sensor reg dev_id w = dispatch_dev reg dev_id sf_get_capa (IW_FAIL, None) (\<lambda>g. g dev_id) w"

definition iw_set_config_sensor :: "'w sensor_registry \<Rightarrow> nat \<Rightarrow> nat \<Rightarrow> config \<Rightarrow> 'w \<Rightarrow> (iw_error_t \<times> 'w) res" where
  "iw_set_config_sensor reg dev_id wake_src config w =
     dispatch_dev reg dev_id sf_set_config IW_FAIL (\<lambda>g. g dev_id wake_src config) w"

definition iw_get_config_sensor ::
    "'w sensor_registry \<Rightarrow> nat \<Rightarrow> config \<Rightarrow> 'w \<Rightarrow> ((iw_error_t \<times> nat option \<times> config) \<times> 'w) res" where
  "iw_get_config_sensor reg dev_id config w =
     dispatch_dev reg dev_id sf_get_config (IW_FAIL, None, config) (\<lambda>g. g dev_id config) w"

definition iw_set_pwrmode_sensor :: "'w sensor_registry \<Rightarrow> nat \<Rightarrow> nat \<Rightarrow> 'w \<Rightarrow> (iw_error_t \<times> 'w) res" where
  "iw_set_pwrmode_sensor reg dev_id pwr_mode w =
     dispatch_dev reg dev_id sf_set_power IW_FAIL (\<lambda>g. g dev_id pwr_mode) w"

definition iw_get_pwrmode_sensor :: "'w sensor_registry \<Rightarrow> nat \<Rightarrow> 'w \<Rightarrow> ((iw_error_t \<times> nat option) \<times> 'w) res" where
  "iw_get_pwrmode_sensor reg dev_id w = dispatch_dev reg dev_id sf_get_power (IW_FAIL, None) (\<lambda>g. g dev_id) w"

text \<open>\<^verbatim>\<open>iw_init_device\<close> of \<^verbatim>\<open>iw_bsp.c\<close>: every registered sensor, the results ignored.\<close>

definition iw_init_device :: "'w sensor_registry \<Rightarrow> 'w \<Rightarrow> 'w" where
  "iw_init_device reg w =
     fold (\<lambda>i w. snd (iw_init_sensor reg i w)) [0..<iw_get_registered_sensor_num reg] w"

end
