(* ===== verification/NetProps.thy ===== *)
theory NetProps
  imports Sensors
begin

text \<open>
  What the registries of network devices and sensors guarantee: the directory of names, the
  lookups by type, the older registration, the connection task and its rounds.
\<close>

section \<open>Registration and lookup\<close>

definition register_network_entry :: "'w net_func entry \<Rightarrow> 'w net_registry \<Rightarrow> (iw_error_t \<times> 'w net_registry) res" where
  "register_network_entry e reg =
     iw_register_network_new (e_type e) (e_name e) (e_iface e) (e_num e) (Some (e_driver e)) reg"

definition register_sensor_entry :: "'w sensor_func entry \<Rightarrow> 'w sensor_registry \<Rightarrow> (iw_error_t \<times> 'w sensor_registry) res" where
  "register_sensor_entry e reg =
     iw_register_sensor_new (e_type e) (e_name e) (e_iface e) (e_num e) (Some (e_driver e)) reg"

interpretation networks: device_directory directory_ok dev_names empty_registry entry_ok e_name name_ok
  register_network_entry iw_get_network_dev_id_by_name
  using registry.device_directory_axioms
  by (simp add: register_network_entry_def [abs_def] iw_register_network_new_def
      iw_get_network_dev_id_by_name_def [abs_def] register_entry_def [abs_def])

interpretation sensors: device_directory directory_ok dev_names empty_registry entry_ok e_name name_ok
  register_sensor_entry iw_get_sensor_dev_id_by_name
  using registry.device_directory_axioms
  by (simp add: register_sensor_entry_def [abs_def] iw_register_sensor_new_def
      iw_get_sensor_dev_id_by_name_def [abs_def] register_entry_def [abs_def])

text \<open>
  C36. Registering devices with names of at most 19 characters, network devices and sensors alike:
  the first five succeed, every further one is refused, and a name is found at the position
  of its first registration among those five.
\<close>

theorem registered_devices_found:
  assumes "list_all entry_ok nets" "list_all entry_ok sens"
  shows "(\<exists>reg. register_all register_network_entry nets empty_registry =
      Inr (replicate (min 5 (length nets)) IW_SUCCESS @ replicate (length nets - 5) IW_FAIL, reg) \<and>
      (\<forall>n. name_ok n \<longrightarrow> iw_get_network_dev_id_by_name n reg =
         Inr (found_dev (first_index (\<lambda>m. n = m) (take 5 (map e_name nets)))))) \<and>
    (\<exists>reg. register_all register_sensor_entry sens empty_registry =
      Inr (replicate (min 5 (length sens)) IW_SUCCESS @ replicate (length sens - 5) IW_FAIL, reg) \<and>
      (\<forall>n. name_ok n \<longrightarrow> iw_get_sensor_dev_id_by_name n reg =
         Inr (found_dev (first_index (\<lambda>m. n = m) (take 5 (map e_name sens))))))"
  using networks.directory [OF assms(1)] sensors.directory [OF assms(2)] by blast

definition no_functions :: "'w net_func" where
  "no_functions = \<lparr>nf_init = None, nf_deinit = None, nf_is_ready = None, nf_available = None,
     nf_recv_data = None, nf_send_data = None, nf_connect = None, nf_disconnect = None,
     nf_is_connected = None, nf_scan = None, nf_get_capa = None, nf_set_config = None,
     nf_get_config = None, nf_set_power = None, nf_get_power = None, nf_get_rssi = None,
     nf_connect_server = None, nf_disconnect_server = None\<rparr>"

definition wifi_entry :: "cstring \<Rightarrow> 'w net_func entry" where
  "wifi_entry name = \<lparr>e_type = NET_DEV_TYPE_WIFI, e_name = name, e_iface = IF_TYPE_UART, e_num = 2,
     e_driver = \<lparr>dr_name = [], dr_func = Some no_functions\<rparr>\<rparr>"

lemma registered_devices_found_witness:
  "\<exists>reg. register_all register_network_entry (map wifi_entry [''esp8266'', ''hc06'']) (empty_registry :: nat net_registry) =
      Inr ([IW_SUCCESS, IW_SUCCESS], reg) \<and>
    iw_get_network_dev_id_by_name ''hc06'' reg = Inr (IW_SUCCESS, Some 1)"
proof -
  have ok: "list_all entry_ok (map wifi_entry [''esp8266'', ''hc06''] :: nat net_func entry list)" "name_ok ''hc06''"
    by (simp_all add: entry_ok_def wifi_entry_def name_ok_def MAX_DRIVER_NAME_LEN_def net_type_defs)
  have "list_all entry_ok ([] :: nat sensor_func entry list)" by simp
  from conjunct1 [OF registered_devices_found [OF ok(1) this]] obtain reg where
    r: "register_all register_network_entry (map wifi_entry [''esp8266'', ''hc06'']) (empty_registry :: nat net_registry) =
      Inr ([IW_SUCCESS, IW_SUCCESS], reg)"
    and l: "\<And>n. name_ok n \<Longrightarrow> iw_get_network_dev_id_by_name n reg =
      Inr (found_dev (first_index (\<lambda>m. n = m) [''esp8266'', ''hc06'']))"
    by (auto simp: wifi_entry_def numeral_2_eq_2 simp del: register_all.simps first_index.simps)
  from l [OF ok(2)] have "iw_get_network_dev_id_by_name ''hc06'' reg = Inr (IW_SUCCESS, Some 1)"
    by (simp add: found_dev_def)
  with r show ?thesis by blast
qed

definition type_bits :: "32 word \<Rightarrow> 'w net_registry \<Rightarrow> nat \<Rightarrow> 32 word" where
  "type_bits type reg i = d_type (devs reg ! i) AND type"

text \<open>
  The lookups by type answer differently when several devices fit: \<^verbatim>\<open>get_network_devid\<close>
  without a name gives the last device that shares a type bit, \<^verbatim>\<open>_by_type\<close> the first that has
  them all, and the type without bits is found in the first device registered.
\<close>

theorem lookups_by_type:
  assumes "registry_ok reg"
  shows "(\<exists>r. iw_get_network_devid type None reg = Inr (found_dev r) \<and>
      (case r of None \<Rightarrow> type = 0 \<or> (\<forall>i < dev_num reg. type_bits type reg i = 0)
       | Some i \<Rightarrow> i < dev_num reg \<and> type_bits type reg i \<noteq> 0 \<and> (\<forall>j < dev_num reg. i < j \<longrightarrow> type_bits type reg j = 0))) \<and>
    (\<exists>r. iw_get_network_dev_id_by_type type reg = found_dev r \<and>
      (case r of None \<Rightarrow> \<forall>i < dev_num reg. type_bits type reg i \<noteq> type
       | Some i \<Rightarrow> i < dev_num reg \<and> type_bits type reg i = type \<and> (\<forall>j < i. type_bits type reg j \<noteq> type))) \<and>
    (0 < dev_num reg \<longrightarrow> iw_get_network_dev_id_by_type 0 reg = (IW_SUCCESS, Some 0))"
proof (intro conjI impI)
  have len: "length (registered reg) = dev_num reg"
    using assms(1) by (simp add: registry_ok_def)
  have nth: "i < dev_num reg \<Longrightarrow> registered reg ! i = devs reg ! i" for i by simp
  have pos: "0 < type \<longleftrightarrow> type \<noteq> 0" by (simp add: word_neq_0_conv)
  obtain r where r: "devid_loop type None (registered reg) 0 None = Inr r"
    and c: "r = None \<and> (\<forall>j < dev_num reg. \<not> (0 < type \<and> type_bits type reg j \<noteq> 0)) \<or>
      (\<exists>j < dev_num reg. r = Some j \<and> 0 < type \<and> type_bits type reg j \<noteq> 0 \<and> (\<forall>k < dev_num reg. j < k \<longrightarrow> type_bits type reg k = 0))"
    using devid_loop_last [of type "registered reg" 0 None] unfolding len type_bits_def by (auto simp: nth)
  show "\<exists>r. iw_get_network_devid type None reg = Inr (found_dev r) \<and>
      (case r of None \<Rightarrow> type = 0 \<or> (\<forall>i < dev_num reg. type_bits type reg i = 0)
       | Some i \<Rightarrow> i < dev_num reg \<and> type_bits type reg i \<noteq> 0 \<and> (\<forall>j < dev_num reg. i < j \<longrightarrow> type_bits type reg j = 0))"
    using r c by (intro exI [of _ r]) (auto simp: iw_get_network_devid_def pos)
  show "\<exists>r. iw_get_network_dev_id_by_type type reg = found_dev r \<and>
      (case r of None \<Rightarrow> \<forall>i < dev_num reg. type_bits type reg i \<noteq> type
       | Some i \<Rightarrow> i < dev_num reg \<and> type_bits type reg i = type \<and> (\<forall>j < i. type_bits type reg j \<noteq> type))"
    using by_type_loop_first [of type "registered reg" 0] unfolding len type_bits_def
    by (intro exI [of _ "by_type_loop type (registered reg) 0"])
      (auto simp: iw_get_network_dev_id_by_type_def nth)
  assume "0 < dev_num reg"
  then obtain dev ds where "registered reg = dev # ds" using len by (cases "registered reg") auto
  then show "iw_get_network_dev_id_by_type 0 reg = (IW_SUCCESS, Some 0)"
    by (simp add: iw_get_network_dev_id_by_type_def found_dev_def)
qed

definition two_wifi :: "'w net_registry" where
  "two_wifi = empty_registry\<lparr>dev_num := 2, devs := [empty_device\<lparr>d_type := 1, d_func := Some no_functions\<rparr>,
     empty_device\<lparr>d_type := 1\<rparr>, empty_device, empty_device, empty_device]\<rparr>"

lemma two_wifi_ok: "registry_ok two_wifi"
  using empty_registry_ok
  by (simp add: registry_ok_def two_wifi_def MAX_DEV_def device_ok_def empty_device_def empty_registry_def
      numeral_eq_Suc)

lemma lookups_by_type_witness:
  "iw_get_network_devid 1 None (two_wifi :: nat net_registry) = Inr (IW_SUCCESS, Some 1) \<and>
   iw_get_network_dev_id_by_type 1 (two_wifi :: nat net_registry) = (IW_SUCCESS, Some 0)"
proof -
  let ?reg = "two_wifi :: nat net_registry"
  have b: "dev_num ?reg = 2" "type_bits 1 ?reg 0 = 1" "type_bits 1 ?reg 1 = 1"
    by (simp_all add: two_wifi_def type_bits_def)
  note t = lookups_by_type [OF two_wifi_ok, where type = 1 and 'a = nat]
  from conjunct1 [OF t] obtain r where r: "iw_get_network_devid 1 None ?reg = Inr (found_dev r)"
    and c: "case r of None \<Rightarrow> (1::32 word) = 0 \<or> (\<forall>i < dev_num ?reg. type_bits 1 ?reg i = 0)
      | Some i \<Rightarrow> i < dev_num ?reg \<and> type_bits 1 ?reg i \<noteq> 0 \<and> (\<forall>j < dev_num ?reg. i < j \<longrightarrow> type_bits 1 ?reg j = 0)"
    by blast
  have "r = Some 1"
  proof (cases r)
    case (Some i)
    with c have "i < 2" and last: "\<forall>j < 2. i < j \<longrightarrow> type_bits 1 ?reg j = 0" by (simp_all add: b(1))
    have "\<not> i < 1"
    proof
      assume "i < 1"
      with last have "type_bits 1 ?reg 1 = 0" by simp
      with b(3) show False by simp
    qed
    with \<open>i < 2\<close> show ?thesis using Some by simp
  qed (use c b in \<open>auto dest: spec [of _ 0]\<close>)
  moreover from conjunct1 [OF conjunct2 [OF t]] obtain q where
    q: "iw_get_network_dev_id_by_type 1 ?reg = found_dev q"
    and e: "case q of None \<Rightarrow> \<forall>i < dev_num ?reg. type_bits 1 ?reg i \<noteq> 1
      | Some i \<Rightarrow> i < dev_num ?reg \<and> type_bits 1 ?reg i = 1 \<and> (\<forall>j < i. type_bits 1 ?reg j \<noteq> 1)"
    by blast
  have "q = Some 0"
  proof (cases q)
    case (Some i)
    with e b have "\<not> 0 < i" by auto
    then show ?thesis using Some by simp
  qed (use e b in \<open>auto dest: spec [of _ 0]\<close>)
  ultimately show ?thesis using r q by (simp add: found_dev_def)
qed

section \<open>The older registration\<close>

lemma free_device:
  assumes "registry_ok reg" "dev_num reg < MAX_DEV"
  shows "devs reg ! dev_num reg = empty_device"
  using assms drop_free(2) [of "dev_num reg" "devs reg" MAX_DEV empty_device] by (simp add: registry_ok_def)

text \<open>
  The older registration of sensors, once the bus is claimed: with five devices it writes
  behind the table, with a name object of fewer than 20 bytes it reads behind the name, and
  otherwise it adds a device without driver functions, which \<^verbatim>\<open>iw_init_sensor\<close> refuses for
  ever, whatever drivers were registered.
\<close>

theorem older_registration:
  assumes "registry_ok reg" "claim_bus iface iface_id info bus = Inr (Some bus')"
  shows "(dev_num reg = MAX_DEV \<longrightarrow>
      iw_register_sensor type iface iface_id info name (bus, reg) = Inl Out_of_bounds) \<and>
    (length name < MAX_DRIVER_NAME_LEN \<longrightarrow>
      iw_register_sensor type iface iface_id info name (bus, reg) = Inl Out_of_bounds) \<and>
    (dev_num reg < MAX_DEV \<longrightarrow> MAX_DRIVER_NAME_LEN \<le> length name \<longrightarrow>
      (\<exists>reg'. iw_register_sensor type iface iface_id info name (bus, reg) = Inr (bus', reg') \<and>
        dev_num reg' = dev_num reg + 1 \<and>
        (\<forall>dr reg'' w. register_driver dr reg' = Inr reg'' \<longrightarrow>
          iw_init_sensor reg'' (dev_num reg) w = (IW_FAIL, w))))"
proof (intro conjI impI)
  show "iw_register_sensor type iface iface_id info name (bus, reg) = Inl Out_of_bounds"
    if "dev_num reg = MAX_DEV"
    using that assms(2) by (simp add: iw_register_sensor_def register_old_def)
  show "iw_register_sensor type iface iface_id info name (bus, reg) = Inl Out_of_bounds"
    if "length name < MAX_DRIVER_NAME_LEN"
    using that assms(2) by (simp add: iw_register_sensor_def register_old_def memcpy_def)
  assume n: "dev_num reg < MAX_DEV" and len: "MAX_DRIVER_NAME_LEN \<le> length name"
  note free = free_device [OF assms(1) n]
  obtain field where f: "memcpy (d_name (devs reg ! dev_num reg)) name MAX_DRIVER_NAME_LEN = Inr field"
    using len unfolding free by (simp add: memcpy_def empty_device_def)
  define dev where "dev = old_device type iface iface_id field reg"
  have r: "iw_register_sensor type iface iface_id info name (bus, reg) = Inr (bus', add_device dev reg)"
    using assms(2) n f unfolding dev_def
    by (simp add: iw_register_sensor_def register_old_def old_device_def Let_def del: rbind_eq_Inr)
  have func: "d_func dev = None" by (simp add: dev_def old_device_def free empty_device_def)
  have "iw_init_sensor reg'' (dev_num reg) w = (IW_FAIL, w)"
    if "register_driver dr (add_device dev reg) = Inr reg''" for dr reg'' w
  proof -
    have d: "devs reg'' = devs (add_device dev reg)"
      using that by (auto simp: register_driver_def Let_def split: if_splits)
    have "devs (add_device dev reg) ! dev_num reg = dev"
      using assms(1) n by (simp add: add_device_def registry_ok_def)
    then show ?thesis using func by (simp add: iw_init_sensor_def d Let_def)
  qed
  with r show "\<exists>reg'. iw_register_sensor type iface iface_id info name (bus, reg) = Inr (bus', reg') \<and>
        dev_num reg' = dev_num reg + 1 \<and>
        (\<forall>dr reg'' w. register_driver dr reg' = Inr reg'' \<longrightarrow>
          iw_init_sensor reg'' (dev_num reg) w = (IW_FAIL, w))"
    by (intro exI [of _ "add_device dev reg"]) (simp add: add_device_def)
qed

lemma older_registration_witness:
  "iw_register_sensor SENSOR_TYPE_CO2 IF_TYPE_UART 2 38400 (''tg400'' @ [nul]) (initial_bus, empty_registry :: nat sensor_registry) =
     Inl Out_of_bounds"
proof -
  have "claim_bus IF_TYPE_UART 2 38400 initial_bus =
      Inr (Some (initial_bus\<lparr>uart_using := (uart_using initial_bus)[2 := 38400]\<rparr>))"
    by (simp add: claim_bus_def initial_bus_def IF_ID_MAX_def numeral_eq_Suc)
  from older_registration [OF empty_registry_ok this, where 'a = nat and name = "''tg400'' @ [nul]" and type = SENSOR_TYPE_CO2] show ?thesis
    by (simp add: MAX_DRIVER_NAME_LEN_def)
qed

section \<open>Connection tasks\<close>

text \<open>
  Initialising a WiFi or LoRa device again creates a second connection task and forgets
  the first: no sequence of deinitialisations ever deletes that one. Deinitialising any
  device, also one without a driver, deletes the connection task there is and succeeds.
\<close>

theorem connection_task_lost:
  assumes "dev_id < dev_num reg" "dev_num reg \<le> MAX_DEV" "d_func (devs reg ! dev_id) = Some f" "nf_init f = Some g"
    and "d_type (devs reg ! dev_id) = NET_DEV_TYPE_WIFI \<or> d_type (devs reg ! dev_id) = NET_DEV_TYPE_LORA"
    and "fst (g dev_id w) = IW_SUCCESS"
    and "conn_handle k = Some h" "h \<in> set (running_tasks k)" "h \<noteq> next_handle k"
  shows "\<exists>k'. iw_init_network reg True dev_id k w = Inr (IW_SUCCESS, k', snd (g dev_id w)) \<and>
      conn_handle k' = Some (next_handle k) \<and> next_handle k \<in> set (running_tasks k') \<and>
      (\<forall>n. h \<in> set (running_tasks ((delete_connection_task ^^ n) k'))) \<and>
      (\<forall>d v. d < MAX_DEV \<longrightarrow> d_func (devs reg ! d) = None \<longrightarrow>
        iw_deinit_network reg d k' v = Inr (IW_SUCCESS, delete_connection_task k', v) \<and>
        next_handle k \<notin> set (running_tasks (delete_connection_task k')))"
proof -
  define k' where "k' = create_connection_task True k"
  have k': "conn_handle k' = Some (next_handle k)" "running_tasks k' = next_handle k # running_tasks k"
    by (simp_all add: k'_def create_connection_task_def)
  have kt: "d_type (devs reg ! dev_id) \<noteq> 0" using assms(5) by (auto simp: net_type_defs)
  obtain w' where g: "g dev_id w = (IW_SUCCESS, w')" using assms(6) by (cases "g dev_id w") simp
  then have "iw_init_network reg True dev_id k w = Inr (IW_SUCCESS, k', snd (g dev_id w))"
    using assms(1,3,4,5) kt k'(1) by (simp add: iw_init_network_def Let_def k'_def [symmetric])
  moreover have "h \<in> set (running_tasks ((delete_connection_task ^^ n) k')) \<and>
      conn_handle ((delete_connection_task ^^ n) k') \<noteq> Some h" for n
    using assms(8,9) k' by (induction n) (auto simp: delete_connection_task_def split: option.splits)
  moreover have "iw_deinit_network reg d k' v = Inr (IW_SUCCESS, delete_connection_task k', v)"
    if "d < MAX_DEV" "d_func (devs reg ! d) = None" for d v
    using that by (simp add: iw_deinit_network_def dispatch_dev_def)
  moreover have "next_handle k \<notin> set (running_tasks (delete_connection_task k'))"
    using k' by (simp add: delete_connection_task_def)
  ultimately show ?thesis using k' by (intro exI [of _ k']) auto
qed

definition wifi_functions :: "(nat \<times> bool) net_func" where
  "wifi_functions = no_functions\<lparr>
     nf_init := Some (\<lambda>_ w. (IW_SUCCESS, w)),
     nf_is_connected := Some (\<lambda>_ w. ((IW_SUCCESS, Some (if snd w then NET_GOT_IP else 0)), w)),
     nf_is_ready := Some (\<lambda>_ w. ((IW_SUCCESS, Some (if fst w = 0 then DEV_INITIALIZED else DEV_NOT_INITIALIZED)), (fst w - 1, snd w))),
     nf_scan := Some (\<lambda>_ w. ((NET_SUCCESS, Some (- 60)), w)),
     nf_connect := Some (\<lambda>_ _ w. (NET_SUCCESS, (fst w, True)))\<rparr>"

definition wifi_registry :: "(nat \<times> bool) net_registry" where
  "wifi_registry = empty_registry\<lparr>dev_num := 1,
     devs := empty_device\<lparr>d_type := NET_DEV_TYPE_WIFI, d_func := Some wifi_functions\<rparr> # replicate 4 empty_device\<rparr>"

lemma wifi_registry_simps:
  "dev_num wifi_registry = 1" "d_func (devs wifi_registry ! 0) = Some wifi_functions"
  "d_type (devs wifi_registry ! 0) = NET_DEV_TYPE_WIFI"
  "nf_init wifi_functions = Some (\<lambda>_ w. (IW_SUCCESS, w))"
  by (simp_all add: wifi_registry_def wifi_functions_def)

lemma connection_task_lost_witness:
  "\<exists>k'. iw_init_network wifi_registry True 0 \<lparr>conn_handle = Some 7, running_tasks = [7], next_handle = 8\<rparr> (0, False) =
      Inr (IW_SUCCESS, k', (0, False)) \<and> 7 \<in> set (running_tasks ((delete_connection_task ^^ 3) k'))"
proof -
  let ?k = "\<lparr>conn_handle = Some 7, running_tasks = [7 :: nat], next_handle = 8\<rparr>"
  have "0 < dev_num wifi_registry" "dev_num wifi_registry \<le> MAX_DEV"
    "d_type (devs wifi_registry ! 0) = NET_DEV_TYPE_WIFI \<or> d_type (devs wifi_registry ! 0) = NET_DEV_TYPE_LORA"
    by (simp_all add: wifi_registry_simps MAX_DEV_def)
  from connection_task_lost [OF this(1,2) wifi_registry_simps(2,4) this(3), where w = "(0, False)" and k = ?k and h = 7]
  show ?thesis by fastforce
qed

lemma try_connect_sleeps: "try_connect reg dev_id w = Inr (ms, w') \<Longrightarrow> 1000 \<le> ms"
  by (auto simp: try_connect_def split: if_splits)

lemma round_sleeps:
  assumes "connection_round reg type dev_id v w = Inr (True, ms, v', w')"
  shows "1000 \<le> ms"
  using assms by (auto simp: connection_round_def Let_def split: if_splits option.splits dest: try_connect_sleeps)

lemma idle_round:
  assumes "dev_id < MAX_DEV" "d_func (devs reg ! dev_id) = Some f" "nf_is_connected f = Some gc"
    and "gc dev_id w = ((IW_SUCCESS, Some s), w)" "is_connected_for type s"
  shows "connection_round reg type dev_id v w = Inr (True, 1000, v\<lparr>connected_status := s\<rparr>, w)"
  using assms by (simp add: connection_round_def iw_is_connected_network_def dispatch_dev_def)

lemma idle_rounds:
  assumes "dev_id < MAX_DEV" "d_func (devs reg ! dev_id) = Some f" "nf_is_connected f = Some gc"
    and "gc dev_id w = ((IW_SUCCESS, Some s), w)" "is_connected_for type s"
  shows "\<exists>v'. connection_rounds n reg type dev_id v w = Inr (True, 1000 * n, v', w)"
proof (induction n arbitrary: v)
  case (Suc n)
  obtain v' where "connection_rounds n reg type dev_id (v\<lparr>connected_status := s\<rparr>) w = Inr (True, 1000 * n, v', w)"
    using Suc.IH by blast
  then show ?case using idle_round [OF assms] by simp
qed simp

text \<open>
  C27. The connection task keeps trying: with a driver whose device is ready after some polls,
  whose scan finds the network and whose connect succeeds, it is connected after one round
  more than the polls and then only watches. No round that goes on is shorter than a second.
\<close>

theorem connection_established:
  fixes up :: "'w \<Rightarrow> bool" and wait :: "'w \<Rightarrow> nat"
  assumes dev: "dev_id < MAX_DEV" "d_func (devs reg ! dev_id) = Some f"
    and ops: "nf_is_connected f = Some gc" "nf_is_ready f = Some gr" "nf_scan f = Some gs" "nf_connect f = Some gk"
    and target: "is_connected_for type target"
    and status: "\<And>w. gc dev_id w = ((IW_SUCCESS, Some (if up w then target else 0)), w)"
    and ready: "\<And>w. \<not> up w \<Longrightarrow> \<exists>w'. gr dev_id w = ((IW_SUCCESS, Some (if wait w = 0 then DEV_INITIALIZED
          else DEV_NOT_INITIALIZED)), w') \<and> \<not> up w' \<and> wait w' = wait w - 1"
    and scan: "\<And>w. \<exists>rssi w'. gs dev_id w = ((NET_SUCCESS, rssi), w')"
    and connect: "\<And>t w. \<exists>w'. gk dev_id t w = (NET_SUCCESS, w') \<and> up w'"
    and down: "\<not> up w"
  shows "(\<exists>v' w'. connection_rounds (Suc (wait w)) reg type dev_id v w = Inr (True, 1000 * Suc (wait w), v', w') \<and> up w' \<and>
      (\<forall>n. \<exists>v''. connection_rounds n reg type dev_id v' w' = Inr (True, 1000 * n, v'', w'))) \<and>
    (\<forall>v w ms v' w'. connection_round reg type dev_id v w = Inr (True, ms, v', w') \<longrightarrow> 1000 \<le> ms)"
proof -
  have zero: "\<not> is_connected_for type 0"
    by (auto simp: is_connected_for_def net_code_defs)
  have waiting: "\<exists>v' w'. connection_round reg type dev_id v w = Inr (True, 1000, v', w') \<and> \<not> up w' \<and> wait w' = wait w - 1"
    if "\<not> up w" "wait w \<noteq> 0" for v w
    using ready [OF that(1)] that dev ops status [of w] zero
    by (auto simp: connection_round_def iw_is_connected_network_def iw_is_ready_network_def dispatch_dev_def)
  have joining: "\<exists>v' w'. connection_round reg type dev_id v w = Inr (True, 1000, v', w') \<and> up w'"
    if down: "\<not> up w" and zero_wait: "wait w = 0" for v w
  proof -
    obtain w1 where w1: "gr dev_id w = ((IW_SUCCESS, Some DEV_INITIALIZED), w1)" "\<not> up w1"
      using ready [OF down] zero_wait by auto
    obtain rssi w2 where w2: "gs dev_id w1 = ((NET_SUCCESS, rssi), w2)" using scan by blast
    obtain w3 where w3: "gk dev_id 20000 w2 = (NET_SUCCESS, w3)" "up w3" using connect by blast
    have "try_connect reg dev_id w1 = Inr (1000, w3)"
      using dev ops w2 w3 by (simp add: try_connect_def iw_scan_network_def iw_connect_network_def dispatch_dev_def)
    then show ?thesis
      using down dev ops status [of w] zero w1 w3
      by (simp add: connection_round_def iw_is_connected_network_def iw_is_ready_network_def dispatch_dev_def)
  qed
  have "\<exists>v' w'. connection_rounds (Suc n) reg type dev_id v w = Inr (True, 1000 * Suc n, v', w') \<and> up w'"
    if "\<not> up w" "wait w = n" for n v w
    using that
  proof (induction n arbitrary: v w)
    case 0
    then show ?case using joining [of w v] by auto
  next
    case (Suc n)
    obtain v1 w1 where r: "connection_round reg type dev_id v w = Inr (True, 1000, v1, w1)" "\<not> up w1" "wait w1 = n"
      using waiting [of w v] Suc.prems by auto
    obtain v' w' where "connection_rounds (Suc n) reg type dev_id v1 w1 = Inr (True, 1000 * Suc n, v', w')" "up w'"
      using Suc.IH [OF r(2,3), of v1] by blast
    then show ?case using r(1) by (simp del: connection_rounds.simps(2) add: connection_rounds.simps(2) [of "Suc n"])
  qed
  from this [OF down refl] obtain v' w' where
    "connection_rounds (Suc (wait w)) reg type dev_id v w = Inr (True, 1000 * Suc (wait w), v', w')" "up w'" by blast
  moreover have "\<exists>v''. connection_rounds n reg type dev_id v' w' = Inr (True, 1000 * n, v'', w')" for n
    using idle_rounds [OF dev ops(1) _ target] status [of w'] \<open>up w'\<close> by simp
  ultimately have "\<exists>v' w'. connection_rounds (Suc (wait w)) reg type dev_id v w = Inr (True, 1000 * Suc (wait w), v', w') \<and>
      up w' \<and> (\<forall>n. \<exists>v''. connection_rounds n reg type dev_id v' w' = Inr (True, 1000 * n, v'', w'))"
    by blast
  then show ?thesis by (intro conjI allI impI) (assumption, erule round_sleeps)
qed

lemma connection_established_witness:
  "\<exists>v' w'. connection_rounds 4 wifi_registry NET_DEV_TYPE_WIFI 0 initial_locals (3, False) = Inr (True, 4000, v', w') \<and> snd w'"
proof -
  have ops: "nf_is_connected wifi_functions = Some (\<lambda>_ w. ((IW_SUCCESS, Some (if snd w then NET_GOT_IP else 0)), w))"
    "nf_is_ready wifi_functions = Some (\<lambda>_ w. ((IW_SUCCESS, Some (if fst w = 0 then DEV_INITIALIZED else DEV_NOT_INITIALIZED)), (fst w - 1, snd w)))"
    "nf_scan wifi_functions = Some (\<lambda>_ w. ((NET_SUCCESS, Some (- 60)), w))"
    "nf_connect wifi_functions = Some (\<lambda>_ _ w. (NET_SUCCESS, (fst w, True)))"
    by (simp_all add: wifi_functions_def)
  have "0 < MAX_DEV" "is_connected_for NET_DEV_TYPE_WIFI NET_GOT_IP"
    by (simp_all add: MAX_DEV_def is_connected_for_def)
  from conjunct1 [OF connection_established [OF this(1) wifi_registry_simps(2) ops this(2), where up = snd and wait = fst
      and w = "(3, False)" and v = initial_locals]]
  show ?thesis by (auto simp: numeral_eq_Suc simp del: connection_rounds.simps)
qed

end
