(* ===== verification/NetSettings.thy ===== *)
theory NetSettings
  imports Devices
begin

text \<open>
  The settings of the network devices kept by \<^verbatim>\<open>oal/iw/iw_dev_net.c\<close>: the access point
  (\<^verbatim>\<open>gApInfo\<close>), the LoRa join data and band (\<^verbatim>\<open>gLoraJoinInfo\<close>,
  \<^verbatim>\<open>gLoraBand\<close>) and the BLE data (\<^verbatim>\<open>gBleInfo\<close>). A field is the list of its bytes;
  what a caller passes for an output structure is an argument, since the code writes to parts
  of it only.
\<close>

section \<open>Access point\<close>

definition MAX_NAME_STR_SIZE :: nat where "MAX_NAME_STR_SIZE = 32"

record wifi_ap_info =
  ap_ssid :: string
  ap_pw :: string

definition no_ap :: wifi_ap_info where
  "no_ap = \<lparr>ap_ssid = replicate MAX_NAME_STR_SIZE nul, ap_pw = replicate MAX_NAME_STR_SIZE nul\<rparr>"

text \<open>\<^verbatim>\<open>if (s != NULL && s[0] != 0) memcpy(field, s, strlen(s))\<close>\<close>

definition copy_text :: "string \<Rightarrow> cstring_ptr \<Rightarrow> string res" where
  "copy_text field s = (case s of
     None \<Rightarrow> Inr field
   | Some s \<Rightarrow> if s = [] then Inr field else memcpy field s (length s))"

definition iw_register_wifi_info :: "cstring_ptr \<Rightarrow> cstring_ptr \<Rightarrow> wifi_ap_info \<Rightarrow> wifi_ap_info res" where
  "iw_register_wifi_info ssid pw g =
     rbind (copy_text (ap_ssid g) ssid) (\<lambda>f.
     rbind (copy_text (ap_pw g) pw) (\<lambda>f'. Inr \<lparr>ap_ssid = f, ap_pw = f'\<rparr>))"

text \<open>\<^verbatim>\<open>memcpy(dst, src, strlen(src))\<close> between fields.\<close>

definition copy_field :: "string \<Rightarrow> string \<Rightarrow> string res" where
  "copy_field dst src = rbind (field_str src) (\<lambda>s. memcpy dst src (length s))"

definition iw_get_wifi_info :: "wifi_ap_info option \<Rightarrow> wifi_ap_info \<Rightarrow> (iw_error_t \<times> wifi_ap_info option) res" where
  "iw_get_wifi_info ap g = (
     if ap_ssid g ! 0 = nul then Inr (IW_FAIL, ap)
     else rbind (deref ap) (\<lambda>ap.
       rbind (copy_field (ap_ssid ap) (ap_ssid g)) (\<lambda>f.
       rbind (if ap_pw g ! 0 = nul then Inr (ap_pw ap) else copy_field (ap_pw ap) (ap_pw g)) (\<lambda>f'.
         Inr (IW_SUCCESS, Some \<lparr>ap_ssid = f, ap_pw = f'\<rparr>)))))"

section \<open>LoRa\<close>

definition LORA_JOIN_DEV_ADDR :: nat where "LORA_JOIN_DEV_ADDR = 8"
definition LORA_JOIN_DEV_EUI :: nat where "LORA_JOIN_DEV_EUI = 16"
definition LORA_JOIN_APP_EUI :: nat where "LORA_JOIN_APP_EUI = 16"
definition LORA_JOIN_APP_KEY :: nat where "LORA_JOIN_APP_KEY = 32"
definition LORA_JOIN_NWKS_KEY :: nat where "LORA_JOIN_NWKS_KEY = 32"
definition LORA_JOIN_APPS_KEY :: nat where "LORA_JOIN_APPS_KEY = 32"
definition LORA_BAND_NAME_LEN :: nat where "LORA_BAND_NAME_LEN = 5"

lemmas lora_lengths = LORA_JOIN_DEV_ADDR_def LORA_JOIN_DEV_EUI_def LORA_JOIN_APP_EUI_def
  LORA_JOIN_APP_KEY_def LORA_JOIN_NWKS_KEY_def LORA_JOIN_APPS_KEY_def LORA_BAND_NAME_LEN_def

datatype lora_join_mode_t = JOIN_NONE | JOIN_ABP | JOIN_OTAA

record lora_join_info =
  join_mode :: lora_join_mode_t
  dev_addr :: string
  dev_eui :: string
  nwks_key :: string
  app_eui :: string
  apps_key :: string
  app_key :: string

definition no_lora :: lora_join_info where
  "no_lora = \<lparr>join_mode = JOIN_NONE, dev_addr = replicate (LORA_JOIN_DEV_ADDR + 1) nul,
     dev_eui = replicate (LORA_JOIN_DEV_EUI + 1) nul, nwks_key = replicate (LORA_JOIN_NWKS_KEY + 1) nul,
     app_eui = replicate (LORA_JOIN_APP_EUI + 1) nul, apps_key = replicate (LORA_JOIN_APPS_KEY + 1) nul,
     app_key = replicate (LORA_JOIN_APP_KEY + 1) nul\<rparr>"

text \<open>\<^verbatim>\<open>memset(field, 0, n + 1); memcpy(field, s, strlen(s))\<close> on a field of \<open>n + 1\<close> bytes.\<close>

definition set_field :: "nat \<Rightarrow> cstring \<Rightarrow> string res" where
  "set_field n s = memcpy (replicate (n + 1) nul) s (length s)"

definition iw_register_lora_abp_info ::
    "cstring_ptr \<Rightarrow> cstring_ptr \<Rightarrow> cstring_ptr \<Rightarrow> lora_join_info \<Rightarrow> (iw_error_t \<times> lora_join_info) res" where
  "iw_register_lora_abp_info addr nwks apps g = (case (addr, nwks, apps) of
     (Some addr, Some nwks, Some apps) \<Rightarrow>
       rbind (set_field LORA_JOIN_DEV_ADDR addr) (\<lambda>a.
       rbind (set_field LORA_JOIN_NWKS_KEY nwks) (\<lambda>n.
       rbind (set_field LORA_JOIN_APPS_KEY apps) (\<lambda>k.
         Inr (IW_SUCCESS, g\<lparr>join_mode := JOIN_ABP, dev_addr := a, nwks_key := n, apps_key := k\<rparr>))))
   | _ \<Rightarrow> Inr (IW_FAIL, g))"

definition iw_register_lora_otaa_info ::
    "cstring_ptr \<Rightarrow> cstring_ptr \<Rightarrow> cstring_ptr \<Rightarrow> lora_join_info \<Rightarrow> (iw_error_t \<times> lora_join_info) res" where
  "iw_register_lora_otaa_info deui aeui key g = (case (deui, aeui, key) of
     (Some deui, Some aeui, Some key) \<Rightarrow>
       rbind (set_field LORA_JOIN_DEV_EUI deui) (\<lambda>d.
       rbind (set_field LORA_JOIN_APP_EUI aeui) (\<lambda>a.
       rbind (set_field LORA_JOIN_APP_KEY key) (\<lambda>k.
         Inr (IW_SUCCESS, g\<lparr>join_mode := JOIN_OTAA, dev_eui := d, app_eui := a, app_key := k\<rparr>))))
   | _ \<Rightarrow> Inr (IW_FAIL, g))"

text \<open>
  Three fields checked for their length, the later ones only if the earlier ones have it, and
  copied without their terminators.
\<close>

definition lengths_ok :: "(string \<times> nat) list \<Rightarrow> bool res" where
  "lengths_ok fs = rfold (\<lambda>ok (f, n). if ok then rbind (field_str f) (\<lambda>s. Inr (length s = n)) else Inr False) fs True"

definition iw_get_lora_info :: "lora_join_info option \<Rightarrow> lora_join_info \<Rightarrow> (iw_error_t \<times> lora_join_info option) res" where
  "iw_get_lora_info join g = (case join of
     None \<Rightarrow> Inr (IW_FAIL, None)
   | Some join \<Rightarrow> (case join_mode g of
       JOIN_ABP \<Rightarrow> let join = join\<lparr>join_mode := JOIN_ABP\<rparr> in
         rbind (lengths_ok [(dev_addr g, LORA_JOIN_DEV_ADDR), (nwks_key g, LORA_JOIN_NWKS_KEY),
                            (apps_key g, LORA_JOIN_APPS_KEY)]) (\<lambda>ok.
         if \<not> ok then Inr (IW_FAIL, Some join)
         else rbind (copy_field (dev_addr join) (dev_addr g)) (\<lambda>a.
           rbind (copy_field (nwks_key join) (nwks_key g)) (\<lambda>n.
           rbind (copy_field (apps_key join) (apps_key g)) (\<lambda>k.
             Inr (IW_SUCCESS, Some (join\<lparr>dev_addr := a, nwks_key := n, apps_key := k\<rparr>))))))
     | JOIN_OTAA \<Rightarrow> let join = join\<lparr>join_mode := JOIN_OTAA\<rparr> in
         rbind (lengths_ok [(dev_eui g, LORA_JOIN_DEV_EUI), (app_eui g, LORA_JOIN_APP_EUI),
                            (app_key g, LORA_JOIN_APP_KEY)]) (\<lambda>ok.
         if \<not> ok then Inr (IW_FAIL, Some join)
         else rbind (copy_field (dev_eui join) (dev_eui g)) (\<lambda>d.
           rbind (copy_field (app_eui join) (app_eui g)) (\<lambda>a.
           rbind (copy_field (app_key join) (app_key g)) (\<lambda>k.
             Inr (IW_SUCCESS, Some (join\<lparr>dev_eui := d, app_eui := a, app_key := k\<rparr>))))))
     | JOIN_NONE \<Rightarrow> Inr (IW_FAIL, Some join)))"

text \<open>The band, in a field of one byte more than its length.\<close>

definition iw_register_lora_band_info :: "cstring_ptr \<Rightarrow> string \<Rightarrow> iw_error_t \<times> string" where
  "iw_register_lora_band_info band g = (case band of
     None \<Rightarrow> (IW_FAIL, g)
   | Some s \<Rightarrow> if length s \<noteq> LORA_BAND_NAME_LEN then (IW_FAIL, g)
              else (IW_SUCCESS, strncpy LORA_BAND_NAME_LEN s @ drop LORA_BAND_NAME_LEN g))"

text \<open>\<^verbatim>\<open>strncpy\<close> of the band to a buffer of the caller.\<close>

definition iw_get_lora_band_info :: "string option \<Rightarrow> string \<Rightarrow> (iw_error_t \<times> string option) res" where
  "iw_get_lora_band_info band g = (case band of
     None \<Rightarrow> Inr (IW_FAIL, None)
   | Some buf \<Rightarrow> if g ! 0 = nul then Inr (IW_FAIL, Some buf)
       else if length buf < LORA_BAND_NAME_LEN then Inl Out_of_bounds
       else Inr (IW_SUCCESS, Some (strncpy LORA_BAND_NAME_LEN (takeWhile (\<lambda>c. c \<noteq> nul) g) @ drop LORA_BAND_NAME_LEN buf)))"

section \<open>BLE\<close>

definition MAX_BLE_NAME_LEN :: nat where "MAX_BLE_NAME_LEN = 64"
definition PINCODE_LEN :: nat where "PINCODE_LEN = 4"
definition BLE_MASTER_MODE :: nat where "BLE_MASTER_MODE = 1"
definition BLE_SLAVE_MODE :: nat where "BLE_SLAVE_MODE = 2"

record ble_info =
  ble_name :: string
  pincode :: string
  ble_mode :: nat

definition no_ble :: ble_info where
  "no_ble = \<lparr>ble_name = replicate MAX_BLE_NAME_LEN nul, pincode = replicate (PINCODE_LEN + 1) nul, ble_mode = 0\<rparr>"

definition iw_register_ble_info :: "cstring_ptr \<Rightarrow> cstring_ptr \<Rightarrow> nat \<Rightarrow> ble_info \<Rightarrow> (iw_error_t \<times> ble_info) res" where
  "iw_register_ble_info name pin mode g =
     rbind (copy_text (ble_name g) name) (\<lambda>f.
       let g = g\<lparr>ble_name := f\<rparr>;
           g = (case pin of None \<Rightarrow> g | Some p \<Rightarrow> if p = [] then g
                  else g\<lparr>pincode := strncpy PINCODE_LEN p @ drop PINCODE_LEN (pincode g)\<rparr>);
           g = (if mode = BLE_MASTER_MODE \<or> mode = BLE_SLAVE_MODE then g\<lparr>ble_mode := mode\<rparr> else g) in
       Inr (IW_SUCCESS, g))"

definition iw_get_ble_info :: "ble_info option \<Rightarrow> ble_info \<Rightarrow> iw_error_t \<times> ble_info option" where
  "iw_get_ble_info info g = (case info of None \<Rightarrow> (IW_FAIL, None) | Some _ \<Rightarrow> (IW_SUCCESS, Some g))"

section \<open>Reading back\<close>

lemma field_str_text: "nul \<notin> set s \<Longrightarrow> field_str (s @ nul # r) = Inr s"
  by (simp add: field_str_def) (subst takeWhile_append2, auto)

lemma field_str_pad: "nul \<notin> set s \<Longrightarrow> 0 < k \<Longrightarrow> field_str (s @ replicate k nul) = Inr s"
  by (cases k) (simp_all add: field_str_text)

lemma field_str_full: "nul \<notin> set s \<Longrightarrow> field_str s = Inl Out_of_bounds"
  by (simp add: field_str_def)

lemma set_field_fits: "length s \<le> n + 1 \<Longrightarrow> set_field n s = Inr (s @ replicate (n + 1 - length s) nul)"
  by (simp add: set_field_def memcpy_def del: replicate_Suc)

lemma drop_zeroed: "drop n (nul # replicate n nul) = [nul]"
  by (simp only: replicate_Suc [symmetric] drop_replicate) simp

lemma set_field_exact: "length s = n \<Longrightarrow> set_field n s = Inr (s @ [nul])"
  by (simp add: set_field_fits)

lemma set_field_over: "n + 1 < length s \<Longrightarrow> set_field n s = Inl Out_of_bounds"
  by (simp add: set_field_def memcpy_def)

lemma copy_field_text:
  "nul \<notin> set s \<Longrightarrow> length s \<le> length dst \<Longrightarrow> copy_field dst (s @ nul # r) = Inr (s @ drop (length s) dst)"
  by (simp add: copy_field_def field_str_text memcpy_def)

text \<open>
  LoRa data of the exact lengths are read back as they were registered, for both ways to join,
  into a structure that was zeroed. A device address that is shorter is accepted and then
  refused by every read; with one character too many the read runs over the end of the field,
  with more the registration does.
\<close>

theorem lora_settings:
  assumes "nul \<notin> set a" "nul \<notin> set b" "nul \<notin> set c"
  shows "(length a = LORA_JOIN_DEV_ADDR \<and> length b = LORA_JOIN_NWKS_KEY \<and> length c = LORA_JOIN_APPS_KEY \<longrightarrow>
      (\<exists>g'. iw_register_lora_abp_info (Some a) (Some b) (Some c) g = Inr (IW_SUCCESS, g') \<and>
        iw_get_lora_info (Some no_lora) g' = Inr (IW_SUCCESS, Some (no_lora\<lparr>join_mode := JOIN_ABP,
          dev_addr := a @ [nul], nwks_key := b @ [nul], apps_key := c @ [nul]\<rparr>)))) \<and>
    (length a = LORA_JOIN_DEV_EUI \<and> length b = LORA_JOIN_APP_EUI \<and> length c = LORA_JOIN_APP_KEY \<longrightarrow>
      (\<exists>g'. iw_register_lora_otaa_info (Some a) (Some b) (Some c) g = Inr (IW_SUCCESS, g') \<and>
        iw_get_lora_info (Some no_lora) g' = Inr (IW_SUCCESS, Some (no_lora\<lparr>join_mode := JOIN_OTAA,
          dev_eui := a @ [nul], app_eui := b @ [nul], app_key := c @ [nul]\<rparr>)))) \<and>
    (length b = LORA_JOIN_NWKS_KEY \<and> length c = LORA_JOIN_APPS_KEY \<longrightarrow>
      (length a < LORA_JOIN_DEV_ADDR \<longrightarrow> (\<exists>g'.
        iw_register_lora_abp_info (Some a) (Some b) (Some c) g = Inr (IW_SUCCESS, g') \<and>
        (\<forall>j. fst (projr (iw_get_lora_info j g')) = IW_FAIL \<and> isl (iw_get_lora_info j g') = False))) \<and>
      (length a = LORA_JOIN_DEV_ADDR + 1 \<longrightarrow> (\<exists>g'.
        iw_register_lora_abp_info (Some a) (Some b) (Some c) g = Inr (IW_SUCCESS, g') \<and>
        iw_get_lora_info (Some no_lora) g' = Inl Out_of_bounds)) \<and>
      (LORA_JOIN_DEV_ADDR + 1 < length a \<longrightarrow>
        iw_register_lora_abp_info (Some a) (Some b) (Some c) g = Inl Out_of_bounds))"
proof -
  note simps = iw_register_lora_abp_info_def iw_register_lora_otaa_info_def iw_get_lora_info_def lengths_ok_def
    set_field_exact field_str_text copy_field_text no_lora_def drop_zeroed assms
  have 1: "\<exists>g'. iw_register_lora_abp_info (Some a) (Some b) (Some c) g = Inr (IW_SUCCESS, g') \<and>
        iw_get_lora_info (Some no_lora) g' = Inr (IW_SUCCESS, Some (no_lora\<lparr>join_mode := JOIN_ABP,
          dev_addr := a @ [nul], nwks_key := b @ [nul], apps_key := c @ [nul]\<rparr>))"
    if "length a = LORA_JOIN_DEV_ADDR" "length b = LORA_JOIN_NWKS_KEY" "length c = LORA_JOIN_APPS_KEY"
    using that by (simp add: simps Let_def del: rbind_eq_Inr)
  have 2: "\<exists>g'. iw_register_lora_otaa_info (Some a) (Some b) (Some c) g = Inr (IW_SUCCESS, g') \<and>
        iw_get_lora_info (Some no_lora) g' = Inr (IW_SUCCESS, Some (no_lora\<lparr>join_mode := JOIN_OTAA,
          dev_eui := a @ [nul], app_eui := b @ [nul], app_key := c @ [nul]\<rparr>))"
    if "length a = LORA_JOIN_DEV_EUI" "length b = LORA_JOIN_APP_EUI" "length c = LORA_JOIN_APP_KEY"
    using that by (simp add: simps Let_def del: rbind_eq_Inr)
  have 3: "\<exists>g'. iw_register_lora_abp_info (Some a) (Some b) (Some c) g = Inr (IW_SUCCESS, g') \<and>
        (\<forall>j. fst (projr (iw_get_lora_info j g')) = IW_FAIL \<and> isl (iw_get_lora_info j g') = False)"
    if "length b = LORA_JOIN_NWKS_KEY" "length c = LORA_JOIN_APPS_KEY" "length a < LORA_JOIN_DEV_ADDR"
    using that by (auto simp: simps set_field_fits field_str_pad Let_def simp del: rbind_eq_Inr split: option.splits)
  have 4: "\<exists>g'. iw_register_lora_abp_info (Some a) (Some b) (Some c) g = Inr (IW_SUCCESS, g') \<and>
        iw_get_lora_info (Some no_lora) g' = Inl Out_of_bounds"
    if "length b = LORA_JOIN_NWKS_KEY" "length c = LORA_JOIN_APPS_KEY" "length a = LORA_JOIN_DEV_ADDR + 1"
    using that by (simp add: simps set_field_fits field_str_full Let_def del: rbind_eq_Inr)
  have 5: "iw_register_lora_abp_info (Some a) (Some b) (Some c) g = Inl Out_of_bounds"
    if "LORA_JOIN_DEV_ADDR + 1 < length a"
    using that by (simp add: simps set_field_over)
  show ?thesis using 1 2 3 4 5 by blast
qed

lemma lora_settings_witness:
  "\<exists>g'. iw_register_lora_abp_info (Some ''26041B13'') (Some (replicate 32 CHR ''A'')) (Some (replicate 32 CHR ''B'')) no_lora =
      Inr (IW_SUCCESS, g') \<and>
    iw_get_lora_info (Some no_lora) g' = Inr (IW_SUCCESS, Some (no_lora\<lparr>join_mode := JOIN_ABP,
      dev_addr := ''26041B13'' @ [nul], nwks_key := replicate 32 CHR ''A'' @ [nul], apps_key := replicate 32 CHR ''B'' @ [nul]\<rparr>))"
  using lora_settings [of "''26041B13''" "replicate 32 CHR ''A''" "replicate 32 CHR ''B''" no_lora]
  by (auto simp: lora_lengths simp del: replicate_Suc)

text \<open>
  An access point is read back as registered the first time. Registered again, a text keeps the
  tail of a longer one before it; a text of exactly 32 characters is accepted and overread
  by the read, a longer one overflows the field. BLE names behave in the same way.
\<close>

theorem wifi_settings:
  assumes "nul \<notin> set s" "nul \<notin> set t" "s \<noteq> []" "t \<noteq> []" "length s < MAX_NAME_STR_SIZE" "nul \<notin> set u"
  shows "(\<exists>g. iw_register_wifi_info (Some s) None no_ap = Inr g \<and>
      iw_get_wifi_info (Some no_ap) g = Inr (IW_SUCCESS, Some g) \<and> field_str (ap_ssid g) = Inr s \<and>
      (length t < length s \<longrightarrow> (\<exists>g'. iw_register_wifi_info (Some t) None g = Inr g' \<and>
        field_str (ap_ssid g') = Inr (t @ drop (length t) s))) \<and>
      (length s \<le> length t \<and> length t < MAX_NAME_STR_SIZE \<longrightarrow> (\<exists>g'. iw_register_wifi_info (Some t) None g = Inr g' \<and>
        field_str (ap_ssid g') = Inr t))) \<and>
    (length u = MAX_NAME_STR_SIZE \<longrightarrow> (\<exists>g. iw_register_wifi_info (Some u) None no_ap = Inr g \<and>
      iw_get_wifi_info (Some no_ap) g = Inl Out_of_bounds)) \<and>
    (MAX_NAME_STR_SIZE < length u \<longrightarrow> iw_register_wifi_info (Some u) None no_ap = Inl Out_of_bounds) \<and>
    (length t < length s \<longrightarrow> (\<exists>b b'. iw_register_ble_info (Some s) None BLE_MASTER_MODE no_ble = Inr (IW_SUCCESS, b) \<and>
      iw_register_ble_info (Some t) None BLE_SLAVE_MODE b = Inr (IW_SUCCESS, b') \<and>
      field_str (ble_name b') = Inr (t @ drop (length t) s)))"
proof -
  have reg: "iw_register_wifi_info (Some x) None no_ap =
      Inr \<lparr>ap_ssid = x @ replicate (MAX_NAME_STR_SIZE - length x) nul, ap_pw = ap_pw no_ap\<rparr>"
    if "x \<noteq> []" "length x \<le> MAX_NAME_STR_SIZE" for x
    using that by (simp add: iw_register_wifi_info_def copy_text_def memcpy_def no_ap_def)
  define g where "g = \<lparr>ap_ssid = s @ replicate (MAX_NAME_STR_SIZE - length s) nul, ap_pw = ap_pw no_ap\<rparr>"
  have pw: "ap_pw no_ap ! 0 = nul" by (simp add: no_ap_def MAX_NAME_STR_SIZE_def)
  have s0: "(s @ r) ! 0 \<noteq> nul" for r using assms(1,3) by (cases s) auto
  have str: "field_str (ap_ssid g) = Inr s" using assms by (simp add: g_def field_str_pad)
  have 1: "iw_register_wifi_info (Some s) None no_ap = Inr g" using reg [of s] assms by (simp add: g_def)
  have 2: "iw_get_wifi_info (Some no_ap) g = Inr (IW_SUCCESS, Some g)"
    using str s0 pw assms(5) by (simp add: iw_get_wifi_info_def copy_field_def memcpy_def g_def no_ap_def)
  have again: "iw_register_wifi_info (Some t) None g =
      Inr \<lparr>ap_ssid = t @ drop (length t) (ap_ssid g), ap_pw = ap_pw no_ap\<rparr>" if "length t \<le> MAX_NAME_STR_SIZE"
    using that assms by (simp add: iw_register_wifi_info_def copy_text_def memcpy_def g_def)
  have 3: "field_str (t @ drop (length t) (s @ replicate (n - length s) nul)) = Inr (t @ drop (length t) s)"
    if "length t < length s" "length s < n" for n
    using that field_str_pad [of "t @ drop (length t) s" "n - length s"] assms(1,2)
    by (auto dest: in_set_dropD)
  have 4: "field_str (t @ drop (length t) (ap_ssid g)) = Inr t" if "length s \<le> length t" "length t < MAX_NAME_STR_SIZE"
    using that field_str_pad [of t "MAX_NAME_STR_SIZE - length t"] assms(2) by (simp add: g_def)
  have u0: "u ! 0 \<noteq> nul" if "u \<noteq> []" using assms(6) that by (cases u) auto
  have 5: "iw_get_wifi_info (Some no_ap) \<lparr>ap_ssid = u, ap_pw = ap_pw no_ap\<rparr> = Inl Out_of_bounds" if "u \<noteq> []"
    using u0 [OF that] assms(6) by (simp add: iw_get_wifi_info_def copy_field_def field_str_full)
  have 6: "iw_register_wifi_info (Some u) None no_ap = Inl Out_of_bounds" if "MAX_NAME_STR_SIZE < length u"
    using that by (auto simp: iw_register_wifi_info_def copy_text_def memcpy_def no_ap_def)
  have lt: "length s < MAX_BLE_NAME_LEN" using assms(5) by (simp add: MAX_NAME_STR_SIZE_def MAX_BLE_NAME_LEN_def)
  have 7: "\<exists>b b'. iw_register_ble_info (Some s) None BLE_MASTER_MODE no_ble = Inr (IW_SUCCESS, b) \<and>
      iw_register_ble_info (Some t) None BLE_SLAVE_MODE b = Inr (IW_SUCCESS, b') \<and>
      field_str (ble_name b') = Inr (t @ drop (length t) s)" if "length t < length s"
    using that lt assms(3,4) 3 [OF that lt]
    by (simp add: iw_register_ble_info_def copy_text_def memcpy_def no_ble_def Let_def del: rbind_eq_Inr)
  show ?thesis
  proof (intro conjI impI)
    show "\<exists>g. iw_register_wifi_info (Some s) None no_ap = Inr g \<and>
      iw_get_wifi_info (Some no_ap) g = Inr (IW_SUCCESS, Some g) \<and> field_str (ap_ssid g) = Inr s \<and>
      (length t < length s \<longrightarrow> (\<exists>g'. iw_register_wifi_info (Some t) None g = Inr g' \<and>
        field_str (ap_ssid g') = Inr (t @ drop (length t) s))) \<and>
      (length s \<le> length t \<and> length t < MAX_NAME_STR_SIZE \<longrightarrow> (\<exists>g'. iw_register_wifi_info (Some t) None g = Inr g' \<and>
        field_str (ap_ssid g') = Inr t))"
      using 1 2 str again 3 [of MAX_NAME_STR_SIZE] 4 assms(5) by (intro exI [of _ g]) (simp add: g_def)
    show "\<exists>g. iw_register_wifi_info (Some u) None no_ap = Inr g \<and> iw_get_wifi_info (Some no_ap) g = Inl Out_of_bounds"
      if "length u = MAX_NAME_STR_SIZE"
    proof -
      have "u \<noteq> []" using that by (auto simp: MAX_NAME_STR_SIZE_def)
      then show ?thesis using reg [of u] 5 that by simp
    qed
  qed (use 6 7 in auto)
qed

lemma wifi_settings_witness:
  "\<exists>g g'. iw_register_wifi_info (Some ''IoTWare_Test'') None no_ap = Inr g \<and>
     iw_register_wifi_info (Some ''abc'') None g = Inr g' \<and> field_str (ap_ssid g') = Inr ''abcWare_Test''"
proof -
  have "nul \<notin> set ''IoTWare_Test''" "nul \<notin> set ''abc''" "''IoTWare_Test'' \<noteq> []" "''abc'' \<noteq> []"
    "length ''IoTWare_Test'' < MAX_NAME_STR_SIZE" "nul \<notin> set ''abc''"
    by (simp_all add: MAX_NAME_STR_SIZE_def)
  from conjunct1 [OF wifi_settings [OF this]] show ?thesis by auto
qed

end
