(* ===== verification/SystemStatus.thy ===== *)
theory SystemStatus
  imports Sensors NetSettings "HOL-Library.While_Combinator"
begin

text \<open>
  The system side of the abstraction layer: LEDs (\<^verbatim>\<open>iw_dev_led.c\<close>), battery
  (\<^verbatim>\<open>iw_dev_batt.c\<close>), system and power state (\<^verbatim>\<open>iw_sys.c\<close>), the low battery
  service (\<^verbatim>\<open>ROFW/service.c\<close>) with the two guarded calls of the application interface
  that obey it, and the registration of the devices of a board (\<^verbatim>\<open>iw_dev.c\<close>). What the
  board support package does with a pin or a converter is an event or an argument.
\<close>

section \<open>LEDs\<close>

datatype pin_event = Init_output nat | Put_low nat | Put_high nat | Toggle nat

definition LED_RED :: nat where "LED_RED = 0"
definition LED_GREEN :: nat where "LED_GREEN = 1"
definition LED_BLUE :: nat where "LED_BLUE = 2"
definition LED_MAX :: nat where "LED_MAX = 3"

record led_info =
  led_used :: bool
  led_pin :: nat

definition no_leds :: "led_info list" where
  "no_leds = replicate LED_MAX \<lparr>led_used = False, led_pin = 0\<rparr>"

definition iw_register_led :: "nat \<Rightarrow> nat \<Rightarrow> led_info list \<Rightarrow> iw_error_t \<times> led_info list \<times> pin_event list" where
  "iw_register_led color pin leds = (
     if LED_MAX \<le> color then (IW_FAIL, leds, [])
     else (IW_SUCCESS, leds[color := \<lparr>led_used = True, led_pin = pin\<rparr>], [Init_output pin]))"

definition iw_led_on :: "nat \<Rightarrow> led_info list \<Rightarrow> iw_error_t \<times> pin_event list" where
  "iw_led_on color leds = (
     if LED_MAX \<le> color then (IW_FAIL, [])
     else if \<not> led_used (leds ! color) then (IW_FAIL, [])
     else (IW_SUCCESS, [Put_low (led_pin (leds ! color))]))"

definition iw_led_off :: "nat \<Rightarrow> led_info list \<Rightarrow> iw_error_t \<times> pin_event list" where
  "iw_led_off color leds = (
     if LED_MAX \<le> color then (IW_FAIL, [])
     else if \<not> led_used (leds ! color) then (IW_FAIL, [])
     else (IW_SUCCESS, [Put_high (led_pin (leds ! color))]))"

definition iw_led_toggle :: "nat \<Rightarrow> led_info list \<Rightarrow> iw_error_t \<times> pin_event list" where
  "iw_led_toggle color leds = (
     if LED_MAX \<le> color then (IW_FAIL, [])
     else if \<not> led_used (leds ! color) then (IW_FAIL, [])
     else (IW_SUCCESS, [Toggle (led_pin (leds ! color))]))"

section \<open>Battery\<close>

definition INVALID_BATT_PORT :: nat where "INVALID_BATT_PORT = 255"

text \<open>\<^verbatim>\<open>g_adc_using_info[0]\<close> and \<^verbatim>\<open>gBattAdcPort\<close>\<close>

record battery =
  adc_use :: bool
  adc_gpio :: nat
  batt_port :: nat

definition no_battery :: battery where
  "no_battery = \<lparr>adc_use = False, adc_gpio = 0, batt_port = INVALID_BATT_PORT\<rparr>"

definition iw_register_battery :: "if_type_t \<Rightarrow> nat \<Rightarrow> nat \<Rightarrow> battery \<Rightarrow> battery" where
  "iw_register_battery type port pin b = (
     if type = IF_TYPE_ADC then
       if adc_use b then b else \<lparr>adc_use = True, adc_gpio = pin, batt_port = port\<rparr>
     else b)"

text \<open>The calls of the converter: \<open>Init_adc port pin\<close> and \<open>Deinit_adc port\<close>.\<close>

datatype adc_event = Init_adc nat nat | Deinit_adc nat

definition iw_init_battery :: "battery \<Rightarrow> adc_event list" where
  "iw_init_battery b = (if adc_use b then [Init_adc (batt_port b) (adc_gpio b)] else [])"

definition iw_deinit_battery :: "battery \<Rightarrow> adc_event list" where
  "iw_deinit_battery b = (if adc_use b then [Deinit_adc (batt_port b)] else [])"

text \<open>
  \<open>conv port w\<close> is what the converter answers on a port: the status and the value written.
\<close>

type_synonym 'w converter = "nat \<Rightarrow> 'w \<Rightarrow> (iw_error_t \<times> nat option) \<times> 'w"

definition iw_get_battery_voltage :: "'w converter \<Rightarrow> battery \<Rightarrow> 'w \<Rightarrow> (iw_error_t \<times> nat option) \<times> 'w" where
  "iw_get_battery_voltage conv b w =
     (if batt_port b \<noteq> INVALID_BATT_PORT then conv (batt_port b) w else ((IW_FAIL, None), w))"

definition iw_get_battery_adc :: "'w converter \<Rightarrow> battery \<Rightarrow> 'w \<Rightarrow> (iw_error_t \<times> nat option) \<times> 'w" where
  "iw_get_battery_adc conv b w =
     (if batt_port b \<noteq> INVALID_BATT_PORT then conv (batt_port b) w else ((IW_FAIL, None), w))"

text \<open>The percentage for every 10 mV from 2.7 V on.\<close>

definition batt_table :: "nat list" where
  "batt_table = [
    0, 0, 0, 0, 0, 0, 0, 0, 0, 0, 0, 0, 0, 0, 0, 0, 0, 0, 0, 0,
    0, 0, 0, 0, 0, 0, 0, 0, 0, 0, 0, 0, 0, 0, 0, 1, 1, 1, 1, 1,
    1, 1, 1, 1, 1, 2, 2, 2, 2, 2, 2, 2, 2, 2, 2, 3, 3, 3, 3, 3,
    3, 3, 3, 3, 3, 4, 4, 4, 4, 4, 4, 4, 4, 4, 4, 5, 5, 5, 5, 5,
    5, 6, 7, 8, 9, 10, 11, 12, 13, 14, 15, 16, 17, 18, 19, 20, 21,
    22, 23, 24, 25, 28, 30, 33, 35, 38, 40, 43, 45, 48, 50, 53, 55,
    58, 60, 63, 65, 68, 70, 73, 75, 76, 77, 78, 78, 79, 80, 81, 82,
    83, 83, 84, 85, 86, 87, 88, 88, 89, 90, 91, 92, 93, 93, 94, 95,
    96, 97, 98, 98, 99, 100]"

definition table_at :: "nat list \<Rightarrow> nat \<Rightarrow> nat res" where
  "table_at t i = (if length t \<le> i then Inl Out_of_bounds else Inr (t ! i))"

text \<open>The status, and percentage and time when they are written.\<close>

definition iw_get_battery_status ::
    "'w converter \<Rightarrow> battery \<Rightarrow> 'w \<Rightarrow> ((iw_error_t \<times> (nat \<times> nat) option) \<times> 'w) res" where
  "iw_get_battery_status conv b w = (case iw_get_battery_voltage conv b w of
     ((IW_FAIL, _), w) \<Rightarrow> Inr ((IW_FAIL, None), w)
   | ((IW_SUCCESS, None), w) \<Rightarrow> Inl Uninitialised
   | ((IW_SUCCESS, Some volt), w) \<Rightarrow>
       let volt = (if volt < 2700 then 2700 else if 4200 < volt then 4200 else volt) in
       rbind (table_at batt_table ((volt - 2700) div 10)) (\<lambda>p. Inr ((IW_SUCCESS, Some (p, 0)), w)))"

section \<open>System state\<close>

datatype mcu_type_t = MCU_TYPE_UNKNOWN | MCU_TYPE_STM32L476 | MCU_TYPE_NRF52840 | MCU_TYPE_CORTEX_M0
  | MCU_TYPE_TCC_EMUL | MCU_TYPE_RESERVED
datatype power_mode_t = POW_RUN_MODE | POW_DYNAMIC_MODE | POW_LOW_MODE | POW_SLEEP_MODE
datatype auto_control_t = AUTOCONTROL_OFF | AUTOCONTROL_ON

record sys_state =
  g_pwr_mode :: power_mode_t
  g_autocontrol_mode :: auto_control_t

definition initial_sys :: sys_state where
  "initial_sys = \<lparr>g_pwr_mode = POW_RUN_MODE, g_autocontrol_mode = AUTOCONTROL_OFF\<rparr>"

text \<open>The build options \<^verbatim>\<open>IW_MCU_STM32\<close> and \<^verbatim>\<open>IW_MCU_NORDIC\<close> are arguments.\<close>

definition iw_get_mcu_info :: "bool \<Rightarrow> bool \<Rightarrow> mcu_type_t option \<Rightarrow> iw_error_t \<times> mcu_type_t option" where
  "iw_get_mcu_info stm32 nordic out = (case out of
     None \<Rightarrow> (IW_FAIL, None)
   | Some _ \<Rightarrow> (IW_SUCCESS, Some (if stm32 then MCU_TYPE_STM32L476
       else if nordic then MCU_TYPE_NRF52840 else MCU_TYPE_UNKNOWN)))"

fun iw_get_mcu_name :: "mcu_type_t \<Rightarrow> cstring" where
  "iw_get_mcu_name MCU_TYPE_STM32L476 = ''STM32L476 ''"
| "iw_get_mcu_name MCU_TYPE_NRF52840 = ''NRF52840  ''"
| "iw_get_mcu_name MCU_TYPE_CORTEX_M0 = ''CORTEX M0 ''"
| "iw_get_mcu_name MCU_TYPE_TCC_EMUL = ''TCC_EMUL  ''"
| "iw_get_mcu_name MCU_TYPE_RESERVED = ''RESERVED  ''"
| "iw_get_mcu_name MCU_TYPE_UNKNOWN = ''UNKNOWN   ''"

definition iw_get_autocontrol :: "sys_state \<Rightarrow> iw_error_t \<times> auto_control_t" where
  "iw_get_autocontrol s = (IW_SUCCESS, g_autocontrol_mode s)"

definition iw_set_power_mode :: "power_mode_t \<Rightarrow> sys_state \<Rightarrow> iw_error_t \<times> sys_state" where
  "iw_set_power_mode mode s = (IW_SUCCESS, s\<lparr>g_pwr_mode := mode\<rparr>)"

definition iw_get_power_mode :: "sys_state \<Rightarrow> iw_error_t \<times> power_mode_t" where
  "iw_get_power_mode s = (IW_SUCCESS, g_pwr_mode s)"

definition iw_set_autocontrol :: "auto_control_t \<Rightarrow> sys_state \<Rightarrow> iw_error_t \<times> sys_state" where
  "iw_set_autocontrol enable s = (
     let s = s\<lparr>g_autocontrol_mode := enable\<rparr>;
         s = (if g_autocontrol_mode s = AUTOCONTROL_OFF then snd (iw_set_power_mode POW_RUN_MODE s) else s) in
     (IW_SUCCESS, s))"

text \<open>The sizes are those of the linker script and the kernel.\<close>

definition iw_get_memory_status ::
    "nat \<Rightarrow> nat \<Rightarrow> nat \<Rightarrow> nat option \<Rightarrow> nat option \<Rightarrow> nat option \<Rightarrow> iw_error_t \<times> nat option \<times> nat option \<times> nat option" where
  "iw_get_memory_status data heap free global_data total_heap free_heap =
     (IW_SUCCESS, map_option (\<lambda>_. data) global_data, map_option (\<lambda>_. heap) total_heap, map_option (\<lambda>_. free) free_heap)"

text \<open>
  The status of a network device: connection, signal strength, wake-up source and power mode,
  up to the first call that fails.
\<close>

record net_status =
  ns_connected :: "int option"
  ns_strength :: "int option"
  ns_wake :: "nat option"
  ns_mode :: "nat option"

definition iw_get_network_status :: "'w net_registry \<Rightarrow> nat \<Rightarrow> 'w \<Rightarrow> ((iw_error_t \<times> net_status) \<times> 'w) res" where
  "iw_get_network_status reg dev_id w =
     rbind (iw_is_connected_network reg dev_id w) (\<lambda>((ret, c), w).
       let st = \<lparr>ns_connected = c, ns_strength = None, ns_wake = None, ns_mode = None\<rparr> in
       if ret = IW_FAIL then Inr ((ret, st), w)
       else rbind (iw_get_rssi_network reg dev_id w) (\<lambda>((ret, r), w).
         let st = st\<lparr>ns_strength := r\<rparr> in
         if ret = IW_FAIL then Inr ((ret, st), w)
         else rbind (iw_get_config_network reg dev_id None w) (\<lambda>((ret, wake, _), w).
           let st = st\<lparr>ns_wake := wake\<rparr> in
           if ret = IW_FAIL then Inr ((ret, st), w)
           else rbind (iw_get_pwrmode_network reg dev_id w) (\<lambda>((ret, m), w).
             Inr ((ret, st\<lparr>ns_mode := m\<rparr>), w)))))"

definition iw_get_sensor_status ::
    "'w sensor_registry \<Rightarrow> nat \<Rightarrow> 'w \<Rightarrow> ((iw_error_t \<times> nat option \<times> nat option) \<times> 'w) res" where
  "iw_get_sensor_status reg dev_id w =
     rbind (iw_get_config_sensor reg dev_id None w) (\<lambda>((ret, wake, _), w).
       if ret = IW_FAIL then Inr ((ret, wake, None), w)
       else rbind (iw_get_pwrmode_sensor reg dev_id w) (\<lambda>((ret, m), w). Inr ((ret, wake, m), w)))"

section \<open>The low battery service\<close>

text \<open>
  Five readings, each adding the variable \<^verbatim>\<open>voltage\<close>, which keeps its value when a
  reading fails and starts as 0.
\<close>

fun sum_voltages :: "nat \<Rightarrow> 'w converter \<Rightarrow> battery \<Rightarrow> nat \<Rightarrow> nat \<Rightarrow> 'w \<Rightarrow> nat \<times> 'w" where
  "sum_voltages 0 conv b voltage acc w = (acc, w)"
| "sum_voltages (Suc cnt) conv b voltage acc w = (case iw_get_battery_voltage conv b w of
     ((_, v), w) \<Rightarrow> let voltage = (case v of None \<Rightarrow> voltage | Some v \<Rightarrow> v) in
       sum_voltages cnt conv b voltage (acc + voltage) w)"

text \<open>The new value of \<^verbatim>\<open>lowbattery_control\<close>.\<close>

definition lowbattery_level :: "nat \<Rightarrow> nat" where
  "lowbattery_level v = (if v < 3500 then (if v < 3400 then 2 else 1) else 0)"

definition autocontrol_lowbattery :: "'w converter \<Rightarrow> battery \<Rightarrow> 'w \<Rightarrow> nat \<times> 'w" where
  "autocontrol_lowbattery conv b w = (case sum_voltages 5 conv b 0 0 w of
     (summed, w) \<Rightarrow> (lowbattery_level (summed div 5), w))"

text \<open>
  The loop of \<^verbatim>\<open>autocontrol_task\<close>: its condition compares a variable that is
  \<^verbatim>\<open>TRUE\<close> with \<^verbatim>\<open>FALSE\<close>. The state is the level and the hardware.
\<close>

definition loop_condition :: bool where
  "loop_condition = True"

definition autocontrol_round :: "'w converter \<Rightarrow> battery \<Rightarrow> sys_state \<Rightarrow> nat \<times> 'w \<Rightarrow> nat \<times> 'w" where
  "autocontrol_round conv b s st = (case iw_get_autocontrol s of (e, automode) \<Rightarrow>
     if e = IW_SUCCESS \<and> automode = AUTOCONTROL_ON then autocontrol_lowbattery conv b (snd st) else st)"

definition autocontrol_task :: "'w converter \<Rightarrow> battery \<Rightarrow> sys_state \<Rightarrow> nat \<times> 'w \<Rightarrow> (nat \<times> 'w) option" where
  "autocontrol_task conv b s st = while_option (\<lambda>_. loop_condition = False) (autocontrol_round conv b s) st"

definition lowpower_task :: "'w \<Rightarrow> 'w option" where
  "lowpower_task w = while_option (\<lambda>_. loop_condition = False) (\<lambda>w. w) w"

text \<open>The two calls of the application interface that look at the level.\<close>

definition send_data_network ::
    "nat \<Rightarrow> 'w net_registry \<Rightarrow> nat \<Rightarrow> string \<Rightarrow> 'w \<Rightarrow> (iw_error_t \<times> 'w) res" where
  "send_data_network level reg dev_id buf w =
     (if level = 1 then Inr (IW_SUCCESS, w) else iw_send_data_network reg dev_id buf w)"

definition read_sensor ::
    "nat \<Rightarrow> 'w sensor_registry \<Rightarrow> nat \<Rightarrow> 32 word \<Rightarrow> nat \<Rightarrow> 'w \<Rightarrow> ((iw_error_t \<times> byte list option) \<times> 'w) res" where
  "read_sensor level reg dev_id type len w =
     (if level = 1 then Inr ((IW_SUCCESS, None), w) else iw_read_sensor reg dev_id type len w)"

section \<open>The devices of a board\<close>

text \<open>
  \<^verbatim>\<open>iw_register_device\<close>: the build decides the board; the ports and pins come from the
  board support package and the drivers from the driver packages.
\<close>

datatype board = STM32_BOARD | NORDIC_BOARD | LOWPOWER_BOARD | TELECHIPS_BOARD | DISPOSAL_IOT_BOARD | OTHER_BOARD

datatype bsp_port = BSP_I2C1 | BSP_I2C2 | BSP_I2C3 | BSP_UART2 | BSP_EXP_UART2 | BSP_ADC1
  | PIN_RED_LED | PIN_GREEN_LED | PIN_BLUE_LED | PIN_ADC_BATT

record 'w board_drivers =
  si7020_driver :: "'w sensor_func driver"
  ccs811_driver :: "'w sensor_func driver"
  esp8266_driver :: "'w net_func driver"
  botcle_driver :: "'w net_func driver"

record 'w device_state =
  ds_bus :: bus_usage
  ds_sensors :: "'w sensor_registry"
  ds_nets :: "'w net_registry"
  ds_ap :: wifi_ap_info
  ds_lora :: lora_join_info
  ds_ble :: ble_info
  ds_leds :: "led_info list"
  ds_battery :: battery

definition initial_devices :: "'w device_state" where
  "initial_devices = \<lparr>ds_bus = initial_bus, ds_sensors = empty_registry, ds_nets = empty_registry,
     ds_ap = no_ap, ds_lora = no_lora, ds_ble = no_ble, ds_leds = no_leds, ds_battery = no_battery\<rparr>"

definition add_sensor ::
    "32 word \<Rightarrow> cstring \<Rightarrow> if_type_t \<Rightarrow> nat \<Rightarrow> 'w sensor_func driver \<Rightarrow> 'w device_state \<Rightarrow> 'w device_state res" where
  "add_sensor type name iface num driver s =
     rbind (iw_register_sensor_new type name iface num (Some driver) (ds_sensors s)) (\<lambda>(_, reg).
       Inr (s\<lparr>ds_sensors := reg\<rparr>))"

definition add_network ::
    "32 word \<Rightarrow> cstring \<Rightarrow> if_type_t \<Rightarrow> nat \<Rightarrow> 'w net_func driver \<Rightarrow> 'w device_state \<Rightarrow> 'w device_state res" where
  "add_network type name iface num driver s =
     rbind (iw_register_network_new type name iface num (Some driver) (ds_nets s)) (\<lambda>(_, reg).
       Inr (s\<lparr>ds_nets := reg\<rparr>))"

definition add_led :: "nat \<Rightarrow> nat \<Rightarrow> 'w device_state \<Rightarrow> 'w device_state" where
  "add_led color pin s = s\<lparr>ds_leds := fst (snd (iw_register_led color pin (ds_leds s)))\<rparr>"

definition add_battery :: "nat \<Rightarrow> nat \<Rightarrow> 'w device_state \<Rightarrow> 'w device_state" where
  "add_battery port pin s = s\<lparr>ds_battery := iw_register_battery IF_TYPE_ADC port pin (ds_battery s)\<rparr>"

definition set_wifi :: "cstring \<Rightarrow> cstring \<Rightarrow> 'w device_state \<Rightarrow> 'w device_state res" where
  "set_wifi ssid pw s = rbind (iw_register_wifi_info (Some ssid) (Some pw) (ds_ap s)) (\<lambda>ap. Inr (s\<lparr>ds_ap := ap\<rparr>))"

definition set_ble :: "cstring \<Rightarrow> cstring \<Rightarrow> nat \<Rightarrow> 'w device_state \<Rightarrow> 'w device_state res" where
  "set_ble name pin mode s =
     rbind (iw_register_ble_info (Some name) (Some pin) mode (ds_ble s)) (\<lambda>(_, b). Inr (s\<lparr>ds_ble := b\<rparr>))"

definition TMP_HUM :: "32 word" where "TMP_HUM = 5"

text \<open>On the disposal board the names are string literals, with nothing behind their terminator.\<close>

definition register_disposal :: "'w device_state \<Rightarrow> 'w device_state res" where
  "register_disposal s =
     rbind (iw_register_sensor TMP_HUM IF_TYPE_I2C 2 0 (''sht20'' @ [nul]) (ds_bus s, ds_sensors s)) (\<lambda>(bus, sensors).
     rbind (iw_register_sensor SENSOR_TYPE_CO2 IF_TYPE_UART 2 38400 (''tg400'' @ [nul]) (bus, sensors)) (\<lambda>(bus, sensors).
     rbind (iw_register_network NET_DEV_TYPE_LORA IF_TYPE_UART 1 115200 (''atsamr35'' @ [nul]) (bus, ds_nets s)) (\<lambda>(bus, nets).
     rbind (iw_register_lora_otaa_info (Some ''9090988909988789'') (Some ''70B3D57ED00209F5'')
              (Some ''0F87F0459ABE8EFD51B2632F36700EEB'') (ds_lora s)) (\<lambda>(_, lora).
       Inr (s\<lparr>ds_bus := bus, ds_sensors := sensors, ds_nets := nets, ds_lora := lora\<rparr>)))))"

fun iw_register_device :: "board \<Rightarrow> (bsp_port \<Rightarrow> nat) \<Rightarrow> 'w board_drivers \<Rightarrow> 'w device_state \<Rightarrow> 'w device_state res" where
  "iw_register_device LOWPOWER_BOARD at dr s =
     add_sensor SENSOR_TYPE_CO2 ''ccs811'' IF_TYPE_I2C (at BSP_I2C2) (ccs811_driver dr) s"
| "iw_register_device STM32_BOARD at dr s =
     rbind (add_sensor TMP_HUM ''si7020'' IF_TYPE_I2C (at BSP_I2C2) (si7020_driver dr) s) (\<lambda>s.
     rbind (add_sensor SENSOR_TYPE_CO2 ''ccs811'' IF_TYPE_I2C (at BSP_I2C3) (ccs811_driver dr) s) (\<lambda>s.
     rbind (add_network NET_DEV_TYPE_WIFI ''esp8266'' IF_TYPE_UART (at BSP_UART2) (esp8266_driver dr) s) (\<lambda>s.
     rbind (set_wifi ''IoTWare_Test'' ''1234567890'' s) (\<lambda>s.
       Inr (add_battery (at BSP_ADC1) (at PIN_ADC_BATT) (add_led LED_BLUE (at PIN_BLUE_LED)
         (add_led LED_GREEN (at PIN_GREEN_LED) (add_led LED_RED (at PIN_RED_LED) s))))))))"
| "iw_register_device NORDIC_BOARD at dr s =
     rbind (add_sensor TMP_HUM ''si7020'' IF_TYPE_I2C (at BSP_I2C1) (si7020_driver dr) s) (\<lambda>s.
     rbind (add_sensor SENSOR_TYPE_CO2 ''ccs811'' IF_TYPE_I2C (at BSP_I2C2) (ccs811_driver dr) s) (\<lambda>s.
     rbind (add_network NET_DEV_TYPE_WIFI ''esp8266'' IF_TYPE_UART (at BSP_UART2) (esp8266_driver dr) s) (\<lambda>s.
     rbind (set_wifi ''iotware-ap'' ''11111111'' s) (\<lambda>s.
     rbind (add_network NET_DEV_TYPE_BLE ''botcle110'' IF_TYPE_UART (at BSP_EXP_UART2) (botcle_driver dr) s) (\<lambda>s.
     rbind (set_ble ''TO21_MASTER'' ''0000'' BLE_MASTER_MODE s) (\<lambda>s.
       Inr (add_battery (at BSP_ADC1) (at PIN_ADC_BATT)
         (add_led LED_GREEN (at PIN_GREEN_LED) (add_led LED_RED (at PIN_RED_LED) s)))))))))"
| "iw_register_device DISPOSAL_IOT_BOARD at dr s = register_disposal s"
| "iw_register_device TELECHIPS_BOARD at dr s = Inr s"
| "iw_register_device OTHER_BOARD at dr s = Inr s"

section \<open>Properties\<close>

lemma batt_table_length: "length batt_table = 151"
  by (simp add: batt_table_def)

lemma batt_table_sorted: "sorted batt_table"
  unfolding batt_table_def
  by (simp only: sorted2_simps simp_thms zero_le le_refl le_num_simps less_num_simps numeral_le_iff
      one_le_numeral zero_le_numeral)

lemma batt_table_mono: "i \<le> j \<Longrightarrow> j \<le> 150 \<Longrightarrow> batt_table ! i \<le> batt_table ! j"
  using batt_table_sorted by (simp add: sorted_iff_nth_mono batt_table_length)

lemma batt_table_ends: "batt_table ! 150 = 100" "batt_table ! 34 = 0"
  by (simp_all add: batt_table_def)

definition clamped :: "nat \<Rightarrow> nat" where
  "clamped volt = (if volt < 2700 then 2700 else if 4200 < volt then 4200 else volt)"

lemma clamped_index: "(clamped volt - 2700) div 10 \<le> 150"
proof -
  have "clamped volt - 2700 \<le> 1500" by (auto simp: clamped_def)
  then have "(clamped volt - 2700) div 10 \<le> 1500 div 10" by (rule div_le_mono)
  then show ?thesis by simp
qed

lemma battery_status_value:
  assumes "batt_port b \<noteq> INVALID_BATT_PORT" "conv (batt_port b) w = ((IW_SUCCESS, Some volt), w')"
  shows "iw_get_battery_status conv b w =
    Inr ((IW_SUCCESS, Some (batt_table ! ((clamped volt - 2700) div 10), 0)), w')"
proof -
  have "\<not> length batt_table \<le> (clamped volt - 2700) div 10"
    using clamped_index [of volt] by (simp add: batt_table_length)
  then show ?thesis
    using assms by (simp add: iw_get_battery_status_def iw_get_battery_voltage_def table_at_def clamped_def Let_def)
qed

text \<open>
  The battery percentage: for every voltage the converter can report the index stays in the
  table, the result is at most 100 and grows with the voltage; it is 0 below 3.05 V and 100
  from 4.2 V on. Without a battery port the call fails and writes nothing.
\<close>

theorem battery_percentage:
  assumes "batt_port b \<noteq> INVALID_BATT_PORT"
    and "conv (batt_port b) w = ((IW_SUCCESS, Some volt), w')" "conv (batt_port b) v = ((IW_SUCCESS, Some volt2), v')"
    and "volt \<le> volt2"
  shows "\<exists>p q. iw_get_battery_status conv b w = Inr ((IW_SUCCESS, Some (p, 0)), w') \<and>
    iw_get_battery_status conv b v = Inr ((IW_SUCCESS, Some (q, 0)), v') \<and> p \<le> q \<and> q \<le> 100 \<and>
    (volt < 3050 \<longrightarrow> p = 0) \<and> (4200 \<le> volt \<longrightarrow> p = 100) \<and>
    iw_get_battery_status conv no_battery w = Inr ((IW_FAIL, None), w)"
proof -
  let ?i = "\<lambda>v. (clamped v - 2700) div 10"
  have "clamped volt - 2700 \<le> clamped volt2 - 2700" using assms(4) by (auto simp: clamped_def)
  then have le: "?i volt \<le> ?i volt2" "?i volt2 \<le> 150" by (rule div_le_mono) (rule clamped_index)
  have "batt_table ! ?i volt \<le> batt_table ! ?i volt2" by (rule batt_table_mono [OF le])
  moreover have "batt_table ! ?i volt2 \<le> 100" using batt_table_mono [OF le(2)] batt_table_ends by simp
  moreover have "batt_table ! ?i volt = 0" if "volt < 3050"
  proof -
    have "clamped volt - 2700 \<le> 349" using that by (auto simp: clamped_def)
    then have "?i volt \<le> 349 div 10" by (rule div_le_mono)
    then have "?i volt \<le> 34" by simp
    then show ?thesis using batt_table_mono [of "?i volt" 34] batt_table_ends by simp
  qed
  moreover have "batt_table ! ?i volt = 100" if "4200 \<le> volt"
    using that batt_table_ends by (auto simp: clamped_def)
  moreover have "iw_get_battery_status conv no_battery w = Inr ((IW_FAIL, None), w)"
    by (simp add: iw_get_battery_status_def iw_get_battery_voltage_def no_battery_def)
  ultimately show ?thesis
    using battery_status_value [of b conv w volt w'] battery_status_value [of b conv v volt2 v'] assms by blast
qed

lemma battery_percentage_witness:
  "\<exists>p q. iw_get_battery_status (\<lambda>_ w. ((IW_SUCCESS, Some w), w)) (no_battery\<lparr>batt_port := 1\<rparr>) 3000 =
      Inr ((IW_SUCCESS, Some (p, 0)), 3000) \<and>
    iw_get_battery_status (\<lambda>_ w. ((IW_SUCCESS, Some w), w)) (no_battery\<lparr>batt_port := 1\<rparr>) 4300 =
      Inr ((IW_SUCCESS, Some (q, 0)), 4300) \<and> p \<le> q \<and> q \<le> 100"
  using battery_percentage [of "no_battery\<lparr>batt_port := 1\<rparr>" "\<lambda>_ w. ((IW_SUCCESS, Some w), w)" 3000 3000 3000 4300 4300 4300]
  by (auto simp: INVALID_BATT_PORT_def)

text \<open>Five readings of a converter that answers every time.\<close>

fun readings :: "nat \<Rightarrow> 'w converter \<Rightarrow> nat \<Rightarrow> 'w \<Rightarrow> nat list" where
  "readings 0 conv port w = []"
| "readings (Suc n) conv port w = (case conv port w of ((_, v), w) \<Rightarrow>
     (case v of None \<Rightarrow> [] | Some v \<Rightarrow> v # readings n conv port w))"

lemma sum_voltages_readings:
  "batt_port b \<noteq> INVALID_BATT_PORT \<Longrightarrow> length (readings n conv (batt_port b) w) = n \<Longrightarrow>
   fst (sum_voltages n conv b v acc w) = acc + sum_list (readings n conv (batt_port b) w)"
proof (induction n arbitrary: v acc w)
  case (Suc n)
  then obtain e x w' where c: "conv (batt_port b) w = ((e, Some x), w')"
    by (cases "conv (batt_port b) w") (auto split: option.splits)
  then have "length (readings n conv (batt_port b) w') = n" using Suc.prems(2) by simp
  from Suc.IH [OF Suc.prems(1) this, of x "acc + x"] show ?case
    using c Suc.prems(1) by (simp add: iw_get_battery_voltage_def)
qed simp

lemma sum_voltages_no_battery: "fst (sum_voltages n conv no_battery 0 acc w) = acc"
  by (induction n arbitrary: acc w) (simp_all add: iw_get_battery_voltage_def no_battery_def)

definition mean_voltage :: "'w converter \<Rightarrow> battery \<Rightarrow> 'w \<Rightarrow> nat" where
  "mean_voltage conv b w = sum_list (readings 5 conv (batt_port b) w) div 5"

text \<open>
  C37. The low battery service takes the average of five readings: from 3.5 V on level 0, from 3.4 V on
  level 1, below it level 2; without a battery it is level 2. Level 1 makes the application
  interface report success for a message it does not send and for a sensor it does not read;
  at level 2, the emptier battery, it sends and reads again.
\<close>

theorem low_battery_service:
  assumes "batt_port b \<noteq> INVALID_BATT_PORT" "length (readings 5 conv (batt_port b) w) = 5"
  shows "fst (autocontrol_lowbattery conv b w) = (if 3500 \<le> mean_voltage conv b w then 0 else if 3400 \<le> mean_voltage conv b w then 1 else 2) \<and>
    fst (autocontrol_lowbattery conv no_battery w) = 2 \<and>
    (\<forall>reg sreg d buf type len. 
      (3400 \<le> mean_voltage conv b w \<and> mean_voltage conv b w < 3500 \<longrightarrow>
        send_data_network (fst (autocontrol_lowbattery conv b w)) reg d buf w = Inr (IW_SUCCESS, w) \<and>
        read_sensor (fst (autocontrol_lowbattery conv b w)) sreg d type len w = Inr ((IW_SUCCESS, None), w)) \<and>
      (mean_voltage conv b w < 3400 \<longrightarrow>
        send_data_network (fst (autocontrol_lowbattery conv b w)) reg d buf w = iw_send_data_network reg d buf w \<and>
        read_sensor (fst (autocontrol_lowbattery conv b w)) sreg d type len w = iw_read_sensor sreg d type len w))"
proof -
  have "fst (autocontrol_lowbattery conv b w) = lowbattery_level (mean_voltage conv b w)"
    using sum_voltages_readings [OF assms(1,2), of 0 0]
    by (cases "sum_voltages 5 conv b 0 0 w") (simp add: autocontrol_lowbattery_def mean_voltage_def)
  moreover have "fst (autocontrol_lowbattery conv no_battery w) = 2"
    using sum_voltages_no_battery [of 5 conv 0 w]
    by (cases "sum_voltages 5 conv no_battery 0 0 w") (simp add: autocontrol_lowbattery_def lowbattery_level_def)
  ultimately show ?thesis
    by (simp add: lowbattery_level_def send_data_network_def read_sensor_def)
qed

lemma low_battery_service_witness:
  "fst (autocontrol_lowbattery (\<lambda>_ w. ((IW_SUCCESS, Some w), w + 10)) (no_battery\<lparr>batt_port := 1\<rparr>) 3420) = 1"
proof -
  let ?conv = "\<lambda>_ w. ((IW_SUCCESS, Some w), w + 10)" and ?b = "no_battery\<lparr>batt_port := 1\<rparr>"
  have five: "(5::nat) = Suc (Suc (Suc (Suc (Suc 0))))" by simp
  have r: "readings 5 ?conv (batt_port ?b) 3420 = [3420, 3430, 3440, 3450, 3460]"
    unfolding five by simp
  have "batt_port ?b \<noteq> INVALID_BATT_PORT" "length (readings 5 ?conv (batt_port ?b) 3420) = 5"
    unfolding r by (simp_all add: INVALID_BATT_PORT_def)
  from conjunct1 [OF low_battery_service [OF this]] show ?thesis
    unfolding mean_voltage_def r by simp
qed

lemmas board_simps = add_sensor_def add_network_def add_led_def add_battery_def set_wifi_def set_ble_def
  iw_register_sensor_new_def iw_register_network_new_def register_new_def add_device_def
  iw_register_wifi_info_def iw_register_ble_info_def copy_text_def memcpy_def iw_register_led_def
  iw_register_battery_def

lemma empty_table: "dev_num empty_registry = 0" "devs empty_registry = [empty_device, empty_device, empty_device, empty_device, empty_device]"
  by (simp_all add: empty_registry_def MAX_DEV_def numeral_eq_Suc)

text \<open>What is registered after the set-up of a board, by name.\<close>

definition board_summary :: "'w device_state \<Rightarrow> string list \<times> string list \<times> bool list \<times> bool" where
  "board_summary s = (dev_names (ds_sensors s), dev_names (ds_nets s), map led_used (ds_leds s), adc_use (ds_battery s))"

lemmas board_eval = board_simps initial_devices_def empty_table MAX_DEV_def no_ap_def MAX_NAME_STR_SIZE_def
  no_ble_def MAX_BLE_NAME_LEN_def PINCODE_LEN_def BLE_MASTER_MODE_def BLE_SLAVE_MODE_def
  no_leds_def LED_MAX_def LED_RED_def LED_GREEN_def LED_BLUE_def no_battery_def Let_def
  board_summary_def dev_names_def name_of_def strncpy_def MAX_DRIVER_NAME_LEN_def
  iw_get_sensor_dev_id_by_type_def found_dev_def TMP_HUM_def SENSOR_TYPE_CO2_def SENSOR_TYPE_HUM_def field_str_def

lemma stm32_setup:
  "\<exists>s. iw_register_device STM32_BOARD at dr initial_devices = Inr s \<and>
     board_summary s = ([''si7020'', ''ccs811''], [''esp8266''], [True, True, True], True) \<and>
     iw_get_sensor_dev_id_by_type SENSOR_TYPE_CO2 (ds_sensors s) = (IW_SUCCESS, Some 1) \<and>
     iw_get_sensor_dev_id_by_type SENSOR_TYPE_HUM (ds_sensors s) = (IW_SUCCESS, Some 0) \<and>
     field_str (ap_ssid (ds_ap s)) = Inr ''IoTWare_Test''"
  by (simp add: board_eval numeral_eq_Suc)

lemma nordic_setup:
  "\<exists>s. iw_register_device NORDIC_BOARD at dr initial_devices = Inr s \<and>
     board_summary s = ([''si7020'', ''ccs811''], [''esp8266'', ''botcle110''], [True, True, False], True) \<and>
     iw_get_network_dev_id_by_type NET_DEV_TYPE_BLE (ds_nets s) = (IW_SUCCESS, Some 1) \<and>
     iw_led_on LED_BLUE (ds_leds s) = (IW_FAIL, []) \<and>
     field_str (ap_ssid (ds_ap s)) = Inr ''iotware-ap''"
  by (simp add: board_eval numeral_eq_Suc iw_get_network_dev_id_by_type_def iw_led_on_def net_type_defs)

lemma disposal_setup: "iw_register_device DISPOSAL_IOT_BOARD at dr initial_devices = Inl Out_of_bounds"
  by (simp add: register_disposal_def iw_register_sensor_def register_old_def claim_bus_def IF_ID_MAX_def
      initial_devices_def initial_bus_def empty_table MAX_DEV_def memcpy_def MAX_DRIVER_NAME_LEN_def numeral_eq_Suc)

text \<open>
  The set-up of the boards: the STM32 and the Nordic board end up with the two sensors, found by
  their types, their network devices and the access point of the build; the Nordic board has
  no blue LED, so that switching it fails. The set-up of the disposal board reads behind the
  name of its first sensor.
\<close>

theorem board_setup:
  "(\<exists>s. iw_register_device STM32_BOARD at dr initial_devices = Inr s \<and>
     board_summary s = ([''si7020'', ''ccs811''], [''esp8266''], [True, True, True], True) \<and>
     iw_get_sensor_dev_id_by_type SENSOR_TYPE_CO2 (ds_sensors s) = (IW_SUCCESS, Some 1) \<and>
     iw_get_sensor_dev_id_by_type SENSOR_TYPE_HUM (ds_sensors s) = (IW_SUCCESS, Some 0) \<and>
     field_str (ap_ssid (ds_ap s)) = Inr ''IoTWare_Test'') \<and>
   (\<exists>s. iw_register_device NORDIC_BOARD at dr initial_devices = Inr s \<and>
     board_summary s = ([''si7020'', ''ccs811''], [''esp8266'', ''botcle110''], [True, True, False], True) \<and>
     iw_get_network_dev_id_by_type NET_DEV_TYPE_BLE (ds_nets s) = (IW_SUCCESS, Some 1) \<and>
     iw_led_on LED_BLUE (ds_leds s) = (IW_FAIL, []) \<and>
     field_str (ap_ssid (ds_ap s)) = Inr ''iotware-ap'') \<and>
   iw_register_device DISPOSAL_IOT_BOARD at dr initial_devices = Inl Out_of_bounds"
  using stm32_setup nordic_setup disposal_setup by blast

end
