(* ===== verification/LwmCore.thy ===== *)
theory LwmCore
  imports ServiceRegistry LwmParse
begin

text \<open>
  The tasks between the network and the services (\<^verbatim>\<open>SIFW/iw_fw_lwMsgCore.c\<close>): the receiver,
  which reads a text and hands the message on, and the sender, which writes messages and repeats a
  request until it is answered; the queues they use (the end of \<^verbatim>\<open>iw_fw_lwMsgUtils.c\<close>) and
  the function that starts all of it (\<^verbatim>\<open>App/start_apps.c\<close>).

  The kernel's queues are not part of the repository: \<open>core_env\<close> holds what its calls do
  to a world of any type, where other tasks act too. The messages for a console are left out.
\<close>

section \<open>Queues and state\<close>

text \<open>
  A text queue delivers the bytes of its item; a message queue carries pointers to messages. The
  last handle of a send is the task that is to receive.
\<close>

record 'w core_env =
  recv_text :: "nat \<Rightarrow> 'w \<Rightarrow> byte list option \<times> 'w"
  send_text :: "nat \<Rightarrow> cstring \<Rightarrow> nat \<Rightarrow> 'w \<Rightarrow> iw_error_t \<times> 'w"
  recv_msg :: "nat \<Rightarrow> bool \<Rightarrow> 'w \<Rightarrow> lwm_message option option \<times> 'w"
  send_msg :: "nat \<Rightarrow> lwm_message \<Rightarrow> nat \<Rightarrow> 'w \<Rightarrow> iw_error_t \<times> 'w"

datatype core_event =
    Transmitted cstring
  | Freed lwm_message
  | Freed_text cstring
  | Slept nat

record 'w core =
  core_lwm :: lwm_state
  core_registry :: registry
  core_kernel :: kernel
  xNetworkRx :: nat
  xNetworkTx :: nat
  xNetworkRxTask :: nat
  xNetworkTxTask :: nat
  rXrespMsg :: nat
  lwmsg_receive_queue :: nat
  lwmsg_send_queue :: nat
  lwmsg_receive_task :: nat
  lwmsg_send_task :: nat
  core_events :: "core_event list"
  core_world :: 'w

definition log_event :: "core_event \<Rightarrow> 'w core \<Rightarrow> 'w core" where
  "log_event e st = st\<lparr>core_events := core_events st @ [e]\<rparr>"

definition set_lwmsg_receive_queue :: "nat \<Rightarrow> 'w core \<Rightarrow> 'w core" where
  "set_lwmsg_receive_queue q st = (if q \<noteq> 0 then st\<lparr>lwmsg_receive_queue := q\<rparr> else st)"

definition get_lwmsg_receive_queue :: "'w core \<Rightarrow> nat" where
  "get_lwmsg_receive_queue st = lwmsg_receive_queue st"

definition get_lwmsg_send_queue :: "'w core \<Rightarrow> nat" where
  "get_lwmsg_send_queue st = lwmsg_send_queue st"

definition get_lwmsg_receive_task :: "'w core \<Rightarrow> nat" where
  "get_lwmsg_receive_task st = lwmsg_receive_task st"

definition get_lwmsg_send_task :: "'w core \<Rightarrow> nat" where
  "get_lwmsg_send_task st = lwmsg_send_task st"

text \<open>The messages left in a queue that is replaced are deleted; the fuel bounds their number.\<close>

fun empty_queue :: "'w core_env \<Rightarrow> nat \<Rightarrow> nat \<Rightarrow> 'w core \<Rightarrow> 'w core res" where
  "empty_queue env 0 q st = Inl Out_of_fuel"
| "empty_queue env (Suc n) q st = (case recv_msg env q False (core_world st) of
     (None, w) \<Rightarrow> Inr (st\<lparr>core_world := w\<rparr>)
   | (Some p, w) \<Rightarrow>
       let st = st\<lparr>core_world := w\<rparr>;
           st = (case p of None \<Rightarrow> st | Some m \<Rightarrow> log_event (Freed m) st) in
       empty_queue env n q (log_event (Slept 10) st))"

definition set_lwmsg_send_queue :: "'w core_env \<Rightarrow> nat \<Rightarrow> nat \<Rightarrow> 'w core \<Rightarrow> 'w core res" where
  "set_lwmsg_send_queue env n q st =
     (if q = 0 then Inr st
      else rbind (if lwmsg_send_queue st \<noteq> 0 then
          rbind (empty_queue env n (lwmsg_send_queue st) st) (\<lambda>st.
            Inr (st\<lparr>core_kernel := k_call (Delete_queue (lwmsg_send_queue st)) (core_kernel st)\<rparr>))
        else Inr st) (\<lambda>st. Inr (st\<lparr>lwmsg_send_queue := q\<rparr>)))"

definition set_lwmsg_receive_task :: "nat \<Rightarrow> 'w core \<Rightarrow> 'w core" where
  "set_lwmsg_receive_task t st = st\<lparr>lwmsg_receive_task := t\<rparr>"

definition set_lwmsg_send_task :: "nat \<Rightarrow> 'w core \<Rightarrow> 'w core" where
  "set_lwmsg_send_task t st = st\<lparr>lwmsg_send_task := t\<rparr>"

text \<open>\<^verbatim>\<open>send_queue\<close> for messages and for texts.\<close>

definition send_queue :: "'w core_env \<Rightarrow> nat \<Rightarrow> lwm_message \<Rightarrow> nat \<Rightarrow> 'w core \<Rightarrow> iw_error_t \<times> 'w core" where
  "send_queue env q m t st =
     (let (e, w) = send_msg env q m t (core_world st) in (e, st\<lparr>core_world := w\<rparr>))"

definition send_network :: "'w core_env \<Rightarrow> cstring \<Rightarrow> 'w core \<Rightarrow> iw_error_t \<times> 'w core" where
  "send_network env s st =
     (let (e, w) = send_text env (xNetworkTx st) s (xNetworkTxTask st) (core_world st);
          st = st\<lparr>core_world := w\<rparr>
      in (e, if e = IW_SUCCESS then log_event (Transmitted s) st else st))"

definition response_lwmsg :: "'w core_env \<Rightarrow> lwm_message option \<Rightarrow> 'w core \<Rightarrow> iw_error_t \<times> 'w core" where
  "response_lwmsg env m st = (case m of
     None \<Rightarrow> (IW_FAIL, st)
   | Some m \<Rightarrow> if lwmsg_send_queue st \<noteq> 0 then send_queue env (lwmsg_send_queue st) m (lwmsg_send_task st) st
       else (IW_FAIL, st))"

definition request_lwmsg :: "'w core_env \<Rightarrow> lwm_message option \<Rightarrow> 'w core \<Rightarrow> iw_error_t \<times> 'w core" where
  "request_lwmsg env m st = (case m of
     None \<Rightarrow> (IW_FAIL, st)
   | Some m \<Rightarrow> if lwmsg_send_queue st \<noteq> 0 then send_queue env (lwmsg_send_queue st) m (lwmsg_send_task st) st
       else (IW_FAIL, st))"

section \<open>The receiver\<close>

text \<open>A message of the network that was read: a response, a request before the registration, or a request.\<close>

definition route_message :: "'w core_env \<Rightarrow> lwm_message \<Rightarrow> 'w core \<Rightarrow> 'w core" where
  "route_message env m st =
     (let cdri = dict_lookup (header m) ''dri''; crsc = dict_lookup (header m) ''rsc'' in
      if cdri \<noteq> None \<and> crsc \<noteq> None then snd (send_queue env (rXrespMsg st) m (lwmsg_send_task st) st)
      else if \<not> get_device_is_registered (core_registry st) then log_event (Freed m) st
      else (let (e, st) = send_queue env (lwmsg_receive_queue st) m (lwmsg_receive_task st) st
            in if e \<noteq> IW_SUCCESS then log_event (Freed m) st else st))"

text \<open>One round of the loop; a text that is not a message goes round without the pause.\<close>

definition iw_fw_lwMsgRx :: "'w core_env \<Rightarrow> 'w core \<Rightarrow> 'w core res" where
  "iw_fw_lwMsgRx env st = (case recv_text env (xNetworkRx st) (core_world st) of
     (None, w) \<Rightarrow> Inr (log_event (Slept 10) (st\<lparr>core_world := w\<rparr>))
   | (Some bs, w) \<Rightarrow>
       rbind (c_string_at bs) (\<lambda>s. rbind (parse_lwm_message_str (Some s)) (\<lambda>r. case r of
         None \<Rightarrow> Inr (st\<lparr>core_world := w\<rparr>)
       | Some m \<Rightarrow> Inr (log_event (Slept 10) (route_message env m (st\<lparr>core_world := w\<rparr>))))))"

section \<open>The sender\<close>

abbreviation "RETRANSMISSION_COUNT \<equiv> (50::int)"
abbreviation "RESONSE_WAIT_TIME \<equiv> (10000::nat)"

definition strcmp0 :: "cstring_ptr \<Rightarrow> cstring_ptr \<Rightarrow> bool res" where
  "strcmp0 a b = rbind (deref a) (\<lambda>a. rbind (deref b) (\<lambda>b. Inr (a = b)))"

text \<open>\<^verbatim>\<open>_send_if == n && strcmp(_send_dri, _dri) == 0 && strcmp(_rsc, "200") == 0\<close>\<close>

definition answers :: "int \<Rightarrow> int \<Rightarrow> cstring_ptr \<Rightarrow> cstring_ptr \<Rightarrow> cstring_ptr \<Rightarrow> bool res" where
  "answers n send_if send_dri dri rsc =
     (if send_if = n then rbind (strcmp0 send_dri dri) (\<lambda>e. if e then strcmp0 rsc (Some ''200'') else Inr False)
      else Inr False)"

text \<open>The answer to a registration: the identifier is kept and the device describes itself.\<close>

definition accept_registration :: "'w core_env \<Rightarrow> create_fn \<Rightarrow> lwm_message \<Rightarrow> 'w core \<Rightarrow> 'w core res" where
  "accept_registration env create m st =
     (let di = get_lwm_string_value (dict_lookup (body m) ''di'') in
      rbind (deref di) (\<lambda>d.
      rbind (set_lwm_di d (core_lwm st)) (\<lambda>(_, l).
      rbind (get_lwm_tx_dri l) (\<lambda>(dri, l).
      rbind (make_device_information_lwmsg create 2 (Some dri) di (core_registry st) (core_kernel st)) (\<lambda>(r, reg, k).
        Inr (snd (request_lwmsg env (Some r) (st\<lparr>core_lwm := l, core_registry := reg, core_kernel := k\<rparr>))))))))"

text \<open>One response while a request waits; the flag ends the waiting.\<close>

definition handle_response ::
  "'w core_env \<Rightarrow> create_fn \<Rightarrow> int \<Rightarrow> cstring_ptr \<Rightarrow> lwm_message \<Rightarrow> 'w core \<Rightarrow> (bool \<times> 'w core) res" where
  "handle_response env create send_if send_dri m st =
     (let dri = get_lwm_string_value (dict_lookup (header m) ''dri'');
          rsc = get_lwm_string_value (dict_lookup (header m) ''rsc'') in
      rbind (answers 1 send_if send_dri dri rsc) (\<lambda>a1.
      if a1 then rbind (accept_registration env create m st) (\<lambda>st. Inr (True, st))
      else if send_if = 1 then Inr (False, st)
      else rbind (answers 2 send_if send_dri dri rsc) (\<lambda>a2.
      if a2 then Inr (True, st\<lparr>core_registry := set_device_is_registered True (core_registry st)\<rparr>)
      else rbind (answers 14 send_if send_dri dri rsc) (\<lambda>a14.
      if a14 then Inr (True, st)
      else rbind (strcmp0 rsc (Some ''200'')) (\<lambda>e. Inr (e, st))))))"

definition poll_response ::
  "'w core_env \<Rightarrow> create_fn \<Rightarrow> int \<Rightarrow> cstring_ptr \<Rightarrow> 'w core \<Rightarrow> (bool \<times> 'w core) res" where
  "poll_response env create send_if send_dri st =
     (let st = log_event (Slept 100) st in
      case recv_msg env (rXrespMsg st) False (core_world st) of
        (Some (Some m), w) \<Rightarrow>
          rbind (handle_response env create send_if send_dri m (st\<lparr>core_world := w\<rparr>)) (\<lambda>(b, st).
            Inr (b, log_event (Freed m) st))
      | (_, w) \<Rightarrow> Inr (False, st\<lparr>core_world := w\<rparr>))"

function wait_response ::
  "'w core_env \<Rightarrow> create_fn \<Rightarrow> int \<Rightarrow> cstring_ptr \<Rightarrow> nat \<Rightarrow> bool \<Rightarrow> 'w core \<Rightarrow> (bool \<times> 'w core) res" where
  "wait_response env create send_if send_dri some is_break st =
     (if some < RESONSE_WAIT_TIME \<and> \<not> is_break
      then rbind (poll_response env create send_if send_dri st) (\<lambda>(b, st).
        wait_response env create send_if send_dri (some + 100) b st)
      else Inr (is_break, st))"
  by pat_completeness auto
termination by (relation "measure (\<lambda>(_, _, _, _, some, _, _). RESONSE_WAIT_TIME - some)") auto

declare wait_response.simps [simp del]

text \<open>
  The retransmissions, with \<open>i\<close> of type \<^verbatim>\<open>int\<close>. A registration is repeated without an end, so
  the fuel bounds the rounds.
\<close>

fun transmit ::
  "'w core_env \<Rightarrow> create_fn \<Rightarrow> nat \<Rightarrow> int \<Rightarrow> cstring_ptr \<Rightarrow> cstring \<Rightarrow> int \<Rightarrow> 'w core \<Rightarrow> 'w core res" where
  "transmit env create 0 send_if send_dri s i st = Inl Out_of_fuel"
| "transmit env create (Suc n) send_if send_dri s i st =
     (if i < RETRANSMISSION_COUNT \<or> send_if = 1 then
        (let (e, st) = send_network env s st;
             again = (\<lambda>st. if i = 2 ^ 31 - 1 then Inl Overflow
               else transmit env create n send_if send_dri s (i + 1) st) in
         if e \<noteq> IW_SUCCESS then again (log_event (Slept 10) st)
         else rbind (wait_response env create send_if send_dri 0 False st) (\<lambda>(is_break, st).
           if is_break then Inr st else again st))
      else Inr st)"

text \<open>
  A message of the send queue. The three objects of the header are declared inside a block of
  their own in the source and used after it; this is what the code means.
\<close>

definition send_message ::
  "'w core_env \<Rightarrow> create_fn \<Rightarrow> nat \<Rightarrow> lwm_message \<Rightarrow> cstring \<Rightarrow> 'w core \<Rightarrow> 'w core res" where
  "send_message env create n m s st =
     (let cif = dict_lookup (header m) ''if''; cdri = dict_lookup (header m) ''dri''; crsc = dict_lookup (header m) ''rsc'' in
      if cif \<noteq> None \<and> cdri \<noteq> None \<and> crsc = None then
        rbind (get_lwm_interface_id m) (\<lambda>ifid.
          transmit env create n (sint ifid) (get_lwm_string_value cdri) s 0 st)
      else if cif = None \<and> cdri \<noteq> None \<and> crsc \<noteq> None then Inr (snd (send_network env s st))
      else Inr st)"

text \<open>One round of the loop; the second call waits until there is a message.\<close>

definition iw_fw_lwMsgTx :: "'w core_env \<Rightarrow> create_fn \<Rightarrow> nat \<Rightarrow> 'w core \<Rightarrow> 'w core res" where
  "iw_fw_lwMsgTx env create n st =
     (if get_lwmsg_network_enabled (core_lwm st) then
        (case recv_msg env (lwmsg_send_queue st) True (core_world st) of
           (None, w) \<Rightarrow> Inr (log_event (Slept 10) (st\<lparr>core_world := w\<rparr>))
         | (Some None, w) \<Rightarrow> Inr (st\<lparr>core_world := w\<rparr>)
         | (Some (Some m), w) \<Rightarrow>
             rbind (serialize_lwm_message m) (\<lambda>s.
             rbind (send_message env create n m s (st\<lparr>core_world := w\<rparr>)) (\<lambda>st.
               Inr (log_event (Slept 10) (log_event (Freed m) (log_event (Freed_text s) st))))))
      else Inr (log_event (Slept 10) st))"

text \<open>What the sender does once, before its loop.\<close>

definition open_response_queue :: "'w core \<Rightarrow> 'w core" where
  "open_response_queue st = (if rXrespMsg st = 0
     then (let (h, k) = create_queue mainQUEUE_LENGTH sizeof_ptr (core_kernel st) in st\<lparr>rXrespMsg := h, core_kernel := k\<rparr>)
     else st)"

section \<open>Starting the applications\<close>

text \<open>
  \<open>board\<close> says whether one of the two boards is built, \<open>generators\<close> is what the generated
  services add to the registry.
\<close>

definition start_apps ::
  "'w core_env \<Rightarrow> bool \<Rightarrow> (registry \<Rightarrow> registry) \<Rightarrow> nat \<Rightarrow> 'w core \<Rightarrow> 'w core res" where
  "start_apps env board generators n st =
     (let (rx, k) = create_queue 10 128 (core_kernel st);
          (tx, k) = create_queue 10 256 k;
          st = st\<lparr>xNetworkRx := rx, xNetworkTx := tx\<rparr>;
          (st, k) = (if board then (let (t, k) = create_task ''wifi_task'' k in (st\<lparr>xNetworkTxTask := t\<rparr>, k)) else (st, k));
          st = st\<lparr>core_registry := generators (init_mservices (core_registry st))\<rparr>;
          (q, k) = create_queue mainQUEUE_LENGTH sizeof_ptr k;
          st = set_lwmsg_receive_queue q st;
          (q, k) = create_queue mainQUEUE_LENGTH sizeof_ptr k in
      rbind (set_lwmsg_send_queue env n q (st\<lparr>core_kernel := k\<rparr>)) (\<lambda>st.
      let (t, k) = create_task ''lwmsg_dist_task'' (core_kernel st);
          st = set_lwmsg_receive_task t st;
          (t, k) = create_task ''iw_fw_lwMsgTx'' k;
          st = set_lwmsg_send_task t st;
          (t, k) = create_task ''iw_fw_lwMsgRx'' k;
          st = st\<lparr>xNetworkRxTask := t, core_kernel := k\<rparr> in
      rbind (get_lwm_tx_dri (core_lwm st)) (\<lambda>(dri, l).
      let m = make_device_registration_lwmsg 1 (Some dri) (core_registry st)
      in Inr (snd (request_lwmsg env (Some m) (st\<lparr>core_lwm := l\<rparr>))))))"

section \<open>How often a request is sent\<close>

text \<open>
  A network that takes every text, and on which \<open>m\<close> is the response to arrive after \<open>wait\<close> polls;
  \<open>tick\<close> is the world after a poll.
\<close>

definition answering ::
  "'w core_env \<Rightarrow> ('w \<Rightarrow> nat) \<Rightarrow> ('w \<Rightarrow> 'w) \<Rightarrow> lwm_message \<Rightarrow> bool" where
  "answering env wait tick m \<longleftrightarrow>
     (\<forall>q s t w. send_text env q s t w = (IW_SUCCESS, w)) \<and>
     (\<forall>q w. recv_msg env q False w = (if wait w = 0 then Some (Some m) else None, tick w)) \<and>
     (\<forall>w. wait (tick w) = wait w - 1)"

fun is_transmission :: "core_event \<Rightarrow> bool" where
  "is_transmission (Transmitted s) = True"
| "is_transmission _ = False"

definition transmissions :: "'w core \<Rightarrow> nat" where
  "transmissions st = length (filter is_transmission (core_events st))"

text \<open>The texts written.\<close>

fun transmitted_text :: "core_event \<Rightarrow> cstring list" where
  "transmitted_text (Transmitted s) = [s]"
| "transmitted_text _ = []"

definition transmitted :: "'w core \<Rightarrow> cstring list" where
  "transmitted c = concat (map transmitted_text (core_events c))"

lemma transmitted_simps [simp]:
  "transmitted (log_event e c) = transmitted c @ transmitted_text e"
  "transmitted (c\<lparr>core_world := w\<rparr>) = transmitted c"
  "transmitted (c\<lparr>core_registry := g\<rparr>) = transmitted c"
  "transmitted (c\<lparr>core_kernel := k\<rparr>) = transmitted c"
  by (simp_all add: transmitted_def log_event_def)

definition polled :: "('w \<Rightarrow> 'w) \<Rightarrow> 'w core \<Rightarrow> 'w core" where
  "polled tick st = (log_event (Slept 100) st)\<lparr>core_world := tick (core_world st)\<rparr>"

definition registers :: "int \<Rightarrow> cstring \<Rightarrow> lwm_message \<Rightarrow> bool" where
  "registers send_if d m \<longleftrightarrow> send_if = 2 \<and> get_lwm_string_value (dict_lookup (header m) ''dri'') = Some d"

definition finished :: "int \<Rightarrow> cstring \<Rightarrow> lwm_message \<Rightarrow> 'w core \<Rightarrow> 'w core" where
  "finished send_if d m st = log_event (Freed m) (if registers send_if d m
     then st\<lparr>core_registry := set_device_is_registered True (core_registry st)\<rparr> else st)"

lemma log_event_sel [simp]:
  "core_world (log_event e st) = core_world st" "core_registry (log_event e st) = core_registry st"
  "rXrespMsg (log_event e st) = rXrespMsg st"
  "transmissions (log_event e st) = transmissions st + (if is_transmission e then 1 else 0)"
  by (simp_all add: log_event_def transmissions_def)

lemma transmissions_update [simp]:
  "transmissions (st\<lparr>core_world := w\<rparr>) = transmissions st"
  "transmissions (st\<lparr>core_registry := r\<rparr>) = transmissions st"
  by (simp_all add: transmissions_def)

lemma polled_pow:
  "core_registry ((polled tick ^^ k) st) = core_registry st \<and>
   transmissions ((polled tick ^^ k) st) = transmissions st \<and>
   core_world ((polled tick ^^ k) st) = (tick ^^ k) (core_world st)"
  by (induction k) (simp_all add: polled_def)

lemma finished_sel [simp]:
  "transmissions (finished send_if d m st) = transmissions st"
  "core_world (finished send_if d m st) = core_world st"
  "get_device_is_registered (core_registry (finished send_if d m st)) \<longleftrightarrow>
     get_device_is_registered (core_registry st) \<or> registers send_if d m"
  by (simp_all add: finished_def get_device_is_registered_def set_device_is_registered_def)

definition is_success :: "lwm_message \<Rightarrow> bool" where
  "is_success m \<longleftrightarrow> get_lwm_string_value (dict_lookup (header m) ''dri'') \<noteq> None \<and>
     get_lwm_string_value (dict_lookup (header m) ''rsc'') = Some ''200''"

lemma handle_success:
  assumes "send_if \<noteq> 1" "is_success m"
  shows "rbind (handle_response env create send_if (Some d) m st) (\<lambda>(b, st). Inr (b, log_event (Freed m) st)) =
    Inr (True, finished send_if d m st)"
  using assms
  by (auto simp: handle_response_def answers_def strcmp0_def is_success_def registers_def finished_def Let_def
      simp del: rbind_eq_Inr)

lemma poll_answering:
  assumes "answering env wait tick m" "0 < wait (core_world st) \<or> send_if \<noteq> 1 \<and> is_success m"
  shows "poll_response env create send_if (Some d) st =
    (if wait (core_world st) = 0 then Inr (True, finished send_if d m (polled tick st))
     else Inr (False, polled tick st))"
proof (cases "wait (core_world st) = 0")
  case True
  with assms handle_success [of send_if m env create d "polled tick st"] show ?thesis
    by (simp add: poll_response_def answering_def polled_def del: rbind_eq_Inr)
next
  case False
  with assms(1) show ?thesis by (simp add: poll_response_def answering_def polled_def)
qed

lemma wait_answering:
  assumes a: "answering env wait tick m" and b: "k \<le> wait (core_world st) \<or> send_if \<noteq> 1 \<and> is_success m"
    and k: "k \<le> 100"
  shows "wait_response env create send_if (Some d) (100 * (100 - k)) False st =
    (if wait (core_world st) < k
     then Inr (True, finished send_if d m ((polled tick ^^ Suc (wait (core_world st))) st))
     else Inr (False, (polled tick ^^ k) st))"
  using b k
proof (induction k arbitrary: st)
  case 0
  then show ?case by (subst wait_response.simps) simp
next
  case (Suc k)
  have next_some: "100 * (100 - Suc k) + 100 = 100 * (100 - k)" using Suc.prems(2) by simp
  have go: "100 * (100 - Suc k) < RESONSE_WAIT_TIME" using Suc.prems(2) by simp
  have w: "wait (core_world (polled tick st)) = wait (core_world st) - 1"
    using a by (simp add: polled_def answering_def)
  have p: "poll_response env create send_if (Some d) st =
    (if wait (core_world st) = 0 then Inr (True, finished send_if d m (polled tick st))
     else Inr (False, polled tick st))"
    using Suc.prems(1) by (intro poll_answering [OF a]) auto
  show ?case
  proof (cases "wait (core_world st)")
    case 0
    with p go show ?thesis by (subst wait_response.simps) (simp add: wait_response.simps)
  next
    case (Suc j)
    have ih: "wait_response env create send_if (Some d) (100 * (100 - k)) False (polled tick st) =
      (if j < k then Inr (True, finished send_if d m ((polled tick ^^ Suc j) (polled tick st)))
       else Inr (False, (polled tick ^^ k) (polled tick st)))"
      using Suc.IH [of "polled tick st"] Suc.prems w Suc by auto
    show ?thesis
      using p go ih Suc next_some
      by (subst wait_response.simps) (auto simp: funpow_swap1)
  qed
qed

lemma wait_pow:
  assumes "answering env wait tick m"
  shows "wait ((tick ^^ k) w) = wait w - k"
  using assms by (induction k) (auto simp: answering_def)

lemma send_answering:
  assumes "answering env wait tick m"
  shows "send_network env s st = (IW_SUCCESS, log_event (Transmitted s) st)"
  using assms by (simp add: send_network_def answering_def)

lemma attempt_answering:
  assumes a: "answering env wait tick m" and b: "100 \<le> wait (core_world st) \<or> send_if \<noteq> 1 \<and> is_success m"
    and i: "i < RETRANSMISSION_COUNT \<or> send_if = 1" "i < 2 ^ 31 - 1"
  shows "\<exists>st'. core_world st' = (tick ^^ min 100 (Suc (wait (core_world st)))) (core_world st) \<and>
    transmissions st' = Suc (transmissions st) \<and>
    (if wait (core_world st) < 100
     then transmit env create (Suc n) send_if (Some d) s i st = Inr st' \<and>
       get_device_is_registered (core_registry st') = (get_device_is_registered (core_registry st) \<or> registers send_if d m)
     else transmit env create (Suc n) send_if (Some d) s i st = transmit env create n send_if (Some d) s (i + 1) st' \<and>
       core_registry st' = core_registry st)"
proof -
  let ?st = "log_event (Transmitted s) st" and ?w = "wait (core_world st)"
  have w: "wait_response env create send_if (Some d) 0 False ?st =
    (if ?w < 100 then Inr (True, finished send_if d m ((polled tick ^^ Suc ?w) ?st))
     else Inr (False, (polled tick ^^ 100) ?st))"
    using wait_answering [OF a, of 100 ?st send_if create d] b by simp
  show ?thesis
  proof (cases "?w < 100")
    case True
    then have "min 100 (Suc ?w) = Suc ?w" by simp
    with True w i send_answering [OF a] polled_pow [of "Suc ?w" tick ?st] show ?thesis
      by (intro exI [of _ "finished send_if d m ((polled tick ^^ Suc ?w) ?st)"])
        (simp del: funpow.simps)
  next
    case False
    with w i send_answering [OF a] polled_pow [of 100 tick ?st] show ?thesis
      by (intro exI [of _ "(polled tick ^^ 100) ?st"]) (simp del: funpow.simps)
  qed
qed

lemma transmit_answered:
  assumes a: "answering env wait tick m" and m: "send_if \<noteq> 1" "is_success m"
    and r: "int r + i = 50" "0 \<le> i" "r < n"
  shows "\<exists>st'. transmit env create n send_if (Some d) s i st = Inr st' \<and>
    transmissions st' = transmissions st + min r (wait (core_world st) div 100 + 1) \<and>
    (if wait (core_world st) < 100 * r
     then get_device_is_registered (core_registry st') = (get_device_is_registered (core_registry st) \<or> registers send_if d m)
     else core_registry st' = core_registry st)"
  using r
proof (induction r arbitrary: i n st)
  case 0
  then obtain n' where "n = Suc n'" by (cases n) auto
  with 0 m show ?case by simp
next
  case (Suc r)
  then obtain n' where n: "n = Suc n'" by (cases n) auto
  let ?w = "wait (core_world st)"
  have i: "i < 2 ^ 31 - 1" "i < RETRANSMISSION_COUNT" using Suc.prems by simp_all
  from attempt_answering [OF a, of st send_if i create n' d s] m i n
  obtain st1 where s1: "core_world st1 = (tick ^^ min 100 (Suc ?w)) (core_world st)"
      "transmissions st1 = Suc (transmissions st)"
      "if ?w < 100
       then transmit env create n send_if (Some d) s i st = Inr st1 \<and>
         get_device_is_registered (core_registry st1) = (get_device_is_registered (core_registry st) \<or> registers send_if d m)
       else transmit env create n send_if (Some d) s i st = transmit env create n' send_if (Some d) s (i + 1) st1 \<and>
         core_registry st1 = core_registry st"
    by blast
  show ?case
  proof (cases "?w < 100")
    case True
    with s1 show ?thesis by auto
  next
    case False
    then have "wait (core_world st1) = ?w - 100" using s1(1) wait_pow [OF a] by simp
    moreover have "?w div 100 = Suc ((?w - 100) div 100)" using False by (simp add: le_div_geq)
    moreover have "?w - 100 < 100 * r \<longleftrightarrow> ?w < 100 * Suc r" using False by auto
    ultimately show ?thesis using Suc.IH [of "i + 1" n' st1] Suc.prems n s1(2,3) False by auto
  qed
qed

lemma transmit_unanswered:
  assumes a: "answering env wait tick m" and n: "100 * n \<le> wait (core_world st)" "0 \<le> i" "i + int n < 2 ^ 31"
  shows "transmit env create n 1 (Some d) s i st = Inl Out_of_fuel"
  using n
proof (induction n arbitrary: i st)
  case (Suc n)
  from attempt_answering [OF a, of st 1 i create n d s] Suc.prems
  obtain st1 where "core_world st1 = (tick ^^ 100) (core_world st)"
      "transmit env create (Suc n) 1 (Some d) s i st = transmit env create n 1 (Some d) s (i + 1) st1"
    by (auto simp del: transmit.simps)
  with Suc wait_pow [OF a] show ?case by simp
qed simp

text \<open>
  C24. A request is written once more for every 100 polls, one each tenth of a second, without an
  answer: at most 50 times, and forever when it is the registration of the device. Any response
  with the code 200 ends the repetition of another request, also when it belongs to
  an older one; only the answer to interface 2 with the right number registers the device, and without it the device
  stays as it was.
\<close>

theorem sender_retransmits:
  assumes "answering env wait tick m"
  shows "(send_if \<noteq> 1 \<and> is_success m \<longrightarrow>
      (\<exists>st'. transmit env create 51 send_if (Some d) s 0 st = Inr st' \<and>
        transmissions st' = transmissions st + min 50 (wait (core_world st) div 100 + 1) \<and>
        (get_device_is_registered (core_registry st') \<longleftrightarrow> get_device_is_registered (core_registry st) \<or>
          wait (core_world st) < 5000 \<and> send_if = 2 \<and> get_lwm_string_value (dict_lookup (header m) ''dri'') = Some d))) \<and>
    (n < 2 ^ 31 \<and> 100 * n \<le> wait (core_world st) \<longrightarrow>
      transmit env create n 1 (Some d) s 0 st = Inl Out_of_fuel)"
proof (intro conjI impI)
  assume m: "send_if \<noteq> 1 \<and> is_success m"
  from transmit_answered [OF assms, of send_if 50 0 51 create d s st] m
  show "\<exists>st'. transmit env create 51 send_if (Some d) s 0 st = Inr st' \<and>
    transmissions st' = transmissions st + min 50 (wait (core_world st) div 100 + 1) \<and>
    (get_device_is_registered (core_registry st') \<longleftrightarrow> get_device_is_registered (core_registry st) \<or>
      wait (core_world st) < 5000 \<and> send_if = 2 \<and> get_lwm_string_value (dict_lookup (header m) ''dri'') = Some d)"
    by (auto simp: registers_def split: if_splits)
next
  assume "n < 2 ^ 31 \<and> 100 * n \<le> wait (core_world st)"
  then show "transmit env create n 1 (Some d) s 0 st = Inl Out_of_fuel"
    by (intro transmit_unanswered [OF assms]) auto
qed

definition example_answer :: lwm_message where
  "example_answer = \<lparr>header = [(''dri'', LWM_String (Some ''2'')), (''rsc'', LWM_String (Some ''200''))], body = []\<rparr>"

definition example_net :: "nat core_env" where
  "example_net = \<lparr>recv_text = \<lambda>_ w. (None, w), send_text = \<lambda>_ _ _ w. (IW_SUCCESS, w),
     recv_msg = \<lambda>_ _ w. (if w = 0 then Some (Some example_answer) else None, w - 1),
     send_msg = \<lambda>_ _ _ w. (IW_SUCCESS, w)\<rparr>"

definition example_core :: "'w \<Rightarrow> 'w core" where
  "example_core w = \<lparr>core_lwm = lwm_state0, core_registry = \<lparr>services = [], device_registered = False\<rparr>,
     core_kernel = example_kernel, xNetworkRx = 1, xNetworkTx = 2, xNetworkRxTask = 3, xNetworkTxTask = 4,
     rXrespMsg = 5, lwmsg_receive_queue = 6, lwmsg_send_queue = 7, lwmsg_receive_task = 8,
     lwmsg_send_task = 9, core_events = [], core_world = w\<rparr>"

lemma sender_retransmits_witness:
  "\<exists>st. transmit example_net (\<lambda>ms k. (ms, k)) 51 2 (Some ''2'') ''{}'' 0 (example_core 250) = Inr st \<and>
     transmissions st = 3 \<and> get_device_is_registered (core_registry st)"
proof -
  have "answering example_net (\<lambda>w. w) (\<lambda>w. w - 1) example_answer"
    by (simp add: answering_def example_net_def)
  from sender_retransmits [OF this, of 2 "\<lambda>ms k. (ms, k)" "''2''" "''{}''" "example_core 250" 0]
  show ?thesis
    by (auto simp: is_success_def example_answer_def get_lwm_string_value_def example_core_def transmissions_def)
qed

section \<open>The answer to a registration\<close>

lemma tx_dri_fits:
  assumes "0 < n" "n \<le> 99999900"
  shows "length (show_int n) < 10"
proof -
  have "nat n < 10 ^ 9" using assms by simp
  then have "length (dec_digits (nat n)) \<le> 9" using length_dec_digits [of 9 "nat n"] by simp
  with assms show ?thesis by (simp add: show_int_def)
qed

lemma information_header:
  assumes "make_device_information_lwmsg create ifid (Some d) (Some i) reg k = Inr (r, reg', k')"
  shows "get_lwm_interface_id r = Inr ifid \<and> get_lwm_dri r = Some d \<and>
    dict_lookup (header r) ''di'' = Some (LWM_String (Some i))"
proof -
  obtain v where "r = set_body ''mif'' v (new_lwm_req_message ifid (Some d) (Some i))"
    using assms by (auto simp: make_device_information_lwmsg_def split: prod.splits)
  then show ?thesis
    by (simp add: set_body_def new_lwm_req_message_def new_lwm_empty_message_def set_header_def dict_put_def
        new_lwm_string_object_def get_lwm_interface_id_def get_lwm_dri_def lwm_u32_def load_u32_bytes Let_def)
qed

text \<open>What the sender is left with when the answer to its registration can be used.\<close>

definition after_registration :: "cstring \<Rightarrow> registry \<Rightarrow> kernel \<Rightarrow> 'w core \<Rightarrow> 'w core" where
  "after_registration i reg k st =
     (let n = lwmsg_tx_dri (core_lwm st);
          l = if length i \<le> 14 then (core_lwm st)\<lparr>lwmsg_di_str := i\<rparr> else core_lwm st
      in st\<lparr>core_lwm := l\<lparr>lwmsg_tx_dri_str := show_int n, lwmsg_tx_dri := (if 99999900 < n + 1 then 1 else n + 1)\<rparr>,
           core_registry := reg, core_kernel := k\<rparr>)"

lemma registration_reply:
  assumes "is_success m" "get_lwm_string_value (dict_lookup (header m) ''dri'') = Some d"
    and "get_lwm_string_value (dict_lookup (body m) ''di'') = Some i"
    and n: "n = lwmsg_tx_dri (core_lwm st)" "0 < n" "n \<le> 99999900"
  shows "handle_response env create 1 (Some d) m st =
    rbind (make_device_information_lwmsg create 2 (Some (show_int n)) (Some i) (core_registry st) (core_kernel st))
      (\<lambda>(r, reg, k). Inr (True, snd (request_lwmsg env (Some r) (after_registration i reg k st))))"
proof -
  let ?l = "if length i \<le> 14 then (core_lwm st)\<lparr>lwmsg_di_str := i\<rparr> else core_lwm st"
  let ?l' = "?l\<lparr>lwmsg_tx_dri_str := show_int n, lwmsg_tx_dri := (if 99999900 < n + 1 then 1 else n + 1)\<rparr>"
  have l: "\<exists>b. set_lwm_di i (core_lwm st) = Inr (b, ?l)" "get_lwm_tx_dri ?l = Inr (show_int n, ?l')"
    using n tx_dri_fits [of n]
    by (auto simp: set_lwm_di_def store_cstring_def get_lwm_tx_dri_def Let_def)
  have a: "handle_response env create 1 (Some d) m st =
      rbind (accept_registration env create m st) (\<lambda>st. Inr (True, st))"
    using assms(1,2) by (simp add: handle_response_def answers_def strcmp0_def is_success_def del: rbind_eq_Inr)
  show ?thesis
  proof (cases "make_device_information_lwmsg create 2 (Some (show_int n)) (Some i) (core_registry st) (core_kernel st)")
    case (Inl e)
    with assms(3) l show ?thesis by (auto simp: a accept_registration_def Let_def)
  next
    case (Inr p)
    with assms(3) l n(1) show ?thesis by (cases p) (auto simp: a accept_registration_def after_registration_def Let_def)
  qed
qed

text \<open>
  C25. The answer to the registration makes the device describe itself: the identifier the server gave
  it is kept when it has at most 14 characters, and a message of interface 2 with the next number and
  this identifier, also a longer one, goes to the send queue. An answer without the identifier
  makes the sender read through a NULL pointer.
\<close>

theorem registration_answered:
  assumes "is_success m" "get_lwm_string_value (dict_lookup (header m) ''dri'') = Some d"
    and "n = lwmsg_tx_dri (core_lwm st)" "0 < n" "n \<le> 99999900" "lwmsg_send_queue st \<noteq> 0"
  shows "case get_lwm_string_value (dict_lookup (body m) ''di'') of
      None \<Rightarrow> handle_response env create 1 (Some d) m st = Inl Null_deref
    | Some i \<Rightarrow> (case make_device_information_lwmsg create 2 (Some (show_int n)) (Some i) (core_registry st) (core_kernel st) of
        Inl e \<Rightarrow> handle_response env create 1 (Some d) m st = Inl e
      | Inr (r, reg, k) \<Rightarrow> get_lwm_interface_id r = Inr 2 \<and> get_lwm_dri r = Some (show_int n) \<and>
          dict_lookup (header r) ''di'' = Some (LWM_String (Some i)) \<and>
          (\<exists>st'. handle_response env create 1 (Some d) m st = Inr (True, st') \<and> core_registry st' = reg \<and>
            core_world st' = snd (send_msg env (lwmsg_send_queue st) r (lwmsg_send_task st) (core_world st)) \<and>
            get_lwm_di (core_lwm st') = (if length i \<le> 14 then i else get_lwm_di (core_lwm st))))"
proof (cases "get_lwm_string_value (dict_lookup (body m) ''di'')")
  case None
  have "handle_response env create 1 (Some d) m st = rbind (accept_registration env create m st) (\<lambda>st. Inr (True, st))"
    using assms(1,2) by (simp add: handle_response_def answers_def strcmp0_def is_success_def del: rbind_eq_Inr)
  with None show ?thesis by (simp add: accept_registration_def)
next
  case (Some i)
  note r = registration_reply [OF assms(1,2) Some assms(3-5), of env create]
  show ?thesis
  proof (cases "make_device_information_lwmsg create 2 (Some (show_int n)) (Some i) (core_registry st) (core_kernel st)")
    case (Inr p)
    then obtain q reg k where p: "make_device_information_lwmsg create 2 (Some (show_int n)) (Some i)
        (core_registry st) (core_kernel st) = Inr (q, reg, k)"
      by (cases p) auto
    with r Some information_header [OF p] assms(6) show ?thesis
      by (auto simp: request_lwmsg_def send_queue_def split_beta get_lwm_di_def after_registration_def Let_def)
  qed (use r Some in simp)
qed

lemma registration_answered_witness:
  "handle_response example_net (\<lambda>ms k. (ms, k)) 1 (Some ''2'') example_answer (example_core 0) = Inl Null_deref"
  using registration_answered [of example_answer "''2''" 1 "example_core 0" example_net "\<lambda>ms k. (ms, k)"]
  by (simp add: is_success_def example_answer_def get_lwm_string_value_def example_core_def lwm_state0_def)

end
