(* ===== verification/BaseTasks.thy ===== *)
theory BaseTasks
  imports ServiceTypes "HOL-Library.While_Combinator"
begin

text \<open>
  The bodies of the tasks of a service (\<^verbatim>\<open>SMFW/base_task_type1.c\<close> to
  \<^verbatim>\<open>base_task_type4.c\<close>): wait for an item on an input, let the functions of the application
  work on it, send the result along the connect lines, and clean up at the end.

  The kernel's queues and clock and the functions of the application are a record \<open>task_env\<close>
  over a world of any type. The loops are \<open>while_option\<close>, whose value \<open>None\<close> means
  that the task never ends.
\<close>

section \<open>What a task works on\<close>

datatype task_event =
    New_set nat
  | Join_set nat
  | Pause "32 word"
  | Call nat
  | Send_output nat
  | Free_user_data
  | Free_input_data
  | Free_param

text \<open>\<^verbatim>\<open>STProcessingParam\<close>, with what happened and the world.\<close>

record 'w st_param =
  pp_task :: task_info
  input_data :: "byte list option"
  queue_num :: int
  sleep_ms :: "32 word"
  total_sleep_ms :: "32 word"
  total_sleep_count :: "32 word"
  user_data :: "nat option"
  pp_events :: "task_event list"
  pp_world :: 'w

text \<open>
  A function of the application (\<open>handler\<close>) says whether the data it returns is
  not NULL. The others are the calls of the kernel and the task a connect line points to.
\<close>

record 'w task_env =
  handler :: "nat \<Rightarrow> 'w st_param \<Rightarrow> bool \<times> 'w st_param"
  queue_recv :: "nat \<Rightarrow> bool \<Rightarrow> 'w \<Rightarrow> byte list option \<times> 'w"
  queue_send :: "nat \<Rightarrow> byte list option \<Rightarrow> nat \<Rightarrow> 'w \<Rightarrow> 'w"
  set_create :: "nat \<Rightarrow> 'w \<Rightarrow> nat \<times> 'w"
  set_add :: "nat \<Rightarrow> nat \<Rightarrow> 'w \<Rightarrow> 'w"
  set_select :: "nat \<Rightarrow> nat \<Rightarrow> 'w \<Rightarrow> nat \<times> 'w"
  tick_count :: "'w \<Rightarrow> 32 word \<times> 'w"
  task_at :: "nat \<Rightarrow> 'w \<Rightarrow> task_info option"
  tick_period :: "32 word"

abbreviation "setpollQUEUE_LENGTH \<equiv> (10::nat)"
abbreviation "setpollDONT_BLOCK \<equiv> (0::nat)"

definition note_event :: "task_event \<Rightarrow> 'w st_param \<Rightarrow> 'w st_param" where
  "note_event e st = st\<lparr>pp_events := pp_events st @ [e]\<rparr>"

definition set_task_state :: "state_type \<Rightarrow> 'w st_param \<Rightarrow> 'w st_param" where
  "set_task_state s st = st\<lparr>pp_task := (pp_task st)\<lparr>ti_state := s\<rparr>\<rparr>"

definition SET_TASK_RUNNING :: "'w st_param \<Rightarrow> 'w st_param" where
  "SET_TASK_RUNNING st = set_task_state RUNNING st"

definition SET_TASK_WAITING :: "'w st_param \<Rightarrow> 'w st_param" where
  "SET_TASK_WAITING st = set_task_state WAITING st"

section \<open>Working on an item\<close>

definition call_handler :: "'w task_env \<Rightarrow> nat option \<Rightarrow> 'w st_param \<Rightarrow> bool \<times> 'w st_param" where
  "call_handler env f st = (case f of
     None \<Rightarrow> (False, st)
   | Some i \<Rightarrow> handler env i (note_event (Call i) st))"

definition send_output :: "'w task_env \<Rightarrow> 'w st_param \<Rightarrow> nat \<Rightarrow> 'w st_param res" where
  "send_output env st i =
     (if length (output_ports (pp_task st)) \<le> i then Inl Out_of_bounds
      else (case output_ports (pp_task st) ! i of
        None \<Rightarrow> Inr st
      | Some l \<Rightarrow> rbind (deref (task_at env (dest_task l) (pp_world st))) (\<lambda>d.
          if input_port_no l < length (input_queues d)
          then let q = input_queues d ! input_port_no l in
            Inr (note_event (Send_output q)
              (st\<lparr>pp_world := queue_send env q (output_ptr (pp_task st)) (task_t d) (pp_world st)\<rparr>))
          else Inl Out_of_bounds)))"

definition process_item :: "'w task_env \<Rightarrow> 'w st_param \<Rightarrow> 'w st_param res" where
  "process_item env st =
     (let (some, st) = call_handler env (before_fn (pp_task st)) st in
      rbind (if some then rfold (send_output env) [0..<output_count (pp_task st)] st else Inr st) (\<lambda>st.
        Inr (snd (call_handler env (after_fn (pp_task st)) st))))"

definition pause :: "32 word \<Rightarrow> 'w st_param \<Rightarrow> 'w st_param" where
  "pause ms st = note_event (Pause ms) st"

text \<open>The item is written to where \<^verbatim>\<open>input_data\<close> points.\<close>

definition recv_item :: "'w task_env \<Rightarrow> nat \<Rightarrow> bool \<Rightarrow> 'w st_param \<Rightarrow> (iw_error_t \<times> 'w st_param) res" where
  "recv_item env q block st = (case queue_recv env q block (pp_world st) of
     (None, w) \<Rightarrow> Inr (IW_FAIL, st\<lparr>pp_world := w\<rparr>)
   | (Some bs, w) \<Rightarrow> rbind (deref (input_data st)) (\<lambda>old.
       if length bs \<le> length old
       then Inr (IW_SUCCESS, st\<lparr>pp_world := w, input_data := Some (bs @ drop (length bs) old)\<rparr>)
       else Inl Out_of_bounds))"

definition clean_up :: "'w st_param \<Rightarrow> 'w st_param" where
  "clean_up st =
     (let st = (if user_data st \<noteq> None then note_event Free_user_data st else st)\<lparr>user_data := None\<rparr>;
          st = (if input_data st \<noteq> None then note_event Free_input_data st else st)\<lparr>input_data := None\<rparr>
      in note_event Free_param (set_task_state STOPPED st))"

section \<open>Choosing among the inputs\<close>

definition join_input :: "'w task_env \<Rightarrow> nat \<Rightarrow> 'w st_param \<Rightarrow> nat \<Rightarrow> 'w st_param res" where
  "join_input env s st i =
     (if i < length (input_queues (pp_task st))
      then let q = input_queues (pp_task st) ! i in
        Inr (note_event (Join_set q) (st\<lparr>pp_world := set_add env q s (pp_world st)\<rparr>))
      else Inl Out_of_bounds)"

definition make_queue_set :: "'w task_env \<Rightarrow> 'w st_param \<Rightarrow> (nat \<times> 'w st_param) res" where
  "make_queue_set env st =
     (let (s, w) = set_create env setpollQUEUE_LENGTH (pp_world st);
          st = note_event (New_set s) (st\<lparr>pp_world := w\<rparr>) in
      rbind (rfold (join_input env s) [0..<input_count (pp_task st)] st) (\<lambda>st. Inr (s, st)))"

text \<open>The number of the port with this queue, -1 when there is none.\<close>

definition find_port :: "task_info \<Rightarrow> nat \<Rightarrow> int res" where
  "find_port t q = (case find (\<lambda>i. input_queues t ! i = q) [0..<min (input_count t) (length (input_queues t))] of
     Some i \<Rightarrow> Inr (int i)
   | None \<Rightarrow> if length (input_queues t) < input_count t then Inl Out_of_bounds else Inr (- 1))"

text \<open>
  The common part of the rounds of types 1 and 4: wait for a queue of the set, then read the item
  and go on with \<open>work\<close>.
\<close>

definition select_round ::
  "'w task_env \<Rightarrow> ('w st_param \<Rightarrow> 'w st_param res) \<Rightarrow> nat \<Rightarrow> 'w st_param \<Rightarrow> 'w st_param res" where
  "select_round env work s st =
     (let st = SET_TASK_WAITING st;
          (q, w) = set_select env s setpollDONT_BLOCK (pp_world st);
          st = st\<lparr>pp_world := w\<rparr> in
      if q = 0 then Inr (pause 200 st)
      else rbind (find_port (pp_task st) q) (\<lambda>i.
        let st = st\<lparr>queue_num := i\<rparr> in
        if queue_num st = - 1 then Inr st
        else rbind (recv_item env q False st) (\<lambda>(e, st).
          rbind (if e = IW_SUCCESS then work (SET_TASK_RUNNING st) else Inr st) (\<lambda>st. Inr (pause 200 st)))))"

definition loop_while :: "bool \<Rightarrow> ('w st_param \<Rightarrow> 'w st_param res) \<Rightarrow> 'w st_param res \<Rightarrow> 'w st_param res option" where
  "loop_while c step r = while_option (\<lambda>r. c \<and> \<not> isl r) (\<lambda>r. rbind r step) r"

section \<open>Type 1: an item of any input\<close>

definition type1_round :: "'w task_env \<Rightarrow> nat \<Rightarrow> 'w st_param \<Rightarrow> 'w st_param res" where
  "type1_round env = select_round env (\<lambda>st. rbind (process_item env st) (\<lambda>st. Inr (pause 200 st)))"

definition run_base_task_type1 :: "'w task_env \<Rightarrow> 'w st_param \<Rightarrow> 'w st_param res option" where
  "run_base_task_type1 env st = (case make_queue_set env st of
     Inl e \<Rightarrow> Some (Inl e)
   | Inr (s, st) \<Rightarrow> let loop_condition = True in
       map_option (\<lambda>r. rbind r (\<lambda>st. Inr (clean_up st)))
         (loop_while (loop_condition = False) (type1_round env s) (Inr st)))"

section \<open>Type 2: an item of the first input\<close>

definition type2_round :: "'w task_env \<Rightarrow> 'w st_param \<Rightarrow> 'w st_param res" where
  "type2_round env st =
     (let st = SET_TASK_WAITING st in
      rbind (get_input_queue_from_taskinfo (pp_task st) 0) (\<lambda>q.
      rbind (recv_item env q True st) (\<lambda>(e, st).
      rbind (if e = IW_SUCCESS
          then rbind (process_item env ((SET_TASK_RUNNING st)\<lparr>queue_num := 0\<rparr>)) (\<lambda>st. Inr (pause 200 st))
          else Inr st) (\<lambda>st. Inr (pause 200 st)))))"

definition run_base_task_type2 :: "'w task_env \<Rightarrow> 'w st_param \<Rightarrow> 'w st_param res option" where
  "run_base_task_type2 env st =
     (let loop_condition = True in
      map_option (\<lambda>r. rbind r (\<lambda>st. Inr (clean_up st)))
        (loop_while (loop_condition = False) (type2_round env) (Inr st)))"

section \<open>Type 3: again and again without an input\<close>

definition type3_round :: "'w task_env \<Rightarrow> 'w st_param \<Rightarrow> 'w st_param res" where
  "type3_round env st =
     (let st = SET_TASK_RUNNING st;
          st = (pause (sleep_ms st) st)\<lparr>queue_num := - 1\<rparr>
      in process_item env st)"

definition run_base_task_type3 :: "'w task_env \<Rightarrow> 'w st_param \<Rightarrow> 'w st_param res option" where
  "run_base_task_type3 env st =
     (let st = SET_TASK_WAITING st; loop_condition = True in
      map_option (\<lambda>r. rbind r (\<lambda>st. Inr (clean_up st)))
        (loop_while (loop_condition = False) (type3_round env) (type3_round env st)))"

section \<open>Type 4: an item starts a series\<close>

text \<open>
  The inner loop ends after a time, after a number of rounds, or when the task is
  stopped; the fuel bounds its rounds.
\<close>

fun repeat_process :: "'w task_env \<Rightarrow> nat \<Rightarrow> 32 word \<Rightarrow> 32 word \<Rightarrow> 'w st_param \<Rightarrow> 'w st_param res" where
  "repeat_process env 0 first_wake count st = Inl Out_of_fuel"
| "repeat_process env (Suc n) first_wake count st =
     (let max_period = (total_sleep_ms st * 1000) div tick_period env;
          count = count + 1;
          (curr, w) = tick_count env (pp_world st);
          st = st\<lparr>pp_world := w\<rparr> in
      if max_period \<noteq> 0 \<and> max_period \<le> curr - first_wake then Inr st
      else if total_sleep_count st \<noteq> 0 \<and> total_sleep_count st < count then Inr st
      else if ti_state (pp_task st) = STOPPED then Inr st
      else rbind (process_item env st) (\<lambda>st.
        repeat_process env n first_wake count (pause (sleep_ms st) st)))"

definition type4_series :: "'w task_env \<Rightarrow> nat \<Rightarrow> 'w st_param \<Rightarrow> 'w st_param res" where
  "type4_series env n st =
     (let (first_wake, w) = tick_count env (pp_world st)
      in repeat_process env n first_wake 0 (st\<lparr>pp_world := w\<rparr>))"

definition type4_round :: "'w task_env \<Rightarrow> nat \<Rightarrow> nat \<Rightarrow> 'w st_param \<Rightarrow> 'w st_param res" where
  "type4_round env n = select_round env (type4_series env n)"

definition run_base_task_type4 :: "'w task_env \<Rightarrow> nat \<Rightarrow> 'w st_param \<Rightarrow> 'w st_param res option" where
  "run_base_task_type4 env n st = (case make_queue_set env st of
     Inl e \<Rightarrow> Some (Inl e)
   | Inr (s, st) \<Rightarrow> let loop_condition = True in
       map_option (\<lambda>r. rbind r (\<lambda>st. Inr (clean_up st)))
         (loop_while (loop_condition = False) (type4_round env n s) (Inr st)))"

text \<open>\<^verbatim>\<open>print_task_state\<close>: a waiting task has the state of a created one and is shown as such.\<close>

definition print_task_state :: "task_info \<Rightarrow> string" where
  "print_task_state t = (
     if ti_state t = CREATED then ti_name t @ '' Task state: CREATED'' @ [CHR 0x0A]
     else if ti_state t = STOPPED then ti_name t @ '' Task state: STOPPED'' @ [CHR 0x0A]
     else if ti_state t = RUNNING then '' '' @ ti_name t @ '' Task state: RUNNING'' @ [CHR 0x0A]
     else if ti_state t = WAITING then ti_name t @ '' Task state: WAITING'' @ [CHR 0x0A]
     else ti_name t @ '' Task state: unknown'' @ [CHR 0x0A])"

section \<open>When tasks end\<close>

definition with_events :: "task_event list \<Rightarrow> 'w \<Rightarrow> 'w st_param \<Rightarrow> 'w st_param" where
  "with_events es w st = st\<lparr>pp_events := pp_events st @ es, pp_world := w\<rparr>"

lemma with_events_sel [simp]:
  "pp_task (with_events es w st) = pp_task st" "pp_world (with_events es w st) = w"
  "pp_events (with_events es w st) = pp_events st @ es"
  "user_data (with_events es w st) = user_data st" "input_data (with_events es w st) = input_data st"
  by (simp_all add: with_events_def)

lemma join_inputs:
  "list_all (\<lambda>i. i < length (input_queues (pp_task st))) is \<Longrightarrow>
   \<exists>w. rfold (join_input env s) is st =
     Inr (with_events (map (\<lambda>i. Join_set (input_queues (pp_task st) ! i)) is) w st)"
proof (induction "is" arbitrary: st)
  case Nil
  have "st = with_events [] (pp_world st) st" by (simp add: with_events_def)
  then show ?case by auto
next
  case (Cons i "is")
  let ?q = "input_queues (pp_task st) ! i"
  let ?st = "with_events [Join_set ?q] (set_add env ?q s (pp_world st)) st"
  from Cons.IH [of ?st] Cons.prems
  obtain w where "rfold (join_input env s) is ?st =
    Inr (with_events (map (\<lambda>i. Join_set (input_queues (pp_task st) ! i)) is) w ?st)"
    by auto
  moreover have "join_input env s st i = Inr ?st"
    using Cons.prems by (simp add: join_input_def with_events_def note_event_def Let_def)
  moreover have "with_events es w ?st = with_events (Join_set ?q # es) w st" for es w
    by (simp add: with_events_def)
  ultimately show ?case by (metis list.simps(9) rbind_Inr rfold.simps(2))
qed

lemma make_queue_set_joins:
  assumes "input_count (pp_task st) = length (input_queues (pp_task st))"
  shows "\<exists>w. make_queue_set env st =
    (let s = fst (set_create env setpollQUEUE_LENGTH (pp_world st))
     in Inr (s, with_events (New_set s # map Join_set (input_queues (pp_task st))) w st))"
proof -
  obtain s w where s: "set_create env setpollQUEUE_LENGTH (pp_world st) = (s, w)" by fastforce
  let ?st = "with_events [New_set s] w st"
  have "list_all (\<lambda>i. i < length (input_queues (pp_task ?st))) [0..<input_count (pp_task ?st)]"
    using assms by (simp add: list_all_iff)
  from join_inputs [OF this, of env s]
  obtain w' where "rfold (join_input env s) [0..<input_count (pp_task ?st)] ?st =
    Inr (with_events (map (\<lambda>i. Join_set (input_queues (pp_task st) ! i)) [0..<input_count (pp_task st)]) w' ?st)"
    by auto
  moreover have "map (\<lambda>i. Join_set (input_queues (pp_task st) ! i)) [0..<input_count (pp_task st)] =
    map Join_set (input_queues (pp_task st))"
    using assms by (intro nth_equalityI) auto
  moreover have "with_events es w' ?st = with_events (New_set s # es) w' st" for es
    by (simp add: with_events_def)
  moreover have "note_event (New_set s) (st\<lparr>pp_world := w\<rparr>) = ?st"
    by (cases st) (simp add: note_event_def with_events_def)
  ultimately show ?thesis
    using s by (intro exI [of _ w']) (simp add: make_queue_set_def Let_def)
qed

lemma loop_never [simp]: "loop_while False step r = Some r"
  by (simp add: loop_while_def while_option_unfold)

definition cleaned :: "'w st_param \<Rightarrow> bool" where
  "cleaned st \<longleftrightarrow> ti_state (pp_task st) = STOPPED \<and> user_data st = None \<and> input_data st = None \<and>
     pp_events st \<noteq> [] \<and> last (pp_events st) = Free_param"

lemma clean_up_cleaned: "cleaned (clean_up st)"
  by (simp add: cleaned_def clean_up_def note_event_def set_task_state_def Let_def)

text \<open>
  C23. Every task ends at once. The condition of its loop is the wrong way round: tasks of type 1, 2 and 4
  free what they were given without having read an input or called a function of the
  application, and a task of type 3 works exactly once. In all cases the task is left
  \<^verbatim>\<open>STOPPED\<close> with its memory freed.
\<close>

theorem base_tasks_end:
  assumes "input_count (pp_task st) = length (input_queues (pp_task st))"
  shows "(\<exists>w st1. st1 = with_events (New_set (fst (set_create env setpollQUEUE_LENGTH (pp_world st))) #
        map Join_set (input_queues (pp_task st))) w st \<and>
      run_base_task_type1 env st = Some (Inr (clean_up st1)) \<and>
      run_base_task_type4 env n st = Some (Inr (clean_up st1)) \<and> cleaned (clean_up st1)) \<and>
    run_base_task_type2 env st = Some (Inr (clean_up st)) \<and> cleaned (clean_up st) \<and>
    (case type3_round env (SET_TASK_WAITING st) of
       Inl e \<Rightarrow> run_base_task_type3 env st = Some (Inl e)
     | Inr st1 \<Rightarrow> run_base_task_type3 env st = Some (Inr (clean_up st1)) \<and> cleaned (clean_up st1))"
proof -
  let ?s = "fst (set_create env setpollQUEUE_LENGTH (pp_world st))"
  obtain w where "make_queue_set env st =
      Inr (?s, with_events (New_set ?s # map Join_set (input_queues (pp_task st))) w st)"
    using make_queue_set_joins [OF assms, of env] by (auto simp: Let_def)
  then show ?thesis
    by (auto simp: run_base_task_type1_def run_base_task_type4_def run_base_task_type2_def
        run_base_task_type3_def clean_up_cleaned split: sum.split)
qed

definition counting_task :: task_info where
  "counting_task = (the (fst (set_inout_item_size 4 4
     (find_task 7 (tasks (fst (snd (add_new_task base_task_type1 None (Some 1) (Some 2) ''read'' 2 0 (- 1)
       (make_ms ''led'' ''ms1'') \<lparr>k_handle = \<lambda>i. i + 1, k_count = 0, k_addr = 7, k_tick = 0, k_trace = []\<rparr>)))))
     \<lparr>k_handle = \<lambda>i. i + 1, k_count = 0, k_addr = 8, k_tick = 0, k_trace = []\<rparr>)))"

definition example_param :: "'w \<Rightarrow> 'w st_param" where
  "example_param w = \<lparr>pp_task = counting_task, input_data = Some [0, 0, 0, 0], queue_num = 0, sleep_ms = 10,
     total_sleep_ms = 0, total_sleep_count = 3, user_data = None, pp_events = [], pp_world = w\<rparr>"

definition example_env :: "nat task_env" where
  "example_env = \<lparr>handler = \<lambda>_ st. (False, st), queue_recv = \<lambda>_ _ w. (None, w), queue_send = \<lambda>_ _ _ w. w,
     set_create = \<lambda>_ w. (9, w), set_add = \<lambda>_ _ w. Suc w, set_select = \<lambda>_ _ w. (0, w),
     tick_count = \<lambda>w. (of_nat w, Suc w), task_at = \<lambda>_ _. None, tick_period = 1\<rparr>"

lemma counting_task_values:
  "input_queues counting_task = [1, 2]" "input_count counting_task = 2" "before_fn counting_task = Some 1"
  "after_fn counting_task = Some 2" "output_count counting_task = 0" "ti_state counting_task = NOT_READY"
  by (simp_all add: counting_task_def add_new_task_def new_addr_def make_ms_def find_task_def
      set_inout_item_size_def create_queue_def k_call_def Let_def eval_nat_numeral)

lemma base_tasks_end_witness:
  "\<exists>st. run_base_task_type1 example_env (example_param 0) = Some (Inr st) \<and>
     pp_events st = [New_set 9, Join_set 1, Join_set 2, Free_input_data, Free_param]"
proof -
  have "fst (set_create example_env setpollQUEUE_LENGTH (pp_world (example_param 0))) = 9"
    by (simp add: example_env_def)
  with base_tasks_end [of "example_param 0" example_env 0]
  obtain w where "run_base_task_type1 example_env (example_param 0) =
      Some (Inr (clean_up (with_events [New_set 9, Join_set 1, Join_set 2] w (example_param 0))))"
    by (auto simp: example_param_def counting_task_values)
  then show ?thesis
    by (simp add: clean_up_def note_event_def set_task_state_def with_events_def example_param_def)
qed

text \<open>
  Functions of the application may return data or not, write the output of their task and do anything to the world, but
  leave the limits, the state and the connections of their task alone. The connect lines lead to tasks
  that have the port.
\<close>

definition task_view :: "'w st_param \<Rightarrow> 32 word \<times> 32 word \<times> state_type \<times> nat \<times> connect_line option list" where
  "task_view st = (total_sleep_count st, total_sleep_ms st, ti_state (pp_task st), output_count (pp_task st), output_ports (pp_task st))"

definition keeps_task :: "'w task_env \<Rightarrow> bool" where
  "keeps_task env \<longleftrightarrow> (\<forall>i st. task_view (snd (handler env i st)) = task_view st)"

definition connected :: "'w task_env \<Rightarrow> nat \<Rightarrow> connect_line option list \<Rightarrow> bool" where
  "connected env n ports \<longleftrightarrow> n \<le> length ports \<and> (\<forall>i < n. \<forall>l w. ports ! i = Some l \<longrightarrow>
     (\<exists>d. task_at env (dest_task l) w = Some d \<and> input_port_no l < length (input_queues d)))"

lemma task_view_simps [simp]:
  "task_view (note_event e st) = task_view st" "task_view (st\<lparr>pp_world := w\<rparr>) = task_view st"
  "task_view (pause ms st) = task_view st"
  by (simp_all add: task_view_def note_event_def pause_def)

lemma call_handler_view: "keeps_task env \<Longrightarrow> task_view (snd (call_handler env f st)) = task_view st"
  by (simp add: call_handler_def keeps_task_def split: option.split)

lemma send_output_view:
  assumes "connected env n (output_ports (pp_task st))" "i < n"
  shows "\<exists>st'. send_output env st i = Inr st' \<and> task_view st' = task_view st"
proof (cases "output_ports (pp_task st) ! i")
  case None
  with assms show ?thesis by (simp add: send_output_def connected_def)
next
  case (Some l)
  with assms obtain d where "task_at env (dest_task l) (pp_world st) = Some d" "input_port_no l < length (input_queues d)"
    unfolding connected_def by blast
  with assms Some show ?thesis by (simp add: send_output_def connected_def Let_def)
qed

lemma send_outputs_view:
  assumes "connected env n (output_ports (pp_task st))" "\<forall>i \<in> set is. i < n"
  shows "\<exists>st'. rfold (send_output env) is st = Inr st' \<and> task_view st' = task_view st"
  using assms
proof (induction "is" arbitrary: st)
  case (Cons i "is")
  then obtain st1 where st1: "send_output env st i = Inr st1" "task_view st1 = task_view st"
    using send_output_view [of env n st i] by auto
  then have "output_ports (pp_task st1) = output_ports (pp_task st)" by (simp add: task_view_def)
  with Cons.IH [of st1] Cons.prems st1 show ?case by auto
qed simp

lemma process_item_view:
  assumes "keeps_task env" "connected env (output_count (pp_task st)) (output_ports (pp_task st))"
  shows "\<exists>st'. process_item env st = Inr st' \<and> task_view st' = task_view st"
proof -
  obtain some st1 where h: "call_handler env (before_fn (pp_task st)) st = (some, st1)" by fastforce
  with call_handler_view [OF assms(1), of "before_fn (pp_task st)" st] have v: "task_view st1 = task_view st" by simp
  then have "connected env (output_count (pp_task st1)) (output_ports (pp_task st1))"
    using assms(2) by (simp add: task_view_def)
  then obtain st2 where s: "(if some then rfold (send_output env) [0..<output_count (pp_task st1)] st1 else Inr st1) = Inr st2"
      "task_view st2 = task_view st1"
    using send_outputs_view [of env "output_count (pp_task st1)" st1 "[0..<output_count (pp_task st1)]"] by (cases some) auto
  then show ?thesis using h v call_handler_view [OF assms(1)] by (simp add: process_item_def)
qed

lemma repeat_ends:
  assumes "keeps_task env" "connected env (output_count (pp_task st)) (output_ports (pp_task st))"
    and "total_sleep_count st = c" "c \<noteq> 0" "c \<noteq> - 1" "count \<le> c" "unat c - unat count < n"
  shows "\<exists>st'. repeat_process env n first_wake count st = Inr st'"
  using assms(2-)
proof (induction n arbitrary: count st)
  case (Suc n)
  obtain curr w where t: "tick_count env (pp_world st) = (curr, w)" by fastforce
  let ?st = "st\<lparr>pp_world := w\<rparr>"
  obtain st1 where p: "process_item env ?st = Inr st1" "task_view st1 = task_view st"
    using process_item_view [OF assms(1), of ?st] Suc.prems(1) by auto
  let ?next = "pause (sleep_ms st1) st1"
  have next_st: "connected env (output_count (pp_task ?next)) (output_ports (pp_task ?next))" "total_sleep_count ?next = c"
    using p(2) Suc.prems(1,2) by (simp_all add: task_view_def pause_def note_event_def)
  have "count \<noteq> - 1" using Suc.prems(4,5) word_n1_ge [of c] by (auto dest: order.antisym)
  then have "1 + count \<noteq> 0" by (metis add.commute add_eq_0_iff)
  then have no_wrap: "unat (count + 1) = Suc (unat count)" using unatSuc [of count] by (simp add: add.commute)
  show ?case
  proof (cases "count + 1 \<le> c")
    case True
    then have "unat c - unat (count + 1) < n" using no_wrap Suc.prems(6) by (simp add: word_le_nat_alt)
    from Suc.IH [OF next_st Suc.prems(3,4) True this]
    obtain st' where "repeat_process env n first_wake (count + 1) ?next = Inr st'" by auto
    with p t show ?thesis by (simp add: Let_def)
  next
    case False
    with Suc.prems t show ?thesis by (simp add: Let_def not_le)
  qed
qed simp

lemma repeat_goes_on:
  assumes "keeps_task env" "connected env (output_count (pp_task st)) (output_ports (pp_task st))"
    and "total_sleep_count st \<in> {0, - 1}" "total_sleep_ms st = 0" "ti_state (pp_task st) \<noteq> STOPPED"
  shows "repeat_process env n first_wake count st = Inl Out_of_fuel"
  using assms(2-)
proof (induction n arbitrary: count st)
  case (Suc n)
  obtain curr w where t: "tick_count env (pp_world st) = (curr, w)" by fastforce
  let ?st = "st\<lparr>pp_world := w\<rparr>"
  obtain st1 where p: "process_item env ?st = Inr st1" "task_view st1 = task_view st"
    using process_item_view [OF assms(1), of ?st] Suc.prems(1) by auto
  have "repeat_process env n first_wake (count + 1) (pause (sleep_ms st1) st1) = Inl Out_of_fuel"
    using p Suc.prems by (intro Suc.IH) (simp_all add: task_view_def pause_def note_event_def)
  moreover have "\<not> (- 1 :: 32 word) < count + 1" by (simp add: not_less)
  ultimately show ?case using p t Suc.prems by (auto simp: Let_def)
qed simp

text \<open>
  C35. The series of a task of type 4 whose functions keep to their task and whose connect lines are in order ends
  within as many rounds as its limit says, whatever the clock does and whatever its
  functions return. Without a limit, with the largest one, which the counter of the rounds never
  passes because it wraps around, it goes on until the task is stopped.
\<close>

theorem series_ends:
  assumes "keeps_task env" "connected env (output_count (pp_task st)) (output_ports (pp_task st))"
  shows "(total_sleep_count st \<noteq> 0 \<and> total_sleep_count st \<noteq> - 1 \<longrightarrow>
      (\<exists>st'. type4_series env (Suc (unat (total_sleep_count st))) st = Inr st')) \<and>
    (total_sleep_count st \<in> {0, - 1} \<and> total_sleep_ms st = 0 \<and> ti_state (pp_task st) \<noteq> STOPPED \<longrightarrow>
      type4_series env n st = Inl Out_of_fuel)"
proof -
  obtain first_wake w where t: "tick_count env (pp_world st) = (first_wake, w)" by fastforce
  let ?st = "st\<lparr>pp_world := w\<rparr>"
  have c: "connected env (output_count (pp_task ?st)) (output_ports (pp_task ?st))" using assms(2) by simp
  have "total_sleep_count st \<noteq> 0 \<and> total_sleep_count st \<noteq> - 1 \<Longrightarrow>
      \<exists>st'. repeat_process env (Suc (unat (total_sleep_count st))) first_wake 0 ?st = Inr st'"
    by (rule repeat_ends [OF assms(1) c]) auto
  moreover have "total_sleep_count st \<in> {0, - 1} \<and> total_sleep_ms st = 0 \<and> ti_state (pp_task st) \<noteq> STOPPED \<Longrightarrow>
      repeat_process env n first_wake 0 ?st = Inl Out_of_fuel"
    by (rule repeat_goes_on [OF assms(1) c]) auto
  ultimately show ?thesis using t by (auto simp: type4_series_def simp del: repeat_process.simps)
qed

text \<open>A task whose function always returns data, which goes to the second input of another task.\<close>

definition sending_env :: "nat task_env" where
  "sending_env = example_env\<lparr>handler := \<lambda>_ st. (True, st), task_at := \<lambda>_ _. Some counting_task\<rparr>"

definition sending_param :: "nat st_param" where
  "sending_param = (example_param 0)\<lparr>pp_task := counting_task\<lparr>output_count := 1,
     output_ports := [Some \<lparr>start_task = 7, output_port_no = 0, dest_task = 8, input_port_no = 1\<rparr>]\<rparr>\<rparr>"

lemma series_ends_witness:
  "\<exists>st. type4_series sending_env 4 sending_param = Inr st \<and>
     length (filter (\<lambda>e. e = Send_output 2) (pp_events st)) = 3"
proof -
  have "keeps_task sending_env" by (simp add: keeps_task_def sending_env_def)
  moreover have "connected sending_env (output_count (pp_task sending_param)) (output_ports (pp_task sending_param))"
    by (simp add: connected_def sending_env_def sending_param_def counting_task_values)
  moreover have "total_sleep_count sending_param = 3" by (simp add: sending_param_def example_param_def)
  ultimately obtain st where st: "type4_series sending_env 4 sending_param = Inr st"
    using series_ends [of sending_env sending_param 0] by auto
  have "(4::nat) = Suc (Suc (Suc (Suc 0)))" by simp
  from st [unfolded this] have "length (filter (\<lambda>e. e = Send_output 2) (pp_events st)) = 3"
    by (auto simp: type4_series_def process_item_def call_handler_def send_output_def sending_env_def
        sending_param_def example_env_def example_param_def counting_task_values note_event_def pause_def Let_def)
  with st show ?thesis by blast
qed

end
