(* ===== verification/ServiceTyping.thy ===== *)
theory ServiceTyping
  imports ServiceLife
begin

text \<open>
  The types the C structures of a task do not enforce: the arrays of its queues and ports have the
  lengths its counters say, its message port is one of its inputs, and a connect line is stored in
  the port of the task it starts from. Every operation on a service keeps them.
\<close>

section \<open>Well typed tasks\<close>

definition port_holds :: "nat \<Rightarrow> nat \<Rightarrow> connect_line option \<Rightarrow> bool" where
  "port_holds a j p = (case p of None \<Rightarrow> True | Some l \<Rightarrow> start_task l = a \<and> output_port_no l = j)"

definition well_typed :: "task_info \<Rightarrow> bool" where
  "well_typed t \<longleftrightarrow> length (input_queues t) = input_count t \<and> length (output_ports t) = output_count t \<and>
     lwmsg_input_port t < int (input_count t) \<and>
     (\<forall>j < length (output_ports t). port_holds (ti_addr t) j (output_ports t ! j))"

definition tasks_typed :: "micro_service \<Rightarrow> bool" where
  "tasks_typed ms \<longleftrightarrow> (\<forall>t \<in> set (tasks ms). well_typed t)"

lemma tasks_typed_sel [simp]:
  "tasks_typed (ms\<lparr>ms_state := s\<rparr>) = tasks_typed ms" "tasks_typed (ms\<lparr>current_task_link := c\<rparr>) = tasks_typed ms"
  "tasks_typed (set_output_param t sz nm ms) = tasks_typed ms" "tasks_typed (make_ms nm i)"
  "tasks_typed (make_task_links ms) = tasks_typed ms"
  by (simp_all add: tasks_typed_def set_output_param_def make_ms_def)

lemma well_typed_cong [simp]:
  "well_typed (t\<lparr>ti_state := s\<rparr>) = well_typed t" "well_typed (t\<lparr>task_t := h\<rparr>) = well_typed t"
  "well_typed (t\<lparr>initial_state := s\<rparr>) = well_typed t" "well_typed (t\<lparr>offloading := b\<rparr>) = well_typed t"
  by (simp_all add: well_typed_def)

lemma tasks_typed_update:
  "tasks_typed ms \<Longrightarrow> (\<And>t. well_typed t \<Longrightarrow> ti_addr t = a \<Longrightarrow> well_typed (f t)) \<Longrightarrow> tasks_typed (update_task a f ms)"
  by (auto simp: tasks_typed_def update_task_def)

lemma plug_port_typed:
  "well_typed t \<Longrightarrow> start_task l = ti_addr t \<Longrightarrow>
   well_typed (t\<lparr>output_ports := (output_ports t)[output_port_no l := Some l]\<rparr>)"
  by (cases "output_port_no l < length (output_ports t)") (auto simp: well_typed_def port_holds_def nth_list_update)

lemma plug_line_typed: "tasks_typed ms \<Longrightarrow> plug_line ms l = Inr ms' \<Longrightarrow> tasks_typed ms'"
  by (auto simp: plug_line_def split: if_splits intro!: tasks_typed_update plug_port_typed)

lemma set_output_connect_line_typed:
  assumes "tasks_typed ms" "set_output_connect_line ms = Inr ms'"
  shows "tasks_typed ms'"
proof -
  obtain r where r: "find_last_task_link (curr_task_state ms) (task_link_head ms) = Inr r"
    using assms(2) by (auto simp: set_output_connect_line_def)
  show ?thesis
  proof (cases "\<exists>p l. r = Some p \<and> link_at p (task_link_head ms) = Some l")
    case False
    with assms r show ?thesis by (auto simp: set_output_connect_line_def split: option.splits)
  next
    case True
    then obtain p l where pl: "r = Some p" "link_at p (task_link_head ms) = Some l" by blast
    let ?m = "set_output_param eP_UNKNOWN 0 (output_param_name l) (ms\<lparr>current_task_link := Some p\<rparr>)"
    have m: "(case connect_link_head l of None \<Rightarrow> Inr ?m | Some cs \<Rightarrow> rfold plug_line cs ?m) = Inr ms'"
      using assms(2) r pl by (simp add: set_output_connect_line_def Let_def)
    have "tasks_typed m'" if "rfold plug_line cs ?m = Inr m'" for cs m'
      by (rule rfold_invariant [OF that, of tasks_typed]) (simp add: assms(1), rule plug_line_typed)
    with m assms(1) show ?thesis by (cases "connect_link_head l") auto
  qed
qed

lemma replace_queues_length:
  "replace_queues lwm sz i qs k = (qs', k') \<Longrightarrow> length qs' = length qs"
  by (induction qs arbitrary: i k qs' k') (auto simp: Let_def split: prod.splits if_splits)

lemma task_off_typed: "well_typed t \<Longrightarrow> well_typed (fst (task_off t k))"
  by (auto simp: task_off_def well_typed_def port_holds_def Let_def split: prod.splits dest: recreate_queues_length)

lemma release_typed: "tasks_typed ms \<Longrightarrow> tasks_typed (fst (release_service ms k))"
  by (auto simp: tasks_typed_def release_service_def drain_def Let_def dest: in_set_dropD)

lemma stop_task_typed: "tasks_typed ms \<Longrightarrow> tasks_typed (fst (snd (stop_task ms k)))"
  by (simp add: tasks_typed_def stop_task_def Let_def)

lemma stop_if_running_typed: "tasks_typed ms \<Longrightarrow> tasks_typed (fst (stop_if_running ms k))"
  by (simp add: stop_if_running_def stop_task_typed)

lemma del_typed: "tasks_typed ms \<Longrightarrow> tasks_typed (fst (snd (del_micro_service ms k)))"
  using release_typed [of "fst (stop_if_running ms k)" "k_call Lock_mutex (snd (stop_if_running ms k))"]
    stop_if_running_typed [of ms k]
  by (simp add: del_micro_service_def Let_def split_beta)

section \<open>Typed applications\<close>

locale typed_application =
  fixes create :: create_fn and init :: init_handler
  assumes create_typed: "tasks_typed ms \<Longrightarrow> tasks_typed (fst (create ms k))"
    and init_typed: "well_typed t \<Longrightarrow> well_typed (fst (snd (init i t k)))"
begin

lemma run_task_typed: "well_typed t \<Longrightarrow> well_typed (fst (snd (run_task init force t k)))"
  using init_typed [of "t\<lparr>task_t := 0, ti_state := STOPPED\<rparr>" _ "delete_if Delete_task (task_t t) k"]
  by (auto simp: run_task_def Let_def split_beta split: option.split)

lemma run_tasks_typed:
  "\<forall>t \<in> set ts. well_typed t \<Longrightarrow> \<forall>t \<in> set (fst (snd (run_tasks init ts k))). well_typed t"
  by (induction ts arbitrary: k) (auto simp: Let_def split_beta run_task_typed)

lemma run_typed:
  assumes "tasks_typed ms" "run_micro_service init ms k = Inr (ok, ms', k')"
  shows "tasks_typed ms'"
proof -
  obtain b ts k1 where r: "run_tasks init (tasks ms) (k_call Lock_mutex k) = (b, ts, k1)"
    by (cases "run_tasks init (tasks ms) (k_call Lock_mutex k)") auto
  let ?m = "ms\<lparr>ms_state := RUNNING, tasks := ts\<rparr>"
  have t: "tasks_typed ?m"
    using run_tasks_typed [of "tasks ms" "k_call Lock_mutex k"] assms(1) r by (simp add: tasks_typed_def)
  show ?thesis
  proof (cases "ms_state ms")
    case CREATED
    with assms r t stop_task_typed [OF t, of "k_call Unlock_mutex k1"] show ?thesis
      by (auto simp: run_micro_service_def Let_def split_beta split: if_splits
          intro: set_output_connect_line_typed [OF t])
  next
    case STOPPED
    with assms show ?thesis by (auto simp: run_micro_service_def tasks_typed_def)
  qed (use assms in \<open>simp_all add: run_micro_service_def\<close>)
qed

lemma stop_typed: "tasks_typed ms \<Longrightarrow> tasks_typed (fst (snd (stop_micro_service create ms k)))"
  by (simp add: stop_micro_service_def Let_def split_beta create_typed release_typed stop_if_running_typed)

lemma onoff_typed:
  assumes "tasks_typed ms" "task_onoff a on ms k = Inr (ok, ms', k')"
  shows "tasks_typed ms'"
proof (cases a)
  case (Some x)
  obtain t where t: "find_task x (tasks ms) = Some t" using assms Some by (auto simp: task_onoff_def)
  then have "well_typed t" using assms(1) find_task_addr [OF t] by (auto simp: tasks_typed_def)
  then have "tasks_typed (update_task x (\<lambda>_. fst (task_off t k)) ms)"
    by (intro tasks_typed_update [OF assms(1)] task_off_typed)
  moreover have "tasks_typed (update_task x (\<lambda>t. t\<lparr>initial_state := I_S_ACTIVE\<rparr>) ms)"
    by (rule tasks_typed_update [OF assms(1)]) simp
  ultimately show ?thesis
    using assms t Some by (auto simp: task_onoff_def Let_def split_beta split: if_splits
        intro: set_output_connect_line_typed)
qed (use assms in \<open>simp add: task_onoff_def\<close>)

lemma step_typed:
  assumes "service_step create init (ms, k) (ms', k')" "tasks_typed ms"
  shows "tasks_typed ms'"
  using assms(1)
proof cases
  case (Create ok)
  then show ?thesis using assms(2) create_typed [OF assms(2), of "k_call Lock_mutex k"]
    by (auto simp: create_micro_service_def Let_def split_beta split: if_splits)
next
  case (Run ok)
  then show ?thesis by (rule run_typed [OF assms(2)])
next
  case (Stop ok)
  then show ?thesis using stop_typed [OF assms(2), of k] by simp
next
  case (Halt ok)
  then show ?thesis using stop_task_typed [OF assms(2), of k] by simp
next
  case (Del ok)
  then show ?thesis using del_typed [OF assms(2), of k] by simp
next
  case (Onoff a t on ok)
  then show ?thesis by (auto intro: onoff_typed [OF assms(2)])
next
  case (Task s a)
  then show ?thesis by (simp add: tasks_typed_update [OF assms(2)])
next
  case (Describe ms1 k1 ok)
  then show ?thesis using create_typed [OF assms(2), of k] del_typed [of ms1 k1] by simp
qed

lemma reachable_typed:
  assumes "(service_step create init)^** s s'" "tasks_typed (fst s)"
  shows "tasks_typed (fst s')"
  using assms
proof (induction rule: rtranclp_induct)
  case (step y z)
  then show ?case using step_typed [of "fst y" "snd y" "fst z" "snd z"] by simp
qed simp

end

section \<open>Applications described by a table are typed\<close>

lemma add_new_task_typed:
  assumes "tasks_typed ms" "add_new_task fp i b a nm ins outs lwm ms k = (r, ms', k')"
  shows "tasks_typed ms'"
  using assms
  by (auto simp: add_new_task_def new_addr_def Let_def tasks_typed_def well_typed_def port_holds_def
      split: if_splits prod.splits)

lemma add_described_typed: "tasks_typed ms \<Longrightarrow> tasks_typed (fst (add_described d (ms, k)))"
  by (auto simp: add_described_def split: prod.split option.split intro!: tasks_typed_update
      dest: add_new_task_typed)

lemma fold_described_typed: "tasks_typed ms \<Longrightarrow> tasks_typed (fst (fold add_described ds (ms, k)))"
  by (induction ds arbitrary: ms k) (auto dest: add_described_typed simp: split_beta,
      metis add_described_typed prod.collapse)

interpretation described_typed: typed_application "described_create ds" "sizes_init sizes" for ds sizes
proof
  show "tasks_typed (fst (described_create ds ms k))" if "tasks_typed ms" for ms k
    using fold_described_typed [OF that, of ds k] by (simp add: described_create_def split_beta)
  show "well_typed (fst (snd (sizes_init sizes i t k)))" if "well_typed t" for i t k
    using that by (auto simp: sizes_init_def set_inout_item_size_def well_typed_def Let_def
        split: prod.split dest: replace_queues_length)
qed

section \<open>Properties\<close>

text \<open>
  C26. Whatever is done to a service, its tasks stay well typed: queues and ports are arrays of the
  counted lengths, no message port lies outside, a port holds only lines that start
  there, and reading the queue of any port returns a queue, or NULL for a port that does not exist.
\<close>

theorem services_well_typed:
  assumes "typed_application create init" "(service_step create init)^** (make_ms nm i, k) (ms, k')"
    and "t \<in> set (tasks ms)" "j < 2 ^ 32 - 1"
  shows "well_typed t \<and>
    get_input_queue_from_taskinfo t j = Inr (if j < input_count t then input_queues t ! j else 0)"
proof -
  have "tasks_typed ms"
    using typed_application.reachable_typed [OF assms(1,2)] by simp
  with assms(3,4) show ?thesis
    by (auto simp: tasks_typed_def well_typed_def get_input_queue_from_taskinfo_def)
qed

lemma services_well_typed_witness:
  "\<exists>ms k t. service_step (described_create example_descs) (sizes_init example_sizes)
      (make_ms ''led'' ''ms1'', example_kernel) (ms, k) \<and> t \<in> set (tasks ms) \<and> well_typed t"
proof -
  let ?C = "described_create example_descs" and ?I = "sizes_init example_sizes"
  obtain ok ms k where c: "create_micro_service ?C (make_ms ''led'' ''ms1'') example_kernel = (ok, ms, k)"
    by (cases "create_micro_service ?C (make_ms ''led'' ''ms1'') example_kernel") auto
  then have s: "service_step ?C ?I (make_ms ''led'' ''ms1'', example_kernel) (ms, k)" by (rule Create)
  have "tasks ms \<noteq> []"
    using c by (auto simp: create_micro_service_def described_create_def example_descs_def add_described_def
        add_new_task_def new_addr_def make_ms_def create_queue_def update_task_def Let_def split: if_splits)
  then have t: "hd (tasks ms) \<in> set (tasks ms)" by simp
  from services_well_typed [OF described_typed.typed_application_axioms [of example_descs example_sizes]
      r_into_rtranclp [where r = "service_step ?C ?I", OF s] t, of 0] s t
  show ?thesis by auto
qed

end
