(* ===== verification/ServiceHost.thy ===== *)
theory ServiceHost
  imports DistProps ServiceTyping
begin

text \<open>
  All services of a device on one kernel, under the request task. Each round of the request task
  (\<^verbatim>\<open>SIFW/task_lwmsg_dist.c\<close>) is a sequence of steps of single services, so what holds of the life
  of one service holds of the device: no sequence of requests makes it lose a kernel object.
\<close>

section \<open>Item sizes\<close>

text \<open>Switching a task off deletes its queues and needs their item size to create them again.\<close>

definition tasks_sized :: "micro_service \<Rightarrow> bool" where
  "tasks_sized ms \<longleftrightarrow> (\<forall>t \<in> set (tasks ms). sized t)"

lemma sized_simps [simp]:
  "sized (t\<lparr>task_t := h\<rparr>) = sized t"
  "sized (t\<lparr>ti_state := s\<rparr>) = sized t"
  "sized (t\<lparr>initial_state := s\<rparr>) = sized t"
  "sized (t\<lparr>output_ports := ps\<rparr>) = sized t"
  by (simp_all add: sized_def)

lemma tasks_sized_simps [simp]:
  "tasks_sized (ms\<lparr>ms_state := s\<rparr>) = tasks_sized ms"
  "tasks_sized (ms\<lparr>latest_dri := d\<rparr>) = tasks_sized ms"
  by (simp_all add: tasks_sized_def)

lemma tasks_sized_update:
  "tasks_sized ms \<Longrightarrow> (\<And>t. sized t \<Longrightarrow> sized (f t)) \<Longrightarrow> tasks_sized (update_task a f ms)"
  by (auto simp: tasks_sized_def update_task_def)

lemma recreate_queues_unsized:
  assumes "\<forall>j < length qs. int (i + j) = lwm \<or> qs ! j = 0"
  shows "\<forall>j < length qs. int (i + j) = lwm \<or> fst (recreate_queues lwm 0 i qs k) ! j = 0"
  using assms
proof (induction qs arbitrary: i k)
  case (Cons q qs)
  have "\<forall>j < length qs. int (Suc i + j) = lwm \<or> qs ! j = 0"
    using Cons.prems by (auto dest: spec [of _ "Suc _"])
  then have IH: "int (i + Suc j) = lwm \<or> fst (recreate_queues lwm 0 (Suc i) qs k) ! j = 0" if "j < length qs" for j k
    using Cons.IH [of "Suc i" k] that by simp
  have "q = 0" if "int i \<noteq> lwm" using Cons.prems that by (auto dest: spec [of _ 0])
  show ?case
  proof (intro allI impI)
    fix j
    assume "j < length (q # qs)"
    then show "int (i + j) = lwm \<or> fst (recreate_queues lwm 0 i (q # qs) k) ! j = 0"
      using \<open>int i \<noteq> lwm \<Longrightarrow> q = 0\<close> IH by (cases j) (auto simp: Let_def split_beta)
  qed
qed simp

lemma task_off_sized:
  assumes "sized t"
  shows "sized (fst (task_off t k))"
proof (cases "0 < input_item_size t")
  case False
  obtain qs k2 where q: "recreate_queues (lwmsg_input_port t) 0 0 (input_queues t) (delete_if Delete_task (task_t t) k) = (qs, k2)"
    by fastforce
  have "\<forall>j < length (input_queues t). int (0 + j) = lwmsg_input_port t \<or> input_queues t ! j = 0"
    using assms False by (simp add: sized_def)
  from recreate_queues_unsized [OF this, of "delete_if Delete_task (task_t t) k"] recreate_queues_length [OF q] False q
  show ?thesis by (simp add: task_off_def sized_def)
qed (simp add: task_off_def sized_def Let_def split_beta)

lemma set_output_connect_line_sized:
  assumes "set_output_connect_line ms = Inr ms'" "tasks_sized ms"
  shows "tasks_sized ms'"
proof -
  have "map sized (tasks ms') = map sized (tasks ms)"
    using set_output_connect_line_map [OF assms(1), of sized] by simp
  moreover have "tasks_sized m \<longleftrightarrow> list_all id (map sized (tasks m))" for m
    by (simp add: tasks_sized_def list.pred_map list_all_iff)
  ultimately show ?thesis using assms(2) by simp
qed

lemma stop_task_sized: "tasks_sized ms \<Longrightarrow> tasks_sized (fst (snd (stop_task ms k)))"
  by (simp add: tasks_sized_def stop_task_def Let_def)

lemma stop_if_running_sized: "tasks_sized ms \<Longrightarrow> tasks_sized (fst (stop_if_running ms k))"
  by (simp add: stop_if_running_def stop_task_sized)

lemma release_sized: "tasks_sized ms \<Longrightarrow> tasks_sized (fst (release_service ms k))"
  by (auto simp: tasks_sized_def release_service_def drain_def Let_def dest: in_set_dropD)

lemma del_sized: "tasks_sized ms \<Longrightarrow> tasks_sized (fst (snd (del_micro_service ms k)))"
  using release_sized [OF stop_if_running_sized] by (simp add: del_micro_service_def Let_def split_beta)

section \<open>What an application must respect under the request task\<close>

locale hosted_application = application +
  assumes create_sized: "tasks_sized ms \<Longrightarrow> tasks_sized (fst (create ms k))"
    and init_sized: "sized t \<Longrightarrow> sized (fst (snd (init i t k)))"
begin

lemma run_task_sized: "sized t \<Longrightarrow> sized (fst (snd (run_task init force t k)))"
  using init_sized [of "t\<lparr>task_t := 0, ti_state := STOPPED\<rparr>" _ "delete_if Delete_task (task_t t) k"]
  by (auto simp: run_task_def Let_def split_beta split: option.split)

lemma run_tasks_sized:
  "\<forall>t \<in> set ts. sized t \<Longrightarrow> \<forall>t \<in> set (fst (snd (run_tasks init ts k))). sized t"
  by (induction ts arbitrary: k) (auto simp: Let_def split_beta run_task_sized)

lemma run_sized:
  assumes "tasks_sized ms" "run_micro_service init ms k = Inr (ok, ms', k')"
  shows "tasks_sized ms'"
proof -
  obtain b ts k1 where r: "run_tasks init (tasks ms) (k_call Lock_mutex k) = (b, ts, k1)"
    by (cases "run_tasks init (tasks ms) (k_call Lock_mutex k)") auto
  let ?m = "ms\<lparr>ms_state := RUNNING, tasks := ts\<rparr>"
  have t: "tasks_sized ?m"
    using run_tasks_sized [of "tasks ms" "k_call Lock_mutex k"] assms(1) r by (simp add: tasks_sized_def)
  show ?thesis
  proof (cases "ms_state ms")
    case CREATED
    with assms r t stop_task_sized [OF t, of "k_call Unlock_mutex k1"] show ?thesis
      by (auto simp: run_micro_service_def Let_def split_beta split: if_splits
          intro: set_output_connect_line_sized [OF _ t])
  next
    case STOPPED
    with assms show ?thesis by (auto simp: run_micro_service_def tasks_sized_def)
  qed (use assms in \<open>simp_all add: run_micro_service_def\<close>)
qed

lemma onoff_sized:
  assumes "tasks_sized ms" "task_onoff a on ms k = Inr (ok, ms', k')"
  shows "tasks_sized ms'"
proof (cases a)
  case (Some x)
  obtain t where t: "find_task x (tasks ms) = Some t" using assms Some by (auto simp: task_onoff_def)
  then have "sized t" using assms(1) find_task_addr [OF t] by (auto simp: tasks_sized_def)
  then have "tasks_sized (update_task x (\<lambda>_. fst (task_off t k)) ms)"
    by (intro tasks_sized_update [OF assms(1)] task_off_sized)
  moreover have "tasks_sized (update_task x (\<lambda>t. t\<lparr>initial_state := I_S_ACTIVE\<rparr>) ms)"
    by (rule tasks_sized_update [OF assms(1)]) simp
  ultimately show ?thesis
    using assms t Some by (auto simp: task_onoff_def Let_def split_beta split: if_splits
        intro: set_output_connect_line_sized)
qed (use assms in \<open>simp add: task_onoff_def\<close>)

lemma step_sized:
  assumes "service_step create init (ms, k) (ms', k')" "tasks_sized ms"
  shows "tasks_sized ms'"
  using assms(1)
proof cases
  case (Create ok)
  then show ?thesis using assms(2) create_sized [OF assms(2), of "k_call Lock_mutex k"]
    by (auto simp: create_micro_service_def Let_def split_beta split: if_splits)
next
  case (Run ok)
  then show ?thesis by (rule run_sized [OF assms(2)])
next
  case (Stop ok)
  then show ?thesis
    using create_sized [OF release_sized [OF stop_if_running_sized [OF assms(2), of k]]]
    by (auto simp: stop_micro_service_def Let_def split_beta)
next
  case (Halt ok)
  then show ?thesis using stop_task_sized [OF assms(2), of k] by simp
next
  case (Del ok)
  then show ?thesis using del_sized [OF assms(2), of k] by simp
next
  case (Onoff a t on ok)
  then show ?thesis by (auto intro: onoff_sized [OF assms(2)])
next
  case (Task s a)
  then show ?thesis by (auto intro: tasks_sized_update [OF assms(2)])
next
  case (Describe ms1 k1 ok)
  then show ?thesis using create_sized [OF assms(2), of k] del_sized [of ms1 k1] by simp
qed

end

section \<open>The services of a device\<close>

text \<open>A step of the device: one of its services makes a step, or takes down the request it serves.\<close>

inductive registry_step ::
  "create_fn \<Rightarrow> init_handler \<Rightarrow> micro_service list \<times> kernel \<Rightarrow> micro_service list \<times> kernel \<Rightarrow> bool"
  for create init where
  Serve: "service_step create init (ms, k) (ms', k') \<Longrightarrow> registry_step create init (us @ ms # vs, k) (us @ ms' # vs, k')"
| Note: "registry_step create init (us @ ms # vs, k) (us @ ms\<lparr>latest_dri := d\<rparr> # vs, k)"

definition host :: "dist_state \<Rightarrow> micro_service list \<times> kernel" where
  "host st = (services (d_registry st), d_kernel st)"

definition owned_by :: "micro_service list \<Rightarrow> handle multiset" where
  "owned_by mss = (\<Sum>ms \<leftarrow> mss. owned_all (tasks ms))"

text \<open>
  The kernel holds \<open>B\<close>, what the tasks of the services own, and nothing else, the lock is free, and every
  service is as an application of at most \<open>n\<close> tasks leaves it.
\<close>

definition hosted :: "handle multiset \<Rightarrow> nat \<Rightarrow> micro_service list \<times> kernel \<Rightarrow> bool" where
  "hosted B n = (\<lambda>(mss, k). live k = B + owned_by mss \<and> held k = Some False \<and> (\<forall>ms \<in> set mss. addrs_ok ms k \<and>
     length (tasks ms) \<le> n \<and> (ms_state ms = NOT_READY \<longrightarrow> tasks ms = []) \<and> tasks_sized ms))"

lemma owned_by_simps [simp]:
  "owned_by [] = {#}" "owned_by (ms # mss) = owned_all (tasks ms) + owned_by mss"
  "owned_by (us @ vs) = owned_by us + owned_by vs"
  by (simp_all add: owned_by_def)

lemma addrs_ok_later: "addrs_ok ms k \<Longrightarrow> k_addr k \<le> k_addr k' \<Longrightarrow> addrs_ok ms k'"
  by (fastforce simp: addrs_ok_def)

text \<open>The view of one service on the device.\<close>

lemma hosted_service:
  "hosted B n (us @ ms # vs, k) \<Longrightarrow> service_inv (B + owned_by us + owned_by vs) (k_addr k) n ms k \<and> tasks_sized ms"
  by (auto simp: hosted_def service_inv_def ac_simps)

lemma hosted_replace:
  assumes "hosted B n (us @ ms # vs, k)" "service_inv (B + owned_by us + owned_by vs) (k_addr k) n ms' k'" "tasks_sized ms'"
  shows "hosted B n (us @ ms' # vs, k')"
  using assms by (auto simp: hosted_def service_inv_def ac_simps intro: addrs_ok_later)

context hosted_application
begin

lemma registry_step_hosted:
  assumes few: "2 * n < 256" and "registry_step create init s s'" "hosted B n s"
  shows "hosted B n s'"
  using assms(2,3)
proof cases
  case (Serve ms k ms' k' us vs)
  then have h: "hosted B n (us @ ms # vs, k)" using assms(3) by simp
  from hosted_service [OF this] show ?thesis
    unfolding Serve(2) by (intro hosted_replace [OF h] step_inv [OF few Serve(3)] step_sized [OF Serve(3)]) simp_all
next
  case (Note us ms vs k d)
  with assms(3) show ?thesis
    by (auto simp: hosted_def addrs_ok_def)
qed

lemma reachable_hosted:
  assumes few: "2 * n < 256" and "(registry_step create init)^** s s'" "hosted B n s"
  shows "hosted B n s'"
  using assms(2,3) by induction (blast intro: registry_step_hosted [OF few])+

end

section \<open>The operations a request names\<close>

text \<open>
  What the interface of the device promises, apart from the code of the request task: every request names operations and the
  services they are for. A task is named by its number, which may not be readable.
\<close>

datatype service_op =
    Op_create
  | Op_run
  | Op_stop
  | Op_delete
  | Op_switch bool "nat res list"
  | Op_describe
  | Op_note cstring_ptr

datatype device_op = On_service cstring_ptr service_op | On_all service_op

text \<open>Tasks are switched one by one, up to the first that is not there or cannot be switched.\<close>

fun switch_tasks :: "bool \<Rightarrow> nat res list \<Rightarrow> micro_service \<times> kernel \<Rightarrow> (micro_service \<times> kernel) res" where
  "switch_tasks on [] s = Inr s"
| "switch_tasks on (i # is) (ms, k) = rbind i (\<lambda>i. case get_task_info_by_idx (Some ms) i of
     None \<Rightarrow> Inr (ms, k)
   | Some t \<Rightarrow> rbind (task_onoff (Some (ti_addr t)) on ms k) (\<lambda>(ok, ms, k).
       if ok then switch_tasks on is (ms, k) else Inr (ms, k)))"

text \<open>
  To be described a service that does not run is created and deleted. A service that runs and is idle notes the
  request whose output it computes.
\<close>

fun apply_op :: "create_fn \<Rightarrow> init_handler \<Rightarrow> service_op \<Rightarrow> micro_service \<times> kernel \<Rightarrow> (micro_service \<times> kernel) res" where
  "apply_op create init Op_create (ms, k) = Inr (snd (create_micro_service create ms k))"
| "apply_op create init Op_run (ms, k) = rbind (run_micro_service init ms k) (\<lambda>(_, s). Inr s)"
| "apply_op create init Op_stop (ms, k) = Inr (snd (stop_micro_service create ms k))"
| "apply_op create init Op_delete (ms, k) = Inr (snd (del_micro_service ms k))"
| "apply_op create init (Op_switch on is) s = switch_tasks on is s"
| "apply_op create init Op_describe (ms, k) =
     Inr (if ms_state ms = RUNNING then (ms, k) else let (ms, k) = create ms k in snd (del_micro_service ms k))"
| "apply_op create init (Op_note dri) (ms, k) =
     Inr (if ms_state ms = RUNNING \<and> \<not> is_tasks_running (Some ms)
       then (case dri of None \<Rightarrow> (ms, k) | Some d \<Rightarrow> (ms\<lparr>latest_dri := d\<rparr>, k)) else (ms, k))"

text \<open>The first service with the identifier, if any, and all services in order.\<close>

fun on_first :: "cstring \<Rightarrow> (micro_service \<times> kernel \<Rightarrow> (micro_service \<times> kernel) res) \<Rightarrow>
    micro_service list \<times> kernel \<Rightarrow> (micro_service list \<times> kernel) res" where
  "on_first i f ([], k) = Inr ([], k)"
| "on_first i f (ms # mss, k) =
     (if ms_id ms = i then rbind (f (ms, k)) (\<lambda>(ms, k). Inr (ms # mss, k))
      else rbind (on_first i f (mss, k)) (\<lambda>(mss, k). Inr (ms # mss, k)))"

fun on_each :: "(micro_service \<times> kernel \<Rightarrow> (micro_service \<times> kernel) res) \<Rightarrow>
    micro_service list \<times> kernel \<Rightarrow> (micro_service list \<times> kernel) res" where
  "on_each f ([], k) = Inr ([], k)"
| "on_each f (ms # mss, k) =
     rbind (f (ms, k)) (\<lambda>(ms, k). rbind (on_each f (mss, k)) (\<lambda>(mss, k). Inr (ms # mss, k)))"

fun apply_device_op :: "create_fn \<Rightarrow> init_handler \<Rightarrow> micro_service list \<times> kernel \<Rightarrow> device_op \<Rightarrow> (micro_service list \<times> kernel) res" where
  "apply_device_op create init s (On_service i op) = (case i of
     None \<Rightarrow> Inr s | Some i \<Rightarrow> if i = [] then Inr s else on_first i (apply_op create init op) s)"
| "apply_device_op create init s (On_all op) = on_each (apply_op create init op) s"

definition run_ops :: "create_fn \<Rightarrow> init_handler \<Rightarrow> device_op list \<Rightarrow> micro_service list \<times> kernel \<Rightarrow> (micro_service list \<times> kernel) res" where
  "run_ops create init ops s = rfold (apply_device_op create init) ops s"

definition named_ids :: "lwm_message \<Rightarrow> cstring_ptr list" where
  "named_ids m = (case body_array ''mis'' m of None \<Rightarrow> [] | Some xs \<Rightarrow> map (\<lambda>x. get_lwm_string_value (Some x)) xs)"

text \<open>The interface identifiers of \<^verbatim>\<open>iw_fw_lwMsgUtils.h\<close>; tasks are switched in one service only.\<close>

definition named_ops :: "int \<Rightarrow> cstring_ptr \<Rightarrow> lwm_message \<Rightarrow> device_op list" where
  "named_ops ifid dri m =
     (let on = (\<lambda>op. map (\<lambda>i. On_service i op) (named_ids m)) in
      if ifid = eLWM_IF_DEV_TASK_INFO_REQUEST then [On_all Op_describe]
      else if ifid = eLWM_IF_MS_CREATION then on Op_create
      else if ifid = eLWM_IF_MS_RUN then on Op_run
      else if ifid = eLWM_IF_MS_STOP then on Op_stop
      else if ifid = eLWM_IF_MS_DELETE then on Op_delete
      else if ifid = eLWM_IF_MS_OUTPUT_PARAM_READ then on (Op_note dri)
      else if (ifid = eLWM_IF_TASK_ON \<or> ifid = eLWM_IF_TASK_OFF) \<and> node_num (named_ids m) = 1
      then (case body_array ''tis'' m of None \<Rightarrow> [] | Some ts \<Rightarrow> on (Op_switch (ifid = eLWM_IF_TASK_ON) (map object_index ts)))
      else [])"

definition request_ops :: "lwm_message option \<Rightarrow> device_op list" where
  "request_ops msg = (case msg of
      None \<Rightarrow> []
    | Some m \<Rightarrow> (case (dict_lookup (header m) ''if'', dict_lookup (header m) ''dri'') of
        (Some cif, Some cdri) \<Rightarrow> (case get_lwm_string_value (Some cif) of
          Some s \<Rightarrow> if node_num (header m) = 0 then [] else named_ops (atoi s) (get_lwm_string_value (Some cdri)) m
        | None \<Rightarrow> [])
      | _ \<Rightarrow> []))"

section \<open>The request task serves by steps of the services\<close>

definition serves :: "create_fn \<Rightarrow> init_handler \<Rightarrow> dist_state \<Rightarrow> dist_state \<Rightarrow> bool" where
  "serves create init st st' \<longleftrightarrow> (registry_step create init)^** (host st) (host st')"

lemma host_emit [simp]: "host (emit e st) = host st"
  by (simp add: host_def emit_def)

lemma find_split:
  "find (\<lambda>m. ms_id m = i) mss = Some ms \<Longrightarrow> \<exists>us vs. mss = us @ ms # vs \<and> ms_id ms = i \<and> (\<forall>m \<in> set us. ms_id m \<noteq> i)"
  by (induction mss) (auto split: if_splits intro: exI [of _ "[]"] exI [of _ "_ # _"], metis append_Cons set_ConsD)

lemma put_service_split:
  "ms_id ms = i \<Longrightarrow> \<forall>m \<in> set us. ms_id m \<noteq> i \<Longrightarrow> put_service i m' (us @ ms # vs) = us @ m' # vs"
  by (induction us) auto

lemma found_split:
  assumes "find_service x st = Some ms"
  obtains us vs where "host st = (us @ ms # vs, d_kernel st)"
    and "\<And>ms' k'. host (set_service ms ms' k' st) = (us @ ms' # vs, k')"
proof -
  from find_split [OF find_service_id [OF assms]] obtain us vs where
    "services (d_registry st) = us @ ms # vs" "\<forall>m \<in> set us. ms_id m \<noteq> ms_id ms" by blast
  then show thesis by (intro that [of us vs]) (simp_all add: host_def set_service_def put_service_split)
qed

lemma service_steps_lift:
  assumes "(service_step create init)^** s s'"
  shows "(registry_step create init)^** (us @ fst s # vs, snd s) (us @ fst s' # vs, snd s')"
  using assms
proof (induction rule: rtranclp_induct)
  case (step y z)
  have "registry_step create init (us @ fst y # vs, snd y) (us @ fst z # vs, snd z)"
    using step.hyps(2) by (intro Serve) simp
  with step.IH show ?case by (rule rtranclp.rtrancl_into_rtrancl)
qed simp

subsection \<open>Operations and descriptions\<close>

lemma on_first_split:
  "ms_id ms = i \<Longrightarrow> \<forall>m \<in> set us. ms_id m \<noteq> i \<Longrightarrow> f (ms, k) = Inr (ms', k') \<Longrightarrow>
    on_first i f (us @ ms # vs, k) = Inr (us @ ms' # vs, k')"
  by (induction us) auto

lemma on_first_none: "find (\<lambda>m. ms_id m = i) mss = None \<Longrightarrow> on_first i f (mss, k) = Inr (mss, k)"
  by (induction mss) (auto split: if_splits)

abbreviation at_service :: "lwm_object \<Rightarrow> service_op \<Rightarrow> device_op" where
  "at_service x op \<equiv> On_service (get_lwm_string_value (Some x)) op"

lemma apply_not_found: "find_service x st = None \<Longrightarrow> apply_device_op create init (host st) (at_service x op) = Inr (host st)"
  by (auto simp: find_service_def get_micro_service_info_by_id_def host_def on_first_none split: option.splits)

lemma apply_found:
  assumes "find_service x st = Some ms" "apply_op create init op (ms, d_kernel st) = Inr (ms', k')"
  shows "apply_device_op create init (host st) (at_service x op) = Inr (host (set_service ms ms' k' st))"
proof -
  obtain i where i: "get_lwm_string_value (Some x) = Some i" "i \<noteq> []" "find (\<lambda>m. ms_id m = i) (services (d_registry st)) = Some ms"
    using assms(1) by (auto simp: find_service_def get_micro_service_info_by_id_def split: option.splits if_splits)
  from find_split [OF i(3)] obtain us vs where u: "services (d_registry st) = us @ ms # vs" "ms_id ms = i" "\<forall>m \<in> set us. ms_id m \<noteq> i"
    by blast
  from on_first_split [where f = "apply_op create init op", OF u(2,3) assms(2), of vs] u i(1,2) show ?thesis
    by (simp add: host_def set_service_def put_service_split)
qed

lemma ms_operation_op:
  assumes "ms_operation create init ifid ms k = Inr (ok, s)"
  shows "ifid = eLWM_IF_MS_CREATION \<Longrightarrow> apply_op create init Op_create (ms, k) = Inr s"
    and "ifid = eLWM_IF_MS_RUN \<Longrightarrow> apply_op create init Op_run (ms, k) = Inr s"
    and "ifid = eLWM_IF_MS_STOP \<Longrightarrow> apply_op create init Op_stop (ms, k) = Inr s"
    and "ifid = eLWM_IF_MS_DELETE \<Longrightarrow> apply_op create init Op_delete (ms, k) = Inr s"
  using assms by (auto simp: ms_operation_def)

lemma operation_ops:
  assumes "lwmsg_operation create init ifid m st = Inr r"
    and "\<And>ms k ok s. ms_operation create init ifid ms k = Inr (ok, s) \<Longrightarrow> apply_op create init op (ms, k) = Inr s"
  shows "run_ops create init (map (\<lambda>i. On_service i op) (named_ids m)) (host st) = Inr (host (snd r))"
proof (cases "body_array ''mis'' m")
  case None
  with assms(1) show ?thesis by (auto simp: lwmsg_operation_def named_ids_def run_ops_def)
next
  case (Some xs)
  with assms(1) have "rfold (operation_step create init ifid) xs (eLWM_RSC_BAD_REQ, st) = Inr r"
    by (simp add: lwmsg_operation_def)
  then have "rfold (apply_device_op create init) (map (\<lambda>x. at_service x op) xs) (host (snd (400 :: nat, st))) = Inr (host (snd r))"
  proof (rule rfold_follows [where a = "\<lambda>r. host (snd r)"])
    fix s x s'
    assume o: "operation_step create init ifid s x = Inr s'"
    show "apply_device_op create init (host (snd s)) (at_service x op) = Inr (host (snd s'))"
    proof (cases "find_service x (snd s)")
      case None
      with o apply_not_found [OF None] show ?thesis by (auto simp: operation_step_def split_beta)
    next
      case (Some ms)
      with o obtain ok ms' k where "ms_operation create init ifid ms (d_kernel (snd s)) = Inr (ok, ms', k)"
          "snd s' = set_service ms ms' k (snd s)"
        by (auto simp: operation_step_def split_beta)
      with apply_found [OF Some assms(2)] show ?thesis by simp
    qed
  qed
  with Some show ?thesis by (simp add: named_ids_def run_ops_def comp_def)
qed

lemma describe_ops:
  "describe_services create f mss k = Inr (xs, mss', k') \<Longrightarrow> on_each (apply_op create init Op_describe) (mss, k) = Inr (mss', k')"
proof (induction mss arbitrary: k xs mss' k')
  case (Cons ms mss)
  then obtain x ms1 k1 ys mss1 where d: "described_service create f ms k = Inr (x, ms1, k1)"
      "describe_services create f mss k1 = Inr (ys, mss1, k')" "mss' = ms1 # mss1"
    by (auto split: prod.splits)
  have "apply_op create init Op_describe (ms, k) = Inr (ms1, k1)"
    using d(1) by (auto simp: described_service_def split_beta Let_def split: if_splits)
  with d Cons.IH show ?case by simp
qed simp

lemma describe_serves:
  "describe_services create f mss k = Inr (xs, mss', k') \<Longrightarrow>
    (registry_step create init)^** (us @ mss, k) (us @ mss', k')"
proof (induction mss arbitrary: us k xs mss' k')
  case (Cons ms mss)
  then obtain x ms1 k1 ys mss1 where d: "described_service create f ms k = Inr (x, ms1, k1)"
      "describe_services create f mss k1 = Inr (ys, mss1, k')" "mss' = ms1 # mss1"
    by (auto split: prod.splits)
  have "(registry_step create init)^** (us @ ms # mss, k) (us @ ms1 # mss, k1)"
  proof (cases "ms_state ms = RUNNING")
    case True
    with d(1) show ?thesis by (auto simp: described_service_def)
  next
    case False
    obtain ms2 k2 where c: "create ms k = (ms2, k2)" by (cases "create ms k")
    obtain ok ms3 k3 where "del_micro_service ms2 k2 = (ok, ms3, k3)" by (cases "del_micro_service ms2 k2") auto
    with d(1) False c have "service_step create init (ms, k) (ms1, k1)"
      using Describe [where create = create and init = init, OF False c] by (auto simp: described_service_def)
    then show ?thesis by (intro r_into_rtranclp Serve)
  qed
  also have "(registry_step create init)^** (us @ ms1 # mss, k1) (us @ ms1 # mss1, k')"
    using Cons.IH [OF d(2), of "us @ [ms1]"] by simp
  finally show ?case using d(3) by simp
qed simp

subsection \<open>Reading\<close>

lemma param_read_task_host:
  "host (snd r) = h \<Longrightarrow> param_read_task ifid dri m ms r x = Inr r' \<Longrightarrow> host (snd r') = h"
  by (auto simp: param_read_task_def Let_def split_beta split: if_splits option.splits)

lemma param_read_service_host:
  assumes "host (snd r) = h" "param_read_service ifid dri m r x = Inr (b, r')"
  shows "host (snd r') = h"
proof (cases "\<exists>ms ts. find_service x (snd r) = Some ms \<and> ms_state ms = RUNNING \<and> body_array ''tis'' m = Some ts \<and>
    node_num ts = 1 \<and> \<not> (dict_lookup (body m) ''fps'' \<noteq> None \<and> dict_lookup (body m) ''sps'' \<noteq> None)")
  case False
  with assms show ?thesis
    by (auto simp: param_read_service_def split_beta split: option.splits if_splits)
next
  case True
  then obtain ms ts where "rfold (param_read_task ifid dri m ms) ts r = Inr r'"
    using assms(2) by (auto simp: param_read_service_def split_beta split: if_splits)
  then show ?thesis
    by (rule rfold_invariant [where P = "\<lambda>r. host (snd r) = h"]) (rule assms(1), rule param_read_task_host)
qed

lemma param_read_host:
  assumes "lwmsg_param_read ifid dri m st = Inr r"
  shows "host (snd r) = host st"
proof (cases "\<exists>xs. body_array ''mis'' m = Some xs \<and> node_num xs = 1")
  case False
  with assms show ?thesis by (auto simp: lwmsg_param_read_def split: option.splits if_splits)
next
  case True
  then obtain xs b where "rfold_until (param_read_service ifid dri m) xs (400, st) = Inr (b, r)"
    using assms by (auto simp: lwmsg_param_read_def)
  then show ?thesis
  proof (rule rfold_until_invariant [where P = "\<lambda>r. host (snd r) = host st"])
    show "host (snd s') = host st" if "host (snd s) = host st" "param_read_service ifid dri m s x = Inr (b, s')" for s x b s'
      by (rule param_read_service_host [OF that])
  qed simp
qed

lemma answer_output_host: "answer_output dri ms st = Inr r \<Longrightarrow> host (snd r) = host st"
  by (auto simp: answer_output_def Let_def split: option.splits)

lemma forward_registry:
  assumes "rfold (forward_to_task ifid dri) ts s = Inr s'"
  shows "d_registry s' = d_registry s \<and> d_kernel s' = d_kernel s"
  using assms
  by (rule rfold_invariant [where P = "\<lambda>s'. d_registry s' = d_registry s \<and> d_kernel s' = d_kernel s"])
    (auto simp: forward_to_task_def emit_def split: if_splits)

lemma set_service_stored:
  assumes "find_service x st = Some ms"
  shows "host (set_service ms ms (d_kernel st) st) = host st"
proof -
  obtain us vs where "host st = (us @ ms # vs, d_kernel st)" "\<And>ms' k'. host (set_service ms ms' k' st) = (us @ ms' # vs, k')"
    using found_split [OF assms] by blast
  then show ?thesis by simp
qed

lemma output_read_step_op:
  assumes "output_read_step ifid dri r x = Inr r'"
  shows "apply_device_op create init (host (snd r)) (at_service x (Op_note dri)) = Inr (host (snd r'))"
proof (cases "find_service x (snd r)")
  case None
  with assms apply_not_found [OF None] show ?thesis by (auto simp: output_read_step_def split_beta)
next
  case (Some ms)
  note found = apply_found [OF Some, of create init "Op_note dri"]
  show ?thesis
  proof (cases "ms_state ms = RUNNING \<and> \<not> is_tasks_running (Some ms)")
    case False
    then have "host (snd r') = host (snd r)"
      using assms Some by (auto simp: output_read_step_def split_beta split: if_splits dest: answer_output_host)
    moreover have "apply_op create init (Op_note dri) (ms, d_kernel (snd r)) = Inr (ms, d_kernel (snd r))"
      using False by auto
    ultimately show ?thesis using found set_service_stored [OF Some] by simp
  next
    case True
    obtain d where d: "dri = Some d" using assms True Some by (auto simp: output_read_step_def split_beta)
    obtain st1 where f: "rfold (forward_to_task ifid dri) (tasks ms) (snd r) = Inr st1"
        "answer_output dri (ms\<lparr>latest_dri := d\<rparr>) (set_service ms (ms\<lparr>latest_dri := d\<rparr>) (d_kernel st1) st1) = Inr r'"
      using assms True Some d by (auto simp: output_read_step_def split_beta Let_def store_cstring_def split: if_splits)
    from forward_registry [OF f(1)] have "host (set_service ms (ms\<lparr>latest_dri := d\<rparr>) (d_kernel st1) st1) =
        host (set_service ms (ms\<lparr>latest_dri := d\<rparr>) (d_kernel (snd r)) (snd r))"
      by (simp add: host_def set_service_def)
    with answer_output_host [OF f(2)] True d found show ?thesis by simp
  qed
qed

lemma output_read_ops:
  assumes "lwmsg_output_param_read ifid dri m st = Inr r"
  shows "run_ops create init (map (\<lambda>i. On_service i (Op_note dri)) (named_ids m)) (host st) = Inr (host (snd r))"
proof (cases "body_array ''mis'' m")
  case None
  with assms show ?thesis by (auto simp: lwmsg_output_param_read_def named_ids_def run_ops_def)
next
  case (Some xs)
  with assms have "rfold (output_read_step ifid dri) xs (400, st) = Inr r"
    by (simp add: lwmsg_output_param_read_def)
  then have "rfold (apply_device_op create init) (map (\<lambda>x. at_service x (Op_note dri)) xs) (host (snd (400 :: nat, st))) = Inr (host (snd r))"
    by (rule rfold_follows [where a = "\<lambda>r. host (snd r)"]) (rule output_read_step_op)
  with Some show ?thesis by (simp add: named_ids_def run_ops_def comp_def)
qed

subsection \<open>Switching tasks\<close>

lemma offload_tasks_switch:
  "rfold_until (offload_task ifid) ts (rsc, ms, k) = Inr (b, rsc', s) \<Longrightarrow>
    switch_tasks (ifid \<noteq> eLWM_IF_TASK_OFF) (map object_index ts) (ms, k) = Inr s"
proof (induction ts arbitrary: rsc ms k)
  case (Cons t ts)
  then obtain i where i: "object_index t = Inr i" by (auto simp: offload_task_def)
  show ?case
  proof (cases "get_task_info_by_idx (Some ms) i")
    case None
    with Cons.prems i show ?thesis by (auto simp: offload_task_def)
  next
    case (Some ti)
    with Cons.prems i obtain ok ms1 k1 where o: "task_onoff (Some (ti_addr ti)) (ifid \<noteq> eLWM_IF_TASK_OFF) ms k = Inr (ok, ms1, k1)"
      by (auto simp: offload_task_def)
    show ?thesis
    proof (cases ok)
      case True
      with Cons.prems Some i o Cons.IH [of "eLWM_RSC_SUCCESS" ms1 k1] show ?thesis by (simp add: offload_task_def)
    next
      case False
      with Cons.prems Some i o show ?thesis by (simp add: offload_task_def)
    qed
  qed
qed simp

lemma offload_ops:
  assumes "lwmsg_offloarding ifid m st = Inr r"
  shows "run_ops create init (if node_num (named_ids m) = 1 then (case body_array ''tis'' m of None \<Rightarrow> []
      | Some ts \<Rightarrow> map (\<lambda>i. On_service i (Op_switch (ifid \<noteq> eLWM_IF_TASK_OFF) (map object_index ts))) (named_ids m)) else [])
    (host st) = Inr (host (snd r))"
proof (cases "\<exists>xs. body_array ''mis'' m = Some xs \<and> node_num xs = 1")
  case False
  then have "node_num (named_ids m) \<noteq> 1" by (auto simp: named_ids_def node_num_def split: option.splits)
  moreover have "snd r = st" using assms False by (auto simp: lwmsg_offloarding_def split: option.splits if_splits)
  ultimately show ?thesis by (simp add: run_ops_def)
next
  case True
  then obtain xs where xs: "body_array ''mis'' m = Some xs" "node_num xs = 1" by blast
  then have one: "node_num (named_ids m) = 1" by (simp add: named_ids_def node_num_def)
  have r: "rfold (offload_step ifid m) xs (eLWM_RSC_BAD_REQ, st) = Inr r" using assms xs by (simp add: lwmsg_offloarding_def)
  show ?thesis
  proof (cases "body_array ''tis'' m")
    case None
    have "snd r = st"
      by (rule rfold_invariant [OF r, of "\<lambda>r. snd r = st"]) (auto simp: offload_step_def None split: option.splits)
    with None one show ?thesis by (simp add: run_ops_def)
  next
    case (Some ts)
    let ?op = "Op_switch (ifid \<noteq> eLWM_IF_TASK_OFF) (map object_index ts)"
    have "rfold (apply_device_op create init) (map (\<lambda>x. at_service x ?op) xs) (host (snd (400 :: nat, st))) = Inr (host (snd r))"
    proof (rule rfold_follows [OF r, where a = "\<lambda>r. host (snd r)"])
      fix s x s'
      assume o: "offload_step ifid m s x = Inr s'"
      show "apply_device_op create init (host (snd s)) (at_service x ?op) = Inr (host (snd s'))"
      proof (cases "find_service x (snd s)")
        case None
        with o apply_not_found [OF None] show ?thesis by (auto simp: offload_step_def split_beta)
      next
        case (Some ms)
        then obtain b rsc' ms' k where "rfold_until (offload_task ifid) ts (fst s, ms, d_kernel (snd s)) = Inr (b, rsc', ms', k)"
            "s' = (rsc', set_service ms ms' k (snd s))"
          using o \<open>body_array ''tis'' m = Some ts\<close> by (auto simp: offload_step_def split_beta)
        with apply_found [OF Some, of create init ?op] offload_tasks_switch show ?thesis by simp
      qed
    qed
    with Some xs one show ?thesis by (simp add: named_ids_def run_ops_def comp_def)
  qed
qed

subsection \<open>Requests\<close>

lemma run_no_ops [simp]: "run_ops create init [] s = Inr s"
  by (simp add: run_ops_def)

lemma dispatch_ops:
  assumes "dispatch create init addr ifid dri m st = Inr r" "\<forall>ms \<in> set (services (d_registry st)). distinct_tasks ms"
  shows "run_ops create init (named_ops ifid dri m) (host st) = Inr (host (snd r))"
proof -
  consider "ifid = 3" | "ifid \<in> {10, 11, 15, 16}" | "ifid = 21" | "ifid = 22 \<or> ifid = 23" | "ifid = 13"
    | "ifid = 20 \<or> ifid = 24" | "ifid \<notin> {3, 10, 11, 15, 16, 21, 22, 23, 13, 20, 24}" by blast
  then show ?thesis
  proof cases
    case 1
    with assms(1) obtain q reg k where i: "make_device_information_lwmsg2 create dri 200 (d_registry st) (d_kernel st) = Inr (q, reg, k)"
        "host (snd r) = (services reg, k)"
      by (auto simp: dispatch_def host_def emit_def)
    then obtain xs where "describe_services create (\<lambda>ms. rfold add_task_description (tasks ms) []) (services (d_registry st)) (d_kernel st)
        = Inr (xs, services reg, k)"
      by (auto simp: make_device_information_lwmsg2_def)
    from describe_ops [OF this, of init] 1 i(2) show ?thesis by (simp add: named_ops_def run_ops_def host_def)
  next
    case 2
    with assms(1) have o: "lwmsg_operation create init ifid m st = Inr r" by (auto simp: dispatch_def)
    note step = ms_operation_op [where create = create and init = init and ifid = ifid]
    from 2 show ?thesis
      using operation_ops [OF o step(1)] operation_ops [OF o step(2)] operation_ops [OF o step(3)] operation_ops [OF o step(4)]
      by (auto simp: named_ops_def Let_def)
  next
    case 3
    with assms(1) have "lwmsg_param_set addr m st = Inr r" by (simp add: dispatch_def)
    with param_set_nothing assms(2) 3 show ?thesis by (simp add: named_ops_def)
  next
    case 4
    then have "lwmsg_param_read ifid dri m st = Inr r" using assms(1) by (auto simp: dispatch_def)
    from param_read_host [OF this] 4 show ?thesis by (auto simp: named_ops_def)
  next
    case 5
    with assms(1) have "lwmsg_output_param_read ifid dri m st = Inr r" by (simp add: dispatch_def)
    from output_read_ops [OF this] 5 show ?thesis by (simp add: named_ops_def Let_def)
  next
    case 6
    then have o: "lwmsg_offloarding ifid m st = Inr r" using assms(1) by (auto simp: dispatch_def)
    from 6 have "named_ops ifid dri m = (if node_num (named_ids m) = 1 then (case body_array ''tis'' m of None \<Rightarrow> []
        | Some ts \<Rightarrow> map (\<lambda>i. On_service i (Op_switch (ifid \<noteq> eLWM_IF_TASK_OFF) (map object_index ts))) (named_ids m)) else [])"
      by (auto simp: named_ops_def Let_def split: option.split)
    with offload_ops [OF o, of create init] show ?thesis by (simp only:)
  next
    case 7
    with assms(1) show ?thesis by (auto simp: dispatch_def named_ops_def)
  qed
qed

lemma dist_step_ops:
  assumes "lwmsg_dist_step create init addr msg st = Inr st'" "\<forall>ms \<in> set (services (d_registry st)). distinct_tasks ms"
  shows "run_ops create init (request_ops msg) (host st) = Inr (host st')"
proof (cases "\<exists>m cif cdri s. msg = Some m \<and> node_num (header m) \<noteq> 0 \<and> dict_lookup (header m) ''if'' = Some cif \<and>
    dict_lookup (header m) ''dri'' = Some cdri \<and> get_lwm_string_value (Some cif) = Some s")
  case True
  then obtain m cif cdri s where m: "msg = Some m" "node_num (header m) \<noteq> 0" "dict_lookup (header m) ''if'' = Some cif"
      "dict_lookup (header m) ''dri'' = Some cdri" "get_lwm_string_value (Some cif) = Some s" by blast
  with assms(1) obtain rsc st1 where d: "dispatch create init addr (atoi s) (get_lwm_string_value (Some cdri)) m st = Inr (rsc, st1)"
      "host st' = host st1"
    by (auto simp: lwmsg_dist_step_def Let_def split: if_splits option.splits)
  from dispatch_ops [OF d(1) assms(2)] m d(2) show ?thesis by (simp add: request_ops_def)
next
  case False
  then have "request_ops msg = []" by (auto simp: request_ops_def split: option.splits)
  moreover have "host st' = host st"
    using assms(1) False by (auto simp: lwmsg_dist_step_def split: if_splits option.splits)
  ultimately show ?thesis by simp
qed

subsection \<open>Operations are steps of the services\<close>

context hosted_application
begin

lemma switch_steps:
  "switch_tasks on is s = Inr s' \<Longrightarrow> tasks_sized (fst s) \<Longrightarrow> (service_step create init)^** s s' \<and> tasks_sized (fst s')"
proof (induction on "is" s rule: switch_tasks.induct)
  case (2 on i "is" ms k)
  then obtain j where j: "i = Inr j" by (cases i) auto
  show ?case
  proof (cases "get_task_info_by_idx (Some ms) j")
    case None
    with 2(2,3) j show ?thesis by simp
  next
    case (Some ti)
    with 2(2) j obtain ok ms1 k1 where o: "task_onoff (Some (ti_addr ti)) on ms k = Inr (ok, ms1, k1)"
        "(if ok then switch_tasks on is (ms1, k1) else Inr (ms1, k1)) = Inr s'"
      by auto
    then obtain t where t: "find_task (ti_addr ti) (tasks ms) = Some t" by (auto simp: task_onoff_def)
    then have "sized t" using find_task_addr [OF t] 2(3) by (simp add: tasks_sized_def)
    then have step: "service_step create init (ms, k) (ms1, k1)" using t o(1) by (intro Onoff)
    then have "tasks_sized ms1" using step_sized 2(3) by simp
    with step show ?thesis
      using 2(1) [OF j Some o(1)] o(2) by (cases ok) (auto intro: converse_rtranclp_into_rtranclp)
  qed
qed simp

lemma apply_op_steps:
  assumes "apply_op create init op (ms, k) = Inr (ms', k')" "tasks_sized ms"
  shows "(registry_step create init)^** (us @ ms # vs, k) (us @ ms' # vs, k')"
proof -
  have lift: ?thesis if "(service_step create init)^** (ms, k) (ms', k')"
    using service_steps_lift [OF that, of us vs] by simp
  show ?thesis
  proof (cases op)
    case Op_create
    with assms(1) show ?thesis
      by (intro lift r_into_rtranclp) (auto intro: Create simp: prod_eq_iff)
  next
    case Op_run
    with assms(1) show ?thesis by (intro lift r_into_rtranclp) (auto intro: Run)
  next
    case Op_stop
    with assms(1) show ?thesis by (intro lift r_into_rtranclp) (auto intro: Stop simp: prod_eq_iff)
  next
    case Op_delete
    with assms(1) show ?thesis by (intro lift r_into_rtranclp) (auto intro: Del simp: prod_eq_iff)
  next
    case (Op_switch on "is")
    with assms switch_steps show ?thesis by (intro lift) fastforce
  next
    case Op_describe
    show ?thesis
    proof (cases "ms_state ms = RUNNING")
      case False
      obtain ms1 k1 where c: "create ms k = (ms1, k1)" by fastforce
      then show ?thesis
        using assms(1) Op_describe False Describe [where create = create and init = init, OF False c]
        by (intro lift r_into_rtranclp) (cases "del_micro_service ms1 k1", auto)
    qed (use assms(1) Op_describe in auto)
  next
    case (Op_note dri)
    with assms(1) Note [of create init us ms vs] show ?thesis
      by (auto split: if_splits option.splits intro: r_into_rtranclp)
  qed
qed

lemma on_first_steps:
  assumes "\<And>ms k ms' k' us vs. f (ms, k) = Inr (ms', k') \<Longrightarrow> tasks_sized ms \<Longrightarrow>
      (registry_step create init)^** (us @ ms # vs, k) (us @ ms' # vs, k')"
  shows "on_first i f (mss, k) = Inr (mss', k') \<Longrightarrow> \<forall>ms \<in> set mss. tasks_sized ms \<Longrightarrow>
    (registry_step create init)^** (us @ mss, k) (us @ mss', k')"
proof (induction mss arbitrary: us mss')
  case (Cons ms mss)
  show ?case
  proof (cases "ms_id ms = i")
    case True
    with Cons.prems assms [of ms k _ k' us mss] show ?thesis by auto
  next
    case False
    with Cons.prems obtain mss1 where "on_first i f (mss, k) = Inr (mss1, k')" "mss' = ms # mss1" by auto
    with Cons.IH [of mss1 "us @ [ms]"] Cons.prems(2) show ?thesis by simp
  qed
qed simp

lemma on_each_steps:
  assumes "\<And>ms k ms' k' us vs. f (ms, k) = Inr (ms', k') \<Longrightarrow> tasks_sized ms \<Longrightarrow>
      (registry_step create init)^** (us @ ms # vs, k) (us @ ms' # vs, k')"
  shows "on_each f (mss, k) = Inr (mss', k') \<Longrightarrow> \<forall>ms \<in> set mss. tasks_sized ms \<Longrightarrow>
    (registry_step create init)^** (us @ mss, k) (us @ mss', k')"
proof (induction mss arbitrary: us k mss')
  case (Cons ms mss)
  then obtain ms1 k1 mss1 where f: "f (ms, k) = Inr (ms1, k1)" "on_each f (mss, k1) = Inr (mss1, k')" "mss' = ms1 # mss1" by auto
  have "(registry_step create init)^** (us @ ms # mss, k) (us @ ms1 # mss, k1)" using assms [OF f(1)] Cons.prems(2) by simp
  also have "(registry_step create init)^** (us @ ms1 # mss, k1) (us @ ms1 # mss1, k')"
    using Cons.IH [OF f(2), of "us @ [ms1]"] Cons.prems(2) by simp
  finally show ?case using f(3) by simp
qed simp

lemma device_op_steps:
  assumes "apply_device_op create init s op = Inr s'" "\<forall>ms \<in> set (fst s). tasks_sized ms"
  shows "(registry_step create init)^** s s'"
proof (cases op)
  case (On_service i o')
  with assms show ?thesis
    using on_first_steps [of "apply_op create init o'" "the i" "fst s" "snd s" "fst s'" "snd s'" "[]"] apply_op_steps
    by (cases i) (auto split: if_splits)
next
  case (On_all o')
  with assms show ?thesis
    using on_each_steps [of "apply_op create init o'" "fst s" "snd s" "fst s'" "snd s'" "[]"] apply_op_steps by simp
qed

lemma run_ops_steps:
  assumes few: "2 * n < 256" and "run_ops create init ops s = Inr s'" "hosted B n s"
  shows "(registry_step create init)^** s s' \<and> hosted B n s'"
  using assms(2) unfolding run_ops_def
proof (rule rfold_invariant [where P = "\<lambda>t. (registry_step create init)^** s t \<and> hosted B n t"])
  fix t op t'
  assume t: "(registry_step create init)^** s t \<and> hosted B n t" and o: "apply_device_op create init t op = Inr t'"
  have "\<forall>ms \<in> set (fst t). tasks_sized ms" using t by (simp add: hosted_def split_beta)
  from device_op_steps [OF o this] have "(registry_step create init)^** t t'" .
  with t show "(registry_step create init)^** s t' \<and> hosted B n t'"
    using reachable_hosted [OF few] rtranclp_trans by metis
qed (use assms(3) in simp)

lemma hosted_distinct: "hosted B n (host st) \<Longrightarrow> \<forall>ms \<in> set (services (d_registry st)). distinct_tasks ms"
  by (simp add: hosted_def host_def addrs_ok_def distinct_tasks_def)

lemma dist_step_serves:
  assumes "2 * n < 256" "hosted B n (host st)" "lwmsg_dist_step create init addr msg st = Inr st'"
  shows "serves create init st st' \<and> hosted B n (host st')"
  using run_ops_steps [OF assms(1) dist_step_ops [OF assms(3) hosted_distinct [OF assms(2)]] assms(2)]
  by (simp add: serves_def)

lemma dist_task_ops:
  assumes few: "2 * n < 256" and "hosted B n (host st)" "lwmsg_dist_task create init addr items st = Inr st'"
  shows "run_ops create init (concat (map request_ops items)) (host st) = Inr (host st')"
  using assms(2,3)
proof (induction items arbitrary: st)
  case (Cons x items)
  then obtain st1 where s: "lwmsg_dist_step create init addr x st = Inr st1" "lwmsg_dist_task create init addr items st1 = Inr st'"
    by (auto simp: lwmsg_dist_task_def)
  have "run_ops create init (concat (map request_ops items)) (host st1) = Inr (host st')"
    using Cons.IH [OF _ s(2)] dist_step_serves [OF few Cons.prems(1) s(1)] by blast
  with dist_step_ops [OF s(1) hosted_distinct [OF Cons.prems(1)]] show ?case by (simp add: run_ops_def rfold_append)
qed (simp add: lwmsg_dist_task_def)

lemma dist_task_serves:
  assumes "2 * n < 256" "hosted B n (host st)" "lwmsg_dist_task create init addr items st = Inr st'"
  shows "serves create init st st' \<and> hosted B n (host st')"
  using run_ops_steps [OF assms(1) dist_task_ops [OF assms] assms(2)] by (simp add: serves_def)

end

lemma registry_step_typed:
  assumes "typed_application create init" "registry_step create init s s'" "\<forall>ms \<in> set (fst s). tasks_typed ms"
  shows "\<forall>ms \<in> set (fst s'). tasks_typed ms"
  using assms(2)
proof cases
  case (Serve ms k ms' k' us vs)
  then show ?thesis using assms(3) typed_application.step_typed [OF assms(1) Serve(3)] by auto
next
  case (Note us ms vs k d)
  then show ?thesis using assms(3) by (auto simp: tasks_typed_def)
qed

lemma reachable_registry_typed:
  assumes "typed_application create init" "(registry_step create init)^** s s'" "\<forall>ms \<in> set (fst s). tasks_typed ms"
  shows "\<forall>ms \<in> set (fst s'). tasks_typed ms"
  using assms(2,3)
proof (induction rule: rtranclp_induct)
  case (step y z)
  from registry_step_typed [OF assms(1) step.hyps(2) step.IH [OF step.prems]] show ?case .
qed simp

section \<open>Applications described by a table\<close>

lemma sized_offloading [simp]: "sized (t\<lparr>offloading := b\<rparr>) = sized t"
  by (simp add: sized_def)

lemma add_new_task_sized:
  assumes "tasks_sized ms" "add_new_task fp i b a nm ins outs lwm ms k = (r, ms', k')"
  shows "tasks_sized ms'"
proof -
  have "tasks ms' = tasks ms \<or> (\<exists>t. tasks ms' = t # tasks ms \<and> sized t)"
    using assms(2) by (auto simp: add_new_task_def new_addr_def Let_def sized_def nth_list_update
        split: if_splits prod.splits)
  with assms(1) show ?thesis by (auto simp: tasks_sized_def)
qed

lemma add_described_sized: "tasks_sized ms \<Longrightarrow> tasks_sized (fst (add_described d (ms, k)))"
  by (auto simp: add_described_def split: prod.split option.split intro!: tasks_sized_update
      dest: add_new_task_sized)

lemma fold_described_sized: "tasks_sized ms \<Longrightarrow> tasks_sized (fst (fold add_described ds (ms, k)))"
proof (induction ds arbitrary: ms k)
  case (Cons d ds)
  obtain m k1 where d: "add_described d (ms, k) = (m, k1)" by (cases "add_described d (ms, k)")
  with add_described_sized [OF Cons.prems, of d k] Cons.IH [of m k1] show ?case by simp
qed simp

interpretation described_hosted:
  hosted_application "described_create ds" "sizes_init (\<lambda>i. (Suc (insz i), outsz i))" "length ds" for ds insz outsz
proof
  show "tasks_sized (fst (described_create ds ms k))" if "tasks_sized ms" for ms k
    using fold_described_sized [OF that, of ds k] by (simp add: described_create_def split_beta tasks_sized_def)
  show "sized (fst (snd (sizes_init (\<lambda>i. (Suc (insz i), outsz i)) i t k)))" if "sized t" for i t k
    by (auto simp: sizes_init_def set_inout_item_size_def sized_def Let_def split: prod.split)
qed

section \<open>Properties\<close>

text \<open>
  C8. The request task refines the interface of the device. Whatever messages it is given, well formed or not, while none of
  them faults it does to the services and to the kernel exactly the operations the messages name, on the services
  they name, in the order of the messages, and nothing else; and these are steps of single services, as the state
  machine of a service allows them, and notes of the request a service is working on.
\<close>

theorem requests_are_service_steps:
  assumes "hosted_application create init n" "2 * n < 256"
    and "hosted B n (services (d_registry st), d_kernel st)"
    and "lwmsg_dist_task create init addr items st = Inr st'"
  shows "run_ops create init (concat (map request_ops items)) (services (d_registry st), d_kernel st) =
      Inr (services (d_registry st'), d_kernel st') \<and>
    (registry_step create init)^** (services (d_registry st), d_kernel st) (services (d_registry st'), d_kernel st')"
  using hosted_application.dist_task_ops [OF assms(1,2) _ assms(4)] hosted_application.dist_task_serves [OF assms(1,2) _ assms(4)]
    assms(3) by (simp add: host_def serves_def)

text \<open>Services that have just been made.\<close>

definition new_services :: "micro_service list \<Rightarrow> bool" where
  "new_services mss \<longleftrightarrow> (\<forall>ms \<in> set mss. \<exists>nm i. ms = make_ms nm i)"

lemma new_services_hosted:
  assumes "new_services mss" "live k = B" "held k = Some False"
  shows "hosted B n (mss, k) \<and> (\<forall>ms \<in> set mss. tasks_typed ms)"
proof -
  have "tasks ms = []" if "ms \<in> set mss" for ms
    using assms(1) that by (auto simp: new_services_def make_ms_def)
  moreover from this have "owned_by mss = {#}" unfolding owned_by_def by (induction mss) simp_all
  ultimately show ?thesis
    using assms(2,3) by (simp add: hosted_def addrs_ok_def tasks_sized_def tasks_typed_def)
qed

abbreviation example_insz :: "nat \<Rightarrow> nat" where
  "example_insz \<equiv> \<lambda>_. 3"

definition example_host :: dist_state where
  "example_host = \<lparr>d_registry = \<lparr>services = [make_ms ''led'' ''ms1'', make_ms ''fan'' ''ms2''], device_registered = True\<rparr>,
     d_kernel = example_kernel, d_events = []\<rparr>"

abbreviation create_request :: "cstring \<Rightarrow> lwm_message" where
  "create_request i \<equiv> example_request ''10'' (LWM_Array [LWM_String (Some i)])"

lemma create_request_served: "\<exists>st'. lwmsg_dist_step create init addr (Some (create_request i)) st = Inr st'"
proof -
  have a: "atoi ''10'' = 10" by code_simp
  have "body_array ''mis'' (create_request i) = Some [LWM_String (Some i)]"
    by (simp add: body_array_def example_request_def)
  then have "\<exists>r. dispatch create init addr 10 (Some ''7'') (create_request i) st = Inr r"
    by (cases "find_service (LWM_String (Some i)) st")
      (simp_all add: dispatch_def lwmsg_operation_def operation_step_def ms_operation_def split_beta
        del: rbind_eq_Inr)
  then obtain rsc st1 where "dispatch create init addr 10 (Some ''7'') (create_request i) st = Inr (rsc, st1)" by auto
  then show ?thesis
    by (cases "rsc = 300") (simp_all add: dist_step_request [OF example_request_ok] a del: rbind_eq_Inr)
qed

lemma example_create_request:
  "\<exists>st. lwmsg_dist_task create init addr [Some (create_request i)] example_host = Inr st"
  using create_request_served [of create init addr i example_host] by (simp add: lwmsg_dist_task_def)

lemma requests_are_service_steps_witness:
  "\<exists>st. lwmsg_dist_task (described_create example_descs) (sizes_init (\<lambda>i. (Suc (example_insz i), 4))) (\<lambda>_. 0)
     [Some (create_request ''ms2'')] example_host = Inr st \<and>
   run_ops (described_create example_descs) (sizes_init (\<lambda>i. (Suc (example_insz i), 4))) [On_service (Some ''ms2'') Op_create]
     (services (d_registry example_host), d_kernel example_host) = Inr (services (d_registry st), d_kernel st)"
proof -
  obtain st where st: "lwmsg_dist_task (described_create example_descs) (sizes_init (\<lambda>i. (Suc (example_insz i), 4))) (\<lambda>_. 0)
      [Some (create_request ''ms2'')] example_host = Inr st"
    using example_create_request by blast
  have "new_services (services (d_registry example_host))" "live (d_kernel example_host) = {#}"
      "held (d_kernel example_host) = Some False"
    by (auto simp: new_services_def example_host_def example_kernel_def live_def held_def)
  then have "hosted {#} (length example_descs) (services (d_registry example_host), d_kernel example_host)"
    using new_services_hosted by blast
  moreover have "2 * length example_descs < 256" by (simp add: example_descs_def)
  moreover have "atoi ''10'' = 10" by code_simp
  then have "request_ops (Some (create_request ''ms2'')) = [On_service (Some ''ms2'') Op_create]"
    by (simp add: request_ops_def named_ops_def named_ids_def body_array_def example_request_def node_num_def
        get_lwm_string_value_def)
  ultimately show ?thesis
    using requests_are_service_steps [OF described_hosted.hosted_application_axioms [of example_descs example_insz "\<lambda>_. 4"] _ _ st] st
    by simp
qed

end
