(* ===== verification/ServiceMacros.thy ===== *)
theory ServiceMacros
  imports ServiceHost
begin

text \<open>
  The macros of \<^verbatim>\<open>include/iw_fw_microservices.h\<close> in which the \<^verbatim>\<open>create\<close> function of
  a service is written: tasks with their handlers, switches and parameters, the links between tasks, and
  the connect lines. A service is a program in these macros; what such a program
  gives a service, and where creation faults, is shown here, and that the services of any programs are applications as the request task needs them.
\<close>

section \<open>The macros\<close>

text \<open>
  Between \<^verbatim>\<open>ADD_NEW_TASK_START\<close> and \<^verbatim>\<open>ADD_NEW_TASK_END\<close> the new task is
  \<^verbatim>\<open>__self\<close>. The value of a parameter is the bytes of a variable of its type.
\<close>

datatype task_macro =
    SET_INIT_FUNCTION "nat option"
  | SET_PREPROCESSING_FUNCTION "nat option"
  | SET_POSTPROCESSING_FUNCTION "nat option"
  | SET_OFFLOADING bool
  | SET_ADD_TASK_LIST bool
  | SET_INITIAL_ONOFF bool
  | ADD_PARAM param_kind param_type cstring cstring "byte list"

text \<open>
  A connect line is kept in a variable until it is used: \<open>SET_CONNECT_LINK\<close> has the numbers of the lines
  that \<^verbatim>\<open>MAKE_CONNECT_LINK\<close> gets, in the order in which they were made.
\<close>

datatype service_macro =
    ADD_NEW_TASK task_fn cstring nat nat int "task_macro list"
  | MAKE_TASK_LINKS
  | ADD_CONNECT_LINE cstring nat cstring nat
  | SET_CONNECT_LINK "nat list" cstring "cstring list"

text \<open>
  The nodes of the lists are put in by \<^verbatim>\<open>iw_add_list_node\<close>, which stores through NULL when the list is empty.
  \<open>trap\<close> says what such a store does: it faults, or it passes without effect.
\<close>

fun first_param :: "task_info \<Rightarrow> task_macro \<Rightarrow> bool" where
  "first_param t (ADD_PARAM kind ty nm al v) \<longleftrightarrow> (case kind of
      USER_PARAM \<Rightarrow> user_params t = []
    | STATIC_PARAM \<Rightarrow> static_params t = []
    | FLEXIBLE_PARAM \<Rightarrow> flexible_params t = []
    | MS_INPUT_PARAM \<Rightarrow> False)"
| "first_param t _ \<longleftrightarrow> False"

fun task_macro_effect :: "task_info \<Rightarrow> task_macro \<Rightarrow> task_info res" where
  "task_macro_effect t (SET_INIT_FUNCTION f) = Inr (t\<lparr>init_fn := f\<rparr>)"
| "task_macro_effect t (SET_PREPROCESSING_FUNCTION f) = Inr (t\<lparr>before_fn := f\<rparr>)"
| "task_macro_effect t (SET_POSTPROCESSING_FUNCTION f) = Inr (t\<lparr>after_fn := f\<rparr>)"
| "task_macro_effect t (SET_OFFLOADING b) = Inr (t\<lparr>offloading := b\<rparr>)"
| "task_macro_effect t (SET_ADD_TASK_LIST b) = Inr (t\<lparr>add_task_list := b\<rparr>)"
| "task_macro_effect t (SET_INITIAL_ONOFF b) = Inr (if b then t else t\<lparr>initial_state := I_S_STOP\<rparr>)"
| "task_macro_effect t (ADD_PARAM kind ty nm al v) = add_task_param kind ty nm al (Some v) (length v) t"

definition task_macro_step :: "bool \<Rightarrow> task_info \<Rightarrow> task_macro \<Rightarrow> task_info res" where
  "task_macro_step trap t m = rbind (null_store trap (first_param t m)) (\<lambda>_. task_macro_effect t m)"

fun writes_self :: "task_macro \<Rightarrow> bool" where
  "writes_self (SET_INITIAL_ONOFF b) \<longleftrightarrow> \<not> b"
| "writes_self (ADD_PARAM kind ty nm al v) \<longleftrightarrow> kind \<noteq> MS_INPUT_PARAM"
| "writes_self _ \<longleftrightarrow> True"

type_synonym macro_state = "micro_service \<times> kernel \<times> connect_line option list"

text \<open>
  \<open>make_task_links\<close> collects the links of a task in a list of its own: whether one of them is found.
\<close>

primrec links_of :: "nat option \<Rightarrow> task_link \<Rightarrow> bool" where
  "links_of start (TL t on offl c n) \<longleftrightarrow> t = start \<or>
     (case map_option (links_of start) on of None \<Rightarrow> False | Some b \<Rightarrow> b) \<or>
     (case map_option (links_of start) offl of None \<Rightarrow> False | Some b \<Rightarrow> b)"

definition find_task_links :: "task_info \<Rightarrow> task_link option \<Rightarrow> bool" where
  "find_task_links start head \<longleftrightarrow> (case head of None \<Rightarrow> True | Some h \<Rightarrow> links_of (Some (ti_addr start)) h)"

fun pairs_found :: "task_info list \<Rightarrow> task_link option \<Rightarrow> bool" where
  "pairs_found (l # r # ts) h \<longleftrightarrow>
     find_task_links l h \<or> pairs_found (r # ts) (add_task_link l (Some (ti_addr r)) h)"
| "pairs_found [r] h \<longleftrightarrow> offloading r \<and> find_task_links r h"
| "pairs_found [] h \<longleftrightarrow> False"

definition links_found :: "micro_service \<Rightarrow> bool" where
  "links_found ms \<longleftrightarrow> 2 \<le> length (tasks ms) \<and> pairs_found (tasks ms) (task_link_head ms)"

text \<open>
  A new task is the first of its list. Without its message port it is NULL, and so is the
  \<^verbatim>\<open>__self\<close> the macros inside write to. The lines of a link and the names that are off are put
  into fresh lists.
\<close>

fun service_macro_step :: "bool \<Rightarrow> macro_state \<Rightarrow> service_macro \<Rightarrow> macro_state res" where
  "service_macro_step trap (ms, k, ls) (ADD_NEW_TASK fp al ins outs lwm inner) =
     (case add_new_task fp None None None al ins outs lwm ms k of
        (None, ms', k) \<Rightarrow> if list_ex writes_self inner then Inl Null_deref else Inr (ms', k, ls)
      | (Some a, ms', k) \<Rightarrow>
          rbind (null_store trap (tasks ms = [])) (\<lambda>_.
          rbind (rfold (task_macro_step trap) inner (hd (tasks ms'))) (\<lambda>t.
            Inr (ms'\<lparr>tasks := t # tl (tasks ms')\<rparr>, k, ls))))"
| "service_macro_step trap (ms, k, ls) MAKE_TASK_LINKS =
     rbind (null_store trap (links_found ms)) (\<lambda>_. Inr (make_task_links ms, k, ls))"
| "service_macro_step trap (ms, k, ls) (ADD_CONNECT_LINE start sport dest dport) =
     (let (l, ms') = add_connect_line (Some start) sport (Some dest) dport ms
      in rbind (null_store trap (l \<noteq> None \<and> connect_lines ms = [])) (\<lambda>_. Inr (ms', k, ls @ [l])))"
| "service_macro_step trap (ms, k, ls) (SET_CONNECT_LINK vars oname offs) =
     (if \<exists>v \<in> set vars. length ls \<le> v then Inl Uninitialised
      else rbind (null_store trap (vars \<noteq> [] \<or> off_tasks offs ms \<noteq> [])) (\<lambda>_.
        rbind (set_connect_link (Some (make_connect_link_list (map ((!) ls) vars))) oname offs (Some ms)) (\<lambda>r.
        rbind (deref r) (\<lambda>ms. Inr (ms, k, ls)))))"

definition run_macros :: "bool \<Rightarrow> service_macro list \<Rightarrow> micro_service \<Rightarrow> kernel \<Rightarrow> macro_state res" where
  "run_macros trap p ms k = rfold (service_macro_step trap) p (ms, k, [])"

text \<open>The \<^verbatim>\<open>create\<close> of every service of a device, \<open>progs\<close> by the name of the service.\<close>

definition written_create :: "(cstring \<Rightarrow> service_macro list) \<Rightarrow> create_fn" where
  "written_create progs ms k = (case run_macros False (progs (ms_name ms)) ms k of
     Inr (ms, k, _) \<Rightarrow> (ms, k) | Inl _ \<Rightarrow> (ms, k))"

text \<open>
  What a task function uses of its own task: whether it has a port for messages and the queue of it, and
  its output (\<^verbatim>\<open>SET_OUTPUT_VARIABLE_W_SIZE\<close>), which is written without a look at its size.
\<close>

definition HAS_LWMSG_INPUT_QUEUE :: "task_info \<Rightarrow> bool" where
  "HAS_LWMSG_INPUT_QUEUE t \<longleftrightarrow> 0 \<le> lwmsg_input_port t"

definition GET_LWMSG_INPUT_QUEUE :: "task_info \<Rightarrow> nat res" where
  "GET_LWMSG_INPUT_QUEUE t = (if 0 \<le> lwmsg_input_port t \<and> nat (lwmsg_input_port t) < length (input_queues t)
     then Inr (input_queues t ! nat (lwmsg_input_port t)) else Inl Out_of_bounds)"

definition SET_OUTPUT_VARIABLE :: "byte list \<Rightarrow> task_info \<Rightarrow> task_info res" where
  "SET_OUTPUT_VARIABLE v t = (if v = [] then Inr t
     else rbind (deref (output_ptr t)) (\<lambda>old. if length v \<le> length old
       then Inr (t\<lparr>output_ptr := Some (v @ drop (length v) old)\<rparr>) else Inl Out_of_bounds))"

section \<open>Programs that fit\<close>

text \<open>
  A program fits when a task that is given handlers or parameters has its message port among its inputs, lines are used after they
  were made, and names of outputs leave room for their end. \<open>n\<close> is the number of lines made before.
\<close>

fun fits :: "nat \<Rightarrow> service_macro list \<Rightarrow> bool" where
  "fits n [] \<longleftrightarrow> True"
| "fits n (ADD_NEW_TASK fp al ins outs lwm inner # p) \<longleftrightarrow> (list_ex writes_self inner \<longrightarrow> lwm < int ins) \<and> fits n p"
| "fits n (MAKE_TASK_LINKS # p) \<longleftrightarrow> fits n p"
| "fits n (ADD_CONNECT_LINE s sp d dp # p) \<longleftrightarrow> fits (Suc n) p"
| "fits n (SET_CONNECT_LINK vars oname offs # p) \<longleftrightarrow> (\<forall>v \<in> set vars. v < n) \<and> length oname < 30 \<and> fits n p"

text \<open>The tasks a program adds, the newest first, with name, function and arity.\<close>

fun declares :: "service_macro \<Rightarrow> (cstring \<times> task_fn \<times> nat \<times> nat) list" where
  "declares (ADD_NEW_TASK fp al ins outs lwm inner) =
     (if 0 \<le> lwm \<and> int ins < lwm + 1 then [] else [(take MS_MAX_NAME_LENGTH al, fp, ins, outs)])"
| "declares _ = []"

definition declared :: "service_macro list \<Rightarrow> (cstring \<times> task_fn \<times> nat \<times> nat) list" where
  "declared p = rev (concat (map declares p))"

definition head_of :: "task_info \<Rightarrow> cstring \<times> task_fn \<times> nat \<times> nat" where
  "head_of t = (ti_name t, ti_fn t, input_count t, output_count t)"

section \<open>What the macros do to a task\<close>

definition same_frame :: "task_info \<Rightarrow> task_info \<Rightarrow> bool" where
  "same_frame t t' \<longleftrightarrow> ti_addr t' = ti_addr t \<and> task_t t' = task_t t \<and> input_queues t' = input_queues t \<and>
     output_ports t' = output_ports t \<and> input_item_size t' = input_item_size t \<and>
     lwmsg_input_port t' = lwmsg_input_port t \<and> head_of t' = head_of t"

lemma task_macro_passes [simp]: "task_macro_step False t m = task_macro_effect t m"
  by (simp add: task_macro_step_def)

lemma add_task_param_runs: "\<exists>t'. add_task_param kind ty nm al (Some v) (length v) t = Inr t'"
  by (cases "v = []"; cases kind)
    (simp_all add: add_task_param_def add_param_to_list_def param_with_init_value_def make_task_parameter_def
      safe_alloc_def Let_def)

lemma task_macro_runs: "\<exists>t'. task_macro_step False t m = Inr t'"
  using add_task_param_runs by (cases m) auto

lemma body_runs: "\<exists>t'. rfold (task_macro_step False) inner t = Inr t'"
proof (induction inner arbitrary: t)
  case (Cons m inner)
  obtain t1 where "task_macro_step False t m = Inr t1" using task_macro_runs by blast
  with Cons show ?case by simp
qed simp

lemma task_macro_frame:
  assumes "task_macro_step False t m = Inr t'" "same_frame t0 t"
  shows "same_frame t0 t'"
proof (cases m)
  case (ADD_PARAM kind ty nm al v)
  with assms show ?thesis
    by (cases kind) (auto simp: add_task_param_def Let_def same_frame_def head_of_def)
qed (use assms in \<open>auto simp: same_frame_def head_of_def split: if_splits\<close>)

lemma body_frame:
  assumes "rfold (task_macro_step False) inner t = Inr t'"
  shows "same_frame t t'"
  using assms by (rule rfold_invariant) (simp add: same_frame_def, rule task_macro_frame)

lemma same_frame_facts:
  assumes "same_frame t t'"
  shows "ti_addr t' = ti_addr t" "owned t' = owned t" "sized t' = sized t" "well_typed t' = well_typed t" "head_of t' = head_of t"
  using assms by (simp_all add: same_frame_def owned_def sized_def well_typed_def head_of_def)

section \<open>What the macros do to a service\<close>

lemma set_connect_link_tasks: "set_connect_link c n offs (Some ms) = Inr (Some ms') \<Longrightarrow> tasks ms' = tasks ms"
  by (auto simp: set_connect_link_def split: option.splits if_splits)

lemma find_last_onoff: "\<exists>r. find_last_task_link (onoff_test xs) h = Inr r"
  by (induction "onoff_test xs" h rule: find_last_task_link.induct) (auto simp: onoff_test_def)

lemma set_connect_link_runs:
  assumes "length n < 30"
  shows "\<exists>ms'. set_connect_link c n offs (Some ms) = Inr (Some ms')"
proof -
  obtain r where "find_last_task_link (onoff_test (off_tasks offs ms)) (task_link_head ms) = Inr r"
    using find_last_onoff by blast
  with assms show ?thesis by (cases r) (simp_all add: set_connect_link_def)
qed

lemma add_connect_line_tasks: "tasks (snd (add_connect_line s sp d dp ms)) = tasks ms"
  by (simp add: add_connect_line_def Let_def split: option.split)

text \<open>A step leaves the tasks alone or puts a new one in front of them.\<close>

lemma macro_step_tasks:
  assumes "service_macro_step False (ms, k, ls) m = Inr (ms', k', ls')"
  shows "(tasks ms' = tasks ms \<and> k' = k \<and> declares m = []) \<or>
    (\<exists>t. tasks ms' = t # tasks ms \<and> ti_addr t = k_addr k \<and> k_addr k' = Suc (k_addr k) \<and> live k' = live k + owned t \<and>
      held k' = held k \<and> sized t \<and> well_typed t \<and> declares m = [head_of t])"
proof (cases m)
  case (ADD_NEW_TASK fp al ins outs lwm inner)
  obtain r m1 k1 where a: "add_new_task fp None None None al ins outs lwm ms k = (r, m1, k1)"
    by (cases "add_new_task fp None None None al ins outs lwm ms k") auto
  note new = add_new_task_result [OF a]
  have r: "r = None \<longleftrightarrow> 0 \<le> lwm \<and> int ins < lwm + 1"
    using a by (auto simp: add_new_task_def Let_def split: prod.splits if_splits)
  show ?thesis
  proof (cases r)
    case None
    with assms ADD_NEW_TASK a r new show ?thesis by (auto split: if_splits)
  next
    case (Some x)
    then obtain t where t: "tasks m1 = t # tasks ms" "ti_addr t = k_addr k" "k_addr k1 = Suc (k_addr k)"
        "live k1 = live k + owned t" "held k1 = held k"
      using new by auto
    have s: "sized t" "well_typed t" "head_of t = (take MS_MAX_NAME_LENGTH al, fp, ins, outs)"
      using a t(1) Some by (auto simp: add_new_task_def new_addr_def Let_def sized_def well_typed_def port_holds_def head_of_def
          nth_list_update split: if_splits prod.splits)
    obtain t' where t': "rfold (task_macro_step False) inner t = Inr t'" "tasks ms' = t' # tasks ms" "k' = k1"
      using assms ADD_NEW_TASK a Some t(1) by auto
    from same_frame_facts [OF body_frame [OF t'(1)]] t s t'(2,3) r Some ADD_NEW_TASK show ?thesis by auto
  qed
next
  case (ADD_CONNECT_LINE s sp d dp)
  with assms add_connect_line_tasks [of "Some s" sp "Some d" dp ms] show ?thesis by (auto split: prod.splits)
next
  case (SET_CONNECT_LINK vars n offs)
  with assms set_connect_link_tasks show ?thesis by (auto split: if_splits option.splits simp: deref_def)
qed (use assms in auto)

text \<open>What a program adds to a service.\<close>

definition adds :: "micro_service \<Rightarrow> kernel \<Rightarrow> (cstring \<times> task_fn \<times> nat \<times> nat) list \<Rightarrow> micro_service \<Rightarrow> kernel \<Rightarrow> bool" where
  "adds ms k hs ms' k' \<longleftrightarrow> (\<exists>ts. tasks ms' = ts @ tasks ms \<and> map head_of ts = hs \<and>
     live k' = live k + owned_all ts \<and> held k' = held k \<and> k_addr k \<le> k_addr k' \<and>
     map ti_addr ts = rev [k_addr k ..< k_addr k'] \<and> (\<forall>t \<in> set ts. sized t \<and> well_typed t))"

lemma macro_step_adds:
  "service_macro_step False (ms, k, ls) m = Inr (ms', k', ls') \<Longrightarrow> adds ms k (declares m) ms' k'"
  using macro_step_tasks [of ms k ls m ms' k' ls'] unfolding adds_def
  by (auto intro: exI [of _ "[]"] exI [of _ "[_]"])

lemma adds_trans:
  assumes "adds ms k hs ms1 k1" "adds ms1 k1 hs1 ms2 k2"
  shows "adds ms k (hs1 @ hs) ms2 k2"
proof -
  obtain ts us where "tasks ms1 = ts @ tasks ms" "map head_of ts = hs" "live k1 = live k + owned_all ts" "held k1 = held k"
    "k_addr k \<le> k_addr k1" "map ti_addr ts = rev [k_addr k ..< k_addr k1]" "\<forall>t \<in> set ts. sized t \<and> well_typed t"
    "tasks ms2 = us @ tasks ms1" "map head_of us = hs1" "live k2 = live k1 + owned_all us" "held k2 = held k1"
    "k_addr k1 \<le> k_addr k2" "map ti_addr us = rev [k_addr k1 ..< k_addr k2]" "\<forall>t \<in> set us. sized t \<and> well_typed t"
    using assms unfolding adds_def by blast
  moreover from this have "[k_addr k ..< k_addr k2] = [k_addr k ..< k_addr k1] @ [k_addr k1 ..< k_addr k2]"
    by (metis le_add_diff_inverse upt_add_eq_append)
  ultimately show ?thesis
    unfolding adds_def by (intro exI [of _ "us @ ts"]) (auto simp: owned_all_def ac_simps)
qed

lemma run_macros_adds:
  assumes "rfold (service_macro_step False) p (ms, k, ls) = Inr (ms', k', ls')"
  shows "adds ms k (declared p) ms' k'"
  using assms
proof (induction p arbitrary: ms k ls)
  case Nil
  then show ?case by (simp add: adds_def declared_def owned_all_def)
next
  case (Cons m p)
  then obtain m1 k1 l1 where s: "service_macro_step False (ms, k, ls) m = Inr (m1, k1, l1)"
      "rfold (service_macro_step False) p (m1, k1, l1) = Inr (ms', k', ls')"
    by auto
  have "rev (declares m) = declares m" by (cases m) simp_all
  with adds_trans [OF macro_step_adds [OF s(1)] Cons.IH [OF s(2)]] show ?case by (simp add: declared_def)
qed

lemma fits_runs: "fits (length ls) p \<Longrightarrow> \<exists>r. rfold (service_macro_step False) p (ms, k, ls) = Inr r"
proof (induction p arbitrary: ms k ls)
  case (Cons m p)
  show ?case
  proof (cases m)
    case (ADD_NEW_TASK fp al ins outs lwm inner)
    obtain r m1 k1 where a: "add_new_task fp None None None al ins outs lwm ms k = (r, m1, k1)"
      by (cases "add_new_task fp None None None al ins outs lwm ms k") auto
    obtain t' where t': "rfold (task_macro_step False) inner (hd (tasks m1)) = Inr t'" using body_runs by blast
    have "r = None \<Longrightarrow> \<not> list_ex writes_self inner"
      using a Cons.prems ADD_NEW_TASK by (auto simp: add_new_task_def Let_def split: prod.splits if_splits)
    then obtain m2 where "service_macro_step False (ms, k, ls) m = Inr (m2, k1, ls)"
      using ADD_NEW_TASK a t' by (cases r) auto
    with Cons.IH [of ls m2 k1] Cons.prems ADD_NEW_TASK show ?thesis by simp
  next
    case MAKE_TASK_LINKS
    with Cons show ?thesis by simp
  next
    case (ADD_CONNECT_LINE s sp d dp)
    obtain l m1 where "add_connect_line (Some s) sp (Some d) dp ms = (l, m1)" by fastforce
    with Cons.IH [of "ls @ [l]" m1 k] Cons.prems ADD_CONNECT_LINE show ?thesis by simp
  next
    case (SET_CONNECT_LINK vars n offs)
    then obtain m1 where "set_connect_link (Some (make_connect_link_list (map ((!) ls) vars))) n offs (Some ms) = Inr (Some m1)"
      using set_connect_link_runs Cons.prems by fastforce
    with Cons.IH [of ls m1 k] Cons.prems SET_CONNECT_LINK show ?thesis by (auto simp: leD)
  qed
qed simp

text \<open>A board where the stores through NULL fault runs a program as the other boards do, up to the first of them.\<close>

lemma body_trap:
  "rfold (task_macro_step True) inner t = rfold (task_macro_step False) inner t \<or>
   rfold (task_macro_step True) inner t = Inl Null_deref"
  by (rule rfold_same_or_fault) (simp add: task_macro_step_def null_store_def)

lemma macro_step_trap:
  "service_macro_step True s m = service_macro_step False s m \<or> service_macro_step True s m = Inl Null_deref"
proof -
  obtain ms k ls where s: "s = (ms, k, ls)" by (cases s) auto
  show ?thesis
  proof (cases m)
    case (ADD_NEW_TASK fp al ins outs lwm inner)
    obtain r m1 k1 where a: "add_new_task fp None None None al ins outs lwm ms k = (r, m1, k1)"
      by (cases "add_new_task fp None None None al ins outs lwm ms k") auto
    from body_trap [of inner "hd (tasks m1)"] show ?thesis
      by (cases r) (auto simp: s ADD_NEW_TASK a null_store_def simp del: rbind_eq_Inr)
  next
    case (ADD_CONNECT_LINE start sport dest dport)
    then show ?thesis by (simp add: s null_store_def split: prod.split)
  qed (simp_all add: s null_store_def)
qed

lemma first_task_traps:
  "tasks ms = [] \<Longrightarrow> declares m \<noteq> [] \<Longrightarrow> service_macro_step True (ms, k, ls) m = Inl Null_deref"
  by (cases m) (auto simp: add_new_task_def Let_def split: prod.split if_splits)

lemma trapped_run:
  assumes "rfold (service_macro_step False) p (ms, k, ls) = Inr r" "tasks ms = []" "declared p \<noteq> []"
  shows "rfold (service_macro_step True) p (ms, k, ls) = Inl Null_deref"
  using assms
proof (induction p arbitrary: ms k ls)
  case Nil
  then show ?case by (simp add: declared_def)
next
  case (Cons m p)
  obtain m1 k1 l1 where s: "service_macro_step False (ms, k, ls) m = Inr (m1, k1, l1)"
      "rfold (service_macro_step False) p (m1, k1, l1) = Inr r"
    using Cons.prems(1) by auto
  show ?case
  proof (cases "declares m = []")
    case True
    with macro_step_tasks [OF s(1)] Cons.prems have "tasks m1 = []" "declared p \<noteq> []" by (auto simp: declared_def)
    with Cons.IH [OF s(2)] macro_step_trap [of "(ms, k, ls)" m] s(1) show ?thesis by auto
  next
    case False
    with first_task_traps Cons.prems(2) show ?thesis by simp
  qed
qed

lemma written_create_adds:
  "(\<exists>r. run_macros False (progs (ms_name ms)) ms k = Inr r) \<and>
      adds ms k (declared (progs (ms_name ms))) (fst (written_create progs ms k)) (snd (written_create progs ms k)) \<or>
   written_create progs ms k = (ms, k)"
proof (cases "run_macros False (progs (ms_name ms)) ms k")
  case (Inr r)
  then show ?thesis
    using run_macros_adds [of "progs (ms_name ms)" ms k "[]"] by (cases r) (simp add: written_create_def run_macros_def)
qed (simp add: written_create_def)

lemma written_create_result:
  assumes "written_create progs ms k = (ms', k')" "\<forall>nm. length (declared (progs nm)) \<le> n"
  shows "(live k = F + owned_all (tasks ms) \<longrightarrow> live k' = F + owned_all (tasks ms')) \<and> held k' = held k \<and>
    (addrs_ok ms k \<longrightarrow> addrs_ok ms' k') \<and> k_addr k \<le> k_addr k' \<and> length (tasks ms') \<le> length (tasks ms) + n \<and>
    (tasks_sized ms \<longrightarrow> tasks_sized ms') \<and> (tasks_typed ms \<longrightarrow> tasks_typed ms')"
proof (cases "written_create progs ms k = (ms, k)")
  case False
  with written_create_adds [of progs ms k] assms(1) have "adds ms k (declared (progs (ms_name ms))) ms' k'" by auto
  then obtain ts where ts: "tasks ms' = ts @ tasks ms" "map head_of ts = declared (progs (ms_name ms))"
      "live k' = live k + owned_all ts" "held k' = held k" "k_addr k \<le> k_addr k'"
      "map ti_addr ts = rev [k_addr k ..< k_addr k']" "\<forall>t \<in> set ts. sized t \<and> well_typed t"
    unfolding adds_def by blast
  have "length ts \<le> n" using assms(2) ts(2) by (metis length_map)
  moreover have "addrs_ok ms' k'" if "addrs_ok ms k"
  proof -
    have "set (map ti_addr ts) = {k_addr k ..< k_addr k'}" "distinct (map ti_addr ts)"
      unfolding ts(6) by simp_all
    with that ts(1,5) show ?thesis by (fastforce simp: addrs_ok_def)
  qed
  ultimately show ?thesis
    using ts by (auto simp: owned_all_def ac_simps tasks_sized_def tasks_typed_def)
qed (use assms in auto)

lemma written_hosted:
  assumes "\<forall>nm. length (declared (progs nm)) \<le> n"
  shows "hosted_application (written_create progs) (sizes_init (\<lambda>i. (Suc (insz i), outsz i))) n"
proof unfold_locales
  note r = written_create_result [OF _ assms]
  show "live k' = F + owned_all (tasks ms') \<and> held k' = held k"
    if "live k = F + owned_all (tasks ms)" "written_create progs ms k = (ms', k')" for k F ms ms' k'
    using r [OF that(2)] that(1) by blast
  show "addrs_ok ms' k'" if "addrs_ok ms k" "written_create progs ms k = (ms', k')" for ms k ms' k'
    using r [OF that(2)] that(1) by blast
  show "k_addr k \<le> k_addr k'" if "written_create progs ms k = (ms', k')" for ms k ms' k'
    using r [OF that] by blast
  show "length (tasks ms') \<le> length (tasks ms) + n" if "written_create progs ms k = (ms', k')" for ms k ms' k'
    using r [OF that] by blast
  show "tasks_sized (fst (written_create progs ms k))" if "tasks_sized ms" for ms k
    using r [of ms k "fst (written_create progs ms k)" "snd (written_create progs ms k)"] that by simp
qed (use sizes_init_live described_hosted.init_sized in blast)+

lemma written_typed: "typed_application (written_create progs) (sizes_init sizes)"
proof
  show "tasks_typed (fst (written_create progs ms k))" if "tasks_typed ms" for ms k
    using written_create_adds [of progs ms k] that by (auto simp: adds_def tasks_typed_def)
qed (rule described_typed.init_typed)

section \<open>Properties\<close>

text \<open>
  C10. What a service written in the macros gets when it is created. When its program fits, the program reads nothing
  through NULL, out of bounds or before it is set: where a store through NULL passes (\<^verbatim>\<open>iw_add_list_node\<close> makes
  one for the first node of every list), creation runs to its end and gives the service exactly the tasks the program
  declares, with their names, functions and numbers of ports, in front of those it had. Where such a store
  faults, it is the only fault there is, and a service without tasks faults as soon as its program declares one.
  The services of a device whose handlers set item sizes hold on to what they create and stay well
  typed, as the request task needs it of an application.
\<close>

theorem written_services_keep_contract:
  assumes "\<forall>nm. fits 0 (progs nm) \<and> length (declared (progs nm)) \<le> n"
  shows "(\<exists>ls. run_macros False (progs (ms_name ms)) ms k =
      Inr (fst (written_create progs ms k), snd (written_create progs ms k), ls)) \<and>
    map head_of (tasks (fst (written_create progs ms k))) = declared (progs (ms_name ms)) @ map head_of (tasks ms) \<and>
    (run_macros True (progs (ms_name ms)) ms k = run_macros False (progs (ms_name ms)) ms k \<or>
     run_macros True (progs (ms_name ms)) ms k = Inl Null_deref) \<and>
    (tasks ms = [] \<and> declared (progs (ms_name ms)) \<noteq> [] \<longrightarrow>
     run_macros True (progs (ms_name ms)) ms k = Inl Null_deref) \<and>
    hosted_application (written_create progs) (sizes_init (\<lambda>i. (Suc (insz i), outsz i))) n \<and>
    typed_application (written_create progs) (sizes_init (\<lambda>i. (Suc (insz i), outsz i)))"
proof -
  obtain ms' k' ls where r: "run_macros False (progs (ms_name ms)) ms k = Inr (ms', k', ls)"
    using fits_runs [of "[]" "progs (ms_name ms)" ms k] assms by (auto simp: run_macros_def)
  then have "adds ms k (declared (progs (ms_name ms))) ms' k'" using run_macros_adds by (simp add: run_macros_def)
  then have "map head_of (tasks ms') = declared (progs (ms_name ms)) @ map head_of (tasks ms)" by (auto simp: adds_def)
  moreover have "run_macros True (progs (ms_name ms)) ms k = run_macros False (progs (ms_name ms)) ms k \<or>
      run_macros True (progs (ms_name ms)) ms k = Inl Null_deref"
    unfolding run_macros_def by (rule rfold_same_or_fault) (rule macro_step_trap)
  moreover have "run_macros True (progs (ms_name ms)) ms k = Inl Null_deref"
    if "tasks ms = []" "declared (progs (ms_name ms)) \<noteq> []"
    using trapped_run r that by (simp add: run_macros_def)
  ultimately show ?thesis
    using r written_hosted [of progs n] written_typed assms by (simp add: written_create_def)
qed

text \<open>A service that reads, filters and shows; the filter can be switched off.\<close>

definition example_program :: "service_macro list" where
  "example_program = [
     ADD_NEW_TASK base_task_type2 ''show'' 1 0 (- 1) [SET_INIT_FUNCTION (Some 0)],
     ADD_NEW_TASK (Task_fn 1) ''filter'' 2 1 1 [SET_INIT_FUNCTION (Some 1), SET_OFFLOADING True, SET_ADD_TASK_LIST True,
       ADD_PARAM FLEXIBLE_PARAM eP_INT32 ''limit'' ''lim'' [10, 0, 0, 0]],
     ADD_NEW_TASK base_task_type1 ''read'' 0 1 (- 1) [SET_INIT_FUNCTION (Some 2)],
     MAKE_TASK_LINKS,
     ADD_CONNECT_LINE ''read'' 0 ''filter'' 0,
     ADD_CONNECT_LINE ''filter'' 0 ''show'' 0,
     ADD_CONNECT_LINE ''read'' 0 ''show'' 0,
     SET_CONNECT_LINK [0, 1] ''filtered'' [],
     SET_CONNECT_LINK [2] ''raw'' [''filter'']]"

lemma example_program_fits: "fits 0 example_program" "length (declared example_program) = 3"
  by (simp_all add: example_program_def declared_def)

lemma written_services_keep_contract_witness:
  "map ti_name (tasks (fst (written_create (\<lambda>_. example_program) (make_ms ''led'' ''ms1'') example_kernel))) =
     [''read'', ''filter'', ''show''] \<and>
   run_macros True example_program (make_ms ''led'' ''ms1'') example_kernel = Inl Null_deref"
proof -
  have "\<forall>nm :: cstring. fits 0 example_program \<and> length (declared example_program) \<le> 3"
    using example_program_fits by simp
  note c = written_services_keep_contract [OF this, of "make_ms ''led'' ''ms1''" example_kernel]
  have "map fst (map head_of (tasks (fst (written_create (\<lambda>_. example_program) (make_ms ''led'' ''ms1'') example_kernel)))) =
      map fst (declared example_program)"
    using c by (simp add: make_ms_def)
  moreover have "declared example_program \<noteq> []" using example_program_fits(2) by auto
  with c have "run_macros True example_program (make_ms ''led'' ''ms1'') example_kernel = Inl Null_deref"
    by (simp add: make_ms_def)
  ultimately show ?thesis by (simp add: head_of_def comp_def) (simp add: example_program_def declared_def)
qed

text \<open>
  A task function that writes at most as many bytes as its handler declared never writes past its output, and the queue for
  messages of a well typed task exists when it has the port.
\<close>

lemma output_fits:
  assumes "set_inout_item_size insz outsz (Some t) k = (Some t', k')"
  shows "(\<exists>t''. SET_OUTPUT_VARIABLE v t' = Inr t'') \<longleftrightarrow> length v \<le> outsz"
proof -
  have "output_ptr t' = safe_alloc outsz" using assms by (auto simp: set_inout_item_size_def split: prod.splits)
  then show ?thesis
    by (cases "v = []"; cases "outsz = 0") (simp_all add: SET_OUTPUT_VARIABLE_def safe_alloc_def del: rbind_eq_Inr)
qed

lemma message_queue_exists:
  "well_typed t \<Longrightarrow> (\<exists>q. GET_LWMSG_INPUT_QUEUE t = Inr q) \<longleftrightarrow> HAS_LWMSG_INPUT_QUEUE t"
  by (auto simp: well_typed_def GET_LWMSG_INPUT_QUEUE_def HAS_LWMSG_INPUT_QUEUE_def)

end
