(* ===== verification/Session.thy ===== *)
theory Session
  imports DistProps LwmCore LwmRoundTrip "HOL-Library.Sublist"
begin

text \<open>
  The three tasks between the network and the services at work together: rounds of the receiver
  and of the sender (\<^verbatim>\<open>SIFW/iw_fw_lwMsgCore.c\<close>) and of the request task
  (\<^verbatim>\<open>SIFW/task_lwmsg_dist.c\<close>), interleaved in any order over the state they share.
\<close>

section \<open>A round of the request task on the shared state\<close>

text \<open>What the request task does to the queues while it handles a message.\<close>

definition perform :: "'w core_env \<Rightarrow> dist_event \<Rightarrow> 'w core \<Rightarrow> 'w core" where
  "perform env e c = (case e of
      Respond m \<Rightarrow> snd (response_lwmsg env (Some m) c)
    | Forward q m t \<Rightarrow> snd (send_queue env q m t c)
    | Free_message m \<Rightarrow> log_event (Freed m) c)"

text \<open>One round of the loop. The loop ends when the queue fails; here such a round does nothing.\<close>

definition dist_round ::
  "'w core_env \<Rightarrow> create_fn \<Rightarrow> init_handler \<Rightarrow> (cstring_ptr \<Rightarrow> nat) \<Rightarrow> 'w core \<Rightarrow> 'w core res" where
  "dist_round env create init addr c = (case recv_msg env (lwmsg_receive_queue c) True (core_world c) of
      (None, w) \<Rightarrow> Inr (c\<lparr>core_world := w\<rparr>)
    | (Some m, w) \<Rightarrow>
        rbind (lwmsg_dist_step create init addr m
          \<lparr>d_registry = core_registry c, d_kernel = core_kernel c, d_events = []\<rparr>) (\<lambda>d.
        Inr (log_event (Slept 10) (fold (perform env) (d_events d)
          (c\<lparr>core_world := w, core_registry := d_registry d, core_kernel := d_kernel d\<rparr>)))))"

section \<open>The text that answers a request\<close>

definition answer_text :: "nat \<Rightarrow> cstring \<Rightarrow> cstring" where
  "answer_text rsc dri = ''{rsc='' @ show_int (int rsc) @ '';dri='' @ dri @ ''}''"

lemma sender_answers:
  assumes "rsc < 1000000" "rsc \<noteq> 0" "get_lwmsg_network_enabled (core_lwm c)"
    and "recv_msg env (lwmsg_send_queue c) True (core_world c) = (Some (Some (new_lwm_resp_message (Some dri) (of_nat rsc))), w)"
    and "send_text env (xNetworkTx c) (answer_text rsc dri) (xNetworkTxTask c) w = (e, w')"
  shows "iw_fw_lwMsgTx env create n c = Inr (c\<lparr>core_world := w', core_events :=
    core_events c @ (if e = IW_SUCCESS then [Transmitted (answer_text rsc dri)] else []) @
      [Freed_text (answer_text rsc dri), Freed (new_lwm_resp_message (Some dri) (of_nat rsc)), Slept 10]\<rparr>)"
proof -
  let ?m = "new_lwm_resp_message (Some dri) (of_nat rsc)"
  have z: "of_nat rsc \<noteq> (0 :: 32 word)"
    using assms(1,2) by (auto simp: word_of_nat_eq_0_iff dest: dvd_imp_le)
  then have "dict_lookup (header ?m) ''if'' = None" "dict_lookup (header ?m) ''dri'' \<noteq> None"
    "dict_lookup (header ?m) ''rsc'' \<noteq> None"
    by (simp_all add: new_lwm_resp_message_def set_header_def dict_put_def new_lwm_empty_message_def)
  then have "send_message env create n ?m (answer_text rsc dri) (c\<lparr>core_world := w\<rparr>) =
      Inr (snd (send_network env (answer_text rsc dri) (c\<lparr>core_world := w\<rparr>)))"
    by (simp add: send_message_def)
  moreover have "serialize_lwm_message ?m = Inr (answer_text rsc dri)"
    using serialize_answer [OF assms(1,2), of dri] by (simp add: answer_text_def)
  ultimately show ?thesis
    using assms(3-5) by (simp add: iw_fw_lwMsgTx_def send_network_def log_event_def)
qed

section \<open>The tasks interleaved\<close>

text \<open>The text the next round of the receiver reads.\<close>

definition text_read :: "'w core_env \<Rightarrow> 'w core \<Rightarrow> cstring list" where
  "text_read env c = (case recv_text env (xNetworkRx c) (core_world c) of
      (Some bs, _) \<Rightarrow> (case c_string_at bs of Inr s \<Rightarrow> [s] | Inl _ \<Rightarrow> [])
    | (None, _) \<Rightarrow> [])"

text \<open>A state carries the texts read so far.\<close>

inductive device_step ::
  "'w core_env \<Rightarrow> create_fn \<Rightarrow> init_handler \<Rightarrow> (cstring_ptr \<Rightarrow> nat) \<Rightarrow> nat
    \<Rightarrow> 'w core \<times> cstring list \<Rightarrow> 'w core \<times> cstring list \<Rightarrow> bool"
  for env create init addr n where
  Receive: "iw_fw_lwMsgRx env c = Inr c' \<Longrightarrow> device_step env create init addr n (c, ss) (c', ss @ text_read env c)"
| Work: "dist_round env create init addr c = Inr c' \<Longrightarrow> device_step env create init addr n (c, ss) (c', ss)"
| Send: "iw_fw_lwMsgTx env create n c = Inr c' \<Longrightarrow> device_step env create init addr n (c, ss) (c', ss)"

inductive_cases device_stepE: "device_step env create init addr n (c, ss) (c', ss')"

section \<open>What is known of the queues and of the server\<close>

text \<open>
  The queues of the kernel keep what they are given in order; a call that fails changes nothing.
  \<open>msgs\<close> is what is in a queue of messages.
\<close>

definition kernel_queues :: "'w core_env \<Rightarrow> ('w \<Rightarrow> nat \<Rightarrow> lwm_message list) \<Rightarrow> bool" where
  "kernel_queues env msgs \<longleftrightarrow>
     (\<forall>q m t w e w'. send_msg env q m t w = (e, w') \<longrightarrow>
        msgs w' = (if e = IW_SUCCESS then (msgs w)(q := msgs w q @ [m]) else msgs w)) \<and>
     (\<forall>q b w r w'. recv_msg env q b w = (r, w') \<longrightarrow> (case r of
        Some (Some m) \<Rightarrow> \<exists>ms. msgs w q = m # ms \<and> msgs w' = (msgs w)(q := ms) | _ \<Rightarrow> msgs w' = msgs w)) \<and>
     (\<forall>q w r w'. recv_text env q w = (r, w') \<longrightarrow> msgs w' = msgs w) \<and>
     (\<forall>q s t w e w'. send_text env q s t w = (e, w') \<longrightarrow> msgs w' = msgs w)"

text \<open>No call that puts something into a queue fails.\<close>

definition roomy :: "'w core_env \<Rightarrow> bool" where
  "roomy env \<longleftrightarrow> (\<forall>q m t w. fst (send_msg env q m t w) = IW_SUCCESS) \<and>
     (\<forall>q s t w. fst (send_text env q s t w) = IW_SUCCESS)"

definition control_request :: "cstring \<Rightarrow> lwm_message \<Rightarrow> bool" where
  "control_request dri m \<longleftrightarrow> (\<exists>i. request i dri m \<and> atoi i \<in> control_ids)"

text \<open>Every text the server sends is no message at all or a control request.\<close>

definition server_controls :: "'w core_env \<Rightarrow> bool" where
  "server_controls env \<longleftrightarrow> (\<forall>q w bs w' s m. recv_text env q w = (Some bs, w') \<and> c_string_at bs = Inr s \<and>
     parse_lwm_message_str (Some s) = Inr (Some m) \<longrightarrow>
       dict_lookup (header m) ''rsc'' = None \<and> (\<exists>dri. control_request dri m))"

text \<open>The numbers of the requests in the texts read.\<close>

definition text_dri :: "cstring \<Rightarrow> cstring list" where
  "text_dri s = (case parse_lwm_message_str (Some s) of
      Inr (Some m) \<Rightarrow> (case dict_lookup (header m) ''dri'' of Some (LWM_String (Some d)) \<Rightarrow> [d] | _ \<Rightarrow> [])
    | _ \<Rightarrow> [])"

definition requested :: "cstring list \<Rightarrow> cstring list" where
  "requested ss = concat (map text_dri ss)"

definition answers_dri :: "cstring \<Rightarrow> cstring \<Rightarrow> bool" where
  "answers_dri s d \<longleftrightarrow> (\<exists>rsc \<in> {200, 400, 404}. s = answer_text rsc d)"

definition response_to :: "lwm_message \<Rightarrow> cstring \<Rightarrow> bool" where
  "response_to m d \<longleftrightarrow> (\<exists>rsc \<in> {200, 400, 404 :: nat}. m = new_lwm_resp_message (Some d) (of_nat rsc))"

section \<open>The invariant of a session\<close>

text \<open>Nothing is repeated or reordered, and nothing is lost when the flag is set.\<close>

definition kept :: "bool \<Rightarrow> 'a list \<Rightarrow> 'a list \<Rightarrow> bool" where
  "kept r xs ys \<longleftrightarrow> subseq xs ys \<and> (r \<longrightarrow> xs = ys)"

lemma kept_snoc: "kept r xs ys \<Longrightarrow> kept r (xs @ [y]) (ys @ [y])"
  by (simp add: kept_def)

lemma kept_drop_right: "kept False xs ys \<Longrightarrow> kept False xs (ys @ zs)"
  by (simp add: kept_def subseq_rev_drop_many)

lemma subseq_first: "subseq (xs @ zs) ys \<Longrightarrow> subseq xs ys"
  using subseq_rev_drop_many [of xs xs zs] subseq_order.order_trans [of xs "xs @ zs" ys] by simp

lemma kept_drop_left: "kept False (xs @ y # zs) ys \<Longrightarrow> kept False (xs @ zs) ys"
proof -
  have "subseq (xs @ zs) (xs @ y # zs)" by (simp add: subseq_append' subseq_Cons')
  then show "kept False (xs @ y # zs) ys \<Longrightarrow> kept False (xs @ zs) ys"
    unfolding kept_def by (blast intro: subseq_order.order_trans)
qed

text \<open>The two queues, and the device registered.\<close>

definition session_core :: "nat \<Rightarrow> nat \<Rightarrow> 'w core \<Rightarrow> bool" where
  "session_core qr qs c \<longleftrightarrow> lwmsg_receive_queue c = qr \<and> lwmsg_send_queue c = qs \<and> qs \<noteq> 0 \<and> qr \<noteq> qs \<and>
     device_registered (core_registry c)"

definition in_session ::
  "bool \<Rightarrow> (nat \<Rightarrow> lwm_message list) \<Rightarrow> nat \<Rightarrow> nat \<Rightarrow> cstring list \<Rightarrow> cstring list \<Rightarrow> bool" where
  "in_session r q qr qs written asked \<longleftrightarrow> (\<exists>ds ps rs. list_all2 answers_dri written ds \<and>
     list_all2 response_to (q qs) ps \<and> list_all2 (\<lambda>m d. control_request d m) (q qr) rs \<and> kept r (ds @ ps @ rs) asked)"

lemma in_session_accept:
  assumes "in_session r q qr qs written asked" "qr \<noteq> qs" "control_request d m"
  shows "in_session r (q(qr := q qr @ [m])) qr qs written (asked @ [d])"
proof -
  from assms(1) obtain ds ps rs where *: "list_all2 answers_dri written ds" "list_all2 response_to (q qs) ps"
      "list_all2 (\<lambda>m d. control_request d m) (q qr) rs" "kept r (ds @ ps @ rs) asked"
    unfolding in_session_def by blast
  have "list_all2 (\<lambda>m d. control_request d m) (q qr @ [m]) (rs @ [d])"
    using *(3) assms(3) by (simp add: list_all2_appendI)
  moreover have "kept r (ds @ ps @ rs @ [d]) (asked @ [d])" using kept_snoc [OF *(4)] by simp
  ultimately show ?thesis
    unfolding in_session_def using * assms(2) by (intro exI [of _ ds] exI [of _ ps] exI [of _ "rs @ [d]"]) simp
qed

lemma in_session_refuse:
  "in_session False q qr qs written asked \<Longrightarrow> in_session False q qr qs written (asked @ ds)"
  unfolding in_session_def using kept_drop_right by blast

text \<open>The first request is taken from its queue and its answer put into the other, or lost.\<close>

lemma in_session_work:
  assumes "in_session r q qr qs written asked" "q qr = m # ms" "qr \<noteq> qs"
  obtains d where "control_request d m"
    and "\<And>p. response_to p d \<Longrightarrow> in_session r (q(qr := ms, qs := q qs @ [p])) qr qs written asked"
    and "\<not> r \<Longrightarrow> in_session r (q(qr := ms)) qr qs written asked"
proof -
  from assms(1,2) obtain ds ps d rs where *: "list_all2 answers_dri written ds" "list_all2 response_to (q qs) ps"
      "control_request d m" "list_all2 (\<lambda>m d. control_request d m) ms rs" "kept r (ds @ ps @ d # rs) asked"
    unfolding in_session_def by (auto simp: list_all2_Cons1)
  show thesis
  proof (rule that [OF *(3)])
    fix p
    assume "response_to p d"
    then have "list_all2 response_to (q qs @ [p]) (ps @ [d])" using *(2) by (simp add: list_all2_appendI)
    then show "in_session r (q(qr := ms, qs := q qs @ [p])) qr qs written asked"
      unfolding in_session_def using * assms(3)
      by (intro exI [of _ ds] exI [of _ "ps @ [d]"] exI [of _ rs]) simp
  next
    assume "\<not> r"
    then have "kept r (ds @ ps @ rs) asked" using *(5) kept_drop_left [of "ds @ ps" d rs asked] by simp
    then show "in_session r (q(qr := ms)) qr qs written asked"
      unfolding in_session_def using * assms(3)
      by (intro exI [of _ ds] exI [of _ ps] exI [of _ rs]) simp
  qed
qed

text \<open>The first response is written, or lost.\<close>

lemma in_session_send:
  assumes "in_session r q qr qs written asked" "q qs = p # ps" "qr \<noteq> qs"
  obtains d where "response_to p d"
    and "\<And>s. answers_dri s d \<Longrightarrow> in_session r (q(qs := ps)) qr qs (written @ [s]) asked"
    and "\<not> r \<Longrightarrow> in_session r (q(qs := ps)) qr qs written asked"
proof -
  from assms(1,2) obtain ds d es rs where *: "list_all2 answers_dri written ds" "response_to p d"
      "list_all2 response_to ps es" "list_all2 (\<lambda>m d. control_request d m) (q qr) rs" "kept r (ds @ d # es @ rs) asked"
    unfolding in_session_def by (auto simp: list_all2_Cons1)
  show thesis
  proof (rule that [OF *(2)])
    fix s
    assume "answers_dri s d"
    then have "list_all2 answers_dri (written @ [s]) (ds @ [d])" using *(1) by (simp add: list_all2_appendI)
    then show "in_session r (q(qs := ps)) qr qs (written @ [s]) asked"
      unfolding in_session_def using * assms(3)
      by (intro exI [of _ "ds @ [d]"] exI [of _ es] exI [of _ rs]) simp
  next
    assume "\<not> r"
    then have "kept r (ds @ es @ rs) asked" using *(5) kept_drop_left [of ds d "es @ rs" asked] by simp
    then show "in_session r (q(qs := ps)) qr qs written asked"
      unfolding in_session_def using * assms(3)
      by (intro exI [of _ ds] exI [of _ es] exI [of _ rs]) simp
  qed
qed

definition session ::
  "bool \<Rightarrow> ('w \<Rightarrow> nat \<Rightarrow> lwm_message list) \<Rightarrow> nat \<Rightarrow> nat \<Rightarrow> 'w core \<times> cstring list \<Rightarrow> bool" where
  "session r msgs qr qs = (\<lambda>(c, ss). session_core qr qs c \<and>
     in_session r (msgs (core_world c)) qr qs (transmitted c) (requested ss))"

lemma session_core_simps [simp]:
  "session_core qr qs (log_event e c) = session_core qr qs c"
  "session_core qr qs (c\<lparr>core_world := w\<rparr>) = session_core qr qs c"
  by (simp_all add: session_core_def log_event_def)

lemma requested_append [simp]: "requested (ss @ [s]) = requested ss @ text_dri s" "requested [] = []"
  by (simp_all add: requested_def)

lemma text_dri_control:
  "parse_lwm_message_str (Some s) = Inr (Some m) \<Longrightarrow> control_request d m \<Longrightarrow> text_dri s = [d]"
  by (auto simp: text_dri_def control_request_def request_def)

lemma send_msg_law:
  "kernel_queues env msgs \<Longrightarrow> send_msg env q m t w = (e, w') \<Longrightarrow>
    msgs w' = (if e = IW_SUCCESS then (msgs w)(q := msgs w q @ [m]) else msgs w)"
  by (auto simp: kernel_queues_def)

lemma recv_msg_law:
  "kernel_queues env msgs \<Longrightarrow> recv_msg env q b w = (Some (Some m), w') \<Longrightarrow>
    \<exists>ms. msgs w q = m # ms \<and> msgs w' = (msgs w)(q := ms)"
  "kernel_queues env msgs \<Longrightarrow> recv_msg env q b w = (None, w') \<Longrightarrow> msgs w' = msgs w"
  "kernel_queues env msgs \<Longrightarrow> recv_msg env q b w = (Some None, w') \<Longrightarrow> msgs w' = msgs w"
  unfolding kernel_queues_def by fastforce+

lemma text_law:
  "kernel_queues env msgs \<Longrightarrow> recv_text env q w = (t, w') \<Longrightarrow> msgs w' = msgs w"
  "kernel_queues env msgs \<Longrightarrow> send_text env q s t' w = (e, w') \<Longrightarrow> msgs w' = msgs w"
  by (auto simp: kernel_queues_def)

lemma roomy_succeeds:
  "roomy env \<Longrightarrow> send_msg env q m t w = (e, w') \<Longrightarrow> e = IW_SUCCESS"
  "roomy env \<Longrightarrow> send_text env q s t w = (e, w') \<Longrightarrow> e = IW_SUCCESS"
  unfolding roomy_def by (metis fst_conv)+

section \<open>The rounds keep the invariant\<close>

lemma receive_session:
  assumes "kernel_queues env msgs" "server_controls env" "session (roomy env) msgs qr qs (c, ss)"
    and "iw_fw_lwMsgRx env c = Inr c'"
  shows "session (roomy env) msgs qr qs (c', ss @ text_read env c)"
proof -
  obtain t w where t: "recv_text env (xNetworkRx c) (core_world c) = (t, w)"
    by (cases "recv_text env (xNetworkRx c) (core_world c)")
  note w = text_law(1) [OF assms(1) t]
  show ?thesis
  proof (cases t)
    case None
    with assms t w show ?thesis by (auto simp: iw_fw_lwMsgRx_def session_def text_read_def)
  next
    case (Some bs)
    with assms(4) t obtain s r where s: "c_string_at bs = Inr s" "parse_lwm_message_str (Some s) = Inr r"
      and c': "(case r of None \<Rightarrow> c\<lparr>core_world := w\<rparr>
        | Some m \<Rightarrow> log_event (Slept 10) (route_message env m (c\<lparr>core_world := w\<rparr>))) = c'"
      by (cases "c_string_at bs") (auto simp: iw_fw_lwMsgRx_def split: option.splits)
    have read: "text_read env c = [s]" using t Some s(1) by (simp add: text_read_def)
    show ?thesis
    proof (cases r)
      case None
      with s(2) have "text_dri s = []" by (simp add: text_dri_def)
      with c' None w read assms(3) show ?thesis by (auto simp: session_def)
    next
      case m: (Some m)
      with assms(2) t Some s obtain d where d: "dict_lookup (header m) ''rsc'' = None" "control_request d m"
        unfolding server_controls_def by blast
      have dri: "text_dri s = [d]" using text_dri_control d(2) s(2) m by blast
      obtain e w1 where e: "send_msg env qr m (lwmsg_receive_task c) w = (e, w1)"
        by (cases "send_msg env qr m (lwmsg_receive_task c) w")
      have "in_session (roomy env) (msgs w1) qr qs (transmitted c) (requested ss @ [d])"
        using assms(3) w in_session_accept [OF _ _ d(2)] in_session_refuse send_msg_law [OF assms(1) e]
          roomy_succeeds(1) [OF _ e]
        by (cases "roomy env") (auto simp: session_def session_core_def)
      moreover have "c' = log_event (Slept 10) (if e = IW_SUCCESS then c\<lparr>core_world := w1\<rparr>
          else log_event (Freed m) (c\<lparr>core_world := w1\<rparr>))"
        using c' m d(1) e assms(3)
        by (auto simp: route_message_def send_queue_def Let_def session_def session_core_def get_device_is_registered_def)
      ultimately show ?thesis using assms(3) read dri by (simp add: session_def)
    qed
  qed
qed

lemma send_session:
  assumes "kernel_queues env msgs" "session (roomy env) msgs qr qs (c, ss)" "iw_fw_lwMsgTx env create n c = Inr c'"
  shows "session (roomy env) msgs qr qs (c', ss)"
proof (cases "get_lwmsg_network_enabled (core_lwm c)")
  case False
  with assms show ?thesis by (auto simp: iw_fw_lwMsgTx_def session_def)
next
  case True
  obtain r w where r: "recv_msg env qs True (core_world c) = (r, w)" by (cases "recv_msg env qs True (core_world c)")
  have qs: "lwmsg_send_queue c = qs" "qr \<noteq> qs" using assms(2) by (simp_all add: session_def session_core_def)
  show ?thesis
  proof (cases "\<exists>m. r = Some (Some m)")
    case False
    then have "c' = log_event (Slept 10) (c\<lparr>core_world := w\<rparr>) \<or> c' = c\<lparr>core_world := w\<rparr>" "msgs w = msgs (core_world c)"
      using assms(3) True r qs recv_msg_law(2,3) [OF assms(1)]
      by (auto simp: iw_fw_lwMsgTx_def split: option.splits)
    with assms(2) show ?thesis by (auto simp: session_def)
  next
    case m: True
    then obtain m ps where m: "r = Some (Some m)" "msgs (core_world c) qs = m # ps" "msgs w = (msgs (core_world c))(qs := ps)"
      using recv_msg_law(1) [OF assms(1)] r by blast
    have "in_session (roomy env) (msgs (core_world c)) qr qs (transmitted c) (requested ss)"
      using assms(2) by (simp add: session_def)
    from in_session_send [OF this m(2) qs(2)] obtain d where d: "response_to m d"
      and won: "\<And>s. answers_dri s d \<Longrightarrow> in_session (roomy env) (msgs w) qr qs (transmitted c @ [s]) (requested ss)"
      and lost: "\<not> roomy env \<Longrightarrow> in_session (roomy env) (msgs w) qr qs (transmitted c) (requested ss)"
      using m(3) by metis
    obtain rsc where rsc: "rsc \<in> {200, 400, 404}" "m = new_lwm_resp_message (Some d) (of_nat rsc)"
      using d unfolding response_to_def by blast
    obtain e w1 where e: "send_text env (xNetworkTx c) (answer_text rsc d) (xNetworkTxTask c) w = (e, w1)"
      by (cases "send_text env (xNetworkTx c) (answer_text rsc d) (xNetworkTxTask c) w")
    have "rsc < 1000000" "rsc \<noteq> 0" using rsc(1) by auto
    from sender_answers [OF this True] r m(1) rsc(2) qs(1) e assms(3)
    have c': "c' = c\<lparr>core_world := w1, core_events := core_events c @
        (if e = IW_SUCCESS then [Transmitted (answer_text rsc d)] else []) @
          [Freed_text (answer_text rsc d), Freed m, Slept 10]\<rparr>"
      by simp
    have "transmitted c' = transmitted c @ (if e = IW_SUCCESS then [answer_text rsc d] else [])"
      by (simp add: c' transmitted_def)
    moreover have "answers_dri (answer_text rsc d) d" using rsc(1) by (auto simp: answers_dri_def)
    ultimately have "in_session (roomy env) (msgs w1) qr qs (transmitted c') (requested ss)"
      using won lost text_law(2) [OF assms(1) e] roomy_succeeds(2) [OF _ e]
      by (cases "roomy env"; cases "e = IW_SUCCESS") auto
    with assms(2) c' show ?thesis by (simp add: session_def session_core_def)
  qed
qed

lemma perform_response:
  assumes "lwmsg_send_queue c \<noteq> 0" "send_msg env (lwmsg_send_queue c) p (lwmsg_send_task c) (core_world c) = (e, w)"
  shows "perform env (Respond p) c = c\<lparr>core_world := w\<rparr>"
  using assms by (simp_all add: perform_def response_lwmsg_def send_queue_def)

lemma work_session:
  assumes "kernel_queues env msgs" "session (roomy env) msgs qr qs (c, ss)" "dist_round env create init addr c = Inr c'"
  shows "session (roomy env) msgs qr qs (c', ss)"
proof -
  obtain r w where r: "recv_msg env qr True (core_world c) = (r, w)" by (cases "recv_msg env qr True (core_world c)")
  have core: "lwmsg_receive_queue c = qr" "lwmsg_send_queue c = qs" "qr \<noteq> qs" "qs \<noteq> 0" "device_registered (core_registry c)"
    using assms(2) by (simp_all add: session_def session_core_def)
  show ?thesis
  proof (cases "\<exists>m. r = Some (Some m)")
    case False
    then have "c' = log_event (Slept 10) (c\<lparr>core_world := w\<rparr>) \<or> c' = c\<lparr>core_world := w\<rparr>" "msgs w = msgs (core_world c)"
      using assms(3) r core recv_msg_law(2,3) [OF assms(1)]
      by (auto simp: dist_round_def lwmsg_dist_step_def split: option.splits)
    with assms(2) show ?thesis by (auto simp: session_def)
  next
    case True
    then obtain m ms where m: "r = Some (Some m)" "msgs (core_world c) qr = m # ms" "msgs w = (msgs (core_world c))(qr := ms)"
      using recv_msg_law(1) [OF assms(1)] r by blast
    have "in_session (roomy env) (msgs (core_world c)) qr qs (transmitted c) (requested ss)"
      using assms(2) by (simp add: session_def)
    from in_session_work [OF this m(2) core(3)] obtain d where d: "control_request d m"
      and won: "\<And>p. response_to p d \<Longrightarrow>
        in_session (roomy env) ((msgs w)(qs := msgs w qs @ [p])) qr qs (transmitted c) (requested ss)"
      and lost: "\<not> roomy env \<Longrightarrow> in_session (roomy env) (msgs w) qr qs (transmitted c) (requested ss)"
      using m(3) core(3) by (metis fun_upd_other)
    let ?d = "\<lparr>d_registry = core_registry c, d_kernel = core_kernel c, d_events = []\<rparr>"
    obtain st where st: "lwmsg_dist_step create init addr (Some m) ?d = Inr st"
      and c': "c' = log_event (Slept 10) (fold (perform env) (d_events st)
        (c\<lparr>core_world := w, core_registry := d_registry st, core_kernel := d_kernel st\<rparr>))"
      using assms(3) r m(1) core(1) by (auto simp: dist_round_def)
    let ?c = "c\<lparr>core_world := w, core_registry := d_registry st, core_kernel := d_kernel st\<rparr>"
    obtain rsc where rsc: "rsc \<in> {200, 400, 404 :: nat}" "device_registered (d_registry st)"
        "d_events st = [Respond (new_lwm_resp_message (Some d) (of_nat rsc)), Free_message m]"
    proof -
      obtain i where "request i d m" "atoi i \<in> control_ids" using d unfolding control_request_def by blast
      from control_answer [OF this st] obtain rsc where "rsc \<in> {200, 400, 404 :: nat}"
          "d_events st = d_events ?d @ [Respond (new_lwm_resp_message (Some d) (of_nat rsc)), Free_message m]"
          "device_registered (d_registry st) = device_registered (d_registry ?d)" by blast
      with core(5) show thesis by (intro that [of rsc]) simp_all
    qed
    let ?p = "new_lwm_resp_message (Some d) (of_nat rsc)"
    obtain e w1 where e: "send_msg env qs ?p (lwmsg_send_task c) w = (e, w1)"
      by (cases "send_msg env qs ?p (lwmsg_send_task c) w")
    have "response_to ?p d" using rsc(1) by (auto simp: response_to_def)
    then have "in_session (roomy env) (msgs w1) qr qs (transmitted c) (requested ss)"
      using won lost send_msg_law [OF assms(1) e] roomy_succeeds(1) [OF _ e]
      by (cases "roomy env"; cases "e = IW_SUCCESS") auto
    moreover have "c' = log_event (Slept 10) (log_event (Freed m) (?c\<lparr>core_world := w1\<rparr>))"
      using perform_response [of ?c env ?p e w1] core e c' rsc(3)
      by (simp add: perform_def [of _ "Free_message m"])
    ultimately show ?thesis
      using core rsc(2) by (simp add: session_def session_core_def log_event_def transmitted_def)
  qed
qed

lemma device_step_session:
  assumes "kernel_queues env msgs" "server_controls env" "device_step env create init addr n s s'"
    and "session (roomy env) msgs qr qs s"
  shows "session (roomy env) msgs qr qs s'"
  using assms(3,4) receive_session [OF assms(1,2)] work_session [OF assms(1)] send_session [OF assms(1)]
  by (cases rule: device_step.cases) blast+

lemma reachable_session:
  assumes "kernel_queues env msgs" "server_controls env" "(device_step env create init addr n)^** s s'"
    and "session (roomy env) msgs qr qs s"
  shows "session (roomy env) msgs qr qs s'"
  using assms(3,4) by induction (blast intro: device_step_session [OF assms(1,2)])+

text \<open>
  C6. No answer is lost, repeated or reordered between the tasks. In whatever order the receiver, the
  request task and the sender of a registered device do their rounds, the texts written answer the control requests
  read, each at most once, with its own number and in the order of the requests. Where no queue is full
  and every text is sent, the requests without an answer are exactly those still in the two queues.
\<close>

theorem session_answers:
  assumes "kernel_queues env msgs" "server_controls env"
    and "device_registered (core_registry c)" "core_events c = []"
    and "lwmsg_send_queue c \<noteq> 0" "lwmsg_receive_queue c \<noteq> lwmsg_send_queue c"
    and "msgs (core_world c) (lwmsg_receive_queue c) = []" "msgs (core_world c) (lwmsg_send_queue c) = []"
    and "(device_step env create init addr n)^** (c, []) (c', ss)"
  shows "\<exists>ds. list_all2 answers_dri (transmitted c') ds \<and> subseq ds (requested ss) \<and>
    (roomy env \<longrightarrow> (\<exists>pending. requested ss = ds @ pending \<and> length pending =
      length (msgs (core_world c') (lwmsg_send_queue c)) + length (msgs (core_world c') (lwmsg_receive_queue c))))"
proof -
  let ?qr = "lwmsg_receive_queue c" and ?qs = "lwmsg_send_queue c"
  have "session (roomy env) msgs ?qr ?qs (c, [])"
    using assms(3-8) by (simp add: session_def session_core_def in_session_def kept_def transmitted_def)
  from reachable_session [OF assms(1,2,9) this] obtain ds ps rs where
    "list_all2 answers_dri (transmitted c') ds" "list_all2 response_to (msgs (core_world c') ?qs) ps"
    "list_all2 (\<lambda>m d. control_request d m) (msgs (core_world c') ?qr) rs" "kept (roomy env) (ds @ ps @ rs) (requested ss)"
    unfolding session_def in_session_def by auto
  moreover from this have "requested ss = ds @ (ps @ rs) \<and> length (ps @ rs) =
      length (msgs (core_world c') ?qs) + length (msgs (core_world c') ?qr)" if "roomy env"
    using that by (simp add: kept_def list_all2_conv_all_nth)
  ultimately show ?thesis unfolding kept_def by (blast dest: subseq_first)
qed

text \<open>A kernel with queues without bounds, a server that sends one text again and again.\<close>

definition example_frame :: "byte list" where
  "example_frame = [123, 105, 102, 61, 49, 53, 59, 100, 114, 105, 61, 55, 125, 0]"

definition example_stop :: lwm_message where
  "example_stop = \<lparr>header = [(''dri'', LWM_String (Some ''7'')), (''if'', LWM_String (Some ''15''))], body = []\<rparr>"

lemma example_frame_parsed:
  "c_string_at example_frame = Inr ''{if=15;dri=7}''"
  "parse_lwm_message_str (Some ''{if=15;dri=7}'') = Inr (Some example_stop)"
proof -
  show "c_string_at example_frame = Inr ''{if=15;dri=7}''" by code_simp
  let ?h = "[(''if'', LWM_String (Some ''15'')), (''dri'', LWM_String (Some ''7''))]"
  have "dict_ok ?h"
    by (simp add: dict_ok_def key_ok_def starts_word_def clear_of_def text_ok_def value_ok_def
        printable_def ctype_defs)
  from parse_header_only [OF this]
  show "parse_lwm_message_str (Some ''{if=15;dri=7}'') = Inr (Some example_stop)"
    by (simp add: norm_dict_def dict_str_def entry_text_def text_of_def join_item_def kvo_text_def example_stop_def)
qed

lemma example_stop_request:
  "request ''15'' ''7'' example_stop" "atoi ''15'' \<in> control_ids" "dict_lookup (header example_stop) ''rsc'' = None"
proof -
  have "atoi ''15'' = 15" by code_simp
  then show "atoi ''15'' \<in> control_ids" by (simp add: control_ids_def)
qed (simp_all add: request_def node_num_def example_stop_def)

lemma example_stop_answered:
  "lwmsg_dist_step (\<lambda>ms k. (ms, k)) example_init (\<lambda>_. 0) (Some example_stop) st =
    Inr (emit (Free_message example_stop) (emit (Respond (new_lwm_resp_message (Some ''7'') 400)) st))"
proof -
  have "atoi ''15'' = 15" by code_simp
  then show ?thesis
    by (simp add: lwmsg_dist_step_def node_num_def get_lwm_string_value_def dispatch_def lwmsg_operation_def
        body_array_def example_stop_def)
qed

definition endless_queues :: "(nat \<Rightarrow> lwm_message list) core_env" where
  "endless_queues = \<lparr>recv_text = \<lambda>_ w. (Some example_frame, w), send_text = \<lambda>_ _ _ w. (IW_SUCCESS, w),
     recv_msg = \<lambda>q _ w. (case w q of [] \<Rightarrow> (None, w) | m # ms \<Rightarrow> (Some (Some m), w(q := ms))),
     send_msg = \<lambda>q m _ w. (IW_SUCCESS, w(q := w q @ [m]))\<rparr>"

definition online :: "'w \<Rightarrow> 'w core" where
  "online w = (example_core w)\<lparr>core_registry := \<lparr>services = [], device_registered = True\<rparr>,
     core_lwm := lwm_state0\<lparr>network_enabled := True\<rparr>\<rparr>"

lemma online_run:
  "\<exists>c. (device_step endless_queues (\<lambda>ms k. (ms, k)) example_init (\<lambda>_. 0) 0)^** (online (\<lambda>_. []), []) (c, [''{if=15;dri=7}'']) \<and>
    core_world c = (\<lambda>_. [])"
proof -
  let ?e = "\<lambda>_ :: nat. [] :: lwm_message list"
  let ?step = "device_step endless_queues (\<lambda>ms k. (ms, k)) example_init (\<lambda>_. 0) 0" and ?c = "online ?e"
  let ?r = "new_lwm_resp_message (Some ''7'') (of_nat 400)"
  let ?c1 = "log_event (Slept 10) (?c\<lparr>core_world := ?e(6 := [example_stop])\<rparr>)"
  let ?c2 = "log_event (Slept 10) (log_event (Freed example_stop) (?c1\<lparr>core_world := ?e(7 := [?r])\<rparr>))"
  have "iw_fw_lwMsgRx endless_queues ?c = Inr ?c1"
    using example_stop_request
    by (simp add: iw_fw_lwMsgRx_def endless_queues_def example_frame_parsed route_message_def Let_def send_queue_def
        online_def example_core_def get_device_is_registered_def log_event_def)
  moreover have "text_read endless_queues ?c = [''{if=15;dri=7}'']"
    by (simp add: text_read_def endless_queues_def example_frame_parsed)
  ultimately have 1: "?step (?c, []) (?c1, [''{if=15;dri=7}''])"
    using Receive [of endless_queues ?c ?c1 _ _ _ _ "[]"] by simp
  have "dist_round endless_queues (\<lambda>ms k. (ms, k)) example_init (\<lambda>_. 0) ?c1 = Inr ?c2"
    by (simp add: dist_round_def endless_queues_def example_stop_answered emit_def perform_def response_lwmsg_def
        send_queue_def online_def example_core_def log_event_def fun_upd_def cong: if_cong)
  then have 2: "?step (?c1, [''{if=15;dri=7}'']) (?c2, [''{if=15;dri=7}''])" by (rule Work)
  have on: "get_lwmsg_network_enabled (core_lwm ?c2)"
    by (simp add: online_def get_lwmsg_network_enabled_def log_event_def)
  have recv: "recv_msg endless_queues (lwmsg_send_queue ?c2) True (core_world ?c2) = (Some (Some ?r), ?e)"
    by (simp add: endless_queues_def online_def example_core_def log_event_def fun_upd_def cong: if_cong)
  have send: "send_text endless_queues (xNetworkTx ?c2) (answer_text 400 ''7'') (xNetworkTxTask ?c2) ?e = (IW_SUCCESS, ?e)"
    by (simp add: endless_queues_def)
  obtain c where c: "iw_fw_lwMsgTx endless_queues (\<lambda>ms k. (ms, k)) 0 ?c2 = Inr c" "core_world c = ?e"
    using sender_answers [OF _ _ on recv send, of "\<lambda>ms k. (ms, k)" 0] by simp
  from c(1) have "?step (?c2, [''{if=15;dri=7}'']) (c, [''{if=15;dri=7}''])" by (intro Send)
  with 1 2 c(2) show ?thesis
    by (intro exI [of _ c]) (meson converse_rtranclp_into_rtranclp rtranclp.rtrancl_refl)
qed

lemma session_answers_witness:
  "\<exists>c. (device_step endless_queues (\<lambda>ms k. (ms, k)) example_init (\<lambda>_. 0) 0)^** (online (\<lambda>_. []), []) (c, [''{if=15;dri=7}'']) \<and>
    list_all2 answers_dri (transmitted c) [''7'']"
proof -
  obtain c where c: "(device_step endless_queues (\<lambda>ms k. (ms, k)) example_init (\<lambda>_. 0) 0)^**
      (online (\<lambda>_. []), []) (c, [''{if=15;dri=7}''])" "core_world c = (\<lambda>_. [])"
    using online_run by blast
  have "kernel_queues endless_queues (\<lambda>w. w)"
    by (auto simp: kernel_queues_def endless_queues_def split: list.splits)
  moreover have "server_controls endless_queues"
    using example_stop_request by (auto simp: server_controls_def endless_queues_def example_frame_parsed control_request_def)
  moreover have "roomy endless_queues" by (simp add: roomy_def endless_queues_def)
  moreover have "requested [''{if=15;dri=7}''] = [''7'']"
    using text_dri_control [OF example_frame_parsed(2), of "''7''"] example_stop_request
    by (auto simp: requested_def control_request_def)
  ultimately obtain ds where "list_all2 answers_dri (transmitted c) ds" "[''7''] = ds"
    using session_answers [OF _ _ _ _ _ _ _ _ c(1), of "\<lambda>w. w"] c(2) by (auto simp: online_def example_core_def)
  with c(1) show ?thesis by blast
qed

end
