(* ===== verification/Registration.thy ===== *)
theory Registration
  imports LwmCore
begin

text \<open>
  How a device comes to be registered: \<^verbatim>\<open>start_apps\<close> puts the registration into the send queue, the
  sender writes it and waits for the answer, which makes it put the description of the device into
  the queue, and the answer to the description opens the device for requests
  (\<^verbatim>\<open>App/start_apps.c\<close>, \<^verbatim>\<open>SIFW/iw_fw_lwMsgCore.c\<close>).
\<close>

section \<open>A server that answers within ten seconds\<close>

text \<open>
  A world in which the network takes every text, the server's response to the last text arrives after
  fewer than 100 polls of the queue \<open>rq\<close>, and the queue \<open>sq\<close> keeps the messages \<open>out\<close> in order.
  \<open>reply\<close> is the response to a text.
\<close>

definition prompt_server ::
  "'w core_env \<Rightarrow> nat \<Rightarrow> nat \<Rightarrow> ('w \<Rightarrow> lwm_message list) \<Rightarrow> ('w \<Rightarrow> nat) \<Rightarrow> ('w \<Rightarrow> lwm_message)
    \<Rightarrow> (cstring \<Rightarrow> lwm_message) \<Rightarrow> bool" where
  "prompt_server env rq sq out wait due reply \<longleftrightarrow>
     (\<forall>q s t w. \<exists>w'. send_text env q s t w = (IW_SUCCESS, w') \<and> due w' = reply s \<and> wait w' < 100 \<and> out w' = out w) \<and>
     (\<forall>w. \<exists>w'. recv_msg env rq False w = (if wait w = 0 then Some (Some (due w)) else None, w') \<and>
        wait w' = wait w - 1 \<and> due w' = due w \<and> out w' = out w) \<and>
     (\<forall>m t w. \<exists>w'. send_msg env sq m t w = (IW_SUCCESS, w') \<and> out w' = out w @ [m]) \<and>
     (\<forall>w m ms. out w = m # ms \<longrightarrow> (\<exists>w'. recv_msg env sq True w = (Some (Some m), w') \<and> out w' = ms))"

lemma prompt_laws:
  assumes "prompt_server env rq sq out wait due reply"
  shows "\<exists>w'. send_text env q s t w = (IW_SUCCESS, w') \<and> due w' = reply s \<and> wait w' < 100 \<and> out w' = out w"
    and "\<exists>w'. recv_msg env rq False w = (if wait w = 0 then Some (Some (due w)) else None, w') \<and>
        wait w' = wait w - 1 \<and> due w' = due w \<and> out w' = out w"
    and "\<exists>w'. send_msg env sq m t w = (IW_SUCCESS, w') \<and> out w' = out w @ [m]"
    and "out w = m # ms \<Longrightarrow> \<exists>w'. recv_msg env sq True w = (Some (Some m), w') \<and> out w' = ms"
  using assms unfolding prompt_server_def by blast+

definition asleep :: "nat \<Rightarrow> 'w \<Rightarrow> 'w core \<Rightarrow> 'w core" where
  "asleep j w st = st\<lparr>core_events := core_events st @ replicate j (Slept 100), core_world := w\<rparr>"

lemma wait_over: "wait_response env create send_if d some True st = Inr (True, st)"
  by (subst wait_response.simps) simp

lemma wait_poll:
  "some < RESONSE_WAIT_TIME \<Longrightarrow> wait_response env create send_if d some False st =
    rbind (poll_response env create send_if d st) (\<lambda>(b, st). wait_response env create send_if d (some + 100) b st)"
  by (subst wait_response.simps) simp

lemma wait_prompt:
  assumes p: "prompt_server env rq sq out wait due reply" and rq: "rXrespMsg st = rq"
    and k: "wait (core_world st) < k" "k \<le> 100"
  shows "\<exists>w'. out w' = out (core_world st) \<and>
    (\<forall>st2. handle_response env create send_if (Some d) (due (core_world st)) (asleep (Suc (wait (core_world st))) w' st) = Inr (True, st2) \<longrightarrow>
      wait_response env create send_if (Some d) (100 * (100 - k)) False st = Inr (True, log_event (Freed (due (core_world st))) st2))"
  using rq k
proof (induction "wait (core_world st)" arbitrary: k st)
  case 0
  obtain w' where w': "recv_msg env rq False (core_world st) = (Some (Some (due (core_world st))), w')"
      "out w' = out (core_world st)"
    using prompt_laws(2) [OF p, of "core_world st"] 0(1) by auto
  have go: "100 * (100 - k) < RESONSE_WAIT_TIME" using 0(1,3,4) by simp
  have "poll_response env create send_if (Some d) st = rbind (handle_response env create send_if (Some d) (due (core_world st))
      (asleep 1 w' st)) (\<lambda>(b, st'). Inr (b, log_event (Freed (due (core_world st))) st'))"
    using w' 0(2) by (simp add: poll_response_def log_event_def asleep_def)
  then have "wait_response env create send_if (Some d) (100 * (100 - k)) False st = Inr (True, log_event (Freed (due (core_world st))) st2)"
    if "handle_response env create send_if (Some d) (due (core_world st)) (asleep 1 w' st) = Inr (True, st2)" for st2
    unfolding wait_poll [OF go] using that by (simp add: wait_over)
  with w'(2) 0(1) show ?case by (intro exI [of _ w']) simp
next
  case (Suc j)
  let ?w = "core_world st"
  obtain w1 where w1: "recv_msg env rq False ?w = (None, w1)" "wait w1 = j" "due w1 = due ?w" "out w1 = out ?w"
    using prompt_laws(2) [OF p, of ?w] Suc.hyps(2) [symmetric] by auto
  let ?st = "asleep 1 w1 st"
  have poll: "poll_response env create send_if (Some d) st = Inr (False, ?st)"
    using w1(1) Suc.prems(1) by (simp add: poll_response_def log_event_def asleep_def)
  obtain k' where k': "k = Suc k'" "j < k'" using Suc.prems(2) Suc.hyps(2) by (cases k) auto
  then have n: "100 * (100 - k) + 100 = 100 * (100 - k')" "100 * (100 - k) < RESONSE_WAIT_TIME"
    using Suc.prems(3) by simp_all
  have "\<exists>w'. out w' = out (core_world ?st) \<and>
    (\<forall>st2. handle_response env create send_if (Some d) (due (core_world ?st)) (asleep (Suc (wait (core_world ?st))) w' ?st) = Inr (True, st2) \<longrightarrow>
      wait_response env create send_if (Some d) (100 * (100 - k')) False ?st = Inr (True, log_event (Freed (due (core_world ?st))) st2))"
    using Suc.prems w1(2) k' by (intro Suc.hyps(1)) (simp_all add: asleep_def)
  then obtain w' where w': "out w' = out ?w"
    "\<And>st2. handle_response env create send_if (Some d) (due ?w) (asleep (Suc (Suc j)) w' st) = Inr (True, st2) \<Longrightarrow>
      wait_response env create send_if (Some d) (100 * (100 - k')) False ?st = Inr (True, log_event (Freed (due ?w)) st2)"
    using w1 by (auto simp: asleep_def)
  have "wait_response env create send_if (Some d) (100 * (100 - k)) False st =
      wait_response env create send_if (Some d) (100 * (100 - k')) False ?st"
    unfolding wait_poll [OF n(2)] n(1) by (simp add: poll)
  with w' Suc.hyps(2) show ?case by (intro exI [of _ w']) simp
qed

text \<open>A request that is answered in time is written once.\<close>

lemma transmit_prompt:
  assumes p: "prompt_server env rq sq out wait due reply" and rq: "rXrespMsg st = rq"
  shows "\<exists>w' j. out w' = out (core_world st) \<and>
    (\<forall>st2. handle_response env create send_if (Some d) (reply s)
        (st\<lparr>core_events := core_events st @ Transmitted s # replicate j (Slept 100), core_world := w'\<rparr>) = Inr (True, st2) \<longrightarrow>
      send_if = 1 \<or> send_if = 2 \<longrightarrow>
      transmit env create (Suc n) send_if (Some d) s 0 st = Inr (log_event (Freed (reply s)) st2))"
proof -
  obtain w where w: "send_text env (xNetworkTx st) s (xNetworkTxTask st) (core_world st) = (IW_SUCCESS, w)"
      "due w = reply s" "wait w < 100" "out w = out (core_world st)"
    using prompt_laws(1) [OF p] by blast
  let ?st = "log_event (Transmitted s) (st\<lparr>core_world := w\<rparr>)"
  have "send_network env s st = (IW_SUCCESS, ?st)" using w(1) by (simp add: send_network_def)
  moreover obtain w' where w': "out w' = out w"
    "\<forall>st2. handle_response env create send_if (Some d) (reply s) (asleep (Suc (wait w)) w' ?st) = Inr (True, st2) \<longrightarrow>
      wait_response env create send_if (Some d) 0 False ?st = Inr (True, log_event (Freed (reply s)) st2)"
    using wait_prompt [OF p, of ?st 100 create send_if d] w(2,3) rq by auto
  moreover have "asleep (Suc (wait w)) w' ?st =
      st\<lparr>core_events := core_events st @ Transmitted s # replicate (Suc (wait w)) (Slept 100), core_world := w'\<rparr>"
    by (cases st) (simp add: asleep_def log_event_def)
  ultimately show ?thesis
    using w(4) by (intro exI [of _ w'] exI [of _ "Suc (wait w)"]) auto
qed

declare transmit.simps [simp del]

section \<open>The exchange\<close>

text \<open>A message that goes out as a request with number \<open>d\<close>.\<close>

definition outgoing :: "32 word \<Rightarrow> cstring \<Rightarrow> lwm_message \<Rightarrow> bool" where
  "outgoing ifid d m \<longleftrightarrow> dict_lookup (header m) ''if'' \<noteq> None \<and> get_lwm_interface_id m = Inr ifid \<and>
     get_lwm_string_value (dict_lookup (header m) ''dri'') = Some d \<and> dict_lookup (header m) ''rsc'' = None"

lemma sender_round:
  assumes p: "prompt_server env (rXrespMsg c) (lwmsg_send_queue c) out wait due reply"
    and net: "get_lwmsg_network_enabled (core_lwm c)" "out (core_world c) = m # ms"
    and m: "outgoing ifid d m" "ifid = 1 \<or> ifid = 2" "serialize_lwm_message m = Inr s"
  shows "\<exists>w j. out w = ms \<and>
    (\<forall>st2. handle_response env create (sint ifid) (Some d) (reply s)
        (c\<lparr>core_events := core_events c @ Transmitted s # replicate j (Slept 100), core_world := w\<rparr>) = Inr (True, st2) \<longrightarrow>
      iw_fw_lwMsgTx env create (Suc n) c =
        Inr (log_event (Slept 10) (log_event (Freed m) (log_event (Freed_text s) (log_event (Freed (reply s)) st2)))))"
proof -
  obtain w1 where w1: "recv_msg env (lwmsg_send_queue c) True (core_world c) = (Some (Some m), w1)" "out w1 = ms"
    using prompt_laws(4) [OF p net(2)] by blast
  let ?c = "c\<lparr>core_world := w1\<rparr>"
  have "rXrespMsg ?c = rXrespMsg c" by simp
  from transmit_prompt [OF p this, of create "sint ifid" d s n] obtain w j where w: "out w = out w1"
    and t: "\<forall>st2. handle_response env create (sint ifid) (Some d) (reply s)
        (?c\<lparr>core_events := core_events ?c @ Transmitted s # replicate j (Slept 100), core_world := w\<rparr>) = Inr (True, st2) \<longrightarrow>
      sint ifid = 1 \<or> sint ifid = 2 \<longrightarrow>
      transmit env create (Suc n) (sint ifid) (Some d) s 0 ?c = Inr (log_event (Freed (reply s)) st2)"
    by auto
  have e: "?c\<lparr>core_events := core_events ?c @ Transmitted s # replicate j (Slept 100), core_world := w\<rparr> =
      c\<lparr>core_events := core_events c @ Transmitted s # replicate j (Slept 100), core_world := w\<rparr>"
    by (cases c) simp
  have i: "sint ifid = 1 \<or> sint ifid = 2" using m(2) by auto
  have "send_message env create (Suc n) m s ?c = transmit env create (Suc n) (sint ifid) (Some d) s 0 ?c"
    using m(1) by (cases "dict_lookup (header m) ''dri''")
      (auto simp: send_message_def outgoing_def get_lwm_string_value_def Let_def)
  then have "iw_fw_lwMsgTx env create (Suc n) c =
      Inr (log_event (Slept 10) (log_event (Freed m) (log_event (Freed_text s) (log_event (Freed (reply s)) st2))))"
    if "handle_response env create (sint ifid) (Some d) (reply s)
      (c\<lparr>core_events := core_events c @ Transmitted s # replicate j (Slept 100), core_world := w\<rparr>) = Inr (True, st2)" for st2
    using t [unfolded e, rule_format, OF that i] net(1) w1(1) m(3) by (simp add: iw_fw_lwMsgTx_def)
  with w w1(2) show ?thesis by blast
qed

lemma registration_outgoing: "outgoing 1 d (make_device_registration_lwmsg 1 (Some d) reg)"
  by (simp add: outgoing_def make_device_registration_lwmsg_def set_body_def new_lwm_req_message_def
      new_lwm_empty_message_def set_header_def dict_put_def new_lwm_string_object_def get_lwm_interface_id_def
      lwm_u32_def load_u32_bytes get_lwm_string_value_def Let_def)

lemma information_outgoing:
  assumes "make_device_information_lwmsg create 2 (Some d) (Some i) reg k = Inr (r, reg', k')"
  shows "outgoing 2 d r"
proof -
  obtain v where "r = set_body ''mif'' v (new_lwm_req_message 2 (Some d) (Some i))"
    using assms by (auto simp: make_device_information_lwmsg_def split: prod.splits)
  then show ?thesis
    by (simp add: outgoing_def set_body_def new_lwm_req_message_def new_lwm_empty_message_def set_header_def dict_put_def
        new_lwm_string_object_def get_lwm_interface_id_def lwm_u32_def load_u32_bytes get_lwm_string_value_def Let_def)
qed

lemma information_reply:
  assumes "is_success m" "get_lwm_string_value (dict_lookup (header m) ''dri'') = Some d"
  shows "handle_response env create 2 (Some d) m st =
    Inr (True, st\<lparr>core_registry := set_device_is_registered True (core_registry st)\<rparr>)"
  using assms by (auto simp: handle_response_def answers_def strcmp0_def is_success_def simp del: rbind_eq_Inr)

lemma set_handles_sel [simp]:
  "lwmsg_send_queue (set_lwmsg_receive_queue q st) = lwmsg_send_queue st"
  "core_registry (set_lwmsg_receive_queue q st) = core_registry st"
  "core_events (set_lwmsg_receive_queue q st) = core_events st"
  "core_world (set_lwmsg_receive_queue q st) = core_world st"
  "core_lwm (set_lwmsg_receive_queue q st) = core_lwm st"
  by (simp_all add: set_lwmsg_receive_queue_def)

lemma start_apps_queues_registration:
  assumes start: "start_apps env board generators n c0 = Inr c"
    and queue: "lwmsg_send_queue c0 = 0" "lwmsg_send_queue c \<noteq> 0"
    and dri: "lwmsg_tx_dri (core_lwm c0) = d" "0 < d" "d < 99999900"
  shows "core_registry c = generators (init_mservices (core_registry c0)) \<and> core_events c = core_events c0 \<and>
    lwmsg_tx_dri (core_lwm c) = d + 1 \<and>
    (\<exists>t. core_world c = snd (send_msg env (lwmsg_send_queue c)
        (make_device_registration_lwmsg 1 (Some (show_int d)) (core_registry c)) t (core_world c0)))"
proof -
  have d: "get_lwm_tx_dri l = Inr (show_int d, l\<lparr>lwmsg_tx_dri_str := show_int d, lwmsg_tx_dri := d + 1\<rparr>)"
    if "lwmsg_tx_dri l = d" for l
    using that dri(2,3) tx_dri_fits [of d] by (simp add: get_lwm_tx_dri_def store_cstring_def)
  have q: "set_lwmsg_send_queue env n q st = Inr (if q = 0 then st else st\<lparr>lwmsg_send_queue := q\<rparr>)"
    if "lwmsg_send_queue st = 0" for q and st :: "'a core"
    using that by (simp add: set_lwmsg_send_queue_def)
  show ?thesis
    using start queue dri(1)
    by (cases board) (auto simp: start_apps_def Let_def split_beta q d set_lwmsg_receive_task_def
        set_lwmsg_send_task_def request_lwmsg_def send_queue_def simp del: rbind_eq_Inr split: if_splits)
qed

lemma start_apps_runs:
  assumes "lwmsg_send_queue c0 = 0" "\<forall>i. k_handle (core_kernel c0) i \<noteq> 0"
    and "0 < lwmsg_tx_dri (core_lwm c0)" "lwmsg_tx_dri (core_lwm c0) < 99999900"
  shows "\<exists>c. start_apps env board generators n c0 = Inr c \<and> lwmsg_send_queue c \<noteq> 0"
proof -
  have nz: "k_handle (core_kernel c0) i \<noteq> 0" "0 < k_handle (core_kernel c0) i" for i using assms(2) by simp_all
  have "\<exists>p. get_lwm_tx_dri (core_lwm c0) = Inr p"
    using assms(3,4) tx_dri_fits [of "lwmsg_tx_dri (core_lwm c0)"] by (simp add: get_lwm_tx_dri_def store_cstring_def)
  moreover have "k_handle (snd (create_queue l s k)) = k_handle k" "k_handle (snd (create_task nm k)) = k_handle k"
      "fst (create_queue l s k) = k_handle k (k_count k)" for l s nm k
    by (simp_all add: create_queue_def create_task_def k_call_def Let_def)
  moreover have "lwmsg_send_queue (snd (request_lwmsg env m st)) = lwmsg_send_queue st" for m and st :: "'a core"
    by (simp add: request_lwmsg_def send_queue_def split_beta split: option.split)
  ultimately show ?thesis
    using assms(1) by (cases board) (auto simp: nz start_apps_def Let_def split_beta set_lwmsg_send_queue_def
        set_lwmsg_receive_task_def set_lwmsg_send_task_def simp del: rbind_eq_Inr)
qed

section \<open>The device is registered\<close>

text \<open>The network has come up and the sender has begun.\<close>

definition connected :: "'w core \<Rightarrow> 'w core" where
  "connected c = open_response_queue (c\<lparr>core_lwm := set_lwmsg_network_enabled True (core_lwm c)\<rparr>)"

lemma connected_sel [simp]:
  "lwmsg_send_queue (connected c) = lwmsg_send_queue c" "core_registry (connected c) = core_registry c"
  "core_world (connected c) = core_world c" "core_events (connected c) = core_events c"
  "get_lwmsg_network_enabled (core_lwm (connected c))" "lwmsg_tx_dri (core_lwm (connected c)) = lwmsg_tx_dri (core_lwm c)"
  by (simp_all add: connected_def open_response_queue_def set_lwmsg_network_enabled_def get_lwmsg_network_enabled_def split_beta)

definition accepts :: "lwm_message \<Rightarrow> cstring \<Rightarrow> bool" where
  "accepts m d \<longleftrightarrow> is_success m \<and> get_lwm_string_value (dict_lookup (header m) ''dri'') = Some d"

lemma first_numbers: "show_int 1 = ''1''" "show_int 2 = ''2''"
  by code_simp+

lemma log_event_more [simp]:
  "lwmsg_send_queue (log_event e st) = lwmsg_send_queue st" "core_lwm (log_event e st) = core_lwm st"
  "core_kernel (log_event e st) = core_kernel st"
  by (simp_all add: log_event_def)

lemma after_registration_sel [simp]:
  "lwmsg_send_queue (after_registration i reg k st) = lwmsg_send_queue st"
  "core_registry (after_registration i reg k st) = reg"
  "core_world (after_registration i reg k st) = core_world st"
  "rXrespMsg (after_registration i reg k st) = rXrespMsg st"
  "transmitted (after_registration i reg k st) = transmitted st"
  "get_lwmsg_network_enabled (core_lwm (after_registration i reg k st)) = get_lwmsg_network_enabled (core_lwm st)"
  "length i \<le> 14 \<Longrightarrow> get_lwm_di (core_lwm (after_registration i reg k st)) = i"
  by (simp_all add: after_registration_def get_lwmsg_network_enabled_def get_lwm_di_def transmitted_def Let_def)

lemma nothing_transmitted_asleep [simp]: "concat (map transmitted_text (replicate j (Slept n))) = []"
  by (induction j) simp_all

lemma transmitted_waiting [simp]:
  "transmitted (c\<lparr>core_events := core_events c @ Transmitted s # replicate j (Slept n), core_world := w\<rparr>) = transmitted c @ [s]"
  "transmitted (c\<lparr>core_events := core_events c @ Transmitted s # replicate j (Slept n)\<rparr>) = transmitted c @ [s]"
  "transmitted (c\<lparr>core_events := Transmitted s # replicate j (Slept n)\<rparr>) = [s]"
  by (simp_all add: transmitted_def)

text \<open>
  C9. The device gets registered. From the start of the applications on, when the network comes up and the server
  accepts the two requests, each within ten seconds, two rounds of the sender do it: the registration is written
  once, then the description of the device under the identifier the server gave; then the device is
  registered, knows this identifier, and the send queue is empty.
\<close>

theorem registration_completes:
  assumes start: "start_apps env board generators n c0 = Inr c" "lwmsg_send_queue c0 = 0" "lwmsg_send_queue c \<noteq> 0"
    and fresh: "lwmsg_tx_dri (core_lwm c0) = 1" "out (core_world c0) = []" "core_events c0 = []"
    and server: "prompt_server env (rXrespMsg (connected c)) (lwmsg_send_queue c) out wait due reply"
    and asked: "serialize_lwm_message (make_device_registration_lwmsg 1 (Some ''1'') (core_registry c)) = Inr s1"
    and given: "accepts (reply s1) ''1''" "get_lwm_string_value (dict_lookup (body (reply s1)) ''di'') = Some i" "length i \<le> 14"
    and described: "make_device_information_lwmsg create 2 (Some ''2'') (Some i) (core_registry c) (core_kernel (connected c))
        = Inr (m2, reg, k)" "serialize_lwm_message m2 = Inr s2"
    and accepted: "accepts (reply s2) ''2''"
  shows "\<exists>c1 c2. iw_fw_lwMsgTx env create (Suc n1) (connected c) = Inr c1 \<and> iw_fw_lwMsgTx env create (Suc n2) c1 = Inr c2 \<and>
    get_device_is_registered (core_registry c2) \<and> services (core_registry c2) = services reg \<and>
    get_lwm_di (core_lwm c2) = i \<and> transmitted c2 = [s1, s2] \<and> out (core_world c2) = []"
proof -
  let ?m1 = "make_device_registration_lwmsg 1 (Some ''1'') (core_registry c)"
  from start_apps_queues_registration [OF start fresh(1)] obtain t where c: "core_events c = []"
      "lwmsg_tx_dri (core_lwm c) = 2" "core_world c = snd (send_msg env (lwmsg_send_queue c) ?m1 t (core_world c0))"
    using fresh(3) by (auto simp: first_numbers)
  have "out (core_world c) = [?m1]" using prompt_laws(3) [OF server, of ?m1 t "core_world c0"] c(3) fresh(2) by auto
  then have "out (core_world (connected c)) = ?m1 # []" by simp
  moreover have "prompt_server env (rXrespMsg (connected c)) (lwmsg_send_queue (connected c)) out wait due reply"
    using server by simp
  ultimately obtain w j where w: "out w = []" and r: "\<And>st2. handle_response env create 1 (Some ''1'') (reply s1)
      (connected c\<lparr>core_events := core_events (connected c) @ Transmitted s1 # replicate j (Slept 100), core_world := w\<rparr>)
        = Inr (True, st2) \<Longrightarrow> iw_fw_lwMsgTx env create (Suc n1) (connected c) =
      Inr (log_event (Slept 10) (log_event (Freed ?m1) (log_event (Freed_text s1) (log_event (Freed (reply s1)) st2))))"
    using sender_round [where c = "connected c" and out = out and ifid = 1 and d = "''1''" and m = ?m1 and ms = "[]"
      and s = s1 and reply = reply and create = create and n = n1 and wait = wait and due = due and env = env]
      registration_outgoing asked connected_sel(5) by auto
  let ?st = "connected c\<lparr>core_events := core_events (connected c) @ Transmitted s1 # replicate j (Slept 100), core_world := w\<rparr>"
  let ?st2 = "snd (request_lwmsg env (Some m2) (after_registration i reg k ?st))"
  have "handle_response env create 1 (Some ''1'') (reply s1) ?st = Inr (True, ?st2)"
    using registration_reply [of "reply s1" "''1''" i 2 ?st env create] given c(2) described(1)
    by (simp add: accepts_def first_numbers)
  then obtain c1 where c1: "iw_fw_lwMsgTx env create (Suc n1) (connected c) = Inr c1"
      "c1 = log_event (Slept 10) (log_event (Freed ?m1) (log_event (Freed_text s1) (log_event (Freed (reply s1)) ?st2)))"
    using r by blast
  obtain w2 where w2: "send_msg env (lwmsg_send_queue c) m2 (lwmsg_send_task (after_registration i reg k ?st)) w = (IW_SUCCESS, w2)" "out w2 = [m2]"
    using prompt_laws(3) [OF server, of m2 _ w] w by auto
  have st2: "?st2 = (after_registration i reg k ?st)\<lparr>core_world := w2\<rparr>"
    using w2(1) start(3) by (simp add: request_lwmsg_def send_queue_def)
  have f1: "out (core_world c1) = m2 # []" "get_lwmsg_network_enabled (core_lwm c1)" "lwmsg_send_queue c1 = lwmsg_send_queue c"
      "rXrespMsg c1 = rXrespMsg (connected c)" "transmitted c1 = [s1]" "core_registry c1 = reg" "get_lwm_di (core_lwm c1) = i"
    unfolding c1(2) st2 using w2(2) given(3) connected_sel(5) [of c] c(1) by (simp_all add: transmitted_def [of "connected c"])
  have server1: "prompt_server env (rXrespMsg c1) (lwmsg_send_queue c1) out wait due reply"
    using server f1(3,4) by simp
  obtain w' j' where w': "out w' = []" and r2: "\<And>st2. handle_response env create 2 (Some ''2'') (reply s2)
      (c1\<lparr>core_events := core_events c1 @ Transmitted s2 # replicate j' (Slept 100), core_world := w'\<rparr>)
        = Inr (True, st2) \<Longrightarrow> iw_fw_lwMsgTx env create (Suc n2) c1 =
      Inr (log_event (Slept 10) (log_event (Freed m2) (log_event (Freed_text s2) (log_event (Freed (reply s2)) st2))))"
    using sender_round [where c = c1 and out = out and ifid = 2 and d = "''2''" and m = m2 and ms = "[]"
      and s = s2 and reply = reply and create = create and n = n2 and wait = wait and due = due and env = env]
      server1 f1(1,2) information_outgoing [OF described(1)] described(2) by auto
  let ?st1 = "c1\<lparr>core_events := core_events c1 @ Transmitted s2 # replicate j' (Slept 100), core_world := w'\<rparr>"
  have "handle_response env create 2 (Some ''2'') (reply s2) ?st1 =
      Inr (True, ?st1\<lparr>core_registry := set_device_is_registered True reg\<rparr>)"
    using information_reply [of "reply s2" "''2''" env create ?st1] accepted f1(6) by (simp add: accepts_def)
  from r2 [OF this] c1(1) f1 w' show ?thesis
    by (simp add: get_device_is_registered_def set_device_is_registered_def)
qed

definition example_reply :: "cstring \<Rightarrow> lwm_dict \<Rightarrow> lwm_message" where
  "example_reply d b = \<lparr>header = [(''dri'', LWM_String (Some d)), (''rsc'', LWM_String (Some ''200''))], body = b\<rparr>"

definition example_server :: "cstring \<Rightarrow> lwm_message" where
  "example_server s = (if s = ''{dri=1;if=1}{mis=[ms1]}'' then example_reply ''1'' [(''di'', LWM_String (Some ''dev''))]
     else example_reply ''2'' [])"

text \<open>The world of the example: the queue of the sender, the polls until the response, and the response.\<close>

definition example_world :: "(lwm_message list \<times> nat \<times> lwm_message) core_env" where
  "example_world = \<lparr>recv_text = \<lambda>_ w. (None, w), send_text = \<lambda>_ s _ (out, _, _). (IW_SUCCESS, (out, 3, example_server s)),
     recv_msg = \<lambda>_ b (out, wait, due). if b
       then (case out of [] \<Rightarrow> (None, (out, wait, due)) | m # ms \<Rightarrow> (Some (Some m), (ms, wait, due)))
       else (if wait = 0 then Some (Some due) else None, (out, wait - 1, due)),
     send_msg = \<lambda>_ m _ (out, wait, due). (IW_SUCCESS, (out @ [m], wait, due))\<rparr>"

definition example_start :: "(lwm_message list \<times> nat \<times> lwm_message) core" where
  "example_start = (example_core ([], 0, example_reply [] []))\<lparr>lwmsg_send_queue := 0, rXrespMsg := 0\<rparr>"

definition example_services :: "registry \<Rightarrow> registry" where
  "example_services r = snd (add_micro_service (Some (make_ms ''led'' ''ms1'')) r)"

abbreviation "example_devices \<equiv> \<lparr>services = [make_ms ''led'' ''ms1''], device_registered = False\<rparr>"

lemma example_asks: "serialize_lwm_message (make_device_registration_lwmsg 1 (Some ''1'') example_devices)
    = Inr ''{dri=1;if=1}{mis=[ms1]}''"
  by code_simp

lemma example_describes:
  "\<exists>m r k'. make_device_information_lwmsg (\<lambda>ms k. (ms, k)) 2 (Some ''2'') (Some ''dev'') example_devices k = Inr (m, r, k') \<and>
    serialize_lwm_message m = Inr ''{di=dev;dri=2;if=2}{mif=[{mi=ms1}]}''"
proof -
  let ?m = "set_body ''mif'' (LWM_Array [LWM_Dictionary [(''mi'', LWM_String (Some ''ms1''))]])
    (new_lwm_req_message 2 (Some ''2'') (Some ''dev''))"
  have "serialize_lwm_message ?m = Inr ''{di=dev;dri=2;if=2}{mif=[{mi=ms1}]}''" by code_simp
  then show ?thesis
    by (simp add: make_device_information_lwmsg_def described_service_def service_outputs_def make_ms_def split_beta
        node_num_def dict_put_def new_lwm_string_object_def Let_def del: rbind_eq_Inr)
qed

lemma example_prompt:
  "prompt_server example_world rq sq fst (\<lambda>w. fst (snd w)) (\<lambda>w. snd (snd w)) example_server"
  by (auto simp: prompt_server_def example_world_def split_beta)

lemma registration_completes_witness:
  "\<exists>c c1 c2. start_apps example_world True example_services 1 example_start = Inr c \<and>
    iw_fw_lwMsgTx example_world (\<lambda>ms k. (ms, k)) 1 (connected c) = Inr c1 \<and>
    iw_fw_lwMsgTx example_world (\<lambda>ms k. (ms, k)) 1 c1 = Inr c2 \<and>
    get_device_is_registered (core_registry c2) \<and> get_lwm_di (core_lwm c2) = ''dev'' \<and>
    transmitted c2 = [''{dri=1;if=1}{mis=[ms1]}'', ''{di=dev;dri=2;if=2}{mif=[{mi=ms1}]}'']"
proof -
  have fresh: "lwmsg_tx_dri (core_lwm example_start) = 1" "fst (core_world example_start) = []"
      "core_events example_start = []" "lwmsg_send_queue example_start = 0"
    by (simp_all add: example_start_def example_core_def lwm_state0_def)
  have "\<forall>i. k_handle (core_kernel example_start) i \<noteq> 0"
    by (simp add: example_start_def example_core_def example_kernel_def)
  with start_apps_runs [of example_start] fresh obtain c where
    c: "start_apps example_world True example_services 1 example_start = Inr c" "lwmsg_send_queue c \<noteq> 0" by force
  from start_apps_queues_registration [OF c(1) fresh(4) c(2) fresh(1)]
  have reg: "core_registry c = example_devices"
    by (simp add: example_start_def example_core_def example_services_def add_micro_service_def init_mservices_def)
  obtain m r k' where m: "make_device_information_lwmsg (\<lambda>ms k. (ms, k)) 2 (Some ''2'') (Some ''dev'') (core_registry c)
        (core_kernel (connected c)) = Inr (m, r, k')" "serialize_lwm_message m = Inr ''{di=dev;dri=2;if=2}{mif=[{mi=ms1}]}''"
    using example_describes [of "core_kernel (connected c)"] reg by auto
  have "accepts (example_server ''{dri=1;if=1}{mis=[ms1]}'') ''1''"
      "get_lwm_string_value (dict_lookup (body (example_server ''{dri=1;if=1}{mis=[ms1]}'')) ''di'') = Some ''dev''"
      "accepts (example_server ''{di=dev;dri=2;if=2}{mif=[{mi=ms1}]}'') ''2''"
    by (simp_all add: example_server_def example_reply_def accepts_def is_success_def get_lwm_string_value_def)
  then show ?thesis
    using registration_completes [where ?n1.0 = 0 and ?n2.0 = 0, OF c(1) fresh(4) c(2) fresh(1) _ fresh(3) example_prompt _ _ _ _ m] fresh(2)
      example_asks c reg by auto
qed

end
