(* ===== verification/DeviceLife.thy ===== *)
theory DeviceLife
  imports ServiceMacros Session Registration
begin

text \<open>
  The services under all three tasks: a round of the receiver, of the request task or of the sender
  (\<^verbatim>\<open>SIFW/iw_fw_lwMsgCore.c\<close>, \<^verbatim>\<open>SIFW/task_lwmsg_dist.c\<close>) is a sequence of steps of
  single services, also the round in which the device describes itself after its registration. So what
  the kernel holds is known from \<^verbatim>\<open>start_apps\<close> on.
\<close>

section \<open>What a round leaves alone\<close>

definition core_host :: "'w core \<Rightarrow> micro_service list \<times> kernel" where
  "core_host c = (services (core_registry c), core_kernel c)"

definition core_handles :: "'w core \<Rightarrow> nat list \<times> nat list" where
  "core_handles c = ([xNetworkRx c, xNetworkTx c, rXrespMsg c, lwmsg_receive_queue c, lwmsg_send_queue c],
     [xNetworkTxTask c, xNetworkRxTask c, lwmsg_receive_task c, lwmsg_send_task c])"

text \<open>The services make steps, and the queues and tasks of the framework stay.\<close>

definition core_serves :: "create_fn \<Rightarrow> init_handler \<Rightarrow> 'w core \<Rightarrow> 'w core \<Rightarrow> bool" where
  "core_serves create init c c' \<longleftrightarrow>
     (registry_step create init)^** (core_host c) (core_host c') \<and> core_handles c' = core_handles c"

lemma core_update [simp]:
  "core_host (c\<lparr>core_world := w\<rparr>) = core_host c" "core_handles (c\<lparr>core_world := w\<rparr>) = core_handles c"
  "core_host (log_event e c) = core_host c" "core_handles (log_event e c) = core_handles c"
  "core_handles (c\<lparr>core_registry := r\<rparr>) = core_handles c" "core_handles (c\<lparr>core_kernel := k\<rparr>) = core_handles c"
  "core_host (c\<lparr>core_lwm := l\<rparr>) = core_host c" "core_handles (c\<lparr>core_lwm := l\<rparr>) = core_handles c"
  "core_host (c\<lparr>core_registry := r, core_kernel := k\<rparr>) = (services r, k)"
  by (simp_all add: core_host_def core_handles_def log_event_def)

lemma core_sent [simp]:
  "core_host (snd (send_queue env q m t c)) = core_host c" "core_handles (snd (send_queue env q m t c)) = core_handles c"
  "core_host (snd (response_lwmsg env r c)) = core_host c" "core_handles (snd (response_lwmsg env r c)) = core_handles c"
  "core_host (snd (request_lwmsg env r c)) = core_host c" "core_handles (snd (request_lwmsg env r c)) = core_handles c"
  "core_host (snd (send_network env s c)) = core_host c" "core_handles (snd (send_network env s c)) = core_handles c"
  by (simp_all add: send_queue_def response_lwmsg_def request_lwmsg_def send_network_def split_beta Let_def
      split: option.split)

lemma core_performed [simp]:
  "core_host (fold (perform env) es c) = core_host c" "core_handles (fold (perform env) es c) = core_handles c"
  by (induction es arbitrary: c) (simp_all add: perform_def split: dist_event.split)

lemma core_serves_refl [simp]: "core_serves create init c c"
  by (simp add: core_serves_def)

lemma core_serves_trans:
  "core_serves create init c c1 \<Longrightarrow> core_serves create init c1 c2 \<Longrightarrow> core_serves create init c c2"
  unfolding core_serves_def by (auto intro: rtranclp_trans)

lemma core_serves_same:
  "core_host c1 = core_host c \<Longrightarrow> core_handles c1 = core_handles c \<Longrightarrow> core_serves create init c c1"
  by (simp add: core_serves_def)

lemma core_serves_right [simp]:
  "core_serves create init c (log_event e c') = core_serves create init c c'"
  "core_serves create init c (c'\<lparr>core_world := w\<rparr>) = core_serves create init c c'"
  by (simp_all add: core_serves_def)

lemma core_serves_left [simp]:
  "core_serves create init (log_event e c) c' = core_serves create init c c'"
  "core_serves create init (c\<lparr>core_world := w\<rparr>) c' = core_serves create init c c'"
  by (simp_all add: core_serves_def)

section \<open>The rounds\<close>

lemma receiver_serves:
  assumes "iw_fw_lwMsgRx env c = Inr c'"
  shows "core_serves create init c c'"
proof -
  have "core_host (route_message env m c1) = core_host c1" "core_handles (route_message env m c1) = core_handles c1" for m and c1 :: "'a core"
    by (simp_all add: route_message_def Let_def split_beta)
  with assms show ?thesis
    by (auto simp: iw_fw_lwMsgRx_def intro!: core_serves_same split: option.splits prod.splits)
qed

lemma accept_registration_serves:
  assumes "accept_registration env create m c = Inr c'"
  shows "core_serves create init c c'"
proof -
  obtain dri di r reg k l where d: "make_device_information_lwmsg create 2 (Some dri) di (core_registry c) (core_kernel c) = Inr (r, reg, k)"
      "c' = snd (request_lwmsg env (Some r) (c\<lparr>core_lwm := l, core_registry := reg, core_kernel := k\<rparr>))"
    using assms by (auto simp: accept_registration_def Let_def)
  then obtain xs where "describe_services create service_outputs (services (core_registry c)) (core_kernel c) = Inr (xs, services reg, k)"
    by (auto simp: make_device_information_lwmsg_def)
  from describe_serves [OF this, of init "[]"]
  have "(registry_step create init)^** (core_host c) (services reg, k)" by (simp add: core_host_def)
  with d(2) show ?thesis by (simp add: core_serves_def)
qed

lemma handle_response_serves:
  assumes "handle_response env create send_if dri m c = Inr (b, c')"
  shows "core_serves create init c c'"
proof -
  have "c' = c \<or> accept_registration env create m c = Inr c' \<or>
      c' = c\<lparr>core_registry := set_device_is_registered True (core_registry c)\<rparr>"
    using assms by (auto simp: handle_response_def Let_def split: if_splits)
  then show ?thesis
    by (auto intro: accept_registration_serves core_serves_same
        simp: core_host_def core_handles_def set_device_is_registered_def)
qed

lemma poll_response_serves:
  assumes "poll_response env create send_if dri c = Inr (b, c')"
  shows "core_serves create init c c'"
proof -
  obtain r w where r: "recv_msg env (rXrespMsg c) False (core_world c) = (r, w)"
    by (cases "recv_msg env (rXrespMsg c) False (core_world c)")
  show ?thesis
  proof (cases "\<exists>m. r = Some (Some m)")
    case False
    with assms r show ?thesis by (auto simp: poll_response_def Let_def core_serves_def core_host_def core_handles_def log_event_def
          split: option.splits)
  next
    case True
    then obtain m where m: "r = Some (Some m)" by blast
    obtain c1 where "handle_response env create send_if dri m ((log_event (Slept 100) c)\<lparr>core_world := w\<rparr>) = Inr (b, c1)"
        "c' = log_event (Freed m) c1"
      using assms r m by (auto simp: poll_response_def Let_def log_event_def)
    with handle_response_serves [OF this(1), of init] show ?thesis by simp
  qed
qed

lemma wait_response_serves:
  assumes "wait_response env create send_if dri some stop c = Inr (b, c')"
  shows "core_serves create init c c'"
  using assms
proof (induction env create send_if dri some stop c arbitrary: b c' rule: wait_response.induct)
  case (1 env create send_if dri some stop c)
  show ?case
  proof (cases "some < RESONSE_WAIT_TIME \<and> \<not> stop")
    case True
    with "1.prems" obtain b1 c1 where p: "poll_response env create send_if dri c = Inr (b1, c1)"
        "wait_response env create send_if dri (some + 100) b1 c1 = Inr (b, c')"
      by (subst (asm) wait_response.simps) auto
    from poll_response_serves [OF p(1)] "1.IH" [OF True p(1) refl p(2)] show ?thesis
      by (rule core_serves_trans)
  next
    case False
    with "1.prems" show ?thesis by (subst (asm) wait_response.simps) auto
  qed
qed

lemma transmit_serves:
  assumes "transmit env create n send_if dri s i c = Inr c'"
  shows "core_serves create init c c'"
  using assms
proof (induction n arbitrary: i c)
  case (Suc n)
  show ?case
  proof (cases "i < RETRANSMISSION_COUNT \<or> send_if = 1")
    case False
    with Suc.prems show ?thesis by simp
  next
    case True
    obtain e c1 where c1: "send_network env s c = (e, c1)" by (cases "send_network env s c")
    then have same: "core_serves create init c c1"
      using core_sent(7,8) [of env s c] by (intro core_serves_same) simp_all
    have again: "core_serves create init c1 c'" if "i \<noteq> 2 ^ 31 - 1" "transmit env create n send_if dri s (i + 1) c2 = Inr c'"
        "core_serves create init c1 c2" for c2
      using core_serves_trans [OF that(3) Suc.IH [OF that(2)]] .
    have "core_serves create init c1 c'"
    proof (cases "e = IW_SUCCESS")
      case False
      with Suc.prems True c1 show ?thesis
        by (intro again [of "log_event (Slept 10) c1"]) (auto split: if_splits)
    next
      case ok: True
      with Suc.prems True c1 obtain b c2 where w: "wait_response env create send_if dri 0 False c1 = Inr (b, c2)"
          "b \<longrightarrow> c' = c2" "\<not> b \<longrightarrow> i \<noteq> 2 ^ 31 - 1 \<and> transmit env create n send_if dri s (i + 1) c2 = Inr c'"
        by (auto split: if_splits)
      with again [OF _ _ wait_response_serves [OF w(1)]] wait_response_serves [OF w(1), of init] show ?thesis by (cases b) auto
    qed
    with same show ?thesis by (rule core_serves_trans)
  qed
qed simp

lemma sender_serves:
  assumes "iw_fw_lwMsgTx env create n c = Inr c'"
  shows "core_serves create init c c'"
proof -
  have send: "core_serves create init c1 c2" if "send_message env create n m s c1 = Inr c2" for m s and c1 c2 :: "'a core"
    using that core_sent(7,8) [of env s c1]
    by (auto simp: send_message_def Let_def intro: transmit_serves core_serves_same split: if_splits)
  obtain r w where r: "recv_msg env (lwmsg_send_queue c) True (core_world c) = (r, w)"
    by (cases "recv_msg env (lwmsg_send_queue c) True (core_world c)")
  show ?thesis
  proof (cases "get_lwmsg_network_enabled (core_lwm c) \<and> (\<exists>m. r = Some (Some m))")
    case False
    with assms r show ?thesis by (auto simp: iw_fw_lwMsgTx_def split: option.splits if_splits)
  next
    case True
    with assms r obtain m s c1 where "send_message env create n m s (c\<lparr>core_world := w\<rparr>) = Inr c1"
        "c' = log_event (Slept 10) (log_event (Freed m) (log_event (Freed_text s) c1))"
      by (auto simp: iw_fw_lwMsgTx_def)
    with send [OF this(1)] show ?thesis by simp
  qed
qed

context hosted_application
begin

lemma dist_round_serves:
  assumes few: "2 * n < 256" and "hosted B n (core_host c)" "dist_round env create init addr c = Inr c'"
  shows "core_serves create init c c'"
proof -
  obtain r w where r: "recv_msg env (lwmsg_receive_queue c) True (core_world c) = (r, w)"
    by (cases "recv_msg env (lwmsg_receive_queue c) True (core_world c)")
  show ?thesis
  proof (cases r)
    case None
    with assms(3) r show ?thesis by (auto simp: dist_round_def)
  next
    case (Some m)
    let ?d = "\<lparr>d_registry = core_registry c, d_kernel = core_kernel c, d_events = []\<rparr>"
    obtain d where d: "lwmsg_dist_step create init addr m ?d = Inr d"
        "c' = log_event (Slept 10) (fold (perform env) (d_events d)
          (c\<lparr>core_world := w, core_registry := d_registry d, core_kernel := d_kernel d\<rparr>))"
      using assms(3) r Some by (auto simp: dist_round_def)
    have "host ?d = core_host c" by (simp add: host_def core_host_def)
    with dist_step_serves [OF few _ d(1)] assms(2) d(2) show ?thesis
      by (simp add: core_serves_def serves_def host_def)
  qed
qed

lemma device_step_serves:
  assumes few: "2 * n < 256" and "device_step env create init addr fuel (c, ss) (c', ss')" "hosted B n (core_host c)"
  shows "core_serves create init c c'"
  using assms(2)
  by (rule device_stepE) (auto intro: receiver_serves sender_serves dist_round_serves [OF few assms(3)])

lemma device_steps_serve:
  assumes few: "2 * n < 256" and "(device_step env create init addr fuel)^** (c, ss) (c', ss')" "hosted B n (core_host c)"
  shows "core_serves create init c c' \<and> hosted B n (core_host c')"
  using assms(2,3)
proof (induction rule: rtranclp_induct2)
  case (step c1 ss1 c2 ss2)
  then have 1: "core_serves create init c c1" "hosted B n (core_host c1)" by blast+
  from device_step_serves [OF few step.hyps(2) 1(2)] have 2: "core_serves create init c1 c2" .
  then have "hosted B n (core_host c2)" using reachable_hosted [OF few _ 1(2)] by (simp add: core_serves_def)
  with core_serves_trans [OF 1(1) 2] show ?case ..
qed simp

end

section \<open>From the start of the applications on\<close>

text \<open>What the framework itself holds; only two of the boards have a task of the network.\<close>

definition framework_objects :: "bool \<Rightarrow> 'w core \<Rightarrow> handle multiset" where
  "framework_objects board c = (case core_handles c of (qs, ts) \<Rightarrow>
     mset (map Inl qs) + mset (map Inr (if board then ts else tl ts)))"

text \<open>A kernel whose next objects get handles that are not 0.\<close>

definition fresh_kernel :: "handle multiset \<Rightarrow> kernel \<Rightarrow> bool" where
  "fresh_kernel B k \<longleftrightarrow> (\<forall>i. k_handle k i \<noteq> 0) \<and> live k = B \<and> held k = Some False"

lemma fresh_create:
  assumes "fresh_kernel B k"
  shows "fst (create_queue l s k) \<noteq> 0" "fresh_kernel (B + {#Inl (fst (create_queue l s k))#}) (snd (create_queue l s k))"
    "fresh_kernel (B + {#Inr (fst (create_task nm k))#}) (snd (create_task nm k))"
  using assms by (simp_all add: fresh_kernel_def create_queue_def create_task_def Let_def ms_simps handle_if_def k_call_def
      live_def held_def lock_run_append)

lemma start_apps_objects:
  assumes start: "start_apps env board generators n c0 = Inr c" "lwmsg_send_queue c0 = 0" "rXrespMsg c0 = 0"
    and kernel: "fresh_kernel {#} (core_kernel c0)"
  shows "fst (core_host (connected c)) = services (generators (init_mservices (core_registry c0))) \<and>
    fresh_kernel (framework_objects board (connected c)) (snd (core_host (connected c)))"
proof -
  obtain rx k1 tx k2 nt k3 rq k4 sq k5 dt k6 st k7 rt k8 where k: "create_queue 10 128 (core_kernel c0) = (rx, k1)"
      "create_queue 10 256 k1 = (tx, k2)" "(if board then create_task ''wifi_task'' k2 else (xNetworkTxTask c0, k2)) = (nt, k3)"
      "create_queue mainQUEUE_LENGTH sizeof_ptr k3 = (rq, k4)" "create_queue mainQUEUE_LENGTH sizeof_ptr k4 = (sq, k5)"
      "create_task ''lwmsg_dist_task'' k5 = (dt, k6)" "create_task ''iw_fw_lwMsgTx'' k6 = (st, k7)" "create_task ''iw_fw_lwMsgRx'' k7 = (rt, k8)"
    by (metis surj_pair)
  note f1 = fresh_create(2) [OF kernel, of 10 128, unfolded k fst_conv snd_conv]
  note f2 = fresh_create(2) [OF f1, of 10 256, unfolded k fst_conv snd_conv]
  have f3: "fresh_kernel ({#} + {#Inl rx#} + {#Inl tx#} + (if board then {#Inr nt#} else {#})) k3"
    using fresh_create(3) [OF f2, of "''wifi_task''"] f2 k(3) by (cases board) auto
  note f4 = fresh_create(2) [OF f3, of mainQUEUE_LENGTH sizeof_ptr, unfolded k fst_conv snd_conv]
  note f5 = fresh_create(2) [OF f4, of mainQUEUE_LENGTH sizeof_ptr, unfolded k fst_conv snd_conv]
  note f6 = fresh_create(3) [OF f5, of "''lwmsg_dist_task''", unfolded k fst_conv snd_conv]
  note f7 = fresh_create(3) [OF f6, of "''iw_fw_lwMsgTx''", unfolded k fst_conv snd_conv]
  note f8 = fresh_create(3) [OF f7, of "''iw_fw_lwMsgRx''", unfolded k fst_conv snd_conv]
  have "rq \<noteq> 0" "sq \<noteq> 0"
    using fresh_create(1) [OF f3, of mainQUEUE_LENGTH sizeof_ptr] fresh_create(1) [OF f4, of mainQUEUE_LENGTH sizeof_ptr] k(4,5)
    by simp_all
  then have c: "core_host c = (services (generators (init_mservices (core_registry c0))), k8) \<and>
      core_handles c = ([rx, tx, 0, rq, sq], [nt, rt, dt, st])"
    using start k(1,2,4-) k(3)
    by (cases board; auto simp: start_apps_def Let_def set_lwmsg_receive_queue_def set_lwmsg_send_queue_def
        set_lwmsg_receive_task_def set_lwmsg_send_task_def)
      (simp_all add: core_host_def core_handles_def)
  obtain xr k9 where q: "create_queue mainQUEUE_LENGTH sizeof_ptr k8 = (xr, k9)" by fastforce
  note f9 = fresh_create(2) [OF f8, of mainQUEUE_LENGTH sizeof_ptr, unfolded q fst_conv snd_conv]
  have "core_host (connected c) = (services (generators (init_mservices (core_registry c0))), k9)"
      "core_handles (connected c) = ([rx, tx, xr, rq, sq], [nt, rt, dt, st])"
    using c q by (simp_all add: connected_def open_response_queue_def core_host_def core_handles_def)
  then show ?thesis using f9 by (cases board) (simp_all add: framework_objects_def add_mset_commute)
qed

text \<open>
  C7. The whole device loses nothing. From the start of the applications on, in whatever order the receiver, the
  request task and the sender make their rounds, and whatever the server sends, the kernel holds the queues
  and tasks of the framework and those that the tasks of the services own, and nothing else; the lock is free; a
  service that is not ready owns nothing; and every task stays well typed. This includes the rounds in which the
  device describes itself, where every service that does not run is created and deleted again.
\<close>

theorem device_loses_nothing:
  assumes "hosted_application create init m" "typed_application create init" "2 * m < 256"
    and "start_apps env board generators n c0 = Inr c" "lwmsg_send_queue c0 = 0" "rXrespMsg c0 = 0"
    and "fresh_kernel {#} (core_kernel c0)"
    and "new_services (services (generators (init_mservices (core_registry c0))))"
    and "(device_step env create init addr fuel)^** (connected c, []) (c', ss)"
  shows "live (core_kernel c') = framework_objects board c' + owned_by (services (core_registry c')) \<and>
    held (core_kernel c') = Some False \<and>
    (\<forall>ms \<in> set (services (core_registry c')). (ms_state ms = NOT_READY \<longrightarrow> tasks ms = []) \<and>
      (\<forall>t \<in> set (tasks ms). well_typed t))"
proof -
  let ?B = "framework_objects board (connected c)"
  have f: "fst (core_host (connected c)) = services (generators (init_mservices (core_registry c0)))"
      "live (snd (core_host (connected c))) = ?B" "held (snd (core_host (connected c))) = Some False"
    using start_apps_objects [OF assms(4-7)] by (simp_all add: fresh_kernel_def)
  have n: "new_services (fst (core_host (connected c)))" using f(1) assms(8) by simp
  have new: "hosted ?B m (core_host (connected c))" "\<forall>ms \<in> set (fst (core_host (connected c))). tasks_typed ms"
    using new_services_hosted [OF n f(2,3)] by simp_all
  from hosted_application.device_steps_serve [OF assms(1,3,9) new(1)]
  have s: "(registry_step create init)^** (core_host (connected c)) (core_host c')" "core_handles c' = core_handles (connected c)"
      "hosted ?B m (core_host c')"
    by (simp_all add: core_serves_def)
  from reachable_registry_typed [OF assms(2) s(1) new(2)] s(2,3) show ?thesis
    by (auto simp: hosted_def core_host_def tasks_typed_def framework_objects_def)
qed

text \<open>A kernel in whose queue for requests the creation of a service waits.\<close>

definition create_line :: "bool core_env" where
  "create_line = \<lparr>recv_text = \<lambda>_ w. (None, w), send_text = \<lambda>_ _ _ w. (IW_SUCCESS, w),
     recv_msg = \<lambda>_ _ w. (if w then Some (Some (create_request ''ms1'')) else None, False),
     send_msg = \<lambda>_ _ _ w. (IW_SUCCESS, w)\<rparr>"

lemma device_loses_nothing_witness:
  "\<exists>c c'. start_apps create_line True example_services 1 ((example_core True)\<lparr>lwmsg_send_queue := 0, rXrespMsg := 0\<rparr>) = Inr c \<and>
    dist_round create_line (written_create (\<lambda>_. example_program)) (sizes_init (\<lambda>i. (Suc (example_insz i), 4))) (\<lambda>_. 0) (connected c) = Inr c' \<and>
    live (core_kernel c') = framework_objects True c' + owned_by (services (core_registry c'))"
proof -
  let ?C = "written_create (\<lambda>_. example_program)" and ?I = "sizes_init (\<lambda>i. (Suc (example_insz i), 4))"
  let ?c0 = "(example_core True)\<lparr>lwmsg_send_queue := 0, rXrespMsg := 0\<rparr>"
  have s: "lwmsg_send_queue ?c0 = 0" "rXrespMsg ?c0 = 0" "fresh_kernel {#} (core_kernel ?c0)"
      "new_services (services (example_services (init_mservices (core_registry ?c0))))"
    by (auto simp: example_core_def example_kernel_def fresh_kernel_def live_def held_def
        example_services_def add_micro_service_def init_mservices_def new_services_def)
  then obtain c where c: "start_apps create_line True example_services 1 ?c0 = Inr c" and q: "lwmsg_send_queue c \<noteq> 0"
    using start_apps_runs [of ?c0] by (force simp: fresh_kernel_def example_core_def lwm_state0_def)
  obtain d where "lwmsg_dist_step ?C ?I (\<lambda>_. 0) (Some (create_request ''ms1''))
      \<lparr>d_registry = core_registry (connected c), d_kernel = core_kernel (connected c), d_events = []\<rparr> = Inr d"
    using create_request_served by blast
  moreover have "core_world (connected c)"
    using start_apps_queues_registration [OF c s(1) q refl] by (simp add: create_line_def example_core_def lwm_state0_def)
  ultimately obtain c' where c': "dist_round create_line ?C ?I (\<lambda>_. 0) (connected c) = Inr c'"
    by (simp add: dist_round_def create_line_def)
  have "hosted_application ?C ?I 3"
    using written_hosted [of "\<lambda>_. example_program" 3 example_insz "\<lambda>_. 4"] example_program_fits(2) by simp
  moreover have "typed_application ?C ?I" by (rule written_typed)
  moreover have "(device_step create_line ?C ?I (\<lambda>_. 0) 1)^** (connected c, []) (c', [])"
    using c' by (intro r_into_rtranclp Work)
  ultimately show ?thesis
    using c c' device_loses_nothing [OF _ _ _ c s, of ?C ?I 3 "\<lambda>_. 0" 1 c' "[]"] by simp
qed

end
