(* ===== verification/Interface.thy ===== *)
theory Interface
  imports SystemStatus OalList
begin

text \<open>
  The calls that an application may use: \<^verbatim>\<open>oal/interface/interface_net.c\<close>,
  \<^verbatim>\<open>interface_sensor.c\<close>, \<^verbatim>\<open>interface_sys.c\<close>,
  \<^verbatim>\<open>interface_led.c\<close> and the list calls of \<^verbatim>\<open>interface_oal.c\<close>. Each hands its
  arguments on to the abstraction layer, so it is defined to be the call below and is unfolded
  by the simplifier. The two that look at the level of the battery first are defined with the low
  battery service in \<^verbatim>\<open>SystemStatus\<close>.
\<close>

section \<open>Network devices\<close>

definition get_registered_net_num where [simp]: "get_registered_net_num reg = iw_get_registered_net_num reg"

definition get_all_networks_info where [simp]: "get_all_networks_info info reg = iw_get_all_networks_info info reg"

definition get_network_devid where [simp]: "get_network_devid type name reg = iw_get_network_devid type name reg"

definition get_network_dev_id_by_type where [simp]: "get_network_dev_id_by_type type reg = iw_get_network_dev_id_by_type type reg"

definition get_network_dev_id_by_name where [simp]: "get_network_dev_id_by_name name reg = iw_get_network_dev_id_by_name name reg"

definition get_network_info where [simp]: "get_network_info type name info reg = iw_get_network_info type name info reg"

definition init_network where [simp]: "init_network reg room dev_id k w = iw_init_network reg room dev_id k w"

definition deinit_network where [simp]: "deinit_network reg dev_id k w = iw_deinit_network reg dev_id k w"

definition is_ready_network where [simp]: "is_ready_network reg dev_id w = iw_is_ready_network reg dev_id w"

definition available_network where [simp]: "available_network reg dev_id w = iw_available_network reg dev_id w"

definition recv_data_network where [simp]: "recv_data_network reg dev_id len w = iw_recv_data_network reg dev_id len w"

definition connect_network where [simp]: "connect_network reg dev_id timeout w = iw_connect_network reg dev_id timeout w"

definition disconnect_network where [simp]: "disconnect_network reg dev_id w = iw_disconnect_network reg dev_id w"

definition is_connected_network where [simp]: "is_connected_network reg dev_id w = iw_is_connected_network reg dev_id w"

definition scan_network where [simp]: "scan_network reg dev_id w = iw_scan_network reg dev_id w"

definition get_capa_network where [simp]: "get_capa_network reg dev_id w = iw_get_capa_network reg dev_id w"

definition set_config_network where [simp]: "set_config_network reg dev_id wake_src config w = iw_set_config_network reg dev_id wake_src config w"

definition get_config_network where [simp]: "get_config_network reg dev_id config w = iw_get_config_network reg dev_id config w"

definition set_pwrmode_network where [simp]: "set_pwrmode_network reg dev_id pwr_mode w = iw_set_pwrmode_network reg dev_id pwr_mode w"

definition get_pwrmode_network where [simp]: "get_pwrmode_network reg dev_id w = iw_get_pwrmode_network reg dev_id w"

definition get_rssi_network where [simp]: "get_rssi_network reg dev_id w = iw_get_rssi_network reg dev_id w"

definition connect_server where [simp]: "connect_server reg dev_id address port timeout proto w = iw_connect_server reg dev_id address port timeout proto w"

definition disconnect_server where [simp]: "disconnect_server reg dev_id w = iw_disconnect_server reg dev_id w"

section \<open>Sensors\<close>

definition get_registered_sensor_num where [simp]: "get_registered_sensor_num reg = iw_get_registered_sensor_num reg"

definition get_all_sensors_info where [simp]: "get_all_sensors_info info reg = iw_get_all_sensors_info info reg"

definition get_sensor_info where [simp]: "get_sensor_info type name info reg = iw_get_sensor_info type name info reg"

definition get_sensor_devid where [simp]: "get_sensor_devid type name reg = iw_get_sensor_devid type name reg"

definition init_sensor where [simp]: "init_sensor reg dev_id w = iw_init_sensor reg dev_id w"

definition deinit_sensor where [simp]: "deinit_sensor reg dev_id w = iw_deinit_sensor reg dev_id w"

definition is_ready_sensor where [simp]: "is_ready_sensor reg dev_id w = iw_is_ready_sensor reg dev_id w"

definition get_capa_sensor where [simp]: "get_capa_sensor reg dev_id w = iw_get_capa_sensor reg dev_id w"

definition set_config_sensor where [simp]: "set_config_sensor reg dev_id wake_src config w = iw_set_config_sensor reg dev_id wake_src config w"

definition get_config_sensor where [simp]: "get_config_sensor reg dev_id config w = iw_get_config_sensor reg dev_id config w"

definition set_pwrmode_sensor where [simp]: "set_pwrmode_sensor reg dev_id pwr_mode w = iw_set_pwrmode_sensor reg dev_id pwr_mode w"

definition get_pwrmode_sensor where [simp]: "get_pwrmode_sensor reg dev_id w = iw_get_pwrmode_sensor reg dev_id w"

section \<open>System and battery\<close>

definition get_mcu_info where [simp]: "get_mcu_info stm32 nordic out = iw_get_mcu_info stm32 nordic out"

definition get_autocontrol where [simp]: "get_autocontrol s = iw_get_autocontrol s"

definition set_autocontrol where [simp]: "set_autocontrol enable s = iw_set_autocontrol enable s"

definition get_power_mode where [simp]: "get_power_mode s = iw_get_power_mode s"

definition set_power_mode where [simp]: "set_power_mode mode s = iw_set_power_mode mode s"

definition get_battery_voltage where [simp]: "get_battery_voltage conv b w = iw_get_battery_voltage conv b w"

definition get_battery_status where [simp]: "get_battery_status conv b w = iw_get_battery_status conv b w"

definition get_memory_status where [simp]: "get_memory_status data heap free g t f = iw_get_memory_status data heap free g t f"

definition get_network_status where [simp]: "get_network_status reg dev_id w = iw_get_network_status reg dev_id w"

definition get_sensor_status where [simp]: "get_sensor_status reg dev_id w = iw_get_sensor_status reg dev_id w"

section \<open>LEDs\<close>

definition led_on where [simp]: "led_on color leds = iw_led_on color leds"

definition led_off where [simp]: "led_off color leds = iw_led_off color leds"

definition led_toggle where [simp]: "led_toggle color leds = iw_led_toggle color leds"

section \<open>Lists\<close>

definition init_list where [simp]: "init_list l = iw_init_list l"

definition add_list_node where [simp]: "add_list_node h l node = iw_add_list_node h l node"

definition remove_list_node where [simp]: "remove_list_node h l node = iw_remove_list_node h l node"

end
