(* ===== verification/PowerApps.thy ===== *)
theory PowerApps
  imports Interface
begin

text \<open>
  The two tasks of \<^verbatim>\<open>App/start_apps.c\<close> (mode 1) that save energy: \<^verbatim>\<open>WifiTask\<close>, which
  sends the last reading to a server, and \<^verbatim>\<open>Co2ReadSensorTask\<close>, which takes the readings.
  Both follow the power mode of the system, and both run the machine of three phases that
  switches their device off between two uses. One round of a task is a function of its local
  variables and of what the tasks share; what the other tasks do while it sleeps is an argument
  of its loop. The messages for the console are left out.
\<close>

section \<open>What the tasks share\<close>

text \<open>The clock is not part of the repository; its three fields are numbers.\<close>

record DATE_TIME_T =
  dt_hour :: int
  dt_min :: int
  dt_sec :: int

record 'w board_env =
  be_nets :: "'w net_registry"
  be_sensors :: "'w sensor_registry"
  be_room :: bool
  be_conv :: "'w converter"
  be_battery :: battery
  be_rtc :: "'w \<Rightarrow> DATE_TIME_T \<times> 'w"

text \<open>\<open>g_fTemperature\<close> holds the four bytes of a \<^verbatim>\<open>float\<close>.\<close>

record 'w apps =
  g_uiCo2 :: "32 word"
  g_uiCo2Last :: "32 word"
  g_fTemperature :: "byte list"
  wifitask_on :: bool
  wifitask_status :: bool
  wifitask_server_connect :: bool
  co2task_on :: bool
  co2task_status :: bool
  apps_sys :: sys_state
  apps_conn :: connection_tasks
  apps_world :: 'w

definition WifiTaskOnOff :: "bool \<Rightarrow> 'w apps \<Rightarrow> 'w apps" where
  "WifiTaskOnOff on st = st\<lparr>wifitask_on := on\<rparr>"

definition WifiTaskStatus :: "'w apps \<Rightarrow> bool" where
  "WifiTaskStatus st = wifitask_status st"

definition WifiTaskServerConnectStatus :: "'w apps \<Rightarrow> bool" where
  "WifiTaskServerConnectStatus st = wifitask_server_connect st"

definition Co2ReadSensorTaskOnOff :: "bool \<Rightarrow> 'w apps \<Rightarrow> 'w apps" where
  "Co2ReadSensorTaskOnOff on st = st\<lparr>co2task_on := on\<rparr>"

definition Co2ReadSensorTaskStatus :: "'w apps \<Rightarrow> bool" where
  "Co2ReadSensorTaskStatus st = co2task_status st"

datatype app_event = Slept_ms nat | Sent_text string | Took_reading | Left_task

text \<open>A variable that a driver fills byte by byte: \<open>None\<close> is a byte nobody has written.\<close>

type_synonym buffer = "byte option list"

definition put_bytes :: "byte list option \<Rightarrow> buffer \<Rightarrow> buffer res" where
  "put_bytes bs b = (case bs of
     None \<Rightarrow> Inr b
   | Some bs \<Rightarrow> if length b < length bs then Inl Out_of_bounds else Inr (map Some bs @ drop (length bs) b))"

definition get_bytes :: "buffer \<Rightarrow> byte list res" where
  "get_bytes b = (if None \<in> set b then Inl Uninitialised else Inr (map the b))"

text \<open>The value of an \<^verbatim>\<open>unsigned int\<close>, least byte first.\<close>

definition uint_of :: "buffer \<Rightarrow> 32 word res" where
  "uint_of b = rbind (get_bytes b) (\<lambda>bs. Inr (word_rcat (rev bs)))"

section \<open>The text that is sent\<close>

definition two_digits :: "int \<Rightarrow> string" where
  "two_digits i = (let s = show_int i in if length s < 2 then ''0'' @ s else s)"

text \<open>\<^verbatim>\<open>sprintf\<close> into a buffer of \<open>cap\<close> bytes.\<close>

definition sprintf_to :: "nat \<Rightarrow> string \<Rightarrow> string res" where
  "sprintf_to cap s = (if cap \<le> length s then Inl Out_of_bounds else Inr s)"

definition wifi_text :: "DATE_TIME_T \<Rightarrow> 32 word \<Rightarrow> string" where
  "wifi_text dt co2 = ''['' @ two_digits (dt_hour dt) @ '':'' @ two_digits (dt_min dt) @ '':'' @
     two_digits (dt_sec dt) @ ''] IotWare CO2 : '' @ show_int (sint co2)"

section \<open>The Wi-Fi task\<close>

text \<open>
  \<open>power_prev\<close> is \<open>None\<close> for \<^verbatim>\<open>0xff\<close>, which is no power mode; \<open>net_stat\<close> is the variable
  \<^verbatim>\<open>status\<close>, \<open>None\<close> before a driver has written it.
\<close>

record wifi_locals =
  power_prev :: "power_mode_t option"
  send_period :: "32 word"
  send_tick :: "32 word"
  msg_send :: bool
  mode_seq :: "8 word"
  mode_tick :: "32 word"
  trans_count :: "32 word"
  net_stat :: "int option"
  wifi_log :: "app_event list"

definition wifi_start :: wifi_locals where
  "wifi_start = \<lparr>power_prev = None, send_period = 3, send_tick = 0, msg_send = False, mode_seq = 0,
     mode_tick = 0, trans_count = 10, net_stat = None, wifi_log = []\<rparr>"

definition wifi_note :: "app_event \<Rightarrow> wifi_locals \<Rightarrow> wifi_locals" where
  "wifi_note e v = v\<lparr>wifi_log := wifi_log v @ [e]\<rparr>"

text \<open>Switching the module on, and what the caller learns.\<close>

definition wifi_switch_on :: "'w board_env \<Rightarrow> nat \<Rightarrow> 'w apps \<Rightarrow> (bool \<times> 'w apps) res" where
  "wifi_switch_on env dev_id st =
     rbind (iw_init_network (be_nets env) (be_room env) dev_id (apps_conn st) (apps_world st)) (\<lambda>(e, k, w).
       let st = st\<lparr>apps_conn := k, apps_world := w\<rparr> in
       Inr (if e = IW_SUCCESS then (True, st\<lparr>wifitask_status := True\<rparr>) else (False, st)))"

definition wifi_switch_off :: "'w board_env \<Rightarrow> nat \<Rightarrow> wifi_locals \<times> 'w apps \<Rightarrow> (wifi_locals \<times> 'w apps) res" where
  "wifi_switch_off env dev_id vs = (case vs of (v, st) \<Rightarrow>
     rbind (iw_disconnect_server (be_nets env) dev_id (apps_world st)) (\<lambda>(_, w).
     rbind (iw_disconnect_network (be_nets env) dev_id w) (\<lambda>(_, w).
     rbind (iw_deinit_network (be_nets env) dev_id (apps_conn st) w) (\<lambda>(_, k, w).
       Inr ((wifi_note (Slept_ms 1000) (wifi_note (Slept_ms 1000) v))\<lparr>msg_send := False, mode_seq := 2, mode_tick := 0\<rparr>,
            st\<lparr>wifitask_server_connect := False, wifitask_status := False, apps_conn := k, apps_world := w\<rparr>)))))"

text \<open>The first two phases, the same in the low and in the sleep mode; \<open>rest\<close> is the third.\<close>

definition wifi_phase ::
    "'w board_env \<Rightarrow> nat \<Rightarrow> (wifi_locals \<Rightarrow> wifi_locals) \<Rightarrow> wifi_locals \<times> 'w apps \<Rightarrow> (wifi_locals \<times> 'w apps) res" where
  "wifi_phase env dev_id rest vs = (case vs of (v, st) \<Rightarrow>
     if mode_seq v = 0 then
       if \<not> wifitask_status st then rbind (wifi_switch_on env dev_id st) (\<lambda>(on, st).
         Inr (if on then v\<lparr>mode_seq := 1, msg_send := False\<rparr> else v, st))
       else Inr (v\<lparr>mode_seq := 1, msg_send := False\<rparr>, st)
     else if mode_seq v = 1 then
       if msg_send v then wifi_switch_off env dev_id (v, st) else Inr (v, st)
     else Inr (rest v, st))"

definition low_tick :: "wifi_locals \<Rightarrow> wifi_locals" where
  "low_tick v = (let v = v\<lparr>mode_tick := mode_tick v + 1\<rparr> in
     if 30 \<le> mode_tick v then v\<lparr>mode_tick := 0, mode_seq := 0\<rparr> else v)"

definition enter_mode :: "power_mode_t \<Rightarrow> wifi_locals \<Rightarrow> wifi_locals" where
  "enter_mode pow v = (if power_prev v \<noteq> Some pow then v\<lparr>power_prev := Some pow, mode_seq := 0\<rparr> else v)"

definition wifi_stay_on :: "'w board_env \<Rightarrow> nat \<Rightarrow> 'w apps \<Rightarrow> 'w apps res" where
  "wifi_stay_on env dev_id st =
     (if \<not> wifitask_status st then rbind (wifi_switch_on env dev_id st) (\<lambda>(_, st). Inr st) else Inr st)"

fun wifi_power ::
    "'w board_env \<Rightarrow> nat \<Rightarrow> power_mode_t \<Rightarrow> wifi_locals \<times> 'w apps \<Rightarrow> (wifi_locals \<times> 'w apps) res" where
  "wifi_power env dev_id POW_RUN_MODE (v, st) =
     rbind (wifi_stay_on env dev_id st) (\<lambda>st. Inr (v\<lparr>send_period := 3\<rparr>, st))"
| "wifi_power env dev_id POW_DYNAMIC_MODE (v, st) =
     rbind (wifi_stay_on env dev_id st) (\<lambda>st.
     rbind (iw_get_battery_status (be_conv env) (be_battery env) (apps_world st)) (\<lambda>(_, w).
       Inr (v, st\<lparr>apps_world := w\<rparr>)))"
| "wifi_power env dev_id POW_LOW_MODE (v, st) =
     wifi_phase env dev_id low_tick (enter_mode POW_LOW_MODE v, st)"
| "wifi_power env dev_id POW_SLEEP_MODE (v, st) =
     wifi_phase env dev_id (\<lambda>v. v) (enter_mode POW_SLEEP_MODE v, st)"

text \<open>The connection to the server; address and port are constants of the build.\<close>

definition server_ip :: cstring where "server_ip = ''192.168.100.9''"
definition server_port :: int where "server_port = 18800"
definition PROTO_TCP :: int where "PROTO_TCP = 1"

definition wifi_got_ip :: "'w board_env \<Rightarrow> nat \<Rightarrow> wifi_locals \<Rightarrow> 'w \<Rightarrow> (bool \<times> wifi_locals \<times> 'w) res" where
  "wifi_got_ip env dev_id v w =
     rbind (iw_is_connected_network (be_nets env) dev_id w) (\<lambda>((e, s), w).
       let v = v\<lparr>net_stat := (if s = None then net_stat v else s)\<rparr> in
       if e = IW_SUCCESS then (case net_stat v of None \<Rightarrow> Inl Uninitialised | Some s \<Rightarrow> Inr (s = NET_GOT_IP, v, w))
       else Inr (False, v, w))"

definition wifi_server :: "'w board_env \<Rightarrow> nat \<Rightarrow> wifi_locals \<times> 'w apps \<Rightarrow> (wifi_locals \<times> 'w apps) res" where
  "wifi_server env dev_id vs = (case vs of (v, st) \<Rightarrow>
     rbind (wifi_got_ip env dev_id v (apps_world st)) (\<lambda>(got_ip, v, w).
       let st = st\<lparr>apps_world := w\<rparr> in
       if \<not> got_ip then Inr (v, st\<lparr>wifitask_server_connect := False\<rparr>)
       else if wifitask_server_connect st then Inr (v, st)
       else rbind (iw_connect_server (be_nets env) dev_id (Some server_ip) server_port 20000 PROTO_TCP w) (\<lambda>(r, w).
         Inr (v, if r = NET_SUCCESS then st\<lparr>wifitask_server_connect := True, apps_world := w\<rparr>
                 else st\<lparr>apps_world := w\<rparr>))))"

text \<open>Sending, every \<open>send_period\<close> rounds; the flag is \<^verbatim>\<open>break\<close>.\<close>

definition wifi_message ::
    "'w board_env \<Rightarrow> nat \<Rightarrow> wifi_locals \<times> 'w apps \<Rightarrow> (bool \<times> wifi_locals \<times> 'w apps) res" where
  "wifi_message env dev_id vs = (case vs of (v, st) \<Rightarrow>
     (let (dt, w) = be_rtc env (apps_world st) in
     rbind (sprintf_to 256 (wifi_text dt (g_uiCo2Last st))) (\<lambda>msg.
     rbind (iw_send_data_network (be_nets env) dev_id msg w) (\<lambda>(_, w).
       let v = (wifi_note (Sent_text msg) v)\<lparr>trans_count := trans_count v - 1\<rparr>; st = st\<lparr>apps_world := w\<rparr> in
       if trans_count v = 0 then
         rbind (iw_disconnect_server (be_nets env) dev_id w) (\<lambda>(_, w).
           Inr (True, v, Co2ReadSensorTaskOnOff False (st\<lparr>apps_world := w\<rparr>)))
       else Inr (False, v\<lparr>msg_send := True\<rparr>, st)))))"

definition wifi_send ::
    "'w board_env \<Rightarrow> nat \<Rightarrow> wifi_locals \<times> 'w apps \<Rightarrow> (bool \<times> wifi_locals \<times> 'w apps) res" where
  "wifi_send env dev_id vs = (case vs of (v, st) \<Rightarrow>
     let v = v\<lparr>send_tick := send_tick v + 1\<rparr> in
     if send_period v \<le> send_tick v then
       let v = v\<lparr>send_tick := 0\<rparr> in
       if wifitask_server_connect st then wifi_message env dev_id (v, st) else Inr (False, v, st)
     else Inr (False, v, st))"

text \<open>One round, and a loop with what the other tasks do before each round. The flag says whether it goes on.\<close>

definition wifi_round ::
    "'w board_env \<Rightarrow> nat \<Rightarrow> wifi_locals \<times> 'w apps \<Rightarrow> (bool \<times> wifi_locals \<times> 'w apps) res" where
  "wifi_round env dev_id vs =
     rbind (wifi_power env dev_id (snd (iw_get_power_mode (apps_sys (snd vs)))) vs) (\<lambda>vs.
     rbind (wifi_server env dev_id vs) (\<lambda>vs.
     rbind (wifi_send env dev_id vs) (\<lambda>(leave, v, st).
       Inr (if leave then (False, v, st) else (True, wifi_note (Slept_ms 1000) v, st)))))"

fun wifi_rounds ::
    "'w board_env \<Rightarrow> nat \<Rightarrow> ('w apps \<Rightarrow> 'w apps) list \<Rightarrow> wifi_locals \<times> 'w apps \<Rightarrow> (bool \<times> wifi_locals \<times> 'w apps) res" where
  "wifi_rounds env dev_id [] vs = Inr (True, vs)"
| "wifi_rounds env dev_id (f # fs) vs =
     rbind (wifi_round env dev_id (fst vs, f (snd vs))) (\<lambda>(running, vs).
       if running then wifi_rounds env dev_id fs vs else Inr (False, vs))"

definition WifiTask ::
    "'w board_env \<Rightarrow> ('w apps \<Rightarrow> 'w apps) list \<Rightarrow> 'w apps \<Rightarrow> (bool \<times> wifi_locals \<times> 'w apps) res" where
  "WifiTask env fs st =
     rbind (get_network_devid NET_DEV_TYPE_WIFI None (be_nets env)) (\<lambda>(ret_val, dev).
       let v = wifi_note (Slept_ms 3000) wifi_start in
       rbind (if ret_val = IW_SUCCESS then wifi_rounds env (case dev of None \<Rightarrow> 0 | Some d \<Rightarrow> d) fs (v, st)
              else Inr (False, v, st)) (\<lambda>(running, v, st).
         Inr (running, if running then v else wifi_note Left_task v, st)))"

section \<open>The task of the CO2 sensor\<close>

record co2_locals =
  co2_period :: "32 word"
  co2_tick :: "32 word"
  co2_seq :: "8 word"
  co2_mode_tick :: "32 word"
  capture :: bool
  co2_buf :: buffer
  co2_log :: "app_event list"

definition co2_start :: co2_locals where
  "co2_start = \<lparr>co2_period = 3, co2_tick = 0, co2_seq = 0, co2_mode_tick = 0, capture = False,
     co2_buf = replicate 4 None, co2_log = []\<rparr>"

definition co2_note :: "app_event \<Rightarrow> co2_locals \<Rightarrow> co2_locals" where
  "co2_note e v = v\<lparr>co2_log := co2_log v @ [e]\<rparr>"

definition co2_switch_on :: "'w board_env \<Rightarrow> nat \<Rightarrow> 'w apps \<Rightarrow> bool \<times> 'w apps" where
  "co2_switch_on env dev_id st = (case iw_init_sensor (be_sensors env) dev_id (apps_world st) of (e, w) \<Rightarrow>
     let st = st\<lparr>apps_world := w\<rparr> in
     if e = IW_SUCCESS then (True, st\<lparr>co2task_status := True\<rparr>) else (False, st))"

definition co2_switch_off :: "'w board_env \<Rightarrow> nat \<Rightarrow> 'w apps \<Rightarrow> 'w apps res" where
  "co2_switch_off env dev_id st =
     rbind (iw_deinit_sensor (be_sensors env) dev_id (apps_world st)) (\<lambda>(_, w).
       Inr (st\<lparr>co2task_status := False, apps_world := w\<rparr>))"

definition co2_stay_on :: "'w board_env \<Rightarrow> nat \<Rightarrow> co2_locals \<times> 'w apps \<Rightarrow> co2_locals \<times> 'w apps" where
  "co2_stay_on env dev_id vs = (case vs of (v, st) \<Rightarrow>
     if \<not> co2task_status st then (case co2_switch_on env dev_id st of (on, st) \<Rightarrow>
       (if on then v\<lparr>co2_period := 3\<rparr> else v, st))
     else (v, st))"

definition co2_phase :: "'w board_env \<Rightarrow> nat \<Rightarrow> co2_locals \<times> 'w apps \<Rightarrow> (co2_locals \<times> 'w apps) res" where
  "co2_phase env dev_id vs = (case vs of (v, st) \<Rightarrow>
     if co2_seq v = 0 then
       if \<not> co2task_status st then (case co2_switch_on env dev_id st of (on, st) \<Rightarrow>
         Inr (if on then v\<lparr>co2_period := 1, co2_seq := 1, capture := False\<rparr> else v, st))
       else Inr (v, st)
     else if co2_seq v = 1 then
       if capture v then rbind (co2_switch_off env dev_id st) (\<lambda>st.
         Inr (v\<lparr>capture := False, co2_seq := 2, co2_mode_tick := 0\<rparr>, st))
       else Inr (v, st)
     else let v = v\<lparr>co2_mode_tick := co2_mode_tick v + 1\<rparr> in
       Inr (if 10 < co2_mode_tick v then v\<lparr>co2_seq := 0\<rparr> else v, st))"

fun co2_power ::
    "'w board_env \<Rightarrow> nat \<Rightarrow> power_mode_t \<Rightarrow> co2_locals \<times> 'w apps \<Rightarrow> (co2_locals \<times> 'w apps) res" where
  "co2_power env dev_id POW_RUN_MODE vs = Inr (co2_stay_on env dev_id vs)"
| "co2_power env dev_id POW_DYNAMIC_MODE vs = Inr (co2_stay_on env dev_id vs)"
| "co2_power env dev_id POW_LOW_MODE vs = co2_phase env dev_id vs"
| "co2_power env dev_id POW_SLEEP_MODE (v, st) =
     (if co2task_status st then rbind (co2_switch_off env dev_id st) (\<lambda>st. Inr (v, st)) else Inr (v, st))"

definition co2_sample :: "'w board_env \<Rightarrow> nat \<Rightarrow> co2_locals \<times> 'w apps \<Rightarrow> (co2_locals \<times> 'w apps) res" where
  "co2_sample env dev_id vs = (case vs of (v, st) \<Rightarrow>
     rbind (iw_read_sensor (be_sensors env) dev_id SENSOR_TYPE_CO2 1 (apps_world st)) (\<lambda>((e, bs), w).
     rbind (put_bytes bs (co2_buf v)) (\<lambda>b.
       let v = v\<lparr>co2_buf := b\<rparr>; st = st\<lparr>apps_world := w\<rparr> in
       if e = IW_SUCCESS then rbind (uint_of b) (\<lambda>co2.
         Inr (co2_note Took_reading (v\<lparr>capture := True\<rparr>), st\<lparr>g_uiCo2 := co2, g_uiCo2Last := co2\<rparr>))
       else Inr (v, st\<lparr>g_uiCo2 := 0\<rparr>))))"

text \<open>\<^verbatim>\<open>ready\<close> is a new variable in every round.\<close>

definition co2_read :: "'w board_env \<Rightarrow> nat \<Rightarrow> co2_locals \<times> 'w apps \<Rightarrow> (co2_locals \<times> 'w apps) res" where
  "co2_read env dev_id vs = (case vs of (v, st) \<Rightarrow>
     rbind (iw_is_ready_sensor (be_sensors env) dev_id (apps_world st)) (\<lambda>((_, ready), w).
       let st = st\<lparr>apps_world := w\<rparr> in
       case ready of
         None \<Rightarrow> Inl Uninitialised
       | Some ready \<Rightarrow>
           if ready = DEV_INITIALIZED then
             let v = v\<lparr>co2_tick := co2_tick v + 1\<rparr> in
             if co2_period v \<le> co2_tick v then co2_sample env dev_id (v\<lparr>co2_tick := 0\<rparr>, st) else Inr (v, st)
           else Inr (v\<lparr>co2_tick := 0\<rparr>, st)))"

definition co2_round :: "'w board_env \<Rightarrow> nat \<Rightarrow> co2_locals \<times> 'w apps \<Rightarrow> (co2_locals \<times> 'w apps) res" where
  "co2_round env dev_id vs =
     rbind (co2_power env dev_id (snd (iw_get_power_mode (apps_sys (snd vs)))) vs) (\<lambda>vs.
     rbind (co2_read env dev_id vs) (\<lambda>(v, st). Inr (co2_note (Slept_ms 1000) v, st)))"

text \<open>The loop has no exit: the state after the rounds given.\<close>

fun co2_rounds ::
    "'w board_env \<Rightarrow> nat \<Rightarrow> ('w apps \<Rightarrow> 'w apps) list \<Rightarrow> co2_locals \<times> 'w apps \<Rightarrow> (co2_locals \<times> 'w apps) res" where
  "co2_rounds env dev_id [] vs = Inr vs"
| "co2_rounds env dev_id (f # fs) vs =
     rbind (co2_round env dev_id (fst vs, f (snd vs))) (co2_rounds env dev_id fs)"

definition Co2ReadSensorTask ::
    "'w board_env \<Rightarrow> ('w apps \<Rightarrow> 'w apps) list \<Rightarrow> 'w apps \<Rightarrow> (co2_locals \<times> 'w apps) res" where
  "Co2ReadSensorTask env fs st =
     rbind (get_sensor_devid SENSOR_TYPE_CO2 None (be_sensors env)) (\<lambda>(ret, dev).
       if ret = IW_SUCCESS then co2_rounds env (case dev of None \<Rightarrow> 0 | Some d \<Rightarrow> d) fs (co2_start, st)
       else Inr (co2_note Left_task co2_start, st))"

section \<open>The duty cycle\<close>

text \<open>
  Both tasks switch their device off between two uses. A machine of three phases is their
  contract: from the phase \<open>Starting\<close> the device is switched on, in the phase \<open>Using\<close> it is
  used once and switched off, and then it stays off for a number of rounds.
\<close>

datatype phase = Starting | Using | Pausing nat

locale duty_cycle =
  fixes ok :: "'s \<Rightarrow> bool" and step :: "'s \<Rightarrow> 's \<Rightarrow> bool" and phase :: "'s \<Rightarrow> phase"
    and device_on :: "'s \<Rightarrow> bool" and pause :: nat
  assumes ok_step: "ok s \<Longrightarrow> step s s' \<Longrightarrow> ok s'"
    and starting: "ok s \<Longrightarrow> step s s' \<Longrightarrow> phase s = Starting \<Longrightarrow>
      phase s' = Starting \<and> device_on s' = device_on s \<or> phase s' = Using \<and> device_on s'"
    and using_step: "ok s \<Longrightarrow> step s s' \<Longrightarrow> phase s = Using \<Longrightarrow>
      phase s' = Using \<and> device_on s' = device_on s \<or> phase s' = Pausing 0 \<and> \<not> device_on s'"
    and pausing: "ok s \<Longrightarrow> step s s' \<Longrightarrow> phase s = Pausing n \<Longrightarrow>
      device_on s' = device_on s \<and> phase s' = (if Suc n < pause then Pausing (Suc n) else Starting)"
begin

lemma ok_steps: "(step ^^ n) s s' \<Longrightarrow> ok s \<Longrightarrow> ok s'"
  by (induction n arbitrary: s') (auto intro: ok_step)

lemma pause_lasts:
  "(step ^^ n) s s' \<Longrightarrow> ok s \<Longrightarrow> phase s = Pausing 0 \<Longrightarrow> \<not> device_on s \<Longrightarrow> n \<le> pause \<Longrightarrow> 0 < pause \<Longrightarrow>
    \<not> device_on s' \<and> phase s' = (if n < pause then Pausing n else Starting)"
proof (induction n arbitrary: s')
  case (Suc n)
  then obtain t where t: "(step ^^ n) s t" "step t s'" by auto
  with Suc have "\<not> device_on t" "phase t = Pausing n" "ok t" by (auto intro: ok_steps)
  with t(2) show ?case using pausing [of t s' n] Suc.prems(5) by auto
qed simp

lemma on_exactly_when_used:
  "(step ^^ n) s s' \<Longrightarrow> ok s \<Longrightarrow> (phase s = Using \<longrightarrow> device_on s) \<and> (\<forall>k. phase s = Pausing k \<longrightarrow> \<not> device_on s) \<Longrightarrow>
    (phase s' = Using \<longrightarrow> device_on s') \<and> (\<forall>k. phase s' = Pausing k \<longrightarrow> \<not> device_on s')"
proof (induction n arbitrary: s')
  case (Suc n)
  then obtain t where t: "(step ^^ n) s t" "step t s'" by auto
  with Suc have inv: "ok t" "phase t = Using \<longrightarrow> device_on t" "\<forall>k. phase t = Pausing k \<longrightarrow> \<not> device_on t"
    by (auto intro: ok_steps)
  show ?case
  proof (cases "phase t")
    case Starting
    then show ?thesis using starting [OF inv(1) t(2)] by auto
  next
    case Using
    then show ?thesis using using_step [OF inv(1) t(2)] inv by auto
  next
    case (Pausing k)
    then show ?thesis using pausing [OF inv(1) t(2)] inv by auto
  qed
qed simp

end

text \<open>What the other tasks do between two rounds: they leave the state of the device alone.\<close>

definition wifi_others :: "power_mode_t set \<Rightarrow> ('w apps \<Rightarrow> 'w apps) \<Rightarrow> bool" where
  "wifi_others P f \<longleftrightarrow> (\<forall>st. g_pwr_mode (apps_sys (f st)) \<in> P \<and> wifitask_status (f st) = wifitask_status st)"

definition co2_others :: "power_mode_t set \<Rightarrow> ('w apps \<Rightarrow> 'w apps) \<Rightarrow> bool" where
  "co2_others P f \<longleftrightarrow> (\<forall>st. g_pwr_mode (apps_sys (f st)) \<in> P \<and> co2task_status (f st) = co2task_status st)"

section \<open>The duty cycle of the Wi-Fi module\<close>

lemma wifi_note_sel [simp]:
  "power_prev (wifi_note e v) = power_prev v" "mode_seq (wifi_note e v) = mode_seq v"
  "mode_tick (wifi_note e v) = mode_tick v" "trans_count (wifi_note e v) = trans_count v"
  "send_tick (wifi_note e v) = send_tick v" "send_period (wifi_note e v) = send_period v"
  "msg_send (wifi_note e v) = msg_send v" "wifi_log (wifi_note e v) = wifi_log v @ [e]"
  by (simp_all add: wifi_note_def)

definition mode_of :: "wifi_locals \<Rightarrow> power_mode_t option \<times> 8 word \<times> 32 word" where
  "mode_of v = (power_prev v, mode_seq v, mode_tick v)"

lemma wifi_server_keeps:
  assumes "wifi_server env dev_id (v, st) = Inr (v', st')"
  shows "\<exists>s. v' = v\<lparr>net_stat := s\<rparr>" "wifitask_status st' = wifitask_status st" "apps_sys st' = apps_sys st"
proof -
  obtain got v1 w where g: "wifi_got_ip env dev_id v (apps_world st) = Inr (got, v1, w)"
    using assms by (auto simp: wifi_server_def)
  then obtain e s w0 where c: "iw_is_connected_network (be_nets env) dev_id (apps_world st) = Inr ((e, s), w0)"
    by (auto simp: wifi_got_ip_def)
  have "v1 = v\<lparr>net_stat := (if s = None then net_stat v else s)\<rparr>"
    using g by (cases e; cases "if s = None then net_stat v else s") (simp_all add: wifi_got_ip_def c Let_def)
  then have "\<exists>s. v1 = v\<lparr>net_stat := s\<rparr>" by blast
  moreover have "v' = v1"
    using assms by (auto simp: wifi_server_def g Let_def split: if_splits)
  ultimately show "\<exists>s. v' = v\<lparr>net_stat := s\<rparr>" by simp
  show "wifitask_status st' = wifitask_status st" "apps_sys st' = apps_sys st"
    using assms by (auto simp: wifi_server_def g Let_def split: if_splits)
qed

lemma wifi_message_keeps:
  assumes "wifi_message env dev_id (v, st) = Inr (leave, v', st')"
  shows "mode_of v' = mode_of v" "wifitask_status st' = wifitask_status st"
    "trans_count v' = trans_count v - 1" "leave \<longleftrightarrow> trans_count v' = 0"
    "\<exists>msg. wifi_log v' = wifi_log v @ [Sent_text msg]"
proof -
  obtain dt w where "be_rtc env (apps_world st) = (dt, w)" by fastforce
  with assms obtain msg w' where "if trans_count v - 1 = 0 then leave \<and>
      v' = (wifi_note (Sent_text msg) v)\<lparr>trans_count := trans_count v - 1\<rparr> \<and>
      (\<exists>w. st' = Co2ReadSensorTaskOnOff False (st\<lparr>apps_world := w\<rparr>))
    else \<not> leave \<and> v' = (wifi_note (Sent_text msg) v)\<lparr>trans_count := trans_count v - 1, msg_send := True\<rparr> \<and>
      st' = st\<lparr>apps_world := w'\<rparr>"
    by (fastforce simp: wifi_message_def Let_def split: if_splits)
  then show "mode_of v' = mode_of v" "wifitask_status st' = wifitask_status st"
    "trans_count v' = trans_count v - 1" "leave \<longleftrightarrow> trans_count v' = 0"
    "\<exists>msg. wifi_log v' = wifi_log v @ [Sent_text msg]"
    by (auto simp: mode_of_def Co2ReadSensorTaskOnOff_def split: if_splits)
qed

lemma wifi_send_cases:
  assumes "wifi_send env dev_id (v, st) = Inr (leave, v', st')"
  obtains "\<not> leave" "st' = st" "\<exists>t. v' = v\<lparr>send_tick := t\<rparr>"
    | "wifi_message env dev_id (v\<lparr>send_tick := 0\<rparr>, st) = Inr (leave, v', st')"
  using assms by (auto simp: wifi_send_def Let_def split: if_splits)

lemma wifi_send_keeps:
  assumes "wifi_send env dev_id (v, st) = Inr (leave, v', st')"
  shows "mode_of v' = mode_of v \<and> wifitask_status st' = wifitask_status st"
  using assms
proof (cases rule: wifi_send_cases)
  case 2
  then show ?thesis using wifi_message_keeps(1,2) [OF 2] by (simp add: mode_of_def)
qed (auto simp: mode_of_def)

lemma wifi_round_power:
  assumes "wifi_round env dev_id (v, st) = Inr (running, v', st')"
  obtains v1 st1 where "wifi_power env dev_id (g_pwr_mode (apps_sys st)) (v, st) = Inr (v1, st1)"
    "mode_of v' = mode_of v1" "wifitask_status st' = wifitask_status st1"
proof -
  obtain v1 st1 v2 st2 leave v3 st3 where
    "wifi_power env dev_id (g_pwr_mode (apps_sys st)) (v, st) = Inr (v1, st1)"
    "wifi_server env dev_id (v1, st1) = Inr (v2, st2)" "wifi_send env dev_id (v2, st2) = Inr (leave, v3, st3)"
    "mode_of v' = mode_of v3" "st' = st3"
    using assms by (fastforce simp: wifi_round_def iw_get_power_mode_def mode_of_def split: if_splits)
  moreover from this(2) have "mode_of v2 = mode_of v1" "wifitask_status st2 = wifitask_status st1"
    using wifi_server_keeps [of env dev_id v1 st1] by (auto simp: mode_of_def)
  ultimately show thesis using that wifi_send_keeps [of env dev_id v2 st2] by metis
qed

lemma wifi_switch_off_result:
  "wifi_switch_off env dev_id (v, st) = Inr (v', st') \<Longrightarrow>
    power_prev v' = power_prev v \<and> mode_seq v' = 2 \<and> mode_tick v' = 0 \<and> \<not> wifitask_status st'"
  by (auto simp: wifi_switch_off_def)

lemma wifi_switch_on_result:
  "wifi_switch_on env dev_id st = Inr (on, st') \<Longrightarrow> wifitask_status st' = (on \<or> wifitask_status st)"
  by (auto simp: wifi_switch_on_def Let_def split: if_splits)

lemma wifi_phase_result:
  assumes "wifi_phase env dev_id rest (v, st) = Inr (v', st')" "\<And>u. power_prev (rest u) = power_prev u"
  shows "power_prev v' = power_prev v"
    "mode_seq v = 0 \<Longrightarrow> mode_seq v' = 0 \<and> \<not> wifitask_status st \<and> \<not> wifitask_status st' \<or> mode_seq v' = 1 \<and> wifitask_status st'"
    "mode_seq v = 1 \<Longrightarrow> mode_seq v' = 1 \<and> wifitask_status st' = wifitask_status st \<or>
      mode_seq v' = 2 \<and> mode_tick v' = 0 \<and> \<not> wifitask_status st'"
    "mode_seq v \<noteq> 0 \<Longrightarrow> mode_seq v \<noteq> 1 \<Longrightarrow> v' = rest v \<and> st' = st"
proof -
  show third: "mode_seq v \<noteq> 0 \<Longrightarrow> mode_seq v \<noteq> 1 \<Longrightarrow> v' = rest v \<and> st' = st"
    using assms(1) by (simp add: wifi_phase_def)
  have first: "\<exists>on. wifitask_status st' = (on \<or> wifitask_status st) \<and> (on \<or> wifitask_status st \<longrightarrow> mode_seq v' = 1) \<and>
      (\<not> on \<and> \<not> wifitask_status st \<longrightarrow> v' = v) \<and> power_prev v' = power_prev v" if "mode_seq v = 0"
  proof (cases "wifitask_status st")
    case False
    with that assms(1) obtain on where "wifi_switch_on env dev_id st = Inr (on, st')"
      "v' = (if on then v\<lparr>mode_seq := 1, msg_send := False\<rparr> else v)"
      by (auto simp: wifi_phase_def)
    with False show ?thesis using wifi_switch_on_result [of env dev_id st on st'] by auto
  qed (use that assms(1) in \<open>auto simp: wifi_phase_def\<close>)
  then show "mode_seq v = 0 \<Longrightarrow> mode_seq v' = 0 \<and> \<not> wifitask_status st \<and> \<not> wifitask_status st' \<or> mode_seq v' = 1 \<and> wifitask_status st'"
    by auto
  have second: "power_prev v' = power_prev v \<and> (mode_seq v' = 1 \<and> wifitask_status st' = wifitask_status st \<or>
      mode_seq v' = 2 \<and> mode_tick v' = 0 \<and> \<not> wifitask_status st')" if "mode_seq v = 1"
    using that assms(1) by (auto simp: wifi_phase_def dest: wifi_switch_off_result split: if_splits)
  then show "mode_seq v = 1 \<Longrightarrow> mode_seq v' = 1 \<and> wifitask_status st' = wifitask_status st \<or>
      mode_seq v' = 2 \<and> mode_tick v' = 0 \<and> \<not> wifitask_status st'"
    by blast
  show "power_prev v' = power_prev v"
    using first second third assms(2) [of v] by (cases "mode_seq v = 0"; cases "mode_seq v = 1") auto
qed

text \<open>The rounds in the low mode, once the task has seen the mode.\<close>

definition wifi_phase_of :: "wifi_locals \<times> 'w apps \<Rightarrow> phase" where
  "wifi_phase_of vs = (if mode_seq (fst vs) = 0 then Starting else if mode_seq (fst vs) = 1 then Using
     else Pausing (unat (mode_tick (fst vs))))"

definition wifi_low_ok :: "wifi_locals \<times> 'w apps \<Rightarrow> bool" where
  "wifi_low_ok vs \<longleftrightarrow> power_prev (fst vs) = Some POW_LOW_MODE \<and>
     (mode_seq (fst vs) \<noteq> 0 \<and> mode_seq (fst vs) \<noteq> 1 \<longrightarrow> mode_tick (fst vs) < 30)"

definition wifi_low_step :: "'w board_env \<Rightarrow> nat \<Rightarrow> wifi_locals \<times> 'w apps \<Rightarrow> wifi_locals \<times> 'w apps \<Rightarrow> bool" where
  "wifi_low_step env dev_id vs vs' \<longleftrightarrow>
     (\<exists>f. wifi_others {POW_LOW_MODE} f \<and> wifi_round env dev_id (fst vs, f (snd vs)) = Inr (True, vs'))"

lemma low_tick_result:
  assumes "mode_tick v < 30" "mode_seq v \<noteq> 0" "mode_seq v \<noteq> 1"
  shows "power_prev (low_tick v) = power_prev v \<and> (if Suc (unat (mode_tick v)) < 30
    then mode_seq (low_tick v) = mode_seq v \<and> unat (mode_tick (low_tick v)) = Suc (unat (mode_tick v)) \<and> mode_tick (low_tick v) < 30
    else mode_seq (low_tick v) = 0)"
proof -
  have "unat (mode_tick v + 1) = Suc (unat (mode_tick v))"
    using assms(1) by (simp add: unat_word_ariths word_less_nat_alt)
  then show ?thesis using assms by (auto simp: low_tick_def Let_def word_le_nat_alt word_less_nat_alt)
qed

lemma wifi_low_step_power:
  assumes "wifi_low_ok (v, st)" "wifi_low_step env dev_id (v, st) (v', st')"
  obtains v1 st1 st0 where "wifi_phase env dev_id low_tick (v, st0) = Inr (v1, st1)"
    "wifitask_status st0 = wifitask_status st" "mode_of v' = mode_of v1" "wifitask_status st' = wifitask_status st1"
proof -
  obtain f where f: "wifi_others {POW_LOW_MODE} f" "wifi_round env dev_id (v, f st) = Inr (True, v', st')"
    using assms(2) by (auto simp: wifi_low_step_def)
  from f(1) have p: "g_pwr_mode (apps_sys (f st)) = POW_LOW_MODE" "wifitask_status (f st) = wifitask_status st"
    by (auto simp: wifi_others_def)
  have "enter_mode POW_LOW_MODE v = v" using assms(1) by (simp add: enter_mode_def wifi_low_ok_def)
  with wifi_round_power [OF f(2)] p that show thesis by (metis wifi_power.simps(3))
qed

interpretation wifi_cycle: duty_cycle wifi_low_ok "wifi_low_step env dev_id" wifi_phase_of
    "\<lambda>vs. wifitask_status (snd vs)" 30
  for env :: "'w board_env" and dev_id
proof unfold_locales
  fix s s' :: "wifi_locals \<times> 'w apps" and n
  assume ok: "wifi_low_ok s" and step: "wifi_low_step env dev_id s s'"
  obtain v st v' st' where s: "s = (v, st)" "s' = (v', st')" by (cases s, cases s')
  obtain v1 st1 st0 where p: "wifi_phase env dev_id low_tick (v, st0) = Inr (v1, st1)"
    "wifitask_status st0 = wifitask_status st" "mode_of v' = mode_of v1" "wifitask_status st' = wifitask_status st1"
    using wifi_low_step_power ok step s by metis
  have keep: "power_prev (low_tick u) = power_prev u" for u by (simp add: low_tick_def Let_def)
  note r = wifi_phase_result [OF p(1) keep]
  have m: "power_prev v' = power_prev v1" "mode_seq v' = mode_seq v1" "mode_tick v' = mode_tick v1"
    using p(3) by (auto simp: mode_of_def)
  have t: "mode_seq v \<noteq> 0 \<and> mode_seq v \<noteq> 1 \<Longrightarrow> mode_tick v < 30" using ok s by (simp add: wifi_low_ok_def)
  have "mode_seq v1 \<noteq> 0 \<Longrightarrow> mode_seq v1 \<noteq> 1 \<Longrightarrow> mode_tick v1 < 30"
    using r(2-4) t low_tick_result [of v] by (cases "mode_seq v = 0"; cases "mode_seq v = 1") (auto split: if_splits)
  then show "wifi_low_ok s'"
    using ok r(1) m by (simp add: wifi_low_ok_def s)
  show "wifi_phase_of s' = Starting \<and> wifitask_status (snd s') = wifitask_status (snd s) \<or>
      wifi_phase_of s' = Using \<and> wifitask_status (snd s')" if "wifi_phase_of s = Starting"
    using that r m p by (auto simp: wifi_phase_of_def s split: if_splits)
  show "wifi_phase_of s' = Using \<and> wifitask_status (snd s') = wifitask_status (snd s) \<or>
      wifi_phase_of s' = Pausing 0 \<and> \<not> wifitask_status (snd s')" if "wifi_phase_of s = Using"
    using that r m p by (auto simp: wifi_phase_of_def s split: if_splits)
  show "wifitask_status (snd s') = wifitask_status (snd s) \<and>
      wifi_phase_of s' = (if Suc n < 30 then Pausing (Suc n) else Starting)" if "wifi_phase_of s = Pausing n"
    using that r m p t low_tick_result [of v] by (auto simp: wifi_phase_of_def s split: if_splits)
qed

lemma wifi_rounds_steps:
  assumes "\<forall>f \<in> set fs. wifi_others {POW_LOW_MODE} f"
  shows "wifi_rounds env dev_id fs vs = Inr (True, vs') \<Longrightarrow> (wifi_low_step env dev_id ^^ length fs) vs vs'"
  using assms
proof (induction fs arbitrary: vs)
  case (Cons f fs)
  then obtain us where us: "wifi_round env dev_id (fst vs, f (snd vs)) = Inr (True, us)"
    "wifi_rounds env dev_id fs us = Inr (True, vs')"
    by (auto split: if_splits)
  then have "wifi_low_step env dev_id vs us" using Cons.prems by (auto simp: wifi_low_step_def)
  moreover have "(wifi_low_step env dev_id ^^ length fs) us vs'" using Cons us by simp
  ultimately show ?case by (simp only: list.size(4) add_0_right add_Suc_right) (rule relpowp_Suc_I2)
qed simp

lemma enter_mode_idem: "enter_mode pow (enter_mode pow v) = enter_mode pow v"
  by (simp add: enter_mode_def)

lemma wifi_round_enter:
  assumes "wifi_others {POW_LOW_MODE} f"
  shows "wifi_round env dev_id (v, f st) = wifi_round env dev_id (enter_mode POW_LOW_MODE v, f st)"
  using assms by (simp add: wifi_round_def wifi_others_def iw_get_power_mode_def enter_mode_idem)

text \<open>
  C17. The duty cycle of the Wi-Fi module in the low mode. From the first round in this mode on, the
  module is on in the phase in which it is used and off in the phase of the pause. A pause
  lasts exactly 30 rounds, in which nothing switches the module on.
\<close>

theorem wifi_duty_cycle:
  assumes "\<forall>f \<in> set fs. wifi_others {POW_LOW_MODE} f"
    and "wifi_rounds env dev_id fs (v, st) = Inr (True, v', st')"
  shows "(power_prev v \<noteq> Some POW_LOW_MODE \<and> fs \<noteq> [] \<longrightarrow>
      (mode_seq v' = 1 \<longrightarrow> wifitask_status st') \<and> (mode_seq v' \<notin> {0, 1} \<longrightarrow> \<not> wifitask_status st')) \<and>
    (power_prev v = Some POW_LOW_MODE \<and> mode_seq v = 2 \<and> mode_tick v = 0 \<and> \<not> wifitask_status st \<and> length fs \<le> 30 \<longrightarrow>
      \<not> wifitask_status st' \<and>
      (if length fs < 30 then mode_seq v' \<notin> {0, 1} \<and> unat (mode_tick v') = length fs else mode_seq v' = 0))"
proof (intro conjI impI)
  assume new: "power_prev v \<noteq> Some POW_LOW_MODE \<and> fs \<noteq> []"
  let ?v = "enter_mode POW_LOW_MODE v"
  have "wifi_rounds env dev_id fs (?v, st) = Inr (True, v', st')"
    using new assms by (cases fs) (simp_all add: wifi_round_enter [symmetric])
  note steps = wifi_rounds_steps [OF assms(1) this]
  have start: "wifi_low_ok (?v, st)" "wifi_phase_of (?v, st) = Starting"
    using new by (simp_all add: wifi_low_ok_def wifi_phase_of_def enter_mode_def)
  from wifi_cycle.on_exactly_when_used [OF steps start(1)] start(2)
  have r: "(wifi_phase_of (v', st') = Using \<longrightarrow> wifitask_status st') \<and>
      (\<forall>k. wifi_phase_of (v', st') = Pausing k \<longrightarrow> \<not> wifitask_status st')"
    by simp
  show "mode_seq v' = 1 \<Longrightarrow> wifitask_status st'" and "mode_seq v' \<notin> {0, 1} \<Longrightarrow> \<not> wifitask_status st'"
    using r by (auto simp: wifi_phase_of_def)
next
  assume p: "power_prev v = Some POW_LOW_MODE \<and> mode_seq v = 2 \<and> mode_tick v = 0 \<and> \<not> wifitask_status st \<and> length fs \<le> 30"
  then have "wifi_low_ok (v, st)" "wifi_phase_of (v, st) = Pausing 0"
    by (simp_all add: wifi_low_ok_def wifi_phase_of_def)
  from wifi_cycle.pause_lasts [OF wifi_rounds_steps [OF assms] this] p
  have r: "\<not> wifitask_status st' \<and> wifi_phase_of (v', st') = (if length fs < 30 then Pausing (length fs) else Starting)"
    by simp
  then show "\<not> wifitask_status st'" and "if length fs < 30 then mode_seq v' \<notin> {0, 1} \<and> unat (mode_tick v') = length fs else mode_seq v' = 0"
    by (auto simp: wifi_phase_of_def split: if_splits)
qed

text \<open>A board without devices.\<close>

definition bare_board :: "nat board_env" where
  "bare_board = \<lparr>be_nets = empty_registry, be_sensors = empty_registry, be_room = True,
     be_conv = \<lambda>p w. ((IW_FAIL, None), w), be_battery = no_battery,
     be_rtc = \<lambda>w. (\<lparr>dt_hour = 12, dt_min = 0, dt_sec = 0\<rparr>, w)\<rparr>"

definition apps_in :: "power_mode_t \<Rightarrow> 'w \<Rightarrow> 'w apps" where
  "apps_in pow w = \<lparr>g_uiCo2 = 0, g_uiCo2Last = 0, g_fTemperature = [0, 0, 0, 0], wifitask_on = True,
     wifitask_status = False, wifitask_server_connect = False, co2task_on = False, co2task_status = False,
     apps_sys = initial_sys\<lparr>g_pwr_mode := pow\<rparr>,
     apps_conn = \<lparr>conn_handle = None, running_tasks = [], next_handle = 1\<rparr>, apps_world = w\<rparr>"

definition set_power :: "power_mode_t \<Rightarrow> 'w apps \<Rightarrow> 'w apps" where
  "set_power pow st = st\<lparr>apps_sys := snd (iw_set_power_mode pow (apps_sys st))\<rparr>"

lemma set_power_others:
  "pow \<in> P \<Longrightarrow> wifi_others P (set_power pow)" "pow \<in> P \<Longrightarrow> co2_others P (set_power pow)"
  by (simp_all add: set_power_def wifi_others_def co2_others_def iw_set_power_mode_def)

lemma bare_board_calls:
  "iw_is_connected_network empty_registry 0 w = Inr ((IW_FAIL, None), w)"
  "iw_init_network empty_registry room 0 k w = Inr (IW_FAIL, k, w)"
  "iw_disconnect_server empty_registry 0 w = Inr (NET_FAIL, w)"
  "iw_disconnect_network empty_registry 0 w = Inr (IW_FAIL, w)"
  "iw_deinit_network empty_registry 0 k w = Inr (IW_SUCCESS, delete_connection_task k, w)"
  "iw_init_sensor empty_registry 0 w = (IW_FAIL, w)"
  "iw_get_battery_status conv no_battery w = Inr ((IW_FAIL, None), w)"
  by (simp_all add: iw_is_connected_network_def iw_init_network_def iw_disconnect_server_def
      iw_disconnect_network_def iw_deinit_network_def iw_init_sensor_def dispatch_dev_def empty_registry_def
      empty_device_def MAX_DEV_def iw_get_battery_status_def iw_get_battery_voltage_def no_battery_def)

lemma bare_board_sel [simp]:
  "be_nets bare_board = empty_registry" "be_sensors bare_board = empty_registry" "be_battery bare_board = no_battery"
  by (simp_all add: bare_board_def)

lemma bare_power: "\<exists>v' st'. wifi_power bare_board 0 pow (v, st) = Inr (v', st')"
  by (cases pow) (auto simp: wifi_stay_on_def wifi_switch_on_def wifi_phase_def wifi_switch_off_def bare_board_calls Let_def)

lemma idle_send:
  "\<not> wifitask_server_connect st \<Longrightarrow> \<exists>t. wifi_send env dev_id (v, st) = Inr (False, v\<lparr>send_tick := t\<rparr>, st)"
  by (auto simp: wifi_send_def Let_def)

lemma bare_round: "\<exists>v' st'. wifi_round bare_board 0 (v, st) = Inr (True, v', st')"
proof -
  obtain v1 st1 where p: "wifi_power bare_board 0 (g_pwr_mode (apps_sys st)) (v, st) = Inr (v1, st1)"
    using bare_power by blast
  let ?st = "st1\<lparr>wifitask_server_connect := False\<rparr>"
  have s: "wifi_server bare_board 0 (v1, st1) = Inr (v1, ?st)"
    by (simp add: wifi_server_def wifi_got_ip_def bare_board_calls Let_def)
  obtain t where "wifi_send bare_board 0 (v1, ?st) = Inr (False, v1\<lparr>send_tick := t\<rparr>, ?st)"
    using idle_send [of ?st bare_board 0 v1] by auto
  with p s show ?thesis by (simp add: wifi_round_def iw_get_power_mode_def)
qed

lemma bare_rounds: "\<exists>v' st'. wifi_rounds bare_board 0 fs (v, st) = Inr (True, v', st')"
proof (induction fs arbitrary: v st)
  case (Cons f fs)
  obtain v1 st1 where "wifi_round bare_board 0 (v, f st) = Inr (True, v1, st1)" using bare_round by blast
  with Cons show ?case by simp
qed simp

lemma wifi_duty_cycle_witness:
  "\<exists>v st. wifi_rounds bare_board 0 (replicate 2 (set_power POW_LOW_MODE))
      (wifi_start\<lparr>power_prev := Some POW_LOW_MODE, mode_seq := 2\<rparr>, apps_in POW_RUN_MODE 0) = Inr (True, v, st) \<and>
    \<not> wifitask_status st \<and> unat (mode_tick v) = 2"
proof -
  let ?fs = "replicate 2 (set_power POW_LOW_MODE)"
  let ?v = "wifi_start\<lparr>power_prev := Some POW_LOW_MODE, mode_seq := 2\<rparr>"
  obtain v st where r: "wifi_rounds bare_board 0 ?fs (?v, apps_in POW_RUN_MODE 0) = Inr (True, v, st)"
    using bare_rounds by blast
  have "\<forall>f \<in> set ?fs. wifi_others {POW_LOW_MODE} f" by (simp add: set_power_others)
  from wifi_duty_cycle [OF this r]
  have "\<not> wifitask_status st" "unat (mode_tick v) = 2" by (simp_all add: wifi_start_def apps_in_def)
  with r show ?thesis by blast
qed

section \<open>The sleep mode\<close>

lemma wifi_sleep_round:
  assumes "power_prev v = Some POW_SLEEP_MODE" "mode_seq v = 2"
    and "wifi_others {POW_RUN_MODE, POW_DYNAMIC_MODE, POW_SLEEP_MODE} f"
    and "wifi_round env dev_id (v, f st) = Inr (running, v', st')"
  shows "power_prev v' = Some POW_SLEEP_MODE" "mode_seq v' = 2"
    "wifitask_status st \<Longrightarrow> wifitask_status st'"
    "wifi_others {POW_SLEEP_MODE} f \<Longrightarrow> wifitask_status st' = wifitask_status st"
proof -
  obtain v1 st1 where p: "wifi_power env dev_id (g_pwr_mode (apps_sys (f st))) (v, f st) = Inr (v1, st1)"
    "mode_of v' = mode_of v1" "wifitask_status st' = wifitask_status st1"
    by (rule wifi_round_power [OF assms(4)])
  have f: "g_pwr_mode (apps_sys (f st)) \<in> {POW_RUN_MODE, POW_DYNAMIC_MODE, POW_SLEEP_MODE}"
    "wifitask_status (f st) = wifitask_status st"
    using assms(3) by (auto simp: wifi_others_def)
  have on: "wifitask_status st2" if "wifi_stay_on env dev_id (f st) = Inr st2" "wifitask_status st" for st2
    using that f(2) by (simp add: wifi_stay_on_def)
  have m: "(power_prev v1 = Some POW_SLEEP_MODE \<and> mode_seq v1 = 2) \<and> (wifitask_status st \<longrightarrow> wifitask_status st1) \<and>
      (g_pwr_mode (apps_sys (f st)) = POW_SLEEP_MODE \<longrightarrow> wifitask_status st1 = wifitask_status st)"
  proof (cases "g_pwr_mode (apps_sys (f st))")
    case POW_SLEEP_MODE
    then show ?thesis using p(1) assms(1,2) f(2) by (simp add: wifi_phase_def enter_mode_def)
  qed (use p(1) assms(1,2) f on in auto)
  then show "power_prev v' = Some POW_SLEEP_MODE" "mode_seq v' = 2" "wifitask_status st \<Longrightarrow> wifitask_status st'"
    using p(2,3) by (simp_all add: mode_of_def)
  assume "wifi_others {POW_SLEEP_MODE} f"
  then show "wifitask_status st' = wifitask_status st" using m p(3) by (simp add: wifi_others_def)
qed

text \<open>
  C18. The sleep mode works once. After the module was switched off for the sleep mode it stays off as
  long as the mode lasts. But the task remembers the mode it has left: if the run mode has
  switched the module on again, no later sleep switches it off, however long it lasts, unless the
  low mode comes between.
\<close>

theorem sleep_mode_once:
  assumes "power_prev v = Some POW_SLEEP_MODE" "mode_seq v = 2"
    and "\<forall>f \<in> set fs. wifi_others {POW_RUN_MODE, POW_DYNAMIC_MODE, POW_SLEEP_MODE} f"
    and "wifi_rounds env dev_id fs (v, st) = Inr (running, v', st')"
  shows "((\<forall>f \<in> set fs. wifi_others {POW_SLEEP_MODE} f) \<and> \<not> wifitask_status st \<longrightarrow> \<not> wifitask_status st') \<and>
    (wifitask_status st \<longrightarrow> wifitask_status st')"
  using assms
proof (induction fs arbitrary: v st)
  case (Cons f fs)
  then obtain on v1 st1 where r: "wifi_round env dev_id (v, f st) = Inr (on, v1, st1)"
    "if on then wifi_rounds env dev_id fs (v1, st1) = Inr (running, v', st') else v' = v1 \<and> st' = st1"
    by (auto split: if_splits)
  have f: "wifi_others {POW_RUN_MODE, POW_DYNAMIC_MODE, POW_SLEEP_MODE} f" using Cons.prems(3) by simp
  note one = wifi_sleep_round [OF Cons.prems(1,2) f r(1)]
  show ?case
  proof (cases on)
    case True
    then show ?thesis using Cons.IH [OF one(1,2)] Cons.prems(3) r(2) one(3,4) by auto
  next
    case False
    then show ?thesis using one(3,4) r(2) by auto
  qed
qed simp

lemma sleep_mode_once_witness:
  "\<exists>v st. wifi_rounds bare_board 0 [set_power POW_RUN_MODE, set_power POW_SLEEP_MODE, set_power POW_SLEEP_MODE]
      (wifi_start\<lparr>power_prev := Some POW_SLEEP_MODE, mode_seq := 2\<rparr>,
       (apps_in POW_RUN_MODE 0)\<lparr>wifitask_status := True\<rparr>) = Inr (True, v, st) \<and> wifitask_status st"
proof -
  let ?fs = "[set_power POW_RUN_MODE, set_power POW_SLEEP_MODE, set_power POW_SLEEP_MODE]"
  let ?v = "wifi_start\<lparr>power_prev := Some POW_SLEEP_MODE, mode_seq := 2\<rparr>"
  let ?st = "(apps_in POW_RUN_MODE 0)\<lparr>wifitask_status := True\<rparr>"
  obtain v st where r: "wifi_rounds bare_board 0 ?fs (?v, ?st) = Inr (True, v, st)"
    using bare_rounds by blast
  have "\<forall>f \<in> set ?fs. wifi_others {POW_RUN_MODE, POW_DYNAMIC_MODE, POW_SLEEP_MODE} f"
    by (simp add: set_power_others)
  from sleep_mode_once [OF _ _ this r] have "wifitask_status st" by (simp add: wifi_start_def)
  with r show ?thesis by blast
qed

section \<open>Ten messages\<close>

fun is_sent :: "app_event \<Rightarrow> bool" where
  "is_sent (Sent_text msg) = True"
| "is_sent e = False"

definition sent_texts :: "wifi_locals \<Rightarrow> nat" where
  "sent_texts v = length (filter is_sent (wifi_log v))"

lemma sent_texts_note [simp]:
  "sent_texts (wifi_note e v) = sent_texts v + (if is_sent e then 1 else 0)"
  by (simp add: sent_texts_def)

lemma sent_texts_cong: "wifi_log v' = wifi_log v \<Longrightarrow> sent_texts v' = sent_texts v"
  by (simp add: sent_texts_def)

lemma enter_mode_count [simp]:
  "trans_count (enter_mode pow v) = trans_count v" "wifi_log (enter_mode pow v) = wifi_log v"
  "trans_count (low_tick v) = trans_count v" "wifi_log (low_tick v) = wifi_log v"
  by (simp_all add: enter_mode_def low_tick_def Let_def)

lemma wifi_phase_count:
  assumes "wifi_phase env dev_id rest (v, st) = Inr (v', st')"
    "\<And>u. trans_count (rest u) = trans_count u" "\<And>u. wifi_log (rest u) = wifi_log u"
  shows "trans_count v' = trans_count v \<and> sent_texts v' = sent_texts v"
  using assms
  by (auto simp: wifi_phase_def wifi_switch_off_def sent_texts_def wifi_note_def split: if_splits)

lemma wifi_power_count:
  assumes "wifi_power env dev_id pow (v, st) = Inr (v', st')"
  shows "trans_count v' = trans_count v \<and> sent_texts v' = sent_texts v"
proof -
  have e: "sent_texts (enter_mode pow v) = sent_texts v" by (rule sent_texts_cong) simp
  show ?thesis
  proof (cases pow)
    case POW_LOW_MODE
    then show ?thesis using assms wifi_phase_count [of env dev_id low_tick "enter_mode POW_LOW_MODE v" st v' st'] e by simp
  next
    case POW_SLEEP_MODE
    then show ?thesis using assms wifi_phase_count [of env dev_id "\<lambda>v. v" "enter_mode POW_SLEEP_MODE v" st v' st'] e by simp
  qed (use assms in \<open>auto simp: sent_texts_def\<close>)
qed

lemma wifi_round_count:
  assumes "wifi_round env dev_id (v, st) = Inr (running, v', st')" "trans_count v \<noteq> 0"
  shows "sent_texts v' + unat (trans_count v') = sent_texts v + unat (trans_count v) \<and> (running \<longleftrightarrow> trans_count v' \<noteq> 0)"
proof -
  obtain v1 st1 v2 st2 leave v3 where
    r: "wifi_power env dev_id (g_pwr_mode (apps_sys st)) (v, st) = Inr (v1, st1)"
    "wifi_server env dev_id (v1, st1) = Inr (v2, st2)" "wifi_send env dev_id (v2, st2) = Inr (leave, v3, st')"
    "v' = (if leave then v3 else wifi_note (Slept_ms 1000) v3)" "running = (\<not> leave)"
    using assms(1) by (fastforce simp: wifi_round_def iw_get_power_mode_def split: if_splits)
  have "trans_count v2 = trans_count v" "sent_texts v2 = sent_texts v"
    using wifi_power_count [OF r(1)] wifi_server_keeps(1) [OF r(2)] by (auto simp: sent_texts_def)
  moreover have "sent_texts v3 + unat (trans_count v3) = sent_texts v2 + unat (trans_count v2) \<and> (leave \<longleftrightarrow> trans_count v3 = 0)"
    if "trans_count v2 \<noteq> 0"
    using r(3)
  proof (cases rule: wifi_send_cases)
    case 1
    then show ?thesis using that by (auto simp: sent_texts_def)
  next
    case 2
    have "unat (trans_count v2) = Suc (unat (trans_count v2 - 1))" using that by (simp add: unat_minus_one unat_gt_0)
    with wifi_message_keeps(3-5) [OF 2] show ?thesis by (auto simp: sent_texts_def)
  qed
  ultimately show ?thesis using r(4,5) assms(2) by (cases leave) auto
qed

lemma wifi_rounds_count:
  "wifi_rounds env dev_id fs (v, st) = Inr (running, v', st') \<Longrightarrow> trans_count v \<noteq> 0 \<Longrightarrow>
    sent_texts v' + unat (trans_count v') = sent_texts v + unat (trans_count v) \<and> (running \<longleftrightarrow> trans_count v' \<noteq> 0)"
proof (induction fs arbitrary: v st)
  case (Cons f fs)
  then obtain on v1 st1 where r: "wifi_round env dev_id (v, f st) = Inr (on, v1, st1)"
    "if on then wifi_rounds env dev_id fs (v1, st1) = Inr (running, v', st') else \<not> running \<and> v' = v1"
    by (auto split: if_splits)
  with wifi_round_count [OF r(1) Cons.prems(2)] Cons.IH [of v1 st1] show ?case by (cases on) auto
qed simp

text \<open>The texts fit into their buffers: a clock shows fields of at most two digits.\<close>

definition clock_ok :: "DATE_TIME_T \<Rightarrow> bool" where
  "clock_ok dt \<longleftrightarrow> dt_hour dt \<in> {0..99} \<and> dt_min dt \<in> {0..99} \<and> dt_sec dt \<in> {0..99}"

lemma length_two_digits: "i \<in> {0..99} \<Longrightarrow> length (two_digits i) \<le> 2"
  using length_dec_digits [of 2 "nat i"] by (auto simp: two_digits_def show_int_def Let_def)

lemma length_show_word: "length (show_int (sint (x :: 32 word))) \<le> 11"
proof -
  have "nat (sint x) < 10 ^ 10" "nat (- sint x) < 10 ^ 10"
    using sint_greater_eq [of x] sint_less [of x] by simp_all
  then have "length (dec_digits (nat (sint x))) \<le> 10" "length (dec_digits (nat (- sint x))) \<le> 10"
    by (simp_all only: length_dec_digits)
  then show ?thesis by (simp add: show_int_def)
qed

lemma wifi_text_fits: "clock_ok dt \<Longrightarrow> sprintf_to 256 (wifi_text dt x) = Inr (wifi_text dt x)"
  using length_two_digits [of "dt_hour dt"] length_two_digits [of "dt_min dt"] length_two_digits [of "dt_sec dt"]
    length_show_word [of x]
  by (simp add: clock_ok_def sprintf_to_def wifi_text_def)

text \<open>A board whose module works, has an address and reaches the server.\<close>

definition wifi_up :: "'w board_env \<Rightarrow> nat \<Rightarrow> bool" where
  "wifi_up env d \<longleftrightarrow> (\<forall>k w. \<exists>k' w'. iw_init_network (be_nets env) (be_room env) d k w = Inr (IW_SUCCESS, k', w')) \<and>
     (\<forall>w. \<exists>w'. iw_is_connected_network (be_nets env) d w = Inr ((IW_SUCCESS, Some NET_GOT_IP), w')) \<and>
     (\<forall>w. \<exists>w'. iw_connect_server (be_nets env) d (Some server_ip) server_port 20000 PROTO_TCP w = Inr (NET_SUCCESS, w')) \<and>
     (\<forall>msg w. \<exists>e w'. iw_send_data_network (be_nets env) d msg w = Inr (e, w')) \<and>
     (\<forall>w. \<exists>e w'. iw_disconnect_server (be_nets env) d w = Inr (e, w')) \<and>
     (\<forall>w. clock_ok (fst (be_rtc env w)))"

lemma up_server:
  assumes "wifi_up env d"
  shows "\<exists>st'. wifi_server env d (v, st) = Inr (v\<lparr>net_stat := Some NET_GOT_IP\<rparr>, st') \<and> wifitask_server_connect st'"
proof -
  obtain w where w: "iw_is_connected_network (be_nets env) d (apps_world st) = Inr ((IW_SUCCESS, Some NET_GOT_IP), w)"
    using assms unfolding wifi_up_def by metis
  obtain w' where "iw_connect_server (be_nets env) d (Some server_ip) server_port 20000 PROTO_TCP w = Inr (NET_SUCCESS, w')"
    using assms unfolding wifi_up_def by metis
  with w show ?thesis by (simp add: wifi_server_def wifi_got_ip_def Let_def)
qed

lemma up_message:
  assumes "wifi_up env d"
  shows "\<exists>v' st'. wifi_message env d (v, st) = Inr (trans_count v = 1, v', st') \<and> send_tick v' = send_tick v \<and>
    send_period v' = send_period v"
proof -
  obtain dt w where t: "be_rtc env (apps_world st) = (dt, w)" by fastforce
  with assms have "clock_ok dt" unfolding wifi_up_def by (metis fst_conv)
  then have f: "sprintf_to 256 (wifi_text dt (g_uiCo2Last st)) = Inr (wifi_text dt (g_uiCo2Last st))"
    by (rule wifi_text_fits)
  obtain e w' where s: "iw_send_data_network (be_nets env) d (wifi_text dt (g_uiCo2Last st)) w = Inr (e, w')"
    using assms unfolding wifi_up_def by metis
  obtain e' w'' where "iw_disconnect_server (be_nets env) d w' = Inr (e', w'')"
    using assms unfolding wifi_up_def by metis
  with t f s show ?thesis by (auto simp: wifi_message_def Let_def)
qed

lemma up_round:
  assumes "wifi_up env d" "wifi_others {POW_RUN_MODE} f" "send_tick v \<in> {0, 1, 2}"
  shows "\<exists>running v' st'. wifi_round env d (v, f st) = Inr (running, v', st') \<and> send_period v' = 3 \<and>
    (if send_tick v = 2 then send_tick v' = 0 \<and> sent_texts v' = Suc (sent_texts v) \<and> trans_count v' = trans_count v - 1 \<and>
       running = (trans_count v \<noteq> 1)
     else send_tick v' = send_tick v + 1 \<and> sent_texts v' = sent_texts v \<and> trans_count v' = trans_count v \<and> running)"
proof -
  have "g_pwr_mode (apps_sys (f st)) = POW_RUN_MODE" using assms(2) by (auto simp: wifi_others_def)
  moreover obtain st1 where "wifi_stay_on env d (f st) = Inr st1"
  proof -
    obtain k w where "iw_init_network (be_nets env) (be_room env) d (apps_conn (f st)) (apps_world (f st)) = Inr (IW_SUCCESS, k, w)"
      using assms(1) unfolding wifi_up_def by metis
    then show thesis using that by (cases "wifitask_status (f st)") (auto simp: wifi_stay_on_def wifi_switch_on_def Let_def)
  qed
  ultimately have p: "wifi_power env d (g_pwr_mode (apps_sys (f st))) (v, f st) = Inr (v\<lparr>send_period := 3\<rparr>, st1)" by simp
  define v2 where "v2 = v\<lparr>send_period := 3, net_stat := Some NET_GOT_IP\<rparr>"
  obtain st2 where s: "wifi_server env d (v\<lparr>send_period := 3\<rparr>, st1) = Inr (v2, st2)" "wifitask_server_connect st2"
    using up_server [OF assms(1), of "v\<lparr>send_period := 3\<rparr>" st1] by (auto simp: v2_def)
  have v2: "send_period v2 = 3" "send_tick v2 = send_tick v" "trans_count v2 = trans_count v" "sent_texts v2 = sent_texts v"
    by (simp_all add: v2_def sent_texts_def)
  have t: "send_period v2 \<le> send_tick v2 + 1 \<longleftrightarrow> send_tick v = 2"
    using v2 assms(3) by (auto simp: word_le_nat_alt)
  show ?thesis
  proof (cases "send_tick v = 2")
    case True
    let ?v = "v2\<lparr>send_tick := 0\<rparr>"
    obtain v3 st3 where m: "wifi_message env d (?v, st2) = Inr (trans_count v = 1, v3, st3)" "send_tick v3 = 0" "send_period v3 = 3"
      using up_message [OF assms(1), of ?v st2] v2 by auto
    then have "wifi_send env d (v2, st2) = Inr (trans_count v = 1, v3, st3)"
      using t True s(2) by (simp add: wifi_send_def Let_def)
    moreover have "trans_count v3 = trans_count v - 1" "sent_texts v3 = Suc (sent_texts v)"
      using wifi_message_keeps(3,5) [OF m(1)] v2 by (auto simp: sent_texts_def)
    ultimately show ?thesis using p s(1) True m by (simp add: wifi_round_def iw_get_power_mode_def)
  next
    case False
    then have "wifi_send env d (v2, st2) = Inr (False, v2\<lparr>send_tick := send_tick v2 + 1\<rparr>, st2)"
      using t by (simp add: wifi_send_def Let_def)
    then show ?thesis using p s(1) False v2 by (auto simp: wifi_round_def iw_get_power_mode_def sent_texts_def)
  qed
qed

lemma up_rounds:
  assumes "wifi_up env d"
  shows "\<forall>f \<in> set fs. wifi_others {POW_RUN_MODE} f \<Longrightarrow> send_tick v \<in> {0, 1, 2} \<Longrightarrow> trans_count v \<noteq> 0 \<Longrightarrow>
    length fs + unat (send_tick v) = 3 * unat (trans_count v) \<Longrightarrow>
    \<exists>v' st'. wifi_rounds env d fs (v, st) = Inr (False, v', st')"
proof (induction fs arbitrary: v st)
  case Nil
  then have "unat (send_tick v) < 3 * unat (trans_count v)"
    using unat_gt_0 [of "trans_count v"] by auto
  with Nil show ?case by simp
next
  case (Cons f fs)
  then obtain running v1 st1 where r: "wifi_round env d (v, f st) = Inr (running, v1, st1)"
    "if send_tick v = 2 then send_tick v1 = 0 \<and> trans_count v1 = trans_count v - 1 \<and> running = (trans_count v \<noteq> 1)
     else send_tick v1 = send_tick v + 1 \<and> trans_count v1 = trans_count v \<and> running"
    using up_round [OF assms, of f v st] by (auto split: if_splits)
  have minus: "unat (trans_count v) = Suc (unat (trans_count v - 1))"
    using Cons.prems(3) by (simp add: unat_minus_one unat_gt_0)
  show ?case
  proof (cases running)
    case True
    have "length fs + unat (send_tick v1) = 3 * unat (trans_count v1)"
    proof (cases "send_tick v = 2")
      case True
      with r(2) show ?thesis using Cons.prems(4) minus by simp
    next
      case False
      then have "send_tick v1 = send_tick v + 1" "unat (send_tick v1) = Suc (unat (send_tick v))"
        using r(2) Cons.prems(2) by auto
      with r(2) False show ?thesis using Cons.prems(4) by simp
    qed
    moreover have "send_tick v1 \<in> {0, 1, 2}" "trans_count v1 \<noteq> 0"
      using r(2) True Cons.prems(2,3) by (auto split: if_splits)
    ultimately show ?thesis using Cons.IH [of v1 st1] Cons.prems(1) r(1) True by simp
  next
    case False
    then show ?thesis using r(1) by simp
  qed
qed

text \<open>
  C30. The Wi-Fi task sends ten messages and ends. Whatever the modes, the drivers and the other tasks
  do, it never sends more, and it leaves its loop exactly with the tenth. In the run mode, on a network that is
  always up, that is after thirty rounds.
\<close>

theorem wifi_ten_messages:
  assumes "iw_get_network_devid NET_DEV_TYPE_WIFI None (be_nets env) = Inr (IW_SUCCESS, Some d)"
  shows "(\<forall>running v st'. WifiTask env fs st = Inr (running, v, st') \<longrightarrow>
      sent_texts v \<le> 10 \<and> (running \<longleftrightarrow> sent_texts v < 10) \<and> (\<not> running \<longrightarrow> last (wifi_log v) = Left_task)) \<and>
    (wifi_up env d \<and> length fs = 30 \<and> (\<forall>f \<in> set fs. wifi_others {POW_RUN_MODE} f) \<longrightarrow>
      (\<exists>v st'. WifiTask env fs st = Inr (False, v, st')))"
proof -
  let ?v = "wifi_note (Slept_ms 3000) wifi_start"
  have start: "trans_count ?v = 10" "send_tick ?v = 0" "sent_texts ?v = 0"
    by (simp_all add: wifi_start_def sent_texts_def)
  have task: "WifiTask env fs st = rbind (wifi_rounds env d fs (?v, st)) (\<lambda>(running, v, st).
      Inr (running, if running then v else wifi_note Left_task v, st))"
    using assms by (simp add: WifiTask_def Let_def)
  have "sent_texts v \<le> 10 \<and> (running \<longleftrightarrow> sent_texts v < 10) \<and> (\<not> running \<longrightarrow> last (wifi_log v) = Left_task)"
    if run: "WifiTask env fs st = Inr (running, v, st')" for running v st'
  proof -
    obtain v1 where v1: "wifi_rounds env d fs (?v, st) = Inr (running, v1, st')"
      "v = (if running then v1 else wifi_note Left_task v1)"
      using run task by auto
    have "trans_count ?v \<noteq> 0" using start by simp
    from wifi_rounds_count [OF v1(1) this] start v1(2)
    have c: "sent_texts v + unat (trans_count v1) = 10" "running \<longleftrightarrow> trans_count v1 \<noteq> 0" by auto
    moreover have "unat (trans_count v1) = 0 \<longleftrightarrow> trans_count v1 = 0" by (rule unat_eq_0)
    ultimately show ?thesis using v1(2) by auto
  qed
  moreover have "\<exists>v st'. WifiTask env fs st = Inr (False, v, st')"
    if up: "wifi_up env d \<and> length fs = 30 \<and> (\<forall>f \<in> set fs. wifi_others {POW_RUN_MODE} f)"
  proof -
    from up obtain v' st' where "wifi_rounds env d fs (?v, st) = Inr (False, v', st')"
      using up_rounds [of env d fs ?v st] start by auto
    then show ?thesis using task by simp
  qed
  ultimately show ?thesis by blast
qed

text \<open>A board with a module that does what it is asked.\<close>

definition good_module :: "nat net_func" where
  "good_module = \<lparr>nf_init = Some (\<lambda>_ w. (IW_SUCCESS, w)), nf_deinit = Some (\<lambda>_ w. (IW_SUCCESS, w)),
     nf_is_ready = Some (\<lambda>_ w. ((IW_SUCCESS, Some DEV_INITIALIZED), w)), nf_available = None,
     nf_recv_data = None, nf_send_data = Some (\<lambda>_ _ w. (IW_SUCCESS, Suc w)), nf_connect = None,
     nf_disconnect = Some (\<lambda>_ w. (IW_SUCCESS, w)), nf_is_connected = Some (\<lambda>_ w. ((IW_SUCCESS, Some NET_GOT_IP), w)),
     nf_scan = None, nf_get_capa = None, nf_set_config = None, nf_get_config = None, nf_set_power = None,
     nf_get_power = None, nf_get_rssi = None, nf_connect_server = Some (\<lambda>_ _ _ _ _ w. (NET_SUCCESS, w)),
     nf_disconnect_server = Some (\<lambda>_ w. (NET_SUCCESS, w))\<rparr>"

definition wifi_device :: "nat net_func device" where
  "wifi_device = (empty_device :: nat net_func device)\<lparr>d_type := NET_DEV_TYPE_WIFI, d_func := Some good_module\<rparr>"

definition wifi_board :: "nat board_env" where
  "wifi_board = bare_board\<lparr>be_nets := (empty_registry :: nat net_registry)\<lparr>dev_num := 1, devs := [wifi_device]\<rparr>\<rparr>"

lemma wifi_board_up: "wifi_up wifi_board 0"
  by (simp add: wifi_up_def wifi_board_def iw_init_network_def iw_is_connected_network_def iw_connect_server_def
      iw_send_data_network_def iw_disconnect_server_def dispatch_dev_def wifi_device_def good_module_def bare_board_def
      clock_ok_def create_connection_task_def MAX_DEV_def net_type_defs empty_device_def Let_def)

lemma wifi_ten_messages_witness:
  "\<exists>v st. WifiTask wifi_board (replicate 30 (set_power POW_RUN_MODE)) (apps_in POW_RUN_MODE 0) = Inr (False, v, st) \<and>
    sent_texts v = 10"
proof -
  let ?fs = "replicate 30 (set_power POW_RUN_MODE)"
  have d: "iw_get_network_devid NET_DEV_TYPE_WIFI None (be_nets wifi_board) = Inr (IW_SUCCESS, Some 0)"
    by (simp add: iw_get_network_devid_def wifi_board_def wifi_device_def net_type_defs found_dev_def)
  have "length ?fs = 30 \<and> (\<forall>f \<in> set ?fs. wifi_others {POW_RUN_MODE} f)" by (simp add: set_power_others)
  then obtain v st where "WifiTask wifi_board ?fs (apps_in POW_RUN_MODE 0) = Inr (False, v, st)"
    using wifi_ten_messages [OF d, of ?fs "apps_in POW_RUN_MODE 0"] wifi_board_up by blast
  moreover from this have "sent_texts v \<le> 10" "\<not> sent_texts v < 10"
    using wifi_ten_messages [OF d, of ?fs "apps_in POW_RUN_MODE 0"] by blast+
  ultimately show ?thesis by (metis le_neq_implies_less)
qed

section \<open>The duty cycle of the sensor\<close>

lemma co2_note_sel [simp]:
  "co2_seq (co2_note e v) = co2_seq v" "co2_mode_tick (co2_note e v) = co2_mode_tick v"
  "capture (co2_note e v) = capture v"
  by (simp_all add: co2_note_def)

lemma co2_sample_keeps:
  "co2_sample env dev_id (v, st) = Inr (v', st') \<Longrightarrow>
    co2_seq v' = co2_seq v \<and> co2_mode_tick v' = co2_mode_tick v \<and> co2task_status st' = co2task_status st"
  by (auto simp: co2_sample_def Let_def split: if_splits)

lemma co2_read_keeps:
  assumes "co2_read env dev_id (v, st) = Inr (v', st')"
  shows "co2_seq v' = co2_seq v \<and> co2_mode_tick v' = co2_mode_tick v \<and> co2task_status st' = co2task_status st"
proof -
  obtain e ready w where r: "iw_is_ready_sensor (be_sensors env) dev_id (apps_world st) = Inr ((e, Some ready), w)"
    using assms by (auto simp: co2_read_def Let_def split: option.splits)
  show ?thesis
  proof (cases "ready = DEV_INITIALIZED \<and> co2_period v \<le> co2_tick v + 1")
    case True
    then have "co2_sample env dev_id (v\<lparr>co2_tick := co2_tick v + 1\<rparr>\<lparr>co2_tick := 0\<rparr>, st\<lparr>apps_world := w\<rparr>) = Inr (v', st')"
      using assms by (simp add: co2_read_def r Let_def)
    from co2_sample_keeps [OF this] show ?thesis by simp
  qed (use assms in \<open>auto simp: co2_read_def r Let_def split: if_splits\<close>)
qed

lemma co2_round_power:
  assumes "co2_round env dev_id (v, st) = Inr (v', st')"
  obtains v1 st1 where "co2_power env dev_id (g_pwr_mode (apps_sys st)) (v, st) = Inr (v1, st1)"
    "co2_seq v' = co2_seq v1" "co2_mode_tick v' = co2_mode_tick v1" "co2task_status st' = co2task_status st1"
proof -
  obtain v1 st1 v2 where "co2_power env dev_id (g_pwr_mode (apps_sys st)) (v, st) = Inr (v1, st1)"
    "co2_read env dev_id (v1, st1) = Inr (v2, st')" "v' = co2_note (Slept_ms 1000) v2"
    using assms by (auto simp: co2_round_def iw_get_power_mode_def)
  with that co2_read_keeps [OF this(2)] show thesis by simp
qed

lemma co2_phase_result:
  assumes "co2_phase env dev_id (v, st) = Inr (v', st')"
  shows "co2_seq v = 0 \<Longrightarrow> co2task_status st \<Longrightarrow> v' = v \<and> st' = st"
    "co2_seq v = 0 \<Longrightarrow> co2_seq v' = 0 \<and> co2task_status st' = co2task_status st \<or> co2_seq v' = 1 \<and> co2task_status st'"
    "co2_seq v = 1 \<Longrightarrow> v' = v \<and> st' = st \<and> \<not> capture v \<or>
      capture v \<and> co2_seq v' = 2 \<and> co2_mode_tick v' = 0 \<and> \<not> co2task_status st'"
    "co2_seq v \<noteq> 0 \<Longrightarrow> co2_seq v \<noteq> 1 \<Longrightarrow> st' = st \<and> co2_mode_tick v' = co2_mode_tick v + 1 \<and>
      co2_seq v' = (if 10 < co2_mode_tick v + 1 then 0 else co2_seq v)"
  using assms
  by (auto simp: co2_phase_def co2_switch_on_def co2_switch_off_def Let_def split: if_splits prod.splits)

definition co2_phase_of :: "co2_locals \<times> 'w apps \<Rightarrow> phase" where
  "co2_phase_of vs = (if co2_seq (fst vs) = 0 then Starting else if co2_seq (fst vs) = 1 then Using
     else Pausing (unat (co2_mode_tick (fst vs))))"

definition co2_low_ok :: "co2_locals \<times> 'w apps \<Rightarrow> bool" where
  "co2_low_ok vs \<longleftrightarrow> (co2_seq (fst vs) \<noteq> 0 \<and> co2_seq (fst vs) \<noteq> 1 \<longrightarrow> co2_mode_tick (fst vs) < 11)"

definition co2_low_step :: "'w board_env \<Rightarrow> nat \<Rightarrow> co2_locals \<times> 'w apps \<Rightarrow> co2_locals \<times> 'w apps \<Rightarrow> bool" where
  "co2_low_step env dev_id vs vs' \<longleftrightarrow>
     (\<exists>f. co2_others {POW_LOW_MODE} f \<and> co2_round env dev_id (fst vs, f (snd vs)) = Inr vs')"

lemma co2_low_step_power:
  assumes "co2_low_step env dev_id (v, st) (v', st')"
  obtains v1 st1 st0 where "co2_phase env dev_id (v, st0) = Inr (v1, st1)"
    "co2task_status st0 = co2task_status st" "co2_seq v' = co2_seq v1" "co2_mode_tick v' = co2_mode_tick v1"
    "co2task_status st' = co2task_status st1"
proof -
  obtain f where f: "co2_others {POW_LOW_MODE} f" "co2_round env dev_id (v, f st) = Inr (v', st')"
    using assms by (auto simp: co2_low_step_def)
  from f(1) have "g_pwr_mode (apps_sys (f st)) = POW_LOW_MODE" "co2task_status (f st) = co2task_status st"
    by (auto simp: co2_others_def)
  with co2_round_power [OF f(2)] that show thesis by (metis co2_power.simps(3))
qed

interpretation co2_cycle: duty_cycle co2_low_ok "co2_low_step env dev_id" co2_phase_of
    "\<lambda>vs. co2task_status (snd vs)" 11
  for env :: "'w board_env" and dev_id
proof unfold_locales
  fix s s' :: "co2_locals \<times> 'w apps" and n
  assume ok: "co2_low_ok s" and step: "co2_low_step env dev_id s s'"
  obtain v st v' st' where s: "s = (v, st)" "s' = (v', st')" by (cases s, cases s')
  obtain v1 st1 st0 where p: "co2_phase env dev_id (v, st0) = Inr (v1, st1)"
    "co2task_status st0 = co2task_status st" and m: "co2_seq v' = co2_seq v1" "co2_mode_tick v' = co2_mode_tick v1"
    "co2task_status st' = co2task_status st1"
    using co2_low_step_power step s by metis
  note r = co2_phase_result [OF p(1)]
  have tick: "unat (co2_mode_tick v + 1) = Suc (unat (co2_mode_tick v)) \<and>
      (10 < co2_mode_tick v + 1 \<longleftrightarrow> \<not> Suc (unat (co2_mode_tick v)) < 11)" if "co2_mode_tick v < 11"
    using that by (simp add: unat_word_ariths word_less_nat_alt) linarith
  have t: "co2_seq v \<noteq> 0 \<and> co2_seq v \<noteq> 1 \<Longrightarrow> co2_mode_tick v < 11" using ok s by (simp add: co2_low_ok_def)
  have "co2_seq v1 \<noteq> 0 \<Longrightarrow> co2_seq v1 \<noteq> 1 \<Longrightarrow> co2_mode_tick v1 < 11"
    using r(2-4) t tick by (cases "co2_seq v = 0"; cases "co2_seq v = 1") (auto simp: word_less_nat_alt split: if_splits)
  then show "co2_low_ok s'" using m by (simp add: co2_low_ok_def s)
  show "co2_phase_of s' = Starting \<and> co2task_status (snd s') = co2task_status (snd s) \<or>
      co2_phase_of s' = Using \<and> co2task_status (snd s')" if "co2_phase_of s = Starting"
    using that r(2) m p by (auto simp: co2_phase_of_def s split: if_splits)
  show "co2_phase_of s' = Using \<and> co2task_status (snd s') = co2task_status (snd s) \<or>
      co2_phase_of s' = Pausing 0 \<and> \<not> co2task_status (snd s')" if "co2_phase_of s = Using"
    using that r(3) m p by (auto simp: co2_phase_of_def s split: if_splits)
  show "co2task_status (snd s') = co2task_status (snd s) \<and>
      co2_phase_of s' = (if Suc n < 11 then Pausing (Suc n) else Starting)" if "co2_phase_of s = Pausing n"
    using that r(4) m p t tick by (auto simp: co2_phase_of_def s split: if_splits)
qed

lemma co2_rounds_steps:
  assumes "\<forall>f \<in> set fs. co2_others {POW_LOW_MODE} f"
  shows "co2_rounds env dev_id fs vs = Inr vs' \<Longrightarrow> (co2_low_step env dev_id ^^ length fs) vs vs'"
  using assms
proof (induction fs arbitrary: vs)
  case (Cons f fs)
  then obtain us where us: "co2_round env dev_id (fst vs, f (snd vs)) = Inr us" "co2_rounds env dev_id fs us = Inr vs'"
    by auto
  then have "co2_low_step env dev_id vs us" using Cons.prems by (auto simp: co2_low_step_def)
  moreover have "(co2_low_step env dev_id ^^ length fs) us vs'" using Cons us by simp
  ultimately show ?case by (simp only: list.size(4) add_0_right add_Suc_right) (rule relpowp_Suc_I2)
qed simp

text \<open>A driver that never reports its sensor ready, as one that is switched off does.\<close>

definition never_ready :: "'w board_env \<Rightarrow> nat \<Rightarrow> bool" where
  "never_ready env d \<longleftrightarrow> (\<forall>w e s w'. iw_is_ready_sensor (be_sensors env) d w = Inr ((e, s), w') \<longrightarrow> s \<noteq> Some DEV_INITIALIZED)"

lemma co2_stuck_round:
  assumes "co2_others {POW_LOW_MODE} f" "co2_round env d (v, f st) = Inr (v', st')"
  shows "co2_seq v = 0 \<Longrightarrow> co2task_status st \<Longrightarrow> co2_seq v' = 0 \<and> co2task_status st'"
    "co2_seq v = 1 \<Longrightarrow> \<not> capture v \<Longrightarrow> never_ready env d \<Longrightarrow>
      co2_seq v' = 1 \<and> \<not> capture v' \<and> co2task_status st' = co2task_status st"
proof -
  have f: "g_pwr_mode (apps_sys (f st)) = POW_LOW_MODE" "co2task_status (f st) = co2task_status st"
    using assms(1) by (auto simp: co2_others_def)
  obtain v1 st1 v2 where p: "co2_phase env d (v, f st) = Inr (v1, st1)" "co2_read env d (v1, st1) = Inr (v2, st')"
    "v' = co2_note (Slept_ms 1000) v2"
    using assms(2) f(1) by (auto simp: co2_round_def iw_get_power_mode_def)
  note r = co2_phase_result [OF p(1)]
  show "co2_seq v = 0 \<Longrightarrow> co2task_status st \<Longrightarrow> co2_seq v' = 0 \<and> co2task_status st'"
    using r(1) co2_read_keeps [OF p(2)] p(3) f(2) by simp
  assume q: "co2_seq v = 1" "\<not> capture v" "never_ready env d"
  obtain e s w where i: "iw_is_ready_sensor (be_sensors env) d (apps_world st1) = Inr ((e, s), w)"
    using p(2) by (auto simp: co2_read_def)
  then have "s \<noteq> Some DEV_INITIALIZED" using q(3) unfolding never_ready_def by blast
  then have "v2 = v1\<lparr>co2_tick := 0\<rparr>"
    using p(2) by (cases s) (simp_all add: co2_read_def i Let_def)
  then show "co2_seq v' = 1 \<and> \<not> capture v' \<and> co2task_status st' = co2task_status st"
    using r(3) [OF q(1)] q co2_read_keeps [OF p(2)] p(3) f(2) by simp
qed

text \<open>
  C31. The sensor in the low mode. A pause lasts exactly 11 rounds in which the sensor is off. But the machine
  is left alone by the other modes: when the low mode begins with the sensor switched on, it stays on
  as long as the mode lasts; and when the sleep mode has switched it off while it was to be used, it
  is never switched on again.
\<close>

theorem co2_low_mode:
  assumes low: "\<forall>f \<in> set fs. co2_others {POW_LOW_MODE} f"
    and run: "co2_rounds env d fs (v, st) = Inr (v', st')"
  shows "(co2_seq v = 2 \<and> co2_mode_tick v = 0 \<and> \<not> co2task_status st \<and> length fs \<le> 11 \<longrightarrow> \<not> co2task_status st' \<and>
      (if length fs < 11 then co2_seq v' \<notin> {0, 1} \<and> unat (co2_mode_tick v') = length fs else co2_seq v' = 0)) \<and>
    (co2_seq v = 0 \<and> co2task_status st \<longrightarrow> co2task_status st') \<and>
    (co2_seq v = 1 \<and> \<not> capture v \<and> \<not> co2task_status st \<and> never_ready env d \<longrightarrow> \<not> co2task_status st')"
proof -
  have a: "\<not> co2task_status st' \<and>
      (if length fs < 11 then co2_seq v' \<notin> {0, 1} \<and> unat (co2_mode_tick v') = length fs else co2_seq v' = 0)"
    if p: "co2_seq v = 2 \<and> co2_mode_tick v = 0 \<and> \<not> co2task_status st \<and> length fs \<le> 11"
  proof -
    from p have "co2_low_ok (v, st)" "co2_phase_of (v, st) = Pausing 0" by (simp_all add: co2_low_ok_def co2_phase_of_def)
    from co2_cycle.pause_lasts [OF co2_rounds_steps [OF low run] this] p
    have "\<not> co2task_status st' \<and> co2_phase_of (v', st') = (if length fs < 11 then Pausing (length fs) else Starting)" by simp
    then show ?thesis by (auto simp: co2_phase_of_def split: if_splits)
  qed
  have "co2_seq v' = 0 \<and> co2task_status st'" if "co2_seq v = 0" "co2task_status st"
    using low run that
  proof (induction fs arbitrary: v st)
    case (Cons f fs)
    then obtain v1 st1 where r: "co2_round env d (v, f st) = Inr (v1, st1)" "co2_rounds env d fs (v1, st1) = Inr (v', st')"
      by auto
    with co2_stuck_round(1) [of f env d v st v1 st1] Cons show ?case by auto
  qed simp
  moreover have "co2task_status st' = co2task_status st" if "co2_seq v = 1" "\<not> capture v" "never_ready env d"
    using low run that
  proof (induction fs arbitrary: v st)
    case (Cons f fs)
    then obtain v1 st1 where r: "co2_round env d (v, f st) = Inr (v1, st1)" "co2_rounds env d fs (v1, st1) = Inr (v', st')"
      by auto
    with co2_stuck_round(2) [of f env d v st v1 st1] Cons show ?case by auto
  qed simp
  ultimately show ?thesis using a by blast
qed

text \<open>A sensor that is ready and whose reading is 513.\<close>

definition good_sensor :: "nat sensor_func" where
  "good_sensor = \<lparr>sf_init = Some (\<lambda>_ w. (IW_SUCCESS, w)), sf_deinit = Some (\<lambda>_ w. (IW_SUCCESS, w)),
     sf_is_ready = Some (\<lambda>_ w. ((IW_SUCCESS, Some DEV_INITIALIZED), w)),
     sf_read = Some (\<lambda>_ _ _ w. ((IW_SUCCESS, Some [1, 2, 0, 0]), Suc w)), sf_get_capa = None, sf_set_config = None,
     sf_get_config = None, sf_set_power = None, sf_get_power = None\<rparr>"

definition co2_device :: "nat sensor_func device" where
  "co2_device = (empty_device :: nat sensor_func device)\<lparr>d_type := SENSOR_TYPE_CO2, d_func := Some good_sensor\<rparr>"

definition co2_board :: "nat board_env" where
  "co2_board = bare_board\<lparr>be_sensors := (empty_registry :: nat sensor_registry)\<lparr>dev_num := 1, devs := [co2_device]\<rparr>\<rparr>"

lemma co2_board_calls:
  "iw_init_sensor (be_sensors co2_board) 0 w = (IW_SUCCESS, w)"
  "iw_deinit_sensor (be_sensors co2_board) 0 w = Inr (IW_SUCCESS, w)"
  "iw_is_ready_sensor (be_sensors co2_board) 0 w = Inr ((IW_SUCCESS, Some DEV_INITIALIZED), w)"
  "iw_read_sensor (be_sensors co2_board) 0 SENSOR_TYPE_CO2 (Suc 0) w = Inr ((IW_SUCCESS, Some [1, 2, 0, 0]), Suc w)"
  "iw_get_sensor_devid SENSOR_TYPE_CO2 None (be_sensors co2_board) = Inr (IW_SUCCESS, Some 0)"
  by (simp_all add: iw_init_sensor_def iw_deinit_sensor_def iw_is_ready_sensor_def iw_read_sensor_def dispatch_dev_def
      iw_get_sensor_devid_def found_dev_def co2_board_def co2_device_def good_sensor_def MAX_DEV_def
      SENSOR_TYPE_CO2_def empty_device_def)

lemma co2_board_power:
  "\<exists>v' st'. co2_power co2_board 0 pow (v, st) = Inr (v', st') \<and> length (co2_buf v') = length (co2_buf v)"
  by (cases pow) (auto simp: co2_stay_on_def co2_switch_on_def co2_phase_def co2_switch_off_def co2_board_calls Let_def)

lemma co2_board_sample:
  assumes "length (co2_buf v) = 4"
  shows "\<exists>v' st'. co2_sample co2_board 0 (v, st) = Inr (v', st') \<and> length (co2_buf v') = 4"
proof -
  have "put_bytes (Some [1, 2, 0, 0]) (co2_buf v) = Inr [Some 1, Some 2, Some 0, Some 0]"
    using assms by (simp add: put_bytes_def)
  then show ?thesis
    by (simp add: co2_sample_def co2_board_calls uint_of_def get_bytes_def co2_note_def Let_def del: rbind_eq_Inr)
qed

lemma co2_board_rounds:
  "length (co2_buf v) = 4 \<Longrightarrow> \<exists>v' st'. co2_rounds co2_board 0 fs (v, st) = Inr (v', st')"
proof (induction fs arbitrary: v st)
  case (Cons f fs)
  obtain v1 st1 where p: "co2_power co2_board 0 (g_pwr_mode (apps_sys (f st))) (v, f st) = Inr (v1, st1)"
    "length (co2_buf v1) = 4"
    using co2_board_power [of "g_pwr_mode (apps_sys (f st))" v "f st"] Cons.prems by auto
  have "\<exists>v2 st2. co2_read co2_board 0 (v1, st1) = Inr (v2, st2) \<and> length (co2_buf v2) = 4"
    using p(2) co2_board_sample [of "v1\<lparr>co2_tick := 0\<rparr>" "st1"]
    by (simp add: co2_read_def co2_board_calls Let_def del: rbind_eq_Inr)
  then obtain v2 st2 where "co2_read co2_board 0 (v1, st1) = Inr (v2, st2)" "length (co2_buf v2) = 4"
    by blast
  with p(1) Cons.IH [of "co2_note (Slept_ms 1000) v2" st2] show ?case
    by (simp add: co2_round_def iw_get_power_mode_def co2_note_def)
qed simp

lemma co2_low_mode_witness:
  "\<exists>v st. co2_rounds co2_board 0 (replicate 2 (set_power POW_LOW_MODE))
      (co2_start, (apps_in POW_RUN_MODE 0)\<lparr>co2task_status := True\<rparr>) = Inr (v, st) \<and> co2task_status st"
proof -
  let ?fs = "replicate 2 (set_power POW_LOW_MODE)"
  let ?st = "(apps_in POW_RUN_MODE 0)\<lparr>co2task_status := True\<rparr>"
  obtain v st where r: "co2_rounds co2_board 0 ?fs (co2_start, ?st) = Inr (v, st)"
    using co2_board_rounds [of co2_start ?fs ?st] by (auto simp: co2_start_def)
  have "\<forall>f \<in> set ?fs. co2_others {POW_LOW_MODE} f" by (simp add: set_power_others)
  from co2_low_mode [OF this r] have "co2task_status st" by (simp add: co2_start_def)
  with r show ?thesis by blast
qed

end
