(* ===== verification/TestApps.thy ===== *)
theory TestApps
  imports PowerApps DebugPrint
begin

text \<open>
  The other programs of \<^verbatim>\<open>App/start_apps.c\<close>: the tasks of mode 1 that send and read
  without saving energy, the sample for the list, and the task of mode 2, which switches the power of
  the Wi-Fi module with a fixed duty. A task is modelled by the round of its loop. The
  level of the low battery service is an argument of the rounds that call the guarded
  functions; the messages for the console are left out, but a message that reads a buffer
  or a variable is a use of it.
\<close>

section \<open>LoRa\<close>

definition NET_PWR_RUN_MODE :: nat where "NET_PWR_RUN_MODE = 0"
definition NET_PWR_OFF_MODE :: nat where "NET_PWR_OFF_MODE = 3"

text \<open>The static variables \<^verbatim>\<open>cnt\<close> and \<^verbatim>\<open>cnt1\<close>: the power is switched on every second call.\<close>

record pwr_statics =
  pwr_cnt :: int
  pwr_cnt1 :: int

definition control_pwrmode_network ::
    "'w net_registry \<Rightarrow> nat \<Rightarrow> pwr_statics \<times> 'w \<Rightarrow> (pwr_statics \<times> 'w) res" where
  "control_pwrmode_network reg dev_id sw = (case sw of (s, w) \<Rightarrow>
     let s = s\<lparr>pwr_cnt := pwr_cnt s + 1\<rparr> in
     rbind (if pwr_cnt1 s = 0 \<and> pwr_cnt s = 2 then
              rbind (set_pwrmode_network reg dev_id NET_PWR_OFF_MODE w) (\<lambda>(_, w). Inr (\<lparr>pwr_cnt = 0, pwr_cnt1 = 1\<rparr>, w))
            else Inr (s, w)) (\<lambda>(s, w).
       if pwr_cnt1 s = 1 \<and> pwr_cnt s = 2 then
         rbind (set_pwrmode_network reg dev_id NET_PWR_RUN_MODE w) (\<lambda>(_, w). Inr (\<lparr>pwr_cnt = 0, pwr_cnt1 = 0\<rparr>, w))
       else Inr (s, w)))"

text \<open>The three nested loops are the phases of the task.\<close>

datatype lora_phase = Joining | Sending | Receiving

record 'w lora =
  lora_phase :: lora_phase
  lora_status :: "int option"
  lora_len :: "nat option"
  lora_rssi :: "int option"
  lora_wbuf :: string
  lora_rbuf :: string
  lora_log :: "app_event list"
  lora_world :: 'w

definition MAX_R_LEN :: nat where "MAX_R_LEN = 512"
definition MAX_W_LEN :: nat where "MAX_W_LEN = 512"

definition SEND_LORA_STR :: cstring where
  "SEND_LORA_STR = ''{if=2;dri=2;di=4dasc44321}{tif=[{ti=101;sp={miop=0;maop=3600''"

definition lora_start :: "'w \<Rightarrow> 'w lora" where
  "lora_start w = \<lparr>lora_phase = Joining, lora_status = None, lora_len = None, lora_rssi = None,
     lora_wbuf = replicate MAX_W_LEN nul, lora_rbuf = replicate MAX_R_LEN nul, lora_log = [], lora_world = w\<rparr>"

definition lora_sleep :: "nat \<Rightarrow> 'w lora \<Rightarrow> 'w lora" where
  "lora_sleep ms st = st\<lparr>lora_log := lora_log st @ [Slept_ms ms]\<rparr>"

definition read_var :: "'a option \<Rightarrow> 'a res" where
  "read_var x = (case x of None \<Rightarrow> Inl Uninitialised | Some v \<Rightarrow> Inr v)"

definition lora_join :: "'w board_env \<Rightarrow> nat \<Rightarrow> 'w lora \<Rightarrow> 'w lora res" where
  "lora_join env dev_id st =
     rbind (is_connected_network (be_nets env) dev_id (lora_world st)) (\<lambda>((e, s), w).
       let st = st\<lparr>lora_status := (if s = None then lora_status st else s), lora_world := w\<rparr> in
       rbind (if e = IW_SUCCESS then rbind (read_var (lora_status st)) (\<lambda>s. Inr (s = NET_CONNECTED)) else Inr False) (\<lambda>joined.
       if joined then
         rbind (connect_server (be_nets env) dev_id None 2 5000 PROTO_TCP w) (\<lambda>(_, w).
         rbind (memcpy (lora_wbuf st) SEND_LORA_STR (length SEND_LORA_STR)) (\<lambda>buf.
           Inr (st\<lparr>lora_phase := Sending, lora_wbuf := buf, lora_world := w\<rparr>)))
       else Inr (lora_sleep 2000 st)))"

definition lora_send :: "'w board_env \<Rightarrow> nat \<Rightarrow> nat \<Rightarrow> 'w lora \<Rightarrow> 'w lora res" where
  "lora_send env level dev_id st =
     rbind (field_str (lora_wbuf st)) (\<lambda>msg.
     rbind (send_data_network level (be_nets env) dev_id msg (lora_world st)) (\<lambda>(e, w).
       let st = st\<lparr>lora_world := w\<rparr> in
       Inr (if e = IW_SUCCESS then st\<lparr>lora_phase := Receiving, lora_len := None\<rparr> else lora_sleep 2000 st)))"

text \<open>
  What was received is put into the zeroed buffer and printed up to the first zero; the console
  has a buffer of 256 bytes.
\<close>

definition lora_receive :: "'w board_env \<Rightarrow> nat \<Rightarrow> 'w lora \<Rightarrow> 'w lora res" where
  "lora_receive env dev_id st =
     rbind (recv_data_network (be_nets env) dev_id MAX_R_LEN (lora_world st)) (\<lambda>((e, bytes, len), w).
     if MAX_R_LEN < length bytes then Inl Out_of_bounds
     else
       let buf = bytes @ replicate (MAX_R_LEN - length bytes) nul in
       rbind (if e = IW_SUCCESS \<and> 0 < len then rbind (field_str buf) (\<lambda>s. sprintf_to 256 (s @ [CHR 0x0A]))
              else Inr []) (\<lambda>_.
       rbind (iw_get_rssi_network (be_nets env) dev_id w) (\<lambda>((_, r), w).
       rbind (read_var (if r = None then lora_rssi st else r)) (\<lambda>rssi.
         Inr (lora_sleep 1000 (lora_sleep 1000 (lora_sleep 1000
           (st\<lparr>lora_phase := Joining, lora_rbuf := buf, lora_rssi := Some rssi, lora_world := w\<rparr>))))))))"

definition lora_wait :: "'w board_env \<Rightarrow> nat \<Rightarrow> 'w lora \<Rightarrow> 'w lora res" where
  "lora_wait env dev_id st =
     rbind (available_network (be_nets env) dev_id (lora_world st)) (\<lambda>((e, n), w).
       let st = st\<lparr>lora_len := (if n = None then lora_len st else n), lora_world := w\<rparr> in
       rbind (if e = IW_SUCCESS then rbind (read_var (lora_len st)) (\<lambda>n. Inr (0 < n)) else Inr False) (\<lambda>some.
       if some then lora_receive env dev_id st else Inr (lora_sleep 1000 st)))"

definition lora_round :: "'w board_env \<Rightarrow> nat \<Rightarrow> nat \<Rightarrow> 'w lora \<Rightarrow> 'w lora res" where
  "lora_round env level dev_id st = (case lora_phase st of
     Joining \<Rightarrow> lora_join env dev_id st
   | Sending \<Rightarrow> lora_send env level dev_id st
   | Receiving \<Rightarrow> lora_wait env dev_id st)"

text \<open>
  The whole task: the module is initialised even when no device was found. One level of the low
  battery service for each round.
\<close>

definition loraTask ::
    "'w board_env \<Rightarrow> nat list \<Rightarrow> connection_tasks \<Rightarrow> 'w \<Rightarrow> ('w lora \<times> connection_tasks) res" where
  "loraTask env levels k w =
     rbind (get_network_devid NET_DEV_TYPE_LORA None (be_nets env)) (\<lambda>(ret, dev).
     let dev_id = (case dev of None \<Rightarrow> 0 | Some d \<Rightarrow> d) in
     rbind (iw_init_network (be_nets env) (be_room env) dev_id k w) (\<lambda>(_, k, w).
       if ret = IW_SUCCESS then
         rbind (rfold (\<lambda>st level. lora_round env level dev_id st) levels (lora_start w)) (\<lambda>st. Inr (st, k))
       else Inr ((lora_start w)\<lparr>lora_log := [Left_task]\<rparr>, k)))"

section \<open>Bluetooth\<close>

record 'w ble =
  ble_connected :: int
  ble_log :: "app_event list"
  ble_world :: 'w

definition NET_DISCONNECTED :: int where "NET_DISCONNECTED = 0"

definition ble_text :: "DATE_TIME_T \<Rightarrow> 32 word \<Rightarrow> string" where
  "ble_text dt co2 = ''['' @ two_digits (dt_min dt) @ '':'' @ two_digits (dt_sec dt) @ ''] CO2 : '' @ show_int (sint co2)"

definition ble_round :: "'w board_env \<Rightarrow> nat \<Rightarrow> 32 word \<Rightarrow> 'w ble \<Rightarrow> 'w ble res" where
  "ble_round env dev_id co2_last st =
     rbind (iw_is_connected_network (be_nets env) dev_id (ble_world st)) (\<lambda>((_, c), w).
       let st = st\<lparr>ble_connected := (case c of None \<Rightarrow> ble_connected st | Some c \<Rightarrow> c), ble_world := w\<rparr> in
       if ble_connected st = NET_CONNECTED then
         let (dt, w) = be_rtc env w in
         rbind (sprintf_to 32 (ble_text dt co2_last)) (\<lambda>msg.
         rbind (iw_send_data_network (be_nets env) dev_id msg w) (\<lambda>(_, w).
           Inr (st\<lparr>ble_log := ble_log st @ [Sent_text msg, Slept_ms 1000], ble_world := w\<rparr>)))
       else Inr (st\<lparr>ble_log := ble_log st @ [Slept_ms 1000]\<rparr>))"

text \<open>
  The last reading of the sensor in each round. When there is no device the task frees the buffers
  \<^verbatim>\<open>rbuf\<close> and \<^verbatim>\<open>wbuf\<close>, which are arrays of the program and were never allocated.
\<close>

definition bleTask ::
    "'w board_env \<Rightarrow> 32 word list \<Rightarrow> connection_tasks \<Rightarrow> 'w \<Rightarrow> ('w ble \<times> connection_tasks) res" where
  "bleTask env co2s k w =
     rbind (get_network_devid NET_DEV_TYPE_BLE None (be_nets env)) (\<lambda>(ret_val, dev).
       if ret_val = IW_SUCCESS then
         let dev_id = (case dev of None \<Rightarrow> 0 | Some d \<Rightarrow> d) in
         rbind (iw_init_network (be_nets env) (be_room env) dev_id k w) (\<lambda>(_, k, w).
         rbind (rfold (\<lambda>st c. ble_round env dev_id c st) co2s \<lparr>ble_connected = NET_DISCONNECTED, ble_log = [], ble_world = w\<rparr>) (\<lambda>st.
           Inr (st, k)))
       else Inl Out_of_bounds)"

section \<open>Temperature and humidity\<close>

text \<open>
  The variable that a driver fills, and one reading through the guarded call. What the tasks
  sleep is left out.
\<close>

definition guarded_read ::
    "'w board_env \<Rightarrow> nat \<Rightarrow> nat \<Rightarrow> 32 word \<Rightarrow> buffer \<times> 'w \<Rightarrow> (byte list option \<times> buffer \<times> 'w) res" where
  "guarded_read env level dev_id type bw = (case bw of (b, w) \<Rightarrow>
     rbind (read_sensor level (be_sensors env) dev_id type 1 w) (\<lambda>((e, bs), w).
     rbind (put_bytes bs b) (\<lambda>b.
       if e = IW_SUCCESS then rbind (get_bytes b) (\<lambda>value. Inr (Some value, b, w)) else Inr (None, b, w))))"

definition temp_round ::
    "'w board_env \<Rightarrow> nat \<Rightarrow> nat \<Rightarrow> buffer \<times> 'w apps \<Rightarrow> (buffer \<times> 'w apps) res" where
  "temp_round env level temp_id bs = (case bs of (b, st) \<Rightarrow>
     rbind (guarded_read env level temp_id SENSOR_TYPE_TMP (b, apps_world st)) (\<lambda>(value, b, w).
       Inr (b, st\<lparr>g_fTemperature := (case value of None \<Rightarrow> replicate 4 0 | Some t \<Rightarrow> t), apps_world := w\<rparr>)))"

text \<open>The second lookup, for the humidity, asks for the temperature too.\<close>

definition tempReadSensorTask :: "'w board_env \<Rightarrow> nat list \<Rightarrow> 'w apps \<Rightarrow> (buffer \<times> 'w apps) res" where
  "tempReadSensorTask env levels st =
     (let (ret, temp) = iw_get_sensor_dev_id_by_type SENSOR_TYPE_TMP (be_sensors env);
          temp_id = (case temp of None \<Rightarrow> 0 | Some d \<Rightarrow> d);
          (ret, hum) = iw_get_sensor_dev_id_by_type SENSOR_TYPE_TMP (be_sensors env);
          (_, w) = iw_init_sensor (be_sensors env) temp_id (apps_world st);
          st = st\<lparr>apps_world := w\<rparr> in
      if ret = IW_SUCCESS then rfold (\<lambda>bs level. temp_round env level temp_id bs) levels (replicate 4 None, st)
      else Inr (replicate 4 None, st))"

definition hum_round :: "'w board_env \<Rightarrow> nat \<Rightarrow> nat \<Rightarrow> buffer \<times> 'w \<Rightarrow> (buffer \<times> 'w) res" where
  "hum_round env level dev_id bw =
     rbind (guarded_read env level dev_id SENSOR_TYPE_HUM bw) (\<lambda>(value, b, w). Inr (b, w))"

definition humReadSensorTask :: "'w board_env \<Rightarrow> nat list \<Rightarrow> 'w \<Rightarrow> (buffer \<times> 'w) res" where
  "humReadSensorTask env levels w =
     rbind (get_sensor_devid SENSOR_TYPE_HUM None (be_sensors env)) (\<lambda>(ret, dev).
       if ret = IW_SUCCESS then
         rfold (\<lambda>bw level. hum_round env level (case dev of None \<Rightarrow> 0 | Some d \<Rightarrow> d) bw) levels (replicate 4 None, w)
       else Inr (replicate 4 None, w))"

section \<open>Console, LEDs and the list\<close>

text \<open>The buffer has ten bytes, whatever is typed.\<close>

definition rx_round :: "char option list \<Rightarrow> char option \<Rightarrow> (string \<times> string) res" where
  "rx_round input old = iw_get_cmd_str 10 input old"

definition test_round :: "led_info list \<Rightarrow> pin_event list" where
  "test_round leds = snd (iw_led_toggle LED_RED leds)"

text \<open>\<open>pin\<close> is \<^verbatim>\<open>PIN_RED_LED\<close>, the flag is \<^verbatim>\<open>tg\<close>.\<close>

definition test_led_round :: "nat \<Rightarrow> bool \<Rightarrow> bool \<times> pin_event" where
  "test_led_round pin tg = (if \<not> tg then (True, Put_low pin) else (False, Put_high pin))"

text \<open>
  The three nodes are variables of the function; the result is what it prints: the numbers of the first
  three nodes of the list and their count.
\<close>

definition sample_heap :: "addr \<Rightarrow> addr \<Rightarrow> addr \<Rightarrow> nat heap" where
  "sample_heap a b c = \<lparr>mem = (\<lambda>x. \<lparr>nxt = None, previous = None,
     pData = (if x = a then 1 else if x = b then 2 else 3)\<rparr>), stray = 0\<rparr>"

definition data_at :: "nat heap \<Rightarrow> addr option \<Rightarrow> nat res" where
  "data_at h p = rbind (deref p) (\<lambda>a. Inr (pData (mem h a)))"

definition next_at :: "nat heap \<Rightarrow> addr option \<Rightarrow> addr option res" where
  "next_at h p = rbind (deref p) (\<lambda>a. Inr (nxt (mem h a)))"

definition show_list_sample :: "addr \<Rightarrow> addr \<Rightarrow> addr \<Rightarrow> iw_list \<Rightarrow> (nat \<times> nat \<times> nat \<times> addr option \<times> 8 word) res" where
  "show_list_sample a b c l =
     (let (_, p) = init_list (Some l);
          (_, h, p) = add_list_node (sample_heap a b c) p (Some a);
          (_, h, p) = add_list_node h p (Some b);
          (_, h, p) = add_list_node h p (Some c) in
      rbind (deref p) (\<lambda>l.
      rbind (data_at h (iw_list.head l)) (\<lambda>x.
      rbind (next_at h (iw_list.head l)) (\<lambda>q.
      rbind (data_at h q) (\<lambda>y.
      rbind (next_at h q) (\<lambda>r.
      rbind (data_at h r) (\<lambda>z. Inr (x, y, z, iw_list.head l, nodeNum l))))))))"

section \<open>Starting the tasks of mode 1\<close>

text \<open>The names of the tasks and their priorities above that of the idle task.\<close>

definition start_apps_test :: "bool \<Rightarrow> bool \<Rightarrow> (string \<times> nat) list" where
  "start_apps_test stm32 nordic = (
     if stm32 then [(''CO2'', 2), (''WifiTask'', 2)]
     else if nordic then [(''CO2'', 3)]
     else [(''TestLedTask'', 3)])"

section \<open>The task of mode 2\<close>

text \<open>The pins of the board; \<open>low_power\<close> is the build option \<^verbatim>\<open>LOWPOWER_ENABLE\<close>.\<close>

record low_pins =
  ble_pin :: nat
  lora_pin :: nat
  temp_pin :: nat
  wifi_pin :: nat
  co2_pin :: nat
  red_pin :: nat
  green_pin :: nat

record 'w low_task =
  low_co2_tick :: "32 word"
  low_wifi_tick :: "32 word"
  low_buf :: buffer
  low_events :: "pin_event list"
  low_world :: 'w

definition co2_period_of :: "bool \<Rightarrow> 32 word" where
  "co2_period_of low_power = (if low_power then 100 else 30)"

definition wifi_duty_of :: "bool \<Rightarrow> 32 word" where
  "wifi_duty_of low_power = (if low_power then 0 else 24)"

definition wifi_period :: "32 word" where "wifi_period = 100"

definition low_pin :: "pin_event \<Rightarrow> 'w low_task \<Rightarrow> 'w low_task" where
  "low_pin e st = st\<lparr>low_events := low_events st @ [e]\<rparr>"

text \<open>The number of the sensor is an uninitialised variable when there is none.\<close>

definition low_setup :: "'w board_env \<Rightarrow> low_pins \<Rightarrow> 'w \<Rightarrow> (nat \<times> 'w low_task) res" where
  "low_setup env p w =
     rbind (get_sensor_devid SENSOR_TYPE_CO2 None (be_sensors env)) (\<lambda>(_, dev).
     rbind (read_var dev) (\<lambda>dev_id.
       Inr (dev_id, \<lparr>low_co2_tick = 0, low_wifi_tick = 0, low_buf = replicate 4 None,
         low_events = [Put_low (ble_pin p), Put_low (lora_pin p), Put_low (temp_pin p), Put_low (wifi_pin p),
           Put_low (co2_pin p), Put_high (red_pin p), Put_high (green_pin p)],
         low_world = snd (iw_init_sensor (be_sensors env) dev_id w)\<rparr>)))"

definition low_co2 :: "'w board_env \<Rightarrow> low_pins \<Rightarrow> bool \<Rightarrow> nat \<Rightarrow> 'w low_task \<Rightarrow> 'w low_task res" where
  "low_co2 env p low_power dev_id st =
     (let st = st\<lparr>low_co2_tick := low_co2_tick st + 1\<rparr> in
      if co2_period_of low_power < low_co2_tick st then
        let st = st\<lparr>low_co2_tick := 0\<rparr> in
        rbind (iw_read_sensor (be_sensors env) dev_id SENSOR_TYPE_CO2 1 (low_world st)) (\<lambda>((e, bs), w).
        rbind (put_bytes bs (low_buf st)) (\<lambda>b.
        rbind (if e = IW_SUCCESS then rbind (uint_of b) (\<lambda>_. Inr ()) else Inr ()) (\<lambda>_.
          Inr (low_pin (Toggle (red_pin p)) (st\<lparr>low_buf := b, low_world := w\<rparr>)))))
      else Inr st)"

definition low_wifi :: "low_pins \<Rightarrow> bool \<Rightarrow> 'w low_task \<Rightarrow> 'w low_task" where
  "low_wifi p low_power st =
     (let st = st\<lparr>low_wifi_tick := low_wifi_tick st + 1\<rparr>;
          st = (if wifi_period < low_wifi_tick st then st\<lparr>low_wifi_tick := 0\<rparr> else st);
          duty = wifi_duty_of low_power in
      if 0 < duty \<and> low_wifi_tick st \<le> wifi_period * duty div 100 then low_pin (Put_high (wifi_pin p)) st
      else low_pin (Put_low (wifi_pin p)) st)"

definition low_round :: "'w board_env \<Rightarrow> low_pins \<Rightarrow> bool \<Rightarrow> nat \<Rightarrow> 'w low_task \<Rightarrow> 'w low_task res" where
  "low_round env p low_power dev_id st =
     rbind (low_co2 env p low_power dev_id st) (\<lambda>st. Inr (low_wifi p low_power st))"

fun low_rounds :: "nat \<Rightarrow> 'w board_env \<Rightarrow> low_pins \<Rightarrow> bool \<Rightarrow> nat \<Rightarrow> 'w low_task \<Rightarrow> 'w low_task res" where
  "low_rounds 0 env p low_power dev_id st = Inr st"
| "low_rounds (Suc n) env p low_power dev_id st =
     rbind (low_rounds n env p low_power dev_id st) (low_round env p low_power dev_id)"

definition LowpowerTask :: "nat \<Rightarrow> 'w board_env \<Rightarrow> low_pins \<Rightarrow> bool \<Rightarrow> 'w \<Rightarrow> 'w low_task res" where
  "LowpowerTask n env p low_power w =
     rbind (low_setup env p w) (\<lambda>(dev_id, st). low_rounds n env p low_power dev_id st)"

definition start_apps_low_power :: "(string \<times> nat) list" where
  "start_apps_low_power = [(''LowPower'', 2)]"

section \<open>The duty of mode 2\<close>

text \<open>A counter that restarts when it passes its period counts modulo one more than the period.\<close>

lemma restart_tick:
  fixes x period :: "32 word"
  assumes "unat x = n mod Suc (unat period)" "period < - 1"
  shows "unat (if period < x + 1 then 0 else x + 1) = Suc n mod Suc (unat period)"
    and "period < x + 1 \<longleftrightarrow> Suc n mod Suc (unat period) = 0"
proof -
  have x: "unat x \<le> unat period" using assms(1) by (simp add: less_Suc_eq_le [symmetric])
  then have "x + 1 \<noteq> 0" using assms(2) by (metis add_eq_0_iff2 le_less_trans less_irrefl word_le_nat_alt)
  then have step: "unat (x + 1) = Suc (unat x)" by (metis add.commute unatSuc)
  have "Suc n mod Suc (unat period) = (if Suc (unat x) = Suc (unat period) then 0 else Suc (unat x))"
    using assms(1) by (simp add: mod_Suc)
  then show "unat (if period < x + 1 then 0 else x + 1) = Suc n mod Suc (unat period)"
    and "period < x + 1 \<longleftrightarrow> Suc n mod Suc (unat period) = 0"
    using step x by (auto simp: word_less_nat_alt)
qed

definition toggles :: "nat \<Rightarrow> pin_event list \<Rightarrow> nat" where
  "toggles pin es = length (filter (\<lambda>e. e = Toggle pin) es)"

lemma toggles_simps [simp]:
  "toggles pin [] = 0" "toggles pin (e # es) = (if e = Toggle pin then Suc (toggles pin es) else toggles pin es)"
  "toggles pin (es @ fs) = toggles pin es + toggles pin fs"
  by (simp_all add: toggles_def)

text \<open>The world after one read of the sensor.\<close>

definition after_read :: "'w board_env \<Rightarrow> nat \<Rightarrow> 'w \<Rightarrow> 'w" where
  "after_read env d w = (case iw_read_sensor (be_sensors env) d SENSOR_TYPE_CO2 1 w of Inr (_, w') \<Rightarrow> w' | Inl _ \<Rightarrow> w)"

lemma low_co2_result:
  assumes "low_co2 env p lp d st = Inr st'"
  shows "low_world st' = (if co2_period_of lp < low_co2_tick st + 1 then after_read env d (low_world st) else low_world st)"
    "low_wifi_tick st' = low_wifi_tick st"
    "low_co2_tick st' = (if co2_period_of lp < low_co2_tick st + 1 then 0 else low_co2_tick st + 1)"
    "toggles (red_pin p) (low_events st') =
      toggles (red_pin p) (low_events st) + (if co2_period_of lp < low_co2_tick st + 1 then 1 else 0)"
  using assms by (auto simp: low_co2_def low_pin_def after_read_def Let_def split: if_splits)

lemma low_wifi_result:
  "low_world (low_wifi p lp st) = low_world st"
  "low_co2_tick (low_wifi p lp st) = low_co2_tick st"
  "low_wifi_tick (low_wifi p lp st) = (if wifi_period < low_wifi_tick st + 1 then 0 else low_wifi_tick st + 1)"
  "toggles (red_pin p) (low_events (low_wifi p lp st)) = toggles (red_pin p) (low_events st)"
  "low_events (low_wifi p lp st) \<noteq> []"
  "last (low_events (low_wifi p lp st)) =
    (if \<not> lp \<and> unat (low_wifi_tick (low_wifi p lp st)) \<le> 24 then Put_high (wifi_pin p) else Put_low (wifi_pin p))"
  by (simp_all add: low_wifi_def low_pin_def wifi_duty_of_def wifi_period_def Let_def word_le_nat_alt unat_div)

lemma low_rounds_ticks:
  assumes "low_co2_tick st = 0" "low_wifi_tick st = 0" "toggles (red_pin p) (low_events st) = 0"
  shows "low_rounds n env p lp d st = Inr st' \<Longrightarrow>
    unat (low_wifi_tick st') = n mod 101 \<and> unat (low_co2_tick st') = n mod Suc (unat (co2_period_of lp)) \<and>
    toggles (red_pin p) (low_events st') = n div Suc (unat (co2_period_of lp)) \<and>
    low_world st' = (after_read env d ^^ (n div Suc (unat (co2_period_of lp)))) (low_world st) \<and>
    (n \<noteq> 0 \<longrightarrow> last (low_events st') =
      (if \<not> lp \<and> n mod 101 \<le> 24 then Put_high (wifi_pin p) else Put_low (wifi_pin p)))"
proof (induction n arbitrary: st')
  case 0
  then show ?case using assms by simp
next
  case (Suc n)
  then obtain s1 s2 where s: "low_rounds n env p lp d st = Inr s1" "low_co2 env p lp d s1 = Inr s2" "st' = low_wifi p lp s2"
    by (auto simp: low_round_def)
  note ih = Suc.IH [OF s(1)]
  have P: "co2_period_of lp < - 1" "wifi_period < - 1" "unat wifi_period = 100"
    by (simp_all add: co2_period_of_def wifi_period_def)
  have wt: "unat (low_wifi_tick s1) = n mod Suc (unat wifi_period)" using ih P by simp
  have ct: "unat (low_co2_tick s1) = n mod Suc (unat (co2_period_of lp))" using ih by simp
  note w = restart_tick [OF wt P(2)] and c = restart_tick [OF ct P(1)]
  note r = low_co2_result [OF s(2)] and lw = low_wifi_result [of p lp s2]
  have "unat (low_wifi_tick st') = Suc n mod Suc (unat wifi_period)"
    by (simp only: s(3) lw(3) r(2) w(1))
  then have wifi: "unat (low_wifi_tick st') = Suc n mod 101" using P(3) by simp
  moreover have "unat (low_co2_tick st') = Suc n mod Suc (unat (co2_period_of lp))"
    by (simp only: s(3) lw(2) r(3) c(1))
  moreover have "toggles (red_pin p) (low_events st') = Suc n div Suc (unat (co2_period_of lp))"
    using c(2) r(4) s(3) lw ih by (simp add: div_Suc)
  moreover have "low_world st' = (after_read env d ^^ (Suc n div Suc (unat (co2_period_of lp)))) (low_world st)"
    using c(2) r(1) s(3) lw(1) ih by (simp add: div_Suc)
  ultimately show ?case using lw(6) s(3) by simp
qed

text \<open>
  C32. The duty of the low power task, in rounds of 100 ms. After any number of rounds the Wi-Fi module has power
  exactly in the first 25 of each 101 rounds (the round 0 included), and never in the build for low
  power; the sensor found at the start has been read once for each 31 rounds, or each 101 rounds, with the red LED
  toggled each time, and the task has done nothing else to the world. The periods
  are one round longer than the constants say.
\<close>

theorem low_power_duty:
  assumes "LowpowerTask n env p low_power w = Inr st"
  shows "(n \<noteq> 0 \<longrightarrow> last (low_events st) =
      (if \<not> low_power \<and> n mod 101 < 25 then Put_high (wifi_pin p) else Put_low (wifi_pin p))) \<and>
    toggles (red_pin p) (low_events st) = n div (if low_power then 101 else 31) \<and>
    (\<exists>e d. get_sensor_devid SENSOR_TYPE_CO2 None (be_sensors env) = Inr (e, Some d) \<and>
      low_world st = (after_read env d ^^ (n div (if low_power then 101 else 31))) (snd (iw_init_sensor (be_sensors env) d w)))"
proof -
  obtain d st0 where s: "low_setup env p w = Inr (d, st0)" "low_rounds n env p low_power d st0 = Inr st"
    using assms by (auto simp: LowpowerTask_def)
  have read: "read_var x = Inr d \<longleftrightarrow> x = Some d" for x by (simp add: read_var_def split: option.split)
  from s(1) have start: "low_co2_tick st0 = 0" "low_wifi_tick st0 = 0" "toggles (red_pin p) (low_events st0) = 0"
    by (auto simp: low_setup_def)
  from s(1) have world: "low_world st0 = snd (iw_init_sensor (be_sensors env) d w)" by (auto simp: low_setup_def)
  from s(1) obtain e where e: "get_sensor_devid SENSOR_TYPE_CO2 None (be_sensors env) = Inr (e, Some d)"
    by (auto simp: low_setup_def read)
  have period: "Suc (unat (co2_period_of low_power)) = (if low_power then 101 else 31)" by (simp add: co2_period_of_def)
  note t = low_rounds_ticks [OF start s(2), unfolded period world]
  have "(n mod 101 < 25) = (n mod 101 \<le> 24)" by linarith
  then show ?thesis using t e by (simp only:) blast
qed

definition example_pins :: low_pins where
  "example_pins = \<lparr>ble_pin = 1, lora_pin = 2, temp_pin = 3, wifi_pin = 4, co2_pin = 5, red_pin = 6, green_pin = 7\<rparr>"

lemma low_board_rounds:
  assumes "length (low_buf st) = 4"
  shows "\<exists>st'. low_rounds n co2_board p lp 0 st = Inr st' \<and> length (low_buf st') = 4"
proof (induction n)
  case (Suc n)
  then obtain s1 where s1: "low_rounds n co2_board p lp 0 st = Inr s1" "length (low_buf s1) = 4" by blast
  then have b: "put_bytes (Some [1, 2, 0, 0]) (low_buf s1) = Inr [Some 1, Some 2, Some 0, Some 0]"
    by (simp add: put_bytes_def)
  have "\<exists>s2. low_co2 co2_board p lp 0 s1 = Inr s2 \<and> length (low_buf s2) = 4"
    using s1(2) by (simp add: low_co2_def co2_board_calls b uint_of_def get_bytes_def low_pin_def Let_def del: rbind_eq_Inr)
  moreover have "low_buf (low_wifi p lp s) = low_buf s" for s :: "nat low_task" by (simp add: low_wifi_def low_pin_def Let_def)
  ultimately show ?case using s1(1) by (auto simp: low_round_def)
qed (use assms in simp)

lemma low_power_duty_witness:
  "\<exists>st. LowpowerTask 64 co2_board example_pins False 7 = Inr st \<and> last (low_events st) = Put_low 4 \<and> low_world st = 9"
proof -
  obtain st0 where "low_setup co2_board example_pins 7 = Inr (0, st0)" "length (low_buf st0) = 4"
    by (simp add: low_setup_def co2_board_calls read_var_def)
  with low_board_rounds [of st0 64 example_pins False]
  obtain st where st: "LowpowerTask 64 co2_board example_pins False 7 = Inr st" by (auto simp: LowpowerTask_def)
  have read: "after_read co2_board 0 w = Suc w" for w by (simp add: after_read_def co2_board_calls)
  from low_power_duty [OF st] have "last (low_events st) = Put_low 4" by (simp add: example_pins_def)
  moreover from low_power_duty [OF st] have "low_world st = 9"
    by (auto simp: co2_board_calls read numeral_2_eq_2)
  ultimately show ?thesis using st by blast
qed

section \<open>The tasks and the low battery service\<close>

text \<open>Nothing arrives without a message sent.\<close>

definition silent :: "'w board_env \<Rightarrow> nat \<Rightarrow> bool" where
  "silent env d \<longleftrightarrow> (\<forall>w. \<exists>w'. iw_available_network (be_nets env) d w = Inr ((IW_SUCCESS, Some 0), w'))"

lemma silent_wait:
  assumes "silent env d" "lora_phase st = Receiving"
  shows "\<exists>st'. rfold (\<lambda>st level. lora_round env level d st) levels st = Inr st' \<and> lora_phase st' = Receiving"
  using assms(2)
proof (induction levels arbitrary: st)
  case (Cons level levels)
  obtain w where "iw_available_network (be_nets env) d (lora_world st) = Inr ((IW_SUCCESS, Some 0), w)"
    using assms(1) by (auto simp: silent_def)
  with Cons.prems have "\<exists>st1. lora_round env level d st = Inr st1 \<and> lora_phase st1 = Receiving"
    by (simp add: lora_round_def lora_wait_def read_var_def lora_sleep_def Let_def)
  with Cons.IH show ?case by auto
qed simp

text \<open>
  C38. What the guarded calls tell the tasks at a low battery. The LoRa task takes the blocked call for a
  message sent and waits for the answer to it, for ever when nothing arrives by itself, and whatever the battery
  does later. The temperature task takes it for a reading: its first round uses a variable
  nobody has written.
\<close>

theorem blocked_calls_taken_for_success:
  "(\<forall>st levels. lora_phase st = Sending \<and> field_str (lora_wbuf st) = Inr msg \<and> silent env d \<longrightarrow>
      (\<exists>st1. lora_round env 1 d st = Inr st1 \<and> lora_world st1 = lora_world st \<and> lora_phase st1 = Receiving \<and>
        (\<exists>st'. rfold (\<lambda>st level. lora_round env level d st) (1 # levels) st = Inr st' \<and> lora_phase st' = Receiving))) \<and>
    (iw_get_sensor_dev_id_by_type SENSOR_TYPE_TMP (be_sensors env) = (IW_SUCCESS, Some i) \<longrightarrow>
      tempReadSensorTask env (1 # levels) apps = Inl Uninitialised)"
proof -
  have "\<exists>st1. lora_round env 1 d st = Inr st1 \<and> lora_world st1 = lora_world st \<and> lora_phase st1 = Receiving"
    if "lora_phase st = Sending" "field_str (lora_wbuf st) = Inr msg" for st
    using that by (simp add: lora_round_def lora_send_def send_data_network_def)
  moreover have "tempReadSensorTask env (1 # levels) apps = Inl Uninitialised"
    if "iw_get_sensor_dev_id_by_type SENSOR_TYPE_TMP (be_sensors env) = (IW_SUCCESS, Some i)"
    using that by (cases "iw_init_sensor (be_sensors env) i (apps_world apps)")
      (simp add: tempReadSensorTask_def temp_round_def guarded_read_def read_sensor_def put_bytes_def get_bytes_def)
  ultimately show ?thesis using silent_wait by fastforce
qed

text \<open>A radio that receives nothing, and a thermometer.\<close>

definition quiet_board :: "nat board_env" where
  "quiet_board = bare_board\<lparr>
     be_nets := (empty_registry :: nat net_registry)\<lparr>dev_num := 1, devs := [wifi_device\<lparr>d_type := NET_DEV_TYPE_LORA,
       d_func := Some (good_module\<lparr>nf_available := Some (\<lambda>_ w. ((IW_SUCCESS, Some 0), w))\<rparr>)\<rparr>]\<rparr>,
     be_sensors := (empty_registry :: nat sensor_registry)\<lparr>dev_num := 1, devs := [co2_device\<lparr>d_type := SENSOR_TYPE_TMP\<rparr>]\<rparr>\<rparr>"

lemma blocked_calls_taken_for_success_witness:
  "(\<exists>st'. rfold (\<lambda>st level. lora_round quiet_board level 0 st) [1, 0, 0]
      ((lora_start 0)\<lparr>lora_phase := Sending\<rparr>) = Inr st' \<and> lora_phase st' = Receiving) \<and>
    tempReadSensorTask quiet_board [1, 0] (apps_in POW_RUN_MODE 0) = Inl Uninitialised"
proof -
  have "silent quiet_board 0"
    by (simp add: silent_def iw_available_network_def dispatch_dev_def quiet_board_def wifi_device_def good_module_def
        MAX_DEV_def)
  moreover have "lora_phase ((lora_start 0)\<lparr>lora_phase := Sending\<rparr> :: nat lora) = Sending"
    "field_str (lora_wbuf ((lora_start 0)\<lparr>lora_phase := Sending\<rparr> :: nat lora)) = Inr []"
    by (simp_all add: lora_start_def field_str_def MAX_W_LEN_def)
  moreover have "iw_get_sensor_dev_id_by_type SENSOR_TYPE_TMP (be_sensors quiet_board) = (IW_SUCCESS, Some 0)"
    by (simp add: iw_get_sensor_dev_id_by_type_def quiet_board_def co2_device_def found_dev_def)
  ultimately show ?thesis
    using blocked_calls_taken_for_success [of "[]" quiet_board 0 0 "[0]" "apps_in POW_RUN_MODE 0"] by blast
qed

text \<open>The texts of the Bluetooth task fit into their 32 bytes.\<close>

lemma ble_text_fits:
  assumes "clock_ok dt"
  shows "sprintf_to 32 (ble_text dt x) = Inr (ble_text dt x)"
  using assms length_two_digits [of "dt_min dt"] length_two_digits [of "dt_sec dt"] length_show_word [of x]
  by (simp add: clock_ok_def sprintf_to_def ble_text_def)

text \<open>The sample prints the nodes in the reverse order of their insertion.\<close>

lemma sample_reversed:
  assumes "distinct [a, b, c]"
  shows "show_list_sample a b c l = Inr (3, 2, 1, Some c, 3)"
  using assms
  by (simp add: show_list_sample_def iw_init_list_def iw_add_list_node_def store_node_def sample_heap_def data_at_def
      next_at_def Let_def)

end
