(* ===== verification/Boot.thy ===== *)
theory Boot
  imports TestApps
begin

text \<open>
  What lies between the program, its kernel and its board: the calls of the buses
  (\<^verbatim>\<open>oal/iw/iw_if_i2c.c\<close>, \<^verbatim>\<open>iw_if_uart.c\<close>, \<^verbatim>\<open>iw_if_adc.c\<close>), those calls of
  the kernel that do more than hand on their arguments (\<^verbatim>\<open>iw_oal_mutex.c\<close>,
  \<^verbatim>\<open>iw_oal_sem.c\<close>, \<^verbatim>\<open>iw_oal_task.c\<close>, \<^verbatim>\<open>iw_oal_time.c\<close>), the delays and the
  start of the board (\<^verbatim>\<open>iw_bsp.c\<close>, \<^verbatim>\<open>iw_main.c\<close>, \<^verbatim>\<open>App/iw_start.c\<close>). The functions of
  the kernel and of the board support package are not part of the repository: they are
  arguments and act on a world \<open>'w\<close>.
\<close>

section \<open>Buses\<close>

text \<open>The board support package answers 0 for success.\<close>

definition bsp_status :: "int \<Rightarrow> iw_error_t" where
  "bsp_status r = (if r = 0 then IW_SUCCESS else IW_FAIL)"

definition iw_init_i2c :: "(nat \<Rightarrow> 'w \<Rightarrow> int \<times> 'w) \<Rightarrow> nat \<Rightarrow> 'w \<Rightarrow> iw_error_t \<times> 'w" where
  "iw_init_i2c bsp_init_i2c port w = apfst bsp_status (bsp_init_i2c port w)"

definition iw_deinit_i2c :: "(nat \<Rightarrow> 'w \<Rightarrow> int \<times> 'w) \<Rightarrow> nat \<Rightarrow> 'w \<Rightarrow> iw_error_t \<times> 'w" where
  "iw_deinit_i2c bsp_deinit_i2c port w = apfst bsp_status (bsp_deinit_i2c port w)"

text \<open>The message is read to report a failure, so it must not be NULL then.\<close>

definition iw_transfer_i2c :: "('m option \<Rightarrow> int \<Rightarrow> 'w \<Rightarrow> int \<times> 'w) \<Rightarrow> 'm option \<Rightarrow> int \<Rightarrow> 'w \<Rightarrow> (iw_error_t \<times> 'w) res" where
  "iw_transfer_i2c bsp_xfer_i2c msg num w = (case bsp_xfer_i2c msg num w of (r, w) \<Rightarrow>
     if r = 0 then Inr (IW_SUCCESS, w) else rbind (deref msg) (\<lambda>_. Inr (IW_FAIL, w)))"

definition iw_init_uart :: "(int \<Rightarrow> 32 word \<Rightarrow> 'w \<Rightarrow> int \<times> 'w) \<Rightarrow> int \<Rightarrow> 32 word \<Rightarrow> 'w \<Rightarrow> iw_error_t \<times> 'w" where
  "iw_init_uart bsp_init_uart port baudrate w = apfst bsp_status (bsp_init_uart port baudrate w)"

definition iw_deinit_uart :: "(int \<Rightarrow> 'w \<Rightarrow> int \<times> 'w) \<Rightarrow> int \<Rightarrow> 'w \<Rightarrow> iw_error_t \<times> 'w" where
  "iw_deinit_uart bsp_deinit_uart port w = apfst bsp_status (bsp_deinit_uart port w)"

text \<open>The result is cast to the status type: any number may come out.\<close>

definition iw_putc_uart :: "(int \<Rightarrow> char \<Rightarrow> 'w \<Rightarrow> int \<times> 'w) \<Rightarrow> int \<Rightarrow> char \<Rightarrow> 'w \<Rightarrow> int \<times> 'w" where
  "iw_putc_uart bsp_putc_uart port data w = bsp_putc_uart port data w"

definition iw_getc_uart ::
    "(int \<Rightarrow> 'w \<Rightarrow> (int \<times> char option) \<times> 'w) \<Rightarrow> int \<Rightarrow> 'w \<Rightarrow> (int \<times> char option) \<times> 'w" where
  "iw_getc_uart bsp_getc_uart port w = bsp_getc_uart port w"

definition iw_get_adc :: "(nat \<Rightarrow> 'w \<Rightarrow> 16 word \<times> 'w) \<Rightarrow> nat \<Rightarrow> 16 word option \<Rightarrow> 'w \<Rightarrow> (iw_error_t \<times> 16 word \<times> 'w) res" where
  "iw_get_adc bsp_get_analog port val w =
     rbind (deref val) (\<lambda>_. case bsp_get_analog port w of (v, w) \<Rightarrow> Inr (IW_SUCCESS, v, w))"

section \<open>The kernel\<close>

text \<open>A handle of 0 is a failure; the caller's variable gets it all the same.\<close>

definition iw_create_mutex :: "('w \<Rightarrow> nat \<times> 'w) \<Rightarrow> nat option \<Rightarrow> 'w \<Rightarrow> (iw_error_t \<times> nat \<times> 'w) res" where
  "iw_create_mutex kernel_create_mutex mutex w =
     rbind (deref mutex) (\<lambda>_. case kernel_create_mutex w of (h, w) \<Rightarrow>
       Inr (if h = 0 then IW_FAIL else IW_SUCCESS, h, w))"

definition iw_create_sem ::
    "(32 word \<Rightarrow> 32 word \<Rightarrow> 'w \<Rightarrow> nat \<times> 'w) \<Rightarrow> nat option \<Rightarrow> 32 word \<Rightarrow> 32 word \<Rightarrow> 'w \<Rightarrow> (iw_error_t \<times> nat \<times> 'w) res" where
  "iw_create_sem kernel_create_sem sem max_count init_count w =
     rbind (deref sem) (\<lambda>_. case kernel_create_sem max_count init_count w of (h, w) \<Rightarrow>
       Inr (if h = 0 then IW_FAIL else IW_SUCCESS, h, w))"

text \<open>What the kernel writes to the handle, 0 when it writes nothing; its status is ignored.\<close>

definition iw_create_task ::
    "(string \<Rightarrow> nat \<Rightarrow> nat \<Rightarrow> 'w \<Rightarrow> (int \<times> nat option) \<times> 'w) \<Rightarrow> string \<Rightarrow> nat \<Rightarrow> nat \<Rightarrow> 'w \<Rightarrow> nat \<times> 'w" where
  "iw_create_task kernel_create_task name stack_size priority w =
     (case kernel_create_task name stack_size priority w of ((_, t), w) \<Rightarrow> (case t of None \<Rightarrow> 0 | Some t \<Rightarrow> t, w))"

text \<open>
  The end of a task: with FreeRTOS it sleeps for ever, with another kernel the call returns to the
  caller. \<open>None\<close> is the loop that does not end.
\<close>

definition iw_exit_task :: "bool \<Rightarrow> (32 word \<Rightarrow> 'w \<Rightarrow> 'w) \<Rightarrow> 'w \<Rightarrow> 'w option" where
  "iw_exit_task freertos kernel_sleep w =
     (if freertos then while_option (\<lambda>_. True) (kernel_sleep 1000000) w else Some w)"

definition iw_get_time_ms :: "('w \<Rightarrow> 32 word) \<Rightarrow> 32 word \<Rightarrow> 'w \<Rightarrow> 32 word" where
  "iw_get_time_ms kernel_get_time_ms tick_period_ms w = kernel_get_time_ms w * tick_period_ms"

definition iw_delay_us :: "(32 word \<Rightarrow> 'w \<Rightarrow> 'w) \<Rightarrow> 32 word \<Rightarrow> 'w \<Rightarrow> 'w" where
  "iw_delay_us bsp_delay_us us w = bsp_delay_us us w"

definition iw_delay_ms :: "(32 word \<Rightarrow> 'w \<Rightarrow> 'w) \<Rightarrow> 32 word \<Rightarrow> 'w \<Rightarrow> 'w" where
  "iw_delay_ms bsp_delay_us ms w = bsp_delay_us (ms * 1000) w"

section \<open>Starting the board\<close>

datatype boot_event = Init_mcu | Init_gpio | Init_console | Init_board | Init_rtc | Init_os | Start_scheduler
  | Delay_ms nat | Start_task string nat | Start_apps

record 'w boot =
  bt_devices :: "'w device_state"
  bt_events :: "boot_event list"
  bt_world :: 'w

definition boot_note :: "boot_event \<Rightarrow> 'w boot \<Rightarrow> 'w boot" where
  "boot_note e st = st\<lparr>bt_events := bt_events st @ [e]\<rparr>"

text \<open>The drivers that only the disposal board registers by themselves.\<close>

record 'w disposal_drivers =
  sht20_driver :: "'w sensor_func driver"
  tg400_driver :: "'w sensor_func driver"
  atsamr35_driver :: "'w net_func driver"

definition disposal_driver_setup :: "'w disposal_drivers \<Rightarrow> 'w device_state \<Rightarrow> 'w device_state res" where
  "disposal_driver_setup dd s =
     rbind (iw_register_sensor_driver (sht20_driver dd) (ds_sensors s)) (\<lambda>sensors.
     rbind (iw_register_sensor_driver (tg400_driver dd) sensors) (\<lambda>sensors.
     rbind (iw_register_network_driver (atsamr35_driver dd) (ds_nets s)) (\<lambda>nets.
       Inr (s\<lparr>ds_sensors := sensors, ds_nets := nets\<rparr>))))"

definition iw_init_bsp ::
    "board \<Rightarrow> (bsp_port \<Rightarrow> nat) \<Rightarrow> 'w board_drivers \<Rightarrow> 'w disposal_drivers \<Rightarrow> 'w boot \<Rightarrow> 'w boot res" where
  "iw_init_bsp b at dr dd st =
     (let st = boot_note Init_console (boot_note Init_gpio (boot_note Init_mcu st)) in
      rbind (iw_register_device b at dr (bt_devices st)) (\<lambda>devices.
      let st = boot_note Init_rtc (boot_note Init_board (st\<lparr>bt_devices := devices\<rparr>)) in
      if b = DISPOSAL_IOT_BOARD then
        rbind (disposal_driver_setup dd (bt_devices st)) (\<lambda>devices. Inr (st\<lparr>bt_devices := devices\<rparr>))
      else Inr st))"

definition boot_main ::
    "board \<Rightarrow> (bsp_port \<Rightarrow> nat) \<Rightarrow> 'w board_drivers \<Rightarrow> 'w disposal_drivers \<Rightarrow> 'w boot \<Rightarrow> 'w boot res" where
  "boot_main b at dr dd st =
     rbind (iw_init_bsp b at dr dd st) (\<lambda>st. Inr (boot_note Start_scheduler (boot_note Init_os st)))"

text \<open>
  What the first task of the kernel calls: the sensors are initialised after a delay, the task of
  the low battery service is created, and the applications are started. The task
  \<^verbatim>\<open>init_device_task\<close> does the first of it without the delay, and ends.
\<close>

definition boot_devices :: "'w boot \<Rightarrow> 'w boot" where
  "boot_devices st = (boot_note (Delay_ms 100) st)\<lparr>bt_world := iw_init_device (ds_sensors (bt_devices st)) (bt_world st)\<rparr>"

definition init_device_task :: "bool \<Rightarrow> (32 word \<Rightarrow> 'w \<Rightarrow> 'w) \<Rightarrow> 'w boot \<Rightarrow> 'w option" where
  "init_device_task freertos kernel_sleep st =
     iw_exit_task freertos kernel_sleep (iw_init_device (ds_sensors (bt_devices st)) (bt_world st))"

definition iw_init_autocontrol_service :: "'w boot \<Rightarrow> 'w boot" where
  "iw_init_autocontrol_service st = boot_note (Start_task ''autocontrol_task'' 5) st"

definition iw_init_lowpower_service :: "'w boot \<Rightarrow> 'w boot" where
  "iw_init_lowpower_service st = boot_note (Start_task ''lowpower_task'' 5) st"

definition iw_start :: "'w boot \<Rightarrow> 'w boot" where
  "iw_start st = boot_note Start_apps st"

definition iw_init_service :: "'w boot \<Rightarrow> 'w boot" where
  "iw_init_service st = iw_start (iw_init_autocontrol_service st)"

section \<open>Delays, clock and the end of a task\<close>

lemma exact_product:
  fixes a b :: "32 word"
  shows "unat (a * b) = unat a * unat b \<longleftrightarrow> unat a * unat b < 2 ^ 32"
proof -
  have "unat (a * b) = unat a * unat b mod 2 ^ 32" by (simp add: unat_word_ariths)
  then show ?thesis by (metis mod_less mod_less_divisor zero_less_numeral zero_less_power)
qed

text \<open>
  Time. The delay in milliseconds is exact up to 4294967 ms and too short above; the clock shows the product of
  ticks and period, which goes back to 0 when it passes 32 bits; the call that ends a task
  does not return under FreeRTOS, and does under every other kernel, where the task runs on.
\<close>

theorem delays_and_clock:
  "(iw_delay_ms (\<lambda>us w. w + unat us) ms w0 = w0 + 1000 * unat ms \<longleftrightarrow> unat ms \<le> 4294967) \<and>
   (unat (iw_get_time_ms ticks period w) = unat (ticks w) * unat period \<longleftrightarrow> unat (ticks w) * unat period < 2 ^ 32) \<and>
   iw_exit_task True kernel_sleep w = None \<and> iw_exit_task False kernel_sleep w = Some w"
proof (intro conjI)
  have "unat (ms * 1000) = 1000 * unat ms \<longleftrightarrow> unat ms \<le> 4294967"
    using exact_product [of ms 1000] by (simp add: mult.commute) linarith
  then show "iw_delay_ms (\<lambda>us w. w + unat us) ms w0 = w0 + 1000 * unat ms \<longleftrightarrow> unat ms \<le> 4294967"
    by (simp add: iw_delay_ms_def)
  show "unat (iw_get_time_ms ticks period w) = unat (ticks w) * unat period \<longleftrightarrow> unat (ticks w) * unat period < 2 ^ 32"
    using exact_product by (simp add: iw_get_time_ms_def)
  show "iw_exit_task True kernel_sleep w = None"
    by (simp add: iw_exit_task_def while_option_def)
qed (simp add: iw_exit_task_def)

section \<open>From the start to the tasks\<close>

definition fresh_boot :: "'w \<Rightarrow> 'w boot" where
  "fresh_boot w = \<lparr>bt_devices = initial_devices, bt_events = [], bt_world = w\<rparr>"

lemmas find_eval = iw_get_sensor_devid_def iw_get_network_devid_def net_type_defs

lemma stm32_devices:
  "\<exists>s. iw_register_device STM32_BOARD at dr initial_devices = Inr s \<and>
     iw_get_sensor_devid SENSOR_TYPE_CO2 None (ds_sensors s) = Inr (IW_SUCCESS, Some 1) \<and>
     iw_get_network_devid NET_DEV_TYPE_WIFI None (ds_nets s) = Inr (IW_SUCCESS, Some 0)"
  by (simp add: board_eval find_eval numeral_eq_Suc)

lemma nordic_devices:
  "\<exists>s. iw_register_device NORDIC_BOARD at dr initial_devices = Inr s \<and>
     iw_get_sensor_devid SENSOR_TYPE_CO2 None (ds_sensors s) = Inr (IW_SUCCESS, Some 1) \<and>
     iw_get_network_devid NET_DEV_TYPE_BLE None (ds_nets s) = Inr (IW_SUCCESS, Some 1)"
  by (simp add: board_eval find_eval numeral_eq_Suc)

lemma lowpower_devices:
  "\<exists>s. iw_register_device LOWPOWER_BOARD at dr initial_devices = Inr s \<and>
     iw_get_sensor_devid SENSOR_TYPE_CO2 None (ds_sensors s) = Inr (IW_SUCCESS, Some 0)"
  by (simp add: board_eval find_eval numeral_eq_Suc)

lemma boot_main_registers:
  assumes "iw_register_device b at dr initial_devices = Inr s" "b \<noteq> DISPOSAL_IOT_BOARD"
  shows "boot_main b at dr dd (fresh_boot w) = Inr \<lparr>bt_devices = s,
    bt_events = [Init_mcu, Init_gpio, Init_console, Init_board, Init_rtc, Init_os, Start_scheduler], bt_world = w\<rparr>"
  using assms by (simp add: boot_main_def iw_init_bsp_def boot_note_def fresh_boot_def Let_def)

text \<open>The registries of a started board, for the tasks.\<close>

definition devices_of :: "'w boot \<Rightarrow> 'w board_env \<Rightarrow> 'w board_env" where
  "devices_of st env = env\<lparr>be_nets := ds_nets (bt_devices st), be_sensors := ds_sensors (bt_devices st)\<rparr>"

text \<open>
  C33. A started board serves its tasks. On the STM32 board the sensor task finds its sensor and the Wi-Fi task its
  module; on the Nordic board the sensor task finds its sensor; on the low power board the task of
  mode 2 has its sensor, so that its set-up uses no variable without a value. The start of the
  disposal board reads behind a name and never reaches its kernel.
\<close>

theorem started_board_serves_tasks:
  "(\<exists>b. boot_main STM32_BOARD at dr dd (fresh_boot w) = Inr b \<and>
     Co2ReadSensorTask (devices_of b env) fs st = co2_rounds (devices_of b env) 1 fs (co2_start, st) \<and>
     WifiTask (devices_of b env) [] st = Inr (True, wifi_note (Slept_ms 3000) wifi_start, st)) \<and>
   (\<exists>b. boot_main NORDIC_BOARD at dr dd (fresh_boot w) = Inr b \<and>
     Co2ReadSensorTask (devices_of b env) fs st = co2_rounds (devices_of b env) 1 fs (co2_start, st)) \<and>
   (\<exists>b. boot_main LOWPOWER_BOARD at dr dd (fresh_boot w) = Inr b \<and>
     (\<exists>lt. LowpowerTask 0 (devices_of b env) pins low_power w = Inr lt)) \<and>
   boot_main DISPOSAL_IOT_BOARD at dr dd (fresh_boot w) = Inl Out_of_bounds"
proof (intro conjI)
  obtain s where s: "iw_register_device STM32_BOARD at dr initial_devices = Inr s"
    "iw_get_sensor_devid SENSOR_TYPE_CO2 None (ds_sensors s) = Inr (IW_SUCCESS, Some 1)"
    "iw_get_network_devid NET_DEV_TYPE_WIFI None (ds_nets s) = Inr (IW_SUCCESS, Some 0)"
    using stm32_devices by blast
  then show "\<exists>b. boot_main STM32_BOARD at dr dd (fresh_boot w) = Inr b \<and>
     Co2ReadSensorTask (devices_of b env) fs st = co2_rounds (devices_of b env) 1 fs (co2_start, st) \<and>
     WifiTask (devices_of b env) [] st = Inr (True, wifi_note (Slept_ms 3000) wifi_start, st)"
    by (simp add: boot_main_registers devices_of_def Co2ReadSensorTask_def WifiTask_def)
next
  obtain s where "iw_register_device NORDIC_BOARD at dr initial_devices = Inr s"
    "iw_get_sensor_devid SENSOR_TYPE_CO2 None (ds_sensors s) = Inr (IW_SUCCESS, Some 1)"
    using nordic_devices by blast
  then show "\<exists>b. boot_main NORDIC_BOARD at dr dd (fresh_boot w) = Inr b \<and>
     Co2ReadSensorTask (devices_of b env) fs st = co2_rounds (devices_of b env) 1 fs (co2_start, st)"
    by (simp add: boot_main_registers devices_of_def Co2ReadSensorTask_def)
next
  obtain s where "iw_register_device LOWPOWER_BOARD at dr initial_devices = Inr s"
    "iw_get_sensor_devid SENSOR_TYPE_CO2 None (ds_sensors s) = Inr (IW_SUCCESS, Some 0)"
    using lowpower_devices by blast
  then show "\<exists>b. boot_main LOWPOWER_BOARD at dr dd (fresh_boot w) = Inr b \<and>
     (\<exists>lt. LowpowerTask 0 (devices_of b env) pins low_power w = Inr lt)"
    by (simp add: boot_main_registers devices_of_def LowpowerTask_def low_setup_def read_var_def)
next
  show "boot_main DISPOSAL_IOT_BOARD at dr dd (fresh_boot w) = Inl Out_of_bounds"
    using disposal_setup [of at dr] by (simp add: boot_main_def iw_init_bsp_def boot_note_def fresh_boot_def Let_def)
qed

end
