(* ===== verification/KernelCalls.thy ===== *)
theory KernelCalls
  imports Boot DebugPrint
begin

text \<open>
  The calls that lie between an application and the kernel, and between it and the pins, and hand
  their arguments on: \<^verbatim>\<open>oal/iw/iw_oal_*.c\<close>, \<^verbatim>\<open>iw_if_gpio.c\<close>, \<^verbatim>\<open>iw_if_adc.c\<close>, the
  rest of \<^verbatim>\<open>iw_bsp.c\<close>, and their counterparts in \<^verbatim>\<open>oal/interface/interface_oal.c\<close> and
  \<^verbatim>\<open>interface_gpio.c\<close>. The functions of the kernel and of the board support package are fields
  of a record; they act on a world \<open>'w\<close>. What a call writes through a pointer is part of its result,
  \<open>None\<close> when it writes nothing. An item of a queue is a value of \<open>'i\<close>.
\<close>

section \<open>The kernel\<close>

record ('w, 'i) kernel_calls =
  kernel_init_os :: "'w \<Rightarrow> 'w"
  kernel_name :: string
  kernel_start_scheduler :: "'w \<Rightarrow> 'w"
  kernel_yield :: "'w \<Rightarrow> 'w"
  kernel_yield_isr :: "int \<Rightarrow> 'w \<Rightarrow> 'w"
  kernel_enter_critical :: "'w \<Rightarrow> 'w"
  kernel_exit_critical :: "'w \<Rightarrow> 'w"
  kernel_create_task :: "string \<Rightarrow> nat \<Rightarrow> nat \<Rightarrow> 'w \<Rightarrow> (int \<times> nat option) \<times> 'w"
  kernel_delete_task :: "nat \<Rightarrow> 'w \<Rightarrow> 'w"
  kernel_suspend_task :: "nat \<Rightarrow> 'w \<Rightarrow> 'w"
  kernel_resume_task :: "nat \<Rightarrow> 'w \<Rightarrow> 'w"
  kernel_get_task_handle :: "'w \<Rightarrow> (iw_error_t \<times> nat option) \<times> 'w"
  kernel_get_task_free_stack :: "nat \<Rightarrow> 'w \<Rightarrow> (iw_error_t \<times> 32 word option) \<times> 'w"
  kernel_signal_task :: "nat \<Rightarrow> 32 word \<Rightarrow> 32 word \<Rightarrow> 'w \<Rightarrow> iw_error_t \<times> 'w"
  kernel_wait_signal :: "32 word \<Rightarrow> 32 word \<Rightarrow> 'w \<Rightarrow> 32 word \<times> 'w"
  kernel_create_mutex :: "'w \<Rightarrow> nat \<times> 'w"
  kernel_delete_mutex :: "nat \<Rightarrow> 'w \<Rightarrow> 'w"
  kernel_lock_mutex :: "nat \<Rightarrow> 'w \<Rightarrow> iw_error_t \<times> 'w"
  kernel_lock_mutex_ms :: "nat \<Rightarrow> 32 word \<Rightarrow> 'w \<Rightarrow> iw_error_t \<times> 'w"
  kernel_unlock_mutex :: "nat \<Rightarrow> 'w \<Rightarrow> iw_error_t \<times> 'w"
  kernel_create_sem :: "32 word \<Rightarrow> 32 word \<Rightarrow> 'w \<Rightarrow> nat \<times> 'w"
  kernel_delete_sem :: "nat \<Rightarrow> 'w \<Rightarrow> 'w"
  kernel_lock_sem :: "nat \<Rightarrow> 32 word \<Rightarrow> 'w \<Rightarrow> iw_error_t \<times> 'w"
  kernel_unlock_sem :: "nat \<Rightarrow> nat \<Rightarrow> 'w \<Rightarrow> iw_error_t \<times> 'w"
  kernel_unlock_sem_isr :: "nat \<Rightarrow> 'w \<Rightarrow> (iw_error_t \<times> 32 word option) \<times> 'w"
  kernel_create_queue :: "32 word \<Rightarrow> 32 word \<Rightarrow> 'w \<Rightarrow> nat \<times> 'w"
  kernel_delete_queue :: "nat \<Rightarrow> 'w \<Rightarrow> 'w"
  kernel_send_queue :: "nat \<Rightarrow> 'i \<Rightarrow> 32 word \<Rightarrow> nat \<Rightarrow> 'w \<Rightarrow> iw_error_t \<times> 'w"
  kernel_send_queue_isr :: "nat \<Rightarrow> 'i \<Rightarrow> 'w \<Rightarrow> (iw_error_t \<times> 32 word option) \<times> 'w"
  kernel_recv_queue :: "nat \<Rightarrow> int \<Rightarrow> 'w \<Rightarrow> (iw_error_t \<times> 'i option) \<times> 'w"
  kernel_peek_queue :: "nat \<Rightarrow> 32 word \<Rightarrow> 'w \<Rightarrow> (iw_error_t \<times> 'i option) \<times> 'w"
  kernel_reset_queue :: "nat \<Rightarrow> 'w \<Rightarrow> iw_error_t \<times> 'w"
  kernel_malloc :: "32 word \<Rightarrow> 'w \<Rightarrow> nat \<times> 'w"
  kernel_free :: "nat \<Rightarrow> 'w \<Rightarrow> 'w"
  kernel_get_tick_count :: "'w \<Rightarrow> 32 word"
  kernel_get_time_ms :: "'w \<Rightarrow> 32 word"
  kernel_sleep :: "32 word \<Rightarrow> 'w \<Rightarrow> 'w"

subsection \<open>Start and critical sections\<close>

definition iw_init_os where [simp]: "iw_init_os K w = kernel_init_os K w"

definition iw_os_name where [simp]: "iw_os_name K = kernel_name K"

definition iw_start_scheduler where [simp]: "iw_start_scheduler K w = kernel_start_scheduler K w"

definition iw_yield where [simp]: "iw_yield K w = kernel_yield K w"

definition iw_yield_isr where [simp]: "iw_yield_isr K arg w = kernel_yield_isr K arg w"

definition iw_enter_critical where [simp]: "iw_enter_critical K w = kernel_enter_critical K w"

definition iw_exit_critical where [simp]: "iw_exit_critical K w = kernel_exit_critical K w"

subsection \<open>Tasks\<close>

definition iw_delete_task where [simp]: "iw_delete_task K task w = kernel_delete_task K task w"

definition iw_suspend_task where [simp]: "iw_suspend_task K task w = kernel_suspend_task K task w"

definition iw_resume_task where [simp]: "iw_resume_task K task w = kernel_resume_task K task w"

definition iw_get_task_handle where [simp]: "iw_get_task_handle K w = kernel_get_task_handle K w"

definition iw_get_task_free_stack where [simp]: "iw_get_task_free_stack K handle w = kernel_get_task_free_stack K handle w"

definition iw_signal_task where [simp]: "iw_signal_task K task bits is_isr w = kernel_signal_task K task bits is_isr w"

definition iw_wait_signal where [simp]: "iw_wait_signal K bits_to_wait tick w = kernel_wait_signal K bits_to_wait tick w"

subsection \<open>Locks and semaphores\<close>

definition iw_delete_mutex where [simp]: "iw_delete_mutex K mutex w = kernel_delete_mutex K mutex w"

definition iw_lock_mutex where [simp]: "iw_lock_mutex K mutex w = kernel_lock_mutex K mutex w"

definition iw_lock_mutex_ms where [simp]: "iw_lock_mutex_ms K mutex ms_to_wait w = kernel_lock_mutex_ms K mutex ms_to_wait w"

definition iw_unlock_mutex where [simp]: "iw_unlock_mutex K mutex w = kernel_unlock_mutex K mutex w"

definition iw_delete_sem where [simp]: "iw_delete_sem K sem w = kernel_delete_sem K sem w"

definition iw_lock_sem where [simp]: "iw_lock_sem K sem tick w = kernel_lock_sem K sem tick w"

definition iw_unlock_sem where [simp]: "iw_unlock_sem K sem receive_task w = kernel_unlock_sem K sem receive_task w"

definition iw_unlock_sem_isr where [simp]: "iw_unlock_sem_isr K sem w = kernel_unlock_sem_isr K sem w"

subsection \<open>Queues\<close>

definition iw_create_queue where [simp]: "iw_create_queue K q_size item_size w = kernel_create_queue K q_size item_size w"

definition iw_delete_queue where [simp]: "iw_delete_queue K q w = kernel_delete_queue K q w"

definition iw_send_queue where [simp]: "iw_send_queue K q item tick receive_task w = kernel_send_queue K q item tick receive_task w"

definition iw_send_queue_isr where [simp]: "iw_send_queue_isr K q item w = kernel_send_queue_isr K q item w"

definition iw_recv_queue where [simp]: "iw_recv_queue K q block w = kernel_recv_queue K q block w"

definition iw_peek_queue where [simp]: "iw_peek_queue K q tick w = kernel_peek_queue K q tick w"

definition iw_reset_queue where [simp]: "iw_reset_queue K q w = kernel_reset_queue K q w"

subsection \<open>Memory and time\<close>

definition iw_alloc where [simp]: "iw_alloc K sz w = kernel_malloc K sz w"

definition iw_free where [simp]: "iw_free K ptr w = kernel_free K ptr w"

definition iw_get_tick_count where [simp]: "iw_get_tick_count K w = kernel_get_tick_count K w"

definition iw_sleep where [simp]: "iw_sleep K ms w = kernel_sleep K ms w"

section \<open>Pins, converter and clock of the board\<close>

record 'w board_calls =
  bsp_config_gpio :: "byte \<Rightarrow> byte \<Rightarrow> byte \<Rightarrow> byte \<Rightarrow> 32 word \<Rightarrow> byte \<Rightarrow> byte \<Rightarrow> byte \<Rightarrow> 'w \<Rightarrow> 'w"
  bsp_get_gpio :: "byte \<Rightarrow> byte \<Rightarrow> 'w \<Rightarrow> byte option \<times> 'w"
  bsp_set_gpio :: "byte \<Rightarrow> byte \<Rightarrow> byte \<Rightarrow> 'w \<Rightarrow> 'w"
  bsp_toggle_gpio :: "byte \<Rightarrow> byte \<Rightarrow> 'w \<Rightarrow> 'w"
  bsp_init_gpio :: "'w \<Rightarrow> 'w"
  bsp_init_digital :: "byte \<Rightarrow> byte \<Rightarrow> 'w \<Rightarrow> 'w"
  bsp_put_digital :: "byte \<Rightarrow> byte \<Rightarrow> 'w \<Rightarrow> 'w"
  bsp_get_digital :: "byte \<Rightarrow> 'w \<Rightarrow> byte \<times> 'w"
  bsp_toggle_digital :: "byte \<Rightarrow> 'w \<Rightarrow> 'w"
  bsp_init_analog :: "byte \<Rightarrow> byte \<Rightarrow> 'w \<Rightarrow> iw_error_t \<times> 'w"
  bsp_deinit_adc :: "byte \<Rightarrow> 'w \<Rightarrow> iw_error_t \<times> 'w"
  bsp_get_voltage :: "byte \<Rightarrow> 'w \<Rightarrow> (iw_error_t \<times> 16 word option) \<times> 'w"
  bsp_init_mcu :: "'w \<Rightarrow> 'w"
  bsp_init_board :: "'w \<Rightarrow> 'w"
  bsp_init_rtc :: "'w \<Rightarrow> bool \<times> 'w"
  bsp_set_rtc_time :: "byte list \<Rightarrow> 'w \<Rightarrow> bool \<times> 'w"
  bsp_get_rtc_time :: "'w \<Rightarrow> (bool \<times> byte list option) \<times> 'w"
  bsp_delay :: "32 word \<Rightarrow> 'w \<Rightarrow> 'w"

definition iw_config_gpio where
  [simp]: "iw_config_gpio B bank gpio dir pull speed input drive sense w =
     bsp_config_gpio B bank gpio dir pull speed input drive sense w"

definition iw_get_gpio where [simp]: "iw_get_gpio B bank gpio w = bsp_get_gpio B bank gpio w"

definition iw_set_gpio where [simp]: "iw_set_gpio B bank gpio val w = bsp_set_gpio B bank gpio val w"

definition iw_toggle_gpio where [simp]: "iw_toggle_gpio B bank gpio w = bsp_toggle_gpio B bank gpio w"

definition iw_init_gpio where [simp]: "iw_init_gpio B w = bsp_init_gpio B w"

definition iw_init_digital where [simp]: "iw_init_digital B defined_pin mode w = bsp_init_digital B defined_pin mode w"

definition iw_put_digital where [simp]: "iw_put_digital B defined_pin val w = bsp_put_digital B defined_pin val w"

definition iw_get_digital where [simp]: "iw_get_digital B defined_pin w = bsp_get_digital B defined_pin w"

definition iw_toggle_digital where [simp]: "iw_toggle_digital B defined_pin w = bsp_toggle_digital B defined_pin w"

definition iw_init_adc where [simp]: "iw_init_adc B i defined_pin w = bsp_init_analog B i defined_pin w"

definition iw_deinit_adc where [simp]: "iw_deinit_adc B i w = bsp_deinit_adc B i w"

definition iw_get_voltage where [simp]: "iw_get_voltage B i w = bsp_get_voltage B i w"

definition iw_init_mcu where [simp]: "iw_init_mcu B w = bsp_init_mcu B w"

definition iw_init_board where [simp]: "iw_init_board B w = bsp_init_board B w"

definition iw_init_rtc where [simp]: "iw_init_rtc B w = bsp_init_rtc B w"

definition iw_set_rtc_time where [simp]: "iw_set_rtc_time B dt w = bsp_set_rtc_time B dt w"

definition iw_get_rtc_time where [simp]: "iw_get_rtc_time B w = bsp_get_rtc_time B w"

section \<open>The calls of an application\<close>

definition create_task_call where
  [simp]: "create_task_call K name stack_size priority w = iw_create_task (kernel_create_task K) name stack_size priority w"

definition delete_task where [simp]: "delete_task K task w = iw_delete_task K task w"

definition exit_task where [simp]: "exit_task freertos K w = iw_exit_task freertos (kernel_sleep K) w"

definition suspend_task where [simp]: "suspend_task K task w = iw_suspend_task K task w"

definition resume_task where [simp]: "resume_task K task w = iw_resume_task K task w"

definition get_task_handle where [simp]: "get_task_handle K w = iw_get_task_handle K w"

definition get_task_free_stack where [simp]: "get_task_free_stack K handle w = iw_get_task_free_stack K handle w"

definition alloc_mem where [simp]: "alloc_mem K sz w = iw_alloc K sz w"

definition free_mem where [simp]: "free_mem K ptr w = iw_free K ptr w"

definition get_tick_count where [simp]: "get_tick_count K w = iw_get_tick_count K w"

definition get_time_ms where [simp]: "get_time_ms K tick_period_ms w = iw_get_time_ms (kernel_get_time_ms K) tick_period_ms w"

definition delay_us where [simp]: "delay_us B us w = iw_delay_us (bsp_delay B) us w"

definition delay_ms where [simp]: "delay_ms B ms w = iw_delay_ms (bsp_delay B) ms w"

definition sleep where [simp]: "sleep K ms w = iw_sleep K ms w"

definition get_rtc_time where [simp]: "get_rtc_time B w = iw_get_rtc_time B w"

definition set_rtc_time where [simp]: "set_rtc_time B dt w = iw_set_rtc_time B dt w"

definition create_queue_call where [simp]: "create_queue_call K q_size item_size w = iw_create_queue K q_size item_size w"

definition delete_queue where [simp]: "delete_queue K q w = iw_delete_queue K q w"

definition send_queue_call where
  [simp]: "send_queue_call K q item tick receive_task w = iw_send_queue K q item tick receive_task w"

definition recv_queue where [simp]: "recv_queue K q block w = iw_recv_queue K q block w"

definition create_sem where
  [simp]: "create_sem K sem max_count init_count w = iw_create_sem (kernel_create_sem K) sem max_count init_count w"

definition delete_sem where [simp]: "delete_sem K sem w = iw_delete_sem K sem w"

definition lock_sem where [simp]: "lock_sem K sem tick w = iw_lock_sem K sem tick w"

definition unlock_sem where [simp]: "unlock_sem K sem receive_task w = iw_unlock_sem K sem receive_task w"

definition create_mutex where [simp]: "create_mutex K mutex w = iw_create_mutex (kernel_create_mutex K) mutex w"

definition delete_mutex where [simp]: "delete_mutex K mutex w = iw_delete_mutex K mutex w"

definition lock_mutex where [simp]: "lock_mutex K mutex w = iw_lock_mutex K mutex w"

definition unlock_mutex where [simp]: "unlock_mutex K mutex w = iw_unlock_mutex K mutex w"

definition get_cmd_str where [simp]: "get_cmd_str cap input old = iw_get_cmd_str cap input old"

definition config_gpio where
  [simp]: "config_gpio B bank gpio dir pull speed input drive sense w =
     iw_config_gpio B bank gpio dir pull speed input drive sense w"

definition get_gpio where [simp]: "get_gpio B bank gpio w = iw_get_gpio B bank gpio w"

definition set_gpio where [simp]: "set_gpio B bank gpio val w = iw_set_gpio B bank gpio val w"

definition toggle_gpio where [simp]: "toggle_gpio B bank gpio w = iw_toggle_gpio B bank gpio w"

definition init_digital where [simp]: "init_digital B defined_pin mode w = iw_init_digital B defined_pin mode w"

definition put_digital where [simp]: "put_digital B defined_pin val w = iw_put_digital B defined_pin val w"

definition get_digital where [simp]: "get_digital B defined_pin w = iw_get_digital B defined_pin w"

definition toggle_digital where [simp]: "toggle_digital B defined_pin w = iw_toggle_digital B defined_pin w"

end
