(* ===== verification/Spec2Isabelle.thy ===== *)
theory Spec2Isabelle
  imports OalList OalFifo LwmRoundTrip CollaboIds DistProps DebugPrint NetProps SystemStatus LwmCore BaseTasks
    DeviceLife KernelCalls
begin

text \<open>
  A verification library for the IoTware firmware framework (\<^verbatim>\<open>IotwareFW/\<close>): the C
  framework that runs micro services on a small device and lets a server control them.

  \<^bold>\<open>The program.\<close> A device runs \<^emph>\<open>micro services\<close>, each a set of tasks of the
  kernel joined by queues (\<^verbatim>\<open>Microservice/SMFW\<close>). A server controls them by
  \<^emph>\<open>light weight messages\<close>, texts of the form \<^verbatim>\<open>{if=10;dri=7}{mis=[a,b]}\<close>
  (\<^verbatim>\<open>Microservice/SIFW\<close>): the receiver task parses a text and hands it to the sender, when it is
  a response, or to the request task, which creates, runs, stops and
  deletes services, switches tasks and reads parameters, and answers through the sender. Devices talk to
  each other in the binary \<^emph>\<open>collaboration messages\<close> (\<^verbatim>\<open>Microservice/DCFW\<close>). Below lies the
  abstraction layer (\<^verbatim>\<open>oal/iw\<close>): lists, ring buffers, the registries of network devices and
  sensors with their drivers, battery and system state, the console. The low
  battery service (\<^verbatim>\<open>Microservice/ROFW\<close>) watches the battery and blocks calls.

  \<^bold>\<open>Which theory models what.\<close>
  \<^item> \<open>Prelude\<close>: faults, the result type, characters, decimal numbers, loops with faults.
  \<^item> \<open>OalList\<close>, \<open>OalFifo\<close>: \<^verbatim>\<open>iw_oal_list.c\<close> on a heap of nodes, and \<^verbatim>\<open>iw_oal_fifo.c\<close> with its
    copy loop. Both refine abstract contracts (\<open>node_list\<close>, \<open>bounded_queue\<close>).
  \<^item> \<open>LwmTypes\<close>, \<open>LwmSerialize\<close>, \<open>LwmParse\<close>, \<open>LwmRoundTrip\<close>: \<^verbatim>\<open>iw_fw_lwMsgUtils.[ch]\<close>. Objects are
    the datatype \<open>lwm_object\<close>, dictionaries a keyed store (\<open>keyed_store\<close>), the pointer of
    the parser is the rest of the text.
  \<^item> \<open>CollaboMsg\<close>, \<open>CollaboIds\<close>: \<^verbatim>\<open>iw_fw_collabomsg_internal.[ch]\<close> and the messages
    \<^verbatim>\<open>iw_fw_msg_id_x00\<close> to \<^verbatim>\<open>x18\<close>, each serializer and parser on its own. The contract \<open>wire_format\<close> is
    what a round trip needs.
  \<^item> \<open>ServiceTypes\<close>, \<open>TaskLinks\<close>, \<open>Microservice\<close>, \<open>ServiceRegistry\<close>: \<^verbatim>\<open>iw_fw_microservices.[ch]\<close>: data and parameters;
    connect lines and the decision tree of task links; the life of a service and its tasks; the list of services and the messages about
    the device. \<open>ServiceLife\<close> and \<open>ServiceTyping\<close> state the life as the step relation \<open>service_step\<close> with invariants;
    what an application has to respect is \<open>application\<close> and \<open>typed_application\<close>.
  \<^item> \<open>ServiceHost\<close>: all services of a device on one kernel under the request task, as the step relation \<open>registry_step\<close>; what their
    applications have to respect there is \<open>hosted_application\<close>. \<open>ServiceMacros\<close>: the macros of \<^verbatim>\<open>iw_fw_microservices.h\<close> in which a
    service is written, as the datatypes \<open>service_macro\<close> and \<open>task_macro\<close> and what they do.
  \<^item> \<open>BaseTasks\<close>: \<^verbatim>\<open>base_task_type1.c\<close> to \<^verbatim>\<open>base_task_type4.c\<close>, the functions that run as tasks.
  \<^item> \<open>LwmDist\<close>, \<open>DistProps\<close>: \<^verbatim>\<open>task_lwmsg_dist.c\<close>, one round of the request task.
  \<^item> \<open>LwmCore\<close>: \<^verbatim>\<open>iw_fw_lwMsgCore.c\<close>, one round of the receiver and of the sender with its
    retransmissions, the queue handles of \<^verbatim>\<open>iw_fw_lwMsgUtils.c\<close>, and \<^verbatim>\<open>start_apps\<close>.
  \<^item> \<open>Session\<close>: the rounds of receiver, request task and sender interleaved, as the step relation \<open>device_step\<close>.
  \<^item> \<open>Registration\<close>: the way from \<^verbatim>\<open>start_apps\<close> to a registered device. \<open>DeviceLife\<close>: the services and the kernel under all rounds from
    \<^verbatim>\<open>start_apps\<close> on.
  \<^item> \<open>Devices\<close>, \<open>Networks\<close>, \<open>Sensors\<close>, \<open>NetSettings\<close>, \<open>NetProps\<close>: \<^verbatim>\<open>iw_dev_net.c\<close>, \<^verbatim>\<open>iw_dev_sensor.c\<close> and the
    bus tables of \<^verbatim>\<open>iw_bsp.c\<close>. Both registries are a \<open>device_directory\<close>.
  \<^item> \<open>SystemStatus\<close>: \<^verbatim>\<open>iw_dev_led.c\<close>, \<^verbatim>\<open>iw_dev_batt.c\<close>, \<^verbatim>\<open>iw_sys.c\<close>, \<^verbatim>\<open>iw_dev.c\<close>, \<^verbatim>\<open>ROFW/service.c\<close>
    and the two calls of \<^verbatim>\<open>interface_net.c\<close> and \<^verbatim>\<open>interface_sensor.c\<close> it blocks.
  \<^item> \<open>DebugPrint\<close>: \<^verbatim>\<open>iw_debug.c\<close>, the number printers, the format interpreter and the number reader.
  \<^item> \<open>Interface\<close>: \<^verbatim>\<open>App/interface_*.[ch]\<close>, the calls an application makes and what each reaches.
  \<^item> \<open>PowerApps\<close>: \<^verbatim>\<open>WifiTask\<close> and \<^verbatim>\<open>Co2ReadSensorTask\<close> of \<^verbatim>\<open>start_apps.c\<close>, the programs that save power in its mode 2, as
    machines with one step per round. Both are a \<open>duty_cycle\<close>: a sleep after so many rounds.
  \<^item> \<open>TestApps\<close>: the other tasks of \<^verbatim>\<open>start_apps.c\<close>, of the modes 1 and 2, and the low power task.
  \<^item> \<open>KernelCalls\<close>: the calls of \<^verbatim>\<open>iw_oal_*.c\<close>, \<^verbatim>\<open>iw_if_gpio.c\<close>, \<^verbatim>\<open>iw_if_adc.c\<close>, \<^verbatim>\<open>interface_oal.c\<close> and \<^verbatim>\<open>interface_gpio.c\<close> that
    hand their arguments to the kernel and to the board, which are the records \<open>kernel_calls\<close> and \<open>board_calls\<close>.
  \<^item> \<open>Boot\<close>: \<^verbatim>\<open>iw_main.c\<close>, \<^verbatim>\<open>iw_bsp.c\<close> and the calls of \<^verbatim>\<open>iw_oal_*.c\<close> that do more than pass their
    arguments on: delays, clock, leaving a task, and the way from the start to the running tasks.

  \<^bold>\<open>How code becomes definitions.\<close> A function of the source is a definition of the same name where
  HOL does not use it already. A struct is a record, an enum a datatype, state is passed along, an
  output parameter is a result. What C leaves undefined is a value
  of the type \<open>fault\<close>: reading through NULL, past the end of an object, or from memory never written, a signed overflow.
  A result of type \<open>'a res\<close> is such a fault or a value, so a theorem that a call returns \<open>Inr\<close>
  says it is defined. Integers have the width of the source where it matters: positions of a ring buffer and counters are words, and
  the number of nodes of a list is taken modulo 256. Allocation succeeds, except in the collaboration messages, where it is an argument.
  \<^verbatim>\<open>iw_add_list_node\<close> and \<^verbatim>\<open>iw_remove_list_node\<close> store through NULL when the node has no next one. Whether that faults depends on the memory at
  address 0 of the board. \<open>OalList\<close> counts these stores; in \<open>LwmParse\<close> and \<open>ServiceMacros\<close> what they do is an argument, \<open>trap\<close>;
  everywhere else, and where \<open>trap\<close> is \<open>False\<close>, they pass without effect. A theorem that a call returns \<open>Inr\<close> is to be read with this in mind.

  \<^bold>\<open>Loops.\<close> The parser runs on fuel of four times the length of its text, and \<open>parse_total\<close> shows that it never runs out. The
  retransmission of a registration and the series of a task of type 4 may go on forever: they take fuel as an argument,
  and \<open>sender_retransmits\<close> and \<open>series_ends\<close> say when how much is enough and when none is. Loops of the form
  \<^verbatim>\<open>while (loop_condition == FALSE)\<close> are \<open>while_option\<close>, so that an endless loop is \<open>None\<close>. All other recursions end, by
  structure or by a measure.

  \<^bold>\<open>What is shown.\<close> Messages: a well formed message survives being written and read, reading ends on every text, within it or with a step past its end, or at the first store through NULL where that traps; the round trip for
  every kind of collaboration message. Services: reachable services hold exactly the kernel objects they created and stay well typed, the
  state machine of a service, the choice made by the task links, what running a service and switching a task ask of the kernel. Server: every control request is answered once; a read is carried out, and then never freed, exactly when the service runs and knows what is asked for; setting parameters never succeeds; what makes
  the tasks stop. Tasks and sender: every task body ends at once, a request is repeated as described, the registration of a
  device. Abstraction layer: lists and buffers refine their abstractions; a device is found under its name after the registration, and the sixth is refused; the connection is
  established when the driver does its part; the levels of the battery. Applications: the rounds after which a task sleeps, that the
  Wi-Fi program sends ten messages and ends, that its sleep mode is entered at most once, how often the low power task reads its sensor, and which blocked
  calls pass for done. Start: the started board serves its tasks, and how delays and the clock wrap. Across components:
  \<open>request_text_answered\<close> follows a text from the network to its answer on the network, and \<open>session_answers\<close> states it for all
  three tasks in any order of their rounds, with the laws of the kernel's queues (\<open>kernel_queues\<close>) as a hypothesis.
  \<open>registration_completes\<close> follows a device from the start of its applications to its registration, with a server that answers in time
  (\<open>prompt_server\<close>) as a hypothesis. \<open>requests_are_service_steps\<close> shows that the request task does to the services what the requests name (\<open>named_ops\<close>) and nothing else, and
  \<open>device_loses_nothing\<close> says what the kernel holds after any rounds of all three tasks; \<open>written_services_keep_contract\<close> shows
  what a service written in the macros gets when it is created, and that the services hold on to what they create as these theorems ask. Where the code does not do what it means to, the theorem states what it does.

  \<^bold>\<open>Parameters.\<close> The kernel, the board support package, the drivers and the functions of
  the applications are not in the repository. They are arguments: handles and queues, driver tables, the converter of the battery, \<open>create\<close> and
  \<open>init\<close> of an application. The size table \<^verbatim>\<open>_get_size_of_type\<close> is declared and nowhere defined, and is an argument too.

  \<^bold>\<open>Not modelled.\<close> The code between \<^verbatim>\<open>#if 0\<close> and \<^verbatim>\<open>#endif\<close>, which is
  never built, with the two test programs of \<^verbatim>\<open>iw_main.c\<close> and the old printer of \<^verbatim>\<open>iw_debug.c\<close>; prototypes, include lines
  and macros that only rename a function; the text of diagnostic output;
  drivers, the generated \<^verbatim>\<open>ms_generator.h\<close> and the files of the build; the scheduling of tasks within a round.
\<close>

section \<open>From the network to the services\<close>

text \<open>
  C20. Two texts a server can send stop the request task: a message whose \<^verbatim>\<open>if\<close> is not
  a plain text, and a request to run a service that is running already. Both make it read
  through a NULL pointer, whatever the state of the rest.
\<close>

theorem hostile_requests_fault:
  assumes "parse_lwm_message_str (Some s) = Inr (Some m)" "node_num (header m) \<noteq> 0"
    and "dict_lookup (header m) ''if'' = Some v" "dict_lookup (header m) ''dri'' = Some w"
  shows "(get_lwm_string_value (Some v) = None \<longrightarrow>
      lwmsg_dist_step create init addr (Some m) st = Inl Null_deref) \<and>
    (get_lwm_string_value (Some v) = Some ''11'' \<longrightarrow> body_array ''mis'' m = Some [x] \<longrightarrow>
      find_service x st = Some ms \<longrightarrow> ms_state ms = RUNNING \<longrightarrow>
      lwmsg_dist_step create init addr (Some m) st = Inl Null_deref)"
  using assms
  by (simp add: lwmsg_dist_step_def dispatch_def lwmsg_operation_def operation_step_def ms_operation_def
      run_micro_service_def)

lemma hostile_requests_fault_witness:
  "\<exists>m. parse_lwm_message_str (Some ''{if=[1];dri=7}'') = Inr (Some m) \<and>
     lwmsg_dist_step (\<lambda>ms k. (ms, k)) example_init (\<lambda>_. 0) (Some m) example_dist = Inl Null_deref"
proof -
  let ?m = "\<lparr>header = [(''dri'', LWM_String (Some ''7'')), (''if'', LWM_Array [LWM_String (Some ''1'')])], body = []\<rparr>"
  let ?h = "[(''if'', LWM_Array [LWM_String (Some ''1'')]), (''dri'', LWM_String (Some ''7''))]"
  have "dict_ok ?h"
    by (simp add: dict_ok_def key_ok_def starts_word_def clear_of_def text_ok_def value_ok_def item_ok_def
        printable_def ctype_defs)
  from parse_header_only [OF this]
  have p: "parse_lwm_message_str (Some ''{if=[1];dri=7}'') = Inr (Some ?m)"
    by (simp add: norm_dict_def dict_str_def entry_text_def text_of_def join_item_def bracket_def kvo_text_def)
  have "lwmsg_dist_step (\<lambda>ms k. (ms, k)) example_init (\<lambda>_. 0) (Some ?m) example_dist = Inl Null_deref"
    using hostile_requests_fault [OF p] by (simp add: node_num_def get_lwm_string_value_def)
  with p show ?thesis by blast
qed

text \<open>
  C5. From the network to the network. A text with a control request is put into the queue of
  the request task when the device is registered, and is dropped before. The request
  task answers it with one response, and the sender writes this response as
  \<^verbatim>\<open>{rsc=...;dri=...}\<close> with the number of the request; request, response and text are freed.
\<close>

theorem request_text_answered:
  assumes frame: "recv_text env (xNetworkRx c) (core_world c) = (Some bs, w)" "c_string_at bs = Inr s"
      "parse_lwm_message_str (Some s) = Inr (Some m)"
    and req: "request i dri m" "dict_lookup (header m) ''rsc'' = None" "atoi i \<in> control_ids"
    and queue: "send_msg env (lwmsg_receive_queue c) m (lwmsg_receive_task c) w = (IW_SUCCESS, w1)"
    and work: "lwmsg_dist_step create init addr (Some m) st = Inr st'"
  shows "(\<exists>c'. iw_fw_lwMsgRx env c = Inr c' \<and>
      (if get_device_is_registered (core_registry c)
       then core_world c' = w1 \<and> core_events c' = core_events c @ [Slept 10]
       else core_world c' = w \<and> core_events c' = core_events c @ [Freed m, Slept 10])) \<and>
    (\<exists>rsc \<in> {200, 400, 404}. \<exists>r. d_events st' = d_events st @ [Respond r, Free_message m] \<and>
      (\<forall>c2 w2 e w3. get_lwmsg_network_enabled (core_lwm c2) \<longrightarrow>
        recv_msg env (lwmsg_send_queue c2) True (core_world c2) = (Some (Some r), w2) \<longrightarrow>
        send_text env (xNetworkTx c2) (answer_text rsc dri) (xNetworkTxTask c2) w2 = (e, w3) \<longrightarrow>
        (\<exists>c3. iw_fw_lwMsgTx env create n c2 = Inr c3 \<and> core_world c3 = w3 \<and>
          core_events c3 = core_events c2 @ (if e = IW_SUCCESS then [Transmitted (answer_text rsc dri)] else []) @
            [Freed_text (answer_text rsc dri), Freed r, Slept 10])))"
proof
  have "iw_fw_lwMsgRx env c = Inr (log_event (Slept 10) (route_message env m (c\<lparr>core_world := w\<rparr>)))"
    using frame by (simp add: iw_fw_lwMsgRx_def)
  moreover have "route_message env m (c\<lparr>core_world := w\<rparr>) =
      (if get_device_is_registered (core_registry c) then c\<lparr>core_world := w1\<rparr>
       else log_event (Freed m) (c\<lparr>core_world := w\<rparr>))"
    using req queue by (simp add: route_message_def request_def send_queue_def Let_def)
  ultimately show "\<exists>c'. iw_fw_lwMsgRx env c = Inr c' \<and>
      (if get_device_is_registered (core_registry c)
       then core_world c' = w1 \<and> core_events c' = core_events c @ [Slept 10]
       else core_world c' = w \<and> core_events c' = core_events c @ [Freed m, Slept 10])"
    by (simp add: log_event_def)
next
  obtain rsc where rsc: "rsc \<in> {200, 400, 404}"
      "d_events st' = d_events st @ [Respond (new_lwm_resp_message (Some dri) (of_nat rsc)), Free_message m]"
    using control_answer [OF req(1,3) work] by blast
  then have r: "rsc < 1000000" "rsc \<noteq> 0" by auto
  have "\<exists>c3. iw_fw_lwMsgTx env create n c2 = Inr c3 \<and> core_world c3 = w3 \<and>
      core_events c3 = core_events c2 @ (if e = IW_SUCCESS then [Transmitted (answer_text rsc dri)] else []) @
        [Freed_text (answer_text rsc dri), Freed (new_lwm_resp_message (Some dri) (of_nat rsc)), Slept 10]"
    if "get_lwmsg_network_enabled (core_lwm c2)"
      "recv_msg env (lwmsg_send_queue c2) True (core_world c2) = (Some (Some (new_lwm_resp_message (Some dri) (of_nat rsc))), w2)"
      "send_text env (xNetworkTx c2) (answer_text rsc dri) (xNetworkTxTask c2) w2 = (e, w3)" for c2 w2 e w3
    by (simp add: sender_answers [OF r that])
  with rsc
  show "\<exists>rsc \<in> {200, 400, 404}. \<exists>r. d_events st' = d_events st @ [Respond r, Free_message m] \<and>
      (\<forall>c2 w2 e w3. get_lwmsg_network_enabled (core_lwm c2) \<longrightarrow>
        recv_msg env (lwmsg_send_queue c2) True (core_world c2) = (Some (Some r), w2) \<longrightarrow>
        send_text env (xNetworkTx c2) (answer_text rsc dri) (xNetworkTxTask c2) w2 = (e, w3) \<longrightarrow>
        (\<exists>c3. iw_fw_lwMsgTx env create n c2 = Inr c3 \<and> core_world c3 = w3 \<and>
          core_events c3 = core_events c2 @ (if e = IW_SUCCESS then [Transmitted (answer_text rsc dri)] else []) @
            [Freed_text (answer_text rsc dri), Freed r, Slept 10]))"
    by (intro bexI [OF _ rsc(1)] exI [of _ "new_lwm_resp_message (Some dri) (of_nat rsc)"]) blast
qed

definition reply_line :: "nat core_env" where
  "reply_line = example_net\<lparr>recv_text := \<lambda>_ w. (Some example_frame, Suc w),
     recv_msg := \<lambda>_ _ w. (Some (Some (new_lwm_resp_message (Some ''7'') 400)), w)\<rparr>"

lemma request_text_answered_witness:
  "\<exists>c m. \<exists>st :: dist_state. iw_fw_lwMsgRx reply_line (online 0) = Inr c \<and> core_events c = [Slept 10] \<and>
     (\<exists>r. d_events st = [Respond r, Free_message m])"
proof -
  let ?m = example_stop and ?c = "online (0 :: nat)"
  note bs = example_frame_parsed(1) and p = example_frame_parsed(2) and w = example_stop_answered [of example_dist]
  have "recv_text reply_line (xNetworkRx ?c) (core_world ?c) = (Some example_frame, 1)"
    by (simp add: reply_line_def online_def example_core_def)
  moreover have "send_msg reply_line (lwmsg_receive_queue ?c) ?m (lwmsg_receive_task ?c) 1 = (IW_SUCCESS, 1)"
    by (simp add: reply_line_def example_net_def)
  ultimately have "(\<exists>c'. iw_fw_lwMsgRx reply_line ?c = Inr c' \<and>
      (if get_device_is_registered (core_registry ?c)
       then core_world c' = 1 \<and> core_events c' = core_events ?c @ [Slept 10]
       else core_world c' = 1 \<and> core_events c' = core_events ?c @ [Freed ?m, Slept 10]))"
    using request_text_answered [OF _ bs p example_stop_request(1,3,2) _ w, of reply_line ?c 1 1]
    by blast
  moreover have "get_device_is_registered (core_registry ?c)" "core_events ?c = []"
    by (simp_all add: online_def get_device_is_registered_def example_core_def)
  ultimately obtain c' where c': "iw_fw_lwMsgRx reply_line ?c = Inr c'" "core_events c' = [Slept 10]"
    by auto
  have d: "d_events (emit (Free_message ?m) (emit (Respond (new_lwm_resp_message (Some ''7'') 400)) example_dist)) =
      [Respond (new_lwm_resp_message (Some ''7'') 400), Free_message ?m]"
    by (simp add: emit_def example_dist_def)
  show ?thesis
    by (rule exI [of _ c'], rule exI [of _ ?m],
        rule exI [of _ "emit (Free_message ?m) (emit (Respond (new_lwm_resp_message (Some ''7'') 400)) example_dist)"])
      (use c' d in blast)
qed

end
